(* ===== verification/Manager_Prelude.thy ===== *)
theory Manager_Prelude
  imports Main "HOL-Library.Char_ord" "HOL-Library.List_Lexorder" "HOL-Library.Sublist"
begin

text \<open>
  What every component of the Manager's model shares: JavaScript strings as byte lists, JSON values
  and their text, the glyphs of the run log, the errors of \<^verbatim>\<open>server/kernel/errors.ts\<close> as values, and
  the list lemmas about finding, updating and sorting table rows.
\<close>

section \<open>Named collections\<close>

named_theorems db_simps \<open>how the operations read and write the tables\<close>
named_theorems frame_simps \<open>what an operation leaves alone\<close>

section \<open>Strings\<close>

text \<open>A JavaScript string is the list of its UTF-8 bytes. Glyphs outside ASCII are byte triples.\<close>

definition bullet :: string where "bullet = [CHR 0xE2, CHR 0x80, CHR 0xA2]"
definition em_dash :: string where "em_dash = [CHR 0xE2, CHR 0x80, CHR 0x94]"
definition ellipsis :: string where "ellipsis = [CHR 0xE2, CHR 0x80, CHR 0xA6]"
definition mid_dot :: string where "mid_dot = [CHR 0xC2, CHR 0xB7]"
definition g_check :: string where "g_check = [CHR 0xE2, CHR 0x9C, CHR 0x93]"
definition g_fail :: string where "g_fail = [CHR 0xE2, CHR 0x9C, CHR 0x97]"
definition g_cancel :: string where "g_cancel = [CHR 0xE2, CHR 0x9C, CHR 0x95]"
definition g_play :: string where "g_play = [CHR 0xE2, CHR 0x96, CHR 0xB6]"
definition g_pause :: string where "g_pause = [CHR 0xE2, CHR 0x8F, CHR 0xB8]"
definition g_wait :: string where "g_wait = [CHR 0xE2, CHR 0x8F, CHR 0xB3]"
definition g_skip :: string where "g_skip = [CHR 0xE2, CHR 0x8F, CHR 0xAD]"
definition g_warn :: string where "g_warn = [CHR 0xE2, CHR 0x96, CHR 0xB3]"
definition g_arrow :: string where "g_arrow = [CHR 0xE2, CHR 0x86, CHR 0x92]"

definition newline :: char where "newline = CHR 0x0A"

text \<open>\<^verbatim>\<open>xs.join(sep)\<close>.\<close>

fun join :: "string \<Rightarrow> string list \<Rightarrow> string" where
  "join sep [] = []"
| "join sep [x] = x"
| "join sep (x # y # zs) = x @ sep @ join sep (y # zs)"

text \<open>\<^verbatim>\<open>text.split(c)\<close> for a one-character separator.\<close>

fun split_char :: "char \<Rightarrow> string \<Rightarrow> string list" where
  "split_char c [] = [[]]"
| "split_char c (x # xs) =
     (if x = c then [] # split_char c xs
      else (case split_char c xs of [] \<Rightarrow> [[x]] | w # ws \<Rightarrow> (x # w) # ws))"

definition startsWith :: "string \<Rightarrow> string \<Rightarrow> bool" where
  "startsWith s p = prefix p s"

lemma startsWith_code [code]: "startsWith s p = (take (length p) s = p)"
  by (simp add: startsWith_def) (metis append_eq_conv_conj prefix_def take_is_prefix)

text \<open>\<^verbatim>\<open>s.trim()\<close> on ASCII white space.\<close>

definition is_space :: "char \<Rightarrow> bool" where
  "is_space c = (c \<in> {CHR '' '', CHR 0x09, CHR 0x0A, CHR 0x0B, CHR 0x0C, CHR 0x0D})"

definition trim :: "string \<Rightarrow> string" where
  "trim s = rev (dropWhile is_space (rev (dropWhile is_space s)))"

text \<open>The decimal text of a number, \<^verbatim>\<open>String(n)\<close>.\<close>

fun show_nat :: "nat \<Rightarrow> string" where
  "show_nat n = (if n < 10 then [char_of (48 + n)] else show_nat (n div 10) @ [char_of (48 + n mod 10)])"

declare show_nat.simps [simp del]

definition show_int :: "int \<Rightarrow> string" where
  "show_int i = (if i < 0 then CHR ''-'' # show_nat (nat (- i)) else show_nat (nat i))"

section \<open>JSON\<close>

text \<open>
  Parameters, checkpoints and audit details are JSON. Numbers are integers: no code modelled here
  writes another kind.
\<close>

datatype json = JNull | JBool bool | JNum int | JStr string | JArr "json list" | JObj "(string \<times> json) list"

text \<open>\<^verbatim>\<open>JSON.stringify\<close>: quotes, backslashes and control characters are escaped.\<close>

definition hex_digit :: "nat \<Rightarrow> char" where
  "hex_digit n = char_of (if n < 10 then 48 + n else 87 + n)"

definition json_escape_char :: "char \<Rightarrow> string" where
  "json_escape_char c =
     (if c = CHR 0x22 then [CHR 0x5C, CHR 0x22]
      else if c = CHR 0x5C then [CHR 0x5C, CHR 0x5C]
      else if c = CHR 0x0A then [CHR 0x5C, CHR ''n'']
      else if c = CHR 0x0D then [CHR 0x5C, CHR ''r'']
      else if c = CHR 0x09 then [CHR 0x5C, CHR ''t'']
      else if c = CHR 0x08 then [CHR 0x5C, CHR ''b'']
      else if c = CHR 0x0C then [CHR 0x5C, CHR ''f'']
      else if (of_char c :: nat) < 32 then
        [CHR 0x5C] @ ''u00'' @ [hex_digit (of_char c div 16), hex_digit (of_char c mod 16)]
      else [c])"

definition json_quote :: "string \<Rightarrow> string" where
  "json_quote s = CHR 0x22 # concat (map json_escape_char s) @ [CHR 0x22]"

fun json_stringify :: "json \<Rightarrow> string" where
  "json_stringify JNull = ''null''"
| "json_stringify (JBool b) = (if b then ''true'' else ''false'')"
| "json_stringify (JNum i) = show_int i"
| "json_stringify (JStr s) = json_quote s"
| "json_stringify (JArr xs) = ''['' @ join '','' (map json_stringify xs) @ '']''"
| "json_stringify (JObj kvs) =
     ''{'' @ join '','' (map (\<lambda>(k, v). json_quote k @ '':'' @ json_stringify v) kvs) @ ''}''"

section \<open>Errors\<close>

text \<open>
  \<^verbatim>\<open>server/kernel/errors.ts\<close>: one error type with a code and an HTTP status. A thrown value that is no
  \<^verbatim>\<open>AppError\<close> is a JavaScript error with a name and a message (a hook's, a schema's, the database's), or
  any other value, of which only its text is read.
\<close>

datatype app_error =
    Validation string
  | NotAMember string
  | NotFound string
  | CsrfRefused
  | IllegalTransition string
  | ResourceBusy string string string string
  | UndeclaredTarget string
  | MissingRunSecret string
  | IdpUnreachable
  | NotConfigured string
  | Upstream string
  | RunnerBusy
  | SandboxDegraded string
  | GateIncomplete string
  | Internal string

datatype thrown = App app_error | JsError string string | JsValue string

fun err_code :: "app_error \<Rightarrow> string" where
  "err_code (Validation _) = ''VALIDATION''"
| "err_code (NotAMember _) = ''NOT_A_MEMBER''"
| "err_code (NotFound _) = ''NOT_FOUND''"
| "err_code CsrfRefused = ''CSRF_REFUSED''"
| "err_code (IllegalTransition _) = ''ILLEGAL_TRANSITION''"
| "err_code (ResourceBusy _ _ _ _) = ''RESOURCE_BUSY''"
| "err_code (UndeclaredTarget _) = ''UNDECLARED_TARGET''"
| "err_code (MissingRunSecret _) = ''MISSING_RUN_SECRET''"
| "err_code IdpUnreachable = ''IDP_UNREACHABLE''"
| "err_code (NotConfigured _) = ''NOT_CONFIGURED''"
| "err_code (Upstream _) = ''UPSTREAM''"
| "err_code RunnerBusy = ''RUNNER_BUSY''"
| "err_code (SandboxDegraded _) = ''SANDBOX_DEGRADED''"
| "err_code (GateIncomplete _) = ''GATE_INCOMPLETE''"
| "err_code (Internal _) = ''INTERNAL''"

fun err_http :: "app_error \<Rightarrow> nat" where
  "err_http (Validation _) = 400"
| "err_http (NotAMember _) = 403"
| "err_http (NotFound _) = 404"
| "err_http CsrfRefused = 403"
| "err_http (IllegalTransition _) = 409"
| "err_http (ResourceBusy _ _ _ _) = 409"
| "err_http (UndeclaredTarget _) = 500"
| "err_http (MissingRunSecret _) = 400"
| "err_http IdpUnreachable = 503"
| "err_http (NotConfigured _) = 501"
| "err_http (Upstream _) = 502"
| "err_http RunnerBusy = 409"
| "err_http (SandboxDegraded _) = 503"
| "err_http (GateIncomplete _) = 502"
| "err_http (Internal _) = 500"

fun err_message :: "app_error \<Rightarrow> string" where
  "err_message (Validation m) = m"
| "err_message (NotAMember m) = m"
| "err_message (NotFound m) = m"
| "err_message CsrfRefused = ''Cross-origin request refused''"
| "err_message (IllegalTransition m) = m"
| "err_message (ResourceBusy m _ _ _) = m"
| "err_message (UndeclaredTarget s) = ''Step reached an undeclared target: '' @ s"
| "err_message (MissingRunSecret n) =
     ''The one-time secret '' @ [CHR 0x22] @ n @ [CHR 0x22] @ '' is not available '' @ em_dash @
     '' it is never stored, so re-enter it and retry this step (or discard the run).''"
| "err_message IdpUnreachable = ''The identity provider is unreachable''"
| "err_message (NotConfigured m) = m"
| "err_message (Upstream m) = m"
| "err_message RunnerBusy = ''The validation sandbox is busy with another job '' @ em_dash @ '' try again in a moment''"
| "err_message (SandboxDegraded m) = m"
| "err_message (GateIncomplete m) = m"
| "err_message (Internal m) = m"

text \<open>\<^verbatim>\<open>err instanceof Error ? err.message : String(err)\<close> and \<^verbatim>\<open>err.name === "AbortError"\<close>.\<close>

fun thrown_message :: "thrown \<Rightarrow> string" where
  "thrown_message (App e) = err_message e"
| "thrown_message (JsError _ m) = m"
| "thrown_message (JsValue s) = s"

fun is_abort_error :: "thrown \<Rightarrow> bool" where
  "is_abort_error (JsError n _) = (n = ''AbortError'')"
| "is_abort_error _ = False"

definition sqlite_constraint :: "string \<Rightarrow> thrown" where
  "sqlite_constraint what = JsError ''SqliteError'' (''UNIQUE constraint failed: '' @ what)"

definition type_error :: thrown where
  "type_error = JsError ''TypeError'' ''Cannot read properties of null''"

section \<open>Lists as tables\<close>

text \<open>\<^verbatim>\<open>find\<close> on an array, or \<^verbatim>\<open>.get()\<close> on a query: the first row that matches.\<close>

definition update_where :: "('a \<Rightarrow> bool) \<Rightarrow> ('a \<Rightarrow> 'a) \<Rightarrow> 'a list \<Rightarrow> 'a list" where
  "update_where P f = map (\<lambda>x. if P x then f x else x)"

definition opt_default :: "'a \<Rightarrow> 'a option \<Rightarrow> 'a" where
  "opt_default d x = (case x of None \<Rightarrow> d | Some y \<Rightarrow> y)"

lemma opt_default_simps [simp]: "opt_default d None = d" "opt_default d (Some y) = y"
  by (simp_all add: opt_default_def)

lemma update_where_Nil [simp]: "update_where P f [] = []"
  by (simp add: update_where_def)

lemma update_where_Cons [simp]:
  "update_where P f (x # xs) = (if P x then f x else x) # update_where P f xs"
  by (simp add: update_where_def)

lemma length_update_where [simp]: "length (update_where P f xs) = length xs"
  by (simp add: update_where_def)

lemma update_where_append [simp]:
  "update_where P f (xs @ ys) = update_where P f xs @ update_where P f ys"
  by (simp add: update_where_def)

lemma map_update_where_id:
  "(\<And>x. P x \<Longrightarrow> g (f x) = g x) \<Longrightarrow> map g (update_where P f xs) = map g xs"
  by (simp add: update_where_def comp_def)

lemma set_update_where: "set (update_where P f xs) = (\<lambda>x. if P x then f x else x) ` set xs"
  by (simp add: update_where_def)

lemma update_where_none: "\<forall>x\<in>set xs. \<not> P x \<Longrightarrow> update_where P f xs = xs"
  by (induction xs) auto

lemma find_Some_in: "List.find P xs = Some x \<Longrightarrow> x \<in> set xs \<and> P x"
  by (induction xs) (auto split: if_splits)

lemma find_None_all: "List.find P xs = None \<longleftrightarrow> (\<forall>x\<in>set xs. \<not> P x)"
  by (induction xs) auto

lemma find_update_where_key:
  "(\<And>x. Q (f x) = Q x) \<Longrightarrow>
   List.find Q (update_where P f xs) = map_option (\<lambda>x. if P x then f x else x) (List.find Q xs)"
  by (induction xs) auto

lemma find_distinct_key:
  "distinct (map k xs) \<Longrightarrow> x \<in> set xs \<Longrightarrow> List.find (\<lambda>y. k y = k x) xs = Some x"
  by (induction xs) (auto simp: image_iff)

lemma filter_update_where_neg:
  "(\<And>x. P x \<Longrightarrow> Q x \<Longrightarrow> \<not> Q (f x)) \<Longrightarrow> (\<And>x. P x \<Longrightarrow> \<not> Q x \<Longrightarrow> \<not> Q (f x)) \<Longrightarrow>
   filter Q (update_where P f xs) = filter (\<lambda>x. Q x \<and> \<not> P x) xs"
  by (induction xs) auto

lemma find_map_of: "map_option snd (List.find (\<lambda>p. fst p = k) kvs) = map_of kvs k"
  by (induction kvs) auto

end
