(* ===== verification/Run_Types.thy ===== *)
theory Run_Types
  imports Manager_Prelude
begin

text \<open>
  The vocabulary of runs: the statuses of runs and steps with their transition tables
  (\<^verbatim>\<open>executor/transitions.ts\<close>), plans, targets and lock claims (\<^verbatim>\<open>executor/types.ts\<close>), the targets a plan
  declares (\<^verbatim>\<open>executor/run-targets.ts\<close>), the address an SSH session opens on (\<^verbatim>\<open>executor/transport.ts\<close>)
  and the findings a step's probe answers (\<^verbatim>\<open>executor/probe.ts\<close>).

  The locale \<open>transition_table\<close> is the interface of a status machine given as a successor table; both
  tables interpret it.
\<close>

section \<open>Statuses\<close>

datatype run_status = RPlanning | RPlanned | RQueued | RApproved | RRunning | RSucceeded | RFailed | RCancelled

datatype step_status = SPending | SRunning | SOk | SFailed | SSkipped

datatype output_stream = Stdout | Stderr | Meta | Ephemeral

fun show_run_status :: "run_status \<Rightarrow> string" where
  "show_run_status RPlanning = ''planning''"
| "show_run_status RPlanned = ''planned''"
| "show_run_status RQueued = ''queued''"
| "show_run_status RApproved = ''approved''"
| "show_run_status RRunning = ''running''"
| "show_run_status RSucceeded = ''succeeded''"
| "show_run_status RFailed = ''failed''"
| "show_run_status RCancelled = ''cancelled''"

fun show_step_status :: "step_status \<Rightarrow> string" where
  "show_step_status SPending = ''pending''"
| "show_step_status SRunning = ''running''"
| "show_step_status SOk = ''ok''"
| "show_step_status SFailed = ''failed''"
| "show_step_status SSkipped = ''skipped''"

section \<open>The transition tables\<close>

fun run_transitions :: "run_status \<Rightarrow> run_status list" where
  "run_transitions RPlanning = [RPlanned, RFailed, RCancelled]"
| "run_transitions RPlanned = [RQueued, RCancelled]"
| "run_transitions RQueued = [RApproved, RCancelled]"
| "run_transitions RApproved = [RRunning]"
| "run_transitions RRunning = [RSucceeded, RFailed, RCancelled]"
| "run_transitions RFailed = [RRunning]"
| "run_transitions RSucceeded = []"
| "run_transitions RCancelled = [RRunning]"

fun step_transitions :: "step_status \<Rightarrow> step_status list" where
  "step_transitions SPending = [SRunning, SSkipped, SFailed, SPending]"
| "step_transitions SRunning = [SOk, SFailed, SPending, SSkipped]"
| "step_transitions SOk = [SPending]"
| "step_transitions SFailed = [SPending, SRunning, SSkipped, SFailed]"
| "step_transitions SSkipped = [SPending, SSkipped]"

definition canRunTransition :: "run_status \<Rightarrow> run_status \<Rightarrow> bool" where
  "canRunTransition from to = (to \<in> set (run_transitions from))"

definition assertRunTransition :: "run_status \<Rightarrow> run_status \<Rightarrow> thrown + unit" where
  "assertRunTransition from to =
     (if canRunTransition from to then Inr ()
      else Inl (App (IllegalTransition
             (''run status '' @ show_run_status from @ '' '' @ g_arrow @ '' '' @ show_run_status to))))"

definition canStepTransition :: "step_status \<Rightarrow> step_status \<Rightarrow> bool" where
  "canStepTransition from to = (to \<in> set (step_transitions from))"

definition assertStepTransition :: "step_status \<Rightarrow> step_status \<Rightarrow> thrown + unit" where
  "assertStepTransition from to =
     (if canStepTransition from to then Inr ()
      else Inl (App (IllegalTransition
             (''step status '' @ show_step_status from @ '' '' @ g_arrow @ '' '' @ show_step_status to))))"

definition isTerminalRun :: "run_status \<Rightarrow> bool" where
  "isTerminalRun s = (s = RSucceeded \<or> s = RCancelled)"

definition isDeletableRun :: "run_status \<Rightarrow> bool" where
  "isDeletableRun s = (s = RPlanned \<or> s = RFailed \<or> s = RCancelled \<or> s = RSucceeded)"

section \<open>Targets, claims and plans\<close>

datatype ssh_transport = TDefault | TPublic

record run_target_ref =
  t_serverId :: string
  t_ownsHost :: bool
  t_label :: string
  t_transport :: "ssh_transport option"

datatype lock_resource = LServer | LGitBranch | LMasterKube | LMasterVault | LManager | LAll

fun show_resource :: "lock_resource \<Rightarrow> string" where
  "show_resource LServer = ''server''"
| "show_resource LGitBranch = ''git-branch''"
| "show_resource LMasterKube = ''master-kube''"
| "show_resource LMasterVault = ''master-vault''"
| "show_resource LManager = ''manager''"
| "show_resource LAll = ''all''"

record lock_claim =
  c_resource :: lock_resource
  c_key :: string

datatype severity = Hard | Soft
datatype check_status = CPass | CWarn | CFail

record preflight_check =
  pc_id :: string
  pc_title :: string
  pc_severity :: severity
  pc_status :: check_status
  pc_detail :: string
  pc_hint :: "string option"

record plan =
  p_kind :: string
  p_targetKind :: string
  p_targetId :: string
  p_summary :: string
  p_steps :: "(string \<times> string) list"
  p_targets :: "run_target_ref list option"
  p_locks :: "lock_claim list option"
  p_warnings :: "string list"
  p_estimateSeconds :: "nat option"
  p_requiredSecrets :: "string list"
  p_secretHints :: "(string \<times> string) list option"
  p_findings :: "preflight_check list option"
  p_optionalSecrets :: "string list option"
  p_requiredInputs :: "(string \<times> string) list option"

record plan_snapshot = plan +
  planHash :: string
  plannedAt :: nat

text \<open>\<^verbatim>\<open>run-targets.ts\<close>. A run is read through its target and its plan.\<close>

definition defaultTargets :: "('a) plan_scheme \<Rightarrow> run_target_ref list" where
  "defaultTargets p =
     (if p_targetKind p = ''server''
      then [\<lparr>t_serverId = p_targetId p, t_ownsHost = True, t_label = p_targetId p, t_transport = None\<rparr>]
      else [])"

definition targetServerId :: "string \<Rightarrow> string \<Rightarrow> ('a) plan_scheme \<Rightarrow> string option" where
  "targetServerId targetKind targetId p =
     (if targetKind = ''server'' then Some targetId
      else let targets = opt_default [] (p_targets p) in
        (case List.find t_ownsHost targets of
           Some t \<Rightarrow> Some (t_serverId t)
         | None \<Rightarrow> (case targets of [] \<Rightarrow> None | t # _ \<Rightarrow> Some (t_serverId t))))"

definition declaredTargets :: "('a) plan_scheme \<Rightarrow> run_target_ref list" where
  "declaredTargets p = opt_default (defaultTargets p) (p_targets p)"

section \<open>Transport\<close>

datatype ssh_via = ViaLan | ViaPublic

fun via_label :: "ssh_via \<Rightarrow> string" where
  "via_label ViaLan = ''LAN address''"
| "via_label ViaPublic = ''public address''"

text \<open>An empty \<^verbatim>\<open>lan_host\<close> is falsy, so it counts as none.\<close>

definition resolveTransport :: "string \<Rightarrow> string option \<Rightarrow> ssh_transport \<Rightarrow> string \<times> ssh_via" where
  "resolveTransport host lanHost transport =
     (if transport = TPublic then (host, ViaPublic)
      else (case lanHost of
              Some l \<Rightarrow> if l \<noteq> [] then (l, ViaLan) else (host, ViaPublic)
            | None \<Rightarrow> (host, ViaPublic)))"

section \<open>The canonical plan text\<close>

text \<open>
  \<^verbatim>\<open>plan-hash.ts\<close>: what \<^verbatim>\<open>sha256\<close> is taken over. The hash itself is a parameter. A target's
  undefined transport is left out of the object, as \<^verbatim>\<open>JSON.stringify\<close> leaves it out.
\<close>

definition target_json :: "run_target_ref \<Rightarrow> json" where
  "target_json t = JObj ([(''serverId'', JStr (t_serverId t)), (''ownsHost'', JBool (t_ownsHost t)), (''label'', JStr (t_label t))]
     @ (case t_transport t of None \<Rightarrow> [] | Some TDefault \<Rightarrow> [(''transport'', JStr ''default'')]
        | Some TPublic \<Rightarrow> [(''transport'', JStr ''public'')]))"

definition claim_json :: "lock_claim \<Rightarrow> json" where
  "claim_json c = JObj [(''resource'', JStr (show_resource (c_resource c))), (''key'', JStr (c_key c))]"

definition canonicalPlan :: "('a) plan_scheme \<Rightarrow> json \<Rightarrow> json" where
  "canonicalPlan p params = JObj [
     (''kind'', JStr (p_kind p)),
     (''targetId'', JStr (p_targetId p)),
     (''steps'', JArr (map (JStr \<circ> fst) (p_steps p))),
     (''targets'', (case p_targets p of None \<Rightarrow> JNull | Some ts \<Rightarrow> JArr (map target_json ts))),
     (''locks'', (case p_locks p of None \<Rightarrow> JNull | Some cs \<Rightarrow> JArr (map claim_json cs))),
     (''params'', params)]"

definition hashPlan :: "(string \<Rightarrow> string) \<Rightarrow> ('a) plan_scheme \<Rightarrow> json \<Rightarrow> string" where
  "hashPlan sha256 p params = sha256 (json_stringify (canonicalPlan p params))"

section \<open>Probes\<close>

text \<open>
  \<^verbatim>\<open>probe.ts\<close>. A step declares a probe or none; a probe answers findings or throws. Its inputs (the
  inventory, the credential store) are outside the executor, so a probe is the answer it gives.
\<close>

record step_impl =
  si_name :: string
  si_title :: string
  si_probe :: "(json \<Rightarrow> thrown + preflight_check list) option"

definition probe_mark :: "preflight_check \<Rightarrow> string" where
  "probe_mark c = (if pc_status c = CPass then g_check else if pc_status c = CWarn then g_warn
     else if pc_severity c = Hard then g_fail else g_warn)"

definition probe_line :: "preflight_check \<Rightarrow> string" where
  "probe_line c = probe_mark c @ '' '' @ pc_title c @ '': '' @ pc_detail c @
     (case pc_hint c of
        Some h \<Rightarrow> if pc_status c = CFail \<and> h \<noteq> [] then '' '' @ em_dash @ '' '' @ h else []
      | None \<Rightarrow> [])"

fun step_findings :: "json \<Rightarrow> step_impl \<Rightarrow> preflight_check list" where
  "step_findings params s =
     (case si_probe s of
        None \<Rightarrow> []
      | Some probe \<Rightarrow>
          (case probe params of
             Inr found \<Rightarrow> found
           | Inl e \<Rightarrow> [\<lparr>pc_id = si_name s @ ''.probe'', pc_title = si_title s, pc_severity = Hard,
                       pc_status = CFail, pc_detail = thrown_message e, pc_hint = None\<rparr>]))"

definition hard_failures :: "preflight_check list \<Rightarrow> preflight_check list" where
  "hard_failures fs = filter (\<lambda>c. pc_severity c = Hard \<and> pc_status c = CFail) fs"

text \<open>Answers the lines it logged and the findings, or the refusal that names every hard failure.\<close>

definition runProbes :: "step_impl list \<Rightarrow> json \<Rightarrow> string list \<times> (thrown + preflight_check list)" where
  "runProbes impls params =
     (let findings = concat (map (step_findings params) impls);
          hard = hard_failures findings
      in (map probe_line findings,
          if hard \<noteq> [] then
            Inl (App (Validation (''the plan is refused by '' @ show_nat (length hard) @
              '' finding(s) measured before the approve: '' @
              join ''; '' (map (\<lambda>c. pc_title c @ '' ('' @ pc_detail c @ '')'') hard))))
          else Inr findings))"

section \<open>Facts about the tables\<close>

text \<open>
  A status machine given by a successor table: \<open>can\<close> is membership, \<open>assert_to\<close> throws exactly where
  \<open>can\<close> refuses, and a walk is a list of statuses each of which the table allows after the one before.
\<close>

locale transition_table =
  fixes succs :: "'s \<Rightarrow> 's list"
    and can :: "'s \<Rightarrow> 's \<Rightarrow> bool"
    and assert_to :: "'s \<Rightarrow> 's \<Rightarrow> thrown + unit"
  assumes can_succs: "can a b \<longleftrightarrow> b \<in> set (succs a)"
    and assert_ok: "can a b \<Longrightarrow> assert_to a b = Inr ()"
    and assert_bad: "\<not> can a b \<Longrightarrow> \<exists>m. assert_to a b = Inl (App (IllegalTransition m))"
begin

fun walk :: "'s \<Rightarrow> 's list \<Rightarrow> bool" where
  "walk s [] = True"
| "walk s (t # ts) = (can s t \<and> walk t ts)"

lemma can_succsD: "can a b \<Longrightarrow> b \<in> set (succs a)"
  by (simp add: can_succs)

lemma assert_iff: "assert_to a b = Inr u \<longleftrightarrow> can a b"
  by (cases "can a b") (use assert_ok assert_bad in fastforce)+

lemma closed_walk:
  assumes "\<And>a b. a \<in> A \<Longrightarrow> b \<in> set (succs a) \<Longrightarrow> b \<in> A" and "s \<in> A" and "walk s ts"
  shows "set ts \<subseteq> A"
  using assms(2,3)
proof (induction ts arbitrary: s)
  case (Cons t ts)
  then have "t \<in> A" by (auto intro: assms(1) dest: can_succsD)
  with Cons show ?case by simp
qed simp

lemma entered_only_from:
  assumes only: "\<And>a. goal \<in> set (succs a) \<Longrightarrow> a = gate"
    and "walk s ts" and "i < length ts" and "ts ! i = goal"
  shows "(s # ts) ! i = gate"
  using assms(2,3,4)
proof (induction ts arbitrary: s i)
  case Nil
  then show ?case by simp
next
  case (Cons t ts)
  then show ?case
  proof (cases i)
    case 0
    with Cons.prems show ?thesis by (auto dest: can_succsD only)
  next
    case (Suc j)
    with Cons.prems Cons.IH [of t j] show ?thesis by simp
  qed
qed

lemma dead_end: "succs s = [] \<Longrightarrow> walk s ts \<Longrightarrow> ts = []"
  by (cases ts) (auto dest: can_succsD)

end

interpretation run_table: transition_table run_transitions canRunTransition assertRunTransition
  by unfold_locales (auto simp: canRunTransition_def assertRunTransition_def)

interpretation step_table: transition_table step_transitions canStepTransition assertStepTransition
  by unfold_locales (auto simp: canStepTransition_def assertStepTransition_def)

lemma step_ok_only_from_running: "SOk \<in> set (step_transitions a) \<Longrightarrow> a = SRunning"
  by (cases a) auto

lemma runProbes_findings: "runProbes impls params = (ls, Inr fs) \<Longrightarrow> fs = concat (map (step_findings params) impls)"
  by (auto simp: runProbes_def Let_def split: if_splits)

lemma runProbes_refuses_iff:
  "(\<exists>e. snd (runProbes impls params) = Inl e) \<longleftrightarrow>
   (\<exists>s \<in> set impls. \<exists>c \<in> set (step_findings params s). pc_severity c = Hard \<and> pc_status c = CFail)"
  by (auto simp: runProbes_def Let_def hard_failures_def filter_empty_conv)

section \<open>Properties\<close>

text \<open>
  The step table lets a step read \<open>ok\<close> only right after it read \<open>running\<close>: in every walk the table allows, whatever
  retries, skips and aborts it goes through, the status before an \<open>ok\<close> is \<open>running\<close>. No recovery marks work as done.
\<close>

lemma ok_only_after_running:
  assumes "step_table.walk s ts" and "i < length ts" and "ts ! i = SOk"
  shows "(s # ts) ! i = SRunning"
  using step_ok_only_from_running assms by (rule step_table.entered_only_from)

text \<open>
  A plan is refused exactly when some step's probe throws or measures a hard failure; otherwise it carries the findings
  of all steps in the order of the steps. Every finding is logged, also those of a refused plan.
\<close>

lemma probes_refuse_exactly:
  "(\<exists>e. snd (runProbes impls params) = Inl e) =
     (\<exists>s \<in> set impls. \<exists>probe. si_probe s = Some probe \<and>
        (case probe params of Inl _ \<Rightarrow> True | Inr fs \<Rightarrow> \<exists>c \<in> set fs. pc_severity c = Hard \<and> pc_status c = CFail)) \<and>
   (\<forall>fs. snd (runProbes impls params) \<noteq> Inr fs \<or> fs = concat (map (step_findings params) impls)) \<and>
   fst (runProbes impls params) = map probe_line (concat (map (step_findings params) impls))"
proof -
  have one: "(\<exists>c \<in> set (step_findings params s). pc_severity c = Hard \<and> pc_status c = CFail) =
      (\<exists>probe. si_probe s = Some probe \<and>
        (case probe params of Inl _ \<Rightarrow> True | Inr fs \<Rightarrow> \<exists>c \<in> set fs. pc_severity c = Hard \<and> pc_status c = CFail))" for s
  proof (cases "si_probe s")
    case (Some probe)
    then show ?thesis by (cases "probe params") simp_all
  qed simp
  show ?thesis
    unfolding runProbes_refuses_iff one by (auto simp: runProbes_def Let_def split: if_splits)
qed

end
