(* ===== verification/Redaction.thy ===== *)
theory Redaction
  imports Manager_Prelude
begin

text \<open>
  The redaction chokepoint (\<^verbatim>\<open>server/security/redact.ts\<close>) and the memory-only run secrets that register
  with it (\<^verbatim>\<open>server/executor/secrets.ts\<close>).

  Every replacement the code makes, of a registered value or of a pattern, puts the mask in the place
  of disjoint segments of the text. The locale \<open>masker\<close> is that contract, and what follows from it is
  proved once: a value that shares no byte with the mask and does not occur in a text does not occur in
  the masked text either, so no later replacement can bring back what an earlier one took out.
\<close>

section \<open>The registry\<close>

text \<open>A \<^verbatim>\<open>Map<string, Set<string>>\<close> in insertion order: scopes with the values registered under them.\<close>

type_synonym registry = "(string \<times> string list) list"

definition registered :: "registry \<Rightarrow> string \<Rightarrow> string list" where
  "registered reg scope = (case map_of reg scope of None \<Rightarrow> [] | Some vs \<Rightarrow> vs)"

definition set_add :: "'a \<Rightarrow> 'a list \<Rightarrow> 'a list" where
  "set_add x xs = (if x \<in> set xs then xs else xs @ [x])"

fun map_set :: "'k \<Rightarrow> 'v \<Rightarrow> ('k \<times> 'v) list \<Rightarrow> ('k \<times> 'v) list" where
  "map_set k v [] = [(k, v)]"
| "map_set k v ((k', v') # kvs) = (if k' = k then (k, v) # kvs else (k', v') # map_set k v kvs)"

definition map_delete :: "'k \<Rightarrow> ('k \<times> 'v) list \<Rightarrow> ('k \<times> 'v) list" where
  "map_delete k kvs = filter (\<lambda>p. fst p \<noteq> k) kvs"

definition registerSecret :: "string \<Rightarrow> string \<Rightarrow> registry \<Rightarrow> registry" where
  "registerSecret scope s reg =
     (if length s < 4 then reg else map_set scope (set_add s (registered reg scope)) reg)"

definition unregisterScope :: "string \<Rightarrow> registry \<Rightarrow> registry" where
  "unregisterScope scope reg = map_delete scope reg"

section \<open>Replacement\<close>

text \<open>
  A matcher answers the length of the match that starts at the head of a text. A global replacement
  scans from the left, replaces the match at the first position that has one and goes on behind it.
\<close>

type_synonym matcher = "string \<Rightarrow> nat option"

fun replace_matches :: "matcher \<Rightarrow> string \<Rightarrow> string \<Rightarrow> string" where
  "replace_matches m mk [] = []"
| "replace_matches m mk (x # xs) =
     (case m (x # xs) of
        Some (Suc k) \<Rightarrow> mk @ replace_matches m mk (drop k xs)
      | _ \<Rightarrow> x # replace_matches m mk xs)"

text \<open>\<^verbatim>\<open>text.split(sep)\<close> for a separator of any length: the segments between its occurrences.\<close>

fun split_on :: "string \<Rightarrow> string \<Rightarrow> string list" where
  "split_on sep [] = [[]]"
| "split_on sep (x # xs) =
     (if sep \<noteq> [] \<and> startsWith (x # xs) sep then [] # split_on sep (drop (length sep - 1) xs)
      else (case split_on sep xs of [] \<Rightarrow> [[x]] | w # ws \<Rightarrow> (x # w) # ws))"

definition mask3 :: string where
  "mask3 = bullet @ bullet @ bullet"

definition is_alnum :: "char \<Rightarrow> bool" where
  "is_alnum c = ((CHR ''A'' \<le> c \<and> c \<le> CHR ''Z'') \<or> (CHR ''a'' \<le> c \<and> c \<le> CHR ''z'') \<or> (CHR ''0'' \<le> c \<and> c \<le> CHR ''9''))"

definition is_header_char :: "char \<Rightarrow> bool" where
  "is_header_char c = ((CHR ''A'' \<le> c \<and> c \<le> CHR ''Z'') \<or> (CHR ''0'' \<le> c \<and> c \<le> CHR ''9'') \<or> c = CHR '' '')"

text \<open>\<^verbatim>\<open>gh[pousr]_[A-Za-z0-9]{20,}\<close>\<close>

fun match_gh_token :: matcher where
  "match_gh_token (g # h # k # u # rest) =
     (let n = length (takeWhile is_alnum rest)
      in if g = CHR ''g'' \<and> h = CHR ''h'' \<and> k \<in> set ''pousr'' \<and> u = CHR ''_'' \<and> 20 \<le> n
         then Some (4 + n) else None)"
| "match_gh_token _ = None"

text \<open>\<^verbatim>\<open>github_pat_[A-Za-z0-9_]{20,}\<close>\<close>

definition match_github_pat :: matcher where
  "match_github_pat xs =
     (let n = length (takeWhile (\<lambda>c. is_alnum c \<or> c = CHR ''_'') (drop 11 xs))
      in if startsWith xs ''github_pat_'' \<and> 20 \<le> n then Some (11 + n) else None)"

text \<open>
  \<^verbatim>\<open>-----BEGIN [A-Z0-9 ]*PRIVATE KEY-----\<close> and the same with \<^verbatim>\<open>END\<close>: the dash ends the class, so the
  run of class characters after the word is exactly what must end in \<^verbatim>\<open>PRIVATE KEY\<close>.
\<close>

definition match_pem_line :: "string \<Rightarrow> matcher" where
  "match_pem_line word xs =
     (let start = ''-----'' @ word @ '' '';
          rest = drop (length start) xs;
          w = takeWhile is_header_char rest
      in if startsWith xs start \<and> suffix ''PRIVATE KEY'' w \<and> startsWith (drop (length w) rest) ''-----''
         then Some (length start + length w + 5) else None)"

text \<open>\<^verbatim>\<open>[\s\S]*?\<close>: the nearest end line behind the begin line.\<close>

fun find_pem_end :: "string \<Rightarrow> nat option" where
  "find_pem_end [] = None"
| "find_pem_end (x # xs) =
     (case match_pem_line ''END'' (x # xs) of
        Some n \<Rightarrow> Some n
      | None \<Rightarrow> map_option Suc (find_pem_end xs))"

definition match_private_key :: matcher where
  "match_private_key xs =
     (case match_pem_line ''BEGIN'' xs of
        None \<Rightarrow> None
      | Some n \<Rightarrow> map_option (\<lambda>k. n + k) (find_pem_end (drop n xs)))"

section \<open>redact\<close>

definition mask_secret :: "string \<Rightarrow> string \<Rightarrow> string" where
  "mask_secret s out = (if s \<noteq> [] then join mask3 (split_on s out) else out)"

definition mask_pattern :: "matcher \<Rightarrow> string \<Rightarrow> string" where
  "mask_pattern m out = replace_matches m mask3 out"

definition redact :: "registry \<Rightarrow> string \<Rightarrow> string" where
  "redact reg text =
     (let out = fold mask_secret (concat (map snd reg)) text
      in fold mask_pattern [match_private_key, match_gh_token, match_github_pat] out)"

section \<open>Run secrets\<close>

text \<open>
  \<^verbatim>\<open>RunSecretsMap\<close>: the values typed at the approve of a run, held under its scope. Zeroing a buffer is
  forgetting its bytes.
\<close>

record run_secrets =
  rs_scope :: string
  rs_map :: "(string \<times> string) list"

definition new_secrets :: "string \<Rightarrow> run_secrets" where
  "new_secrets scope = \<lparr>rs_scope = scope, rs_map = []\<rparr>"

definition secrets_set :: "string \<Rightarrow> string \<Rightarrow> run_secrets \<times> registry \<Rightarrow> run_secrets \<times> registry" where
  "secrets_set name v = (\<lambda>(m, reg). (m\<lparr>rs_map := map_set name v (rs_map m)\<rparr>, registerSecret (rs_scope m) v reg))"

definition secrets_get :: "run_secrets \<Rightarrow> string \<Rightarrow> string option" where
  "secrets_get m name = map_of (rs_map m) name"

definition secrets_size :: "run_secrets \<Rightarrow> nat" where
  "secrets_size m = length (rs_map m)"

definition secrets_wipe :: "string option \<Rightarrow> run_secrets \<times> registry \<Rightarrow> run_secrets \<times> registry" where
  "secrets_wipe name = (\<lambda>(m, reg).
     (case name of
        None \<Rightarrow> (m\<lparr>rs_map := []\<rparr>, unregisterScope (rs_scope m) reg)
      | Some n \<Rightarrow> (m\<lparr>rs_map := map_delete n (rs_map m)\<rparr>, reg)))"

section \<open>Masked texts\<close>

text \<open>\<open>masked m xs ys\<close>: \<open>ys\<close> is \<open>xs\<close> with some disjoint segments replaced by \<open>m\<close>.\<close>

inductive masked :: "string \<Rightarrow> string \<Rightarrow> string \<Rightarrow> bool" where
  masked_end: "masked m [] []"
| masked_keep: "masked m xs ys \<Longrightarrow> masked m (x # xs) (x # ys)"
| masked_put: "masked m xs ys \<Longrightarrow> masked m (seg @ xs) (m @ ys)"

lemma masked_refl: "masked m xs xs"
  by (induction xs) (auto intro: masked.intros)

lemma masked_prefix:
  assumes "masked m xs ys" and "prefix s ys" and "set s \<inter> set m = {}" and "m \<noteq> []"
  shows "prefix s xs"
  using assms
proof (induction arbitrary: s rule: masked.induct)
  case (masked_keep m xs ys x)
  then show ?case by (cases s) auto
next
  case (masked_put m xs ys seg)
  show ?case
  proof (cases s)
    case (Cons c cs)
    obtain d ds where "m = d # ds" using masked_put.prems(3) by (cases m) auto
    with Cons masked_put.prems show ?thesis by auto
  qed simp
qed simp

lemma sublist_skip_disjoint:
  "sublist s (m @ ys) \<Longrightarrow> set s \<inter> set m = {} \<Longrightarrow> s \<noteq> [] \<Longrightarrow> sublist s ys"
  by (induction m) (auto simp: sublist_Cons_right neq_Nil_conv)

lemma masked_sublist:
  assumes "masked m xs ys" and "sublist s ys" and "set s \<inter> set m = {}" and "m \<noteq> []" and "s \<noteq> []"
  shows "sublist s xs"
  using assms
proof (induction rule: masked.induct)
  case (masked_keep m xs ys x)
  from masked_keep.prems(1) consider "prefix s (x # ys)" | "sublist s ys"
    by (auto simp: sublist_Cons_right)
  then show ?case
  proof cases
    case 1
    from masked.masked_keep [OF masked_keep.hyps] 1 masked_keep.prems(2,3) have "prefix s (x # xs)"
      by (rule masked_prefix)
    then show ?thesis by (simp add: sublist_Cons_right)
  next
    case 2
    with masked_keep show ?thesis by (simp add: sublist_Cons_right)
  qed
next
  case (masked_put m xs ys seg)
  then have "sublist s ys" by (blast dest: sublist_skip_disjoint)
  with masked_put have "sublist s xs" by blast
  then show ?case by (simp add: sublist_append)
qed simp

locale masker =
  fixes mk :: string and repl :: "string \<Rightarrow> string"
  assumes mask_nonempty: "mk \<noteq> []"
    and repl_masked: "masked mk xs (repl xs)"
begin

lemma keeps_absent:
  "\<not> sublist s xs \<Longrightarrow> set s \<inter> set mk = {} \<Longrightarrow> s \<noteq> [] \<Longrightarrow> \<not> sublist s (repl xs)"
  using masked_sublist [OF repl_masked] mask_nonempty by blast

end

lemma replace_matches_masked: "masked mk xs (replace_matches m mk xs)"
proof (induction m mk xs rule: replace_matches.induct)
  case (1 m mk)
  show ?case by (simp add: masked_end)
next
  case (2 m mk x xs)
  show ?case
  proof (cases "\<exists>k. m (x # xs) = Some (Suc k)")
    case True
    then obtain k where k: "m (x # xs) = Some (Suc k)" by blast
    then have "masked mk (take (Suc k) (x # xs) @ drop k xs) (mk @ replace_matches m mk (drop k xs))"
      using "2.IH" by (intro masked_put) auto
    with k show ?thesis by simp
  next
    case False
    with "2.IH" show ?thesis by (auto split: option.splits nat.splits intro: masked_keep)
  qed
qed

lemma mask3_nonempty [simp]: "mask3 \<noteq> []"
  by (simp add: mask3_def bullet_def)

interpretation pattern_masker: masker mask3 "mask_pattern m" for m
  by unfold_locales (simp_all add: mask_pattern_def replace_matches_masked)

text \<open>Splitting at a value and joining with the mask is the global replacement of the value.\<close>

definition match_exact :: "string \<Rightarrow> matcher" where
  "match_exact s xs = (if startsWith xs s then Some (length s) else None)"

lemma split_on_nonempty: "split_on s xs \<noteq> []"
  by (induction s xs rule: split_on.induct) (auto split: list.splits)

lemma join_Cons_head: "ws \<noteq> [] \<Longrightarrow> join m ([] # ws) = m @ join m ws"
  by (cases ws) auto

lemma join_head_char: "join m ((x # w) # ws) = x # join m (w # ws)"
  by (cases ws) auto

lemma split_join_replace:
  "s \<noteq> [] \<Longrightarrow> join m (split_on s xs) = replace_matches (match_exact s) m xs"
proof (induction s xs rule: split_on.induct)
  case (1 s)
  then show ?case by simp
next
  case (2 s x xs)
  show ?case
  proof (cases "startsWith (x # xs) s")
    case True
    then have "match_exact s (x # xs) = Some (Suc (length s - 1))"
      using "2.prems" by (simp add: match_exact_def)
    then have "replace_matches (match_exact s) m (x # xs) =
        m @ replace_matches (match_exact s) m (drop (length s - 1) xs)"
      by (simp only: replace_matches.simps option.case nat.case)
    with True "2.IH"(1) "2.prems" show ?thesis
      by (simp add: join_Cons_head split_on_nonempty del: replace_matches.simps)
  next
    case False
    then have "match_exact s (x # xs) = None" by (simp add: match_exact_def)
    moreover obtain w ws where "split_on s xs = w # ws" using split_on_nonempty by (cases "split_on s xs") auto
    ultimately show ?thesis using False "2.IH"(2) "2.prems" by (simp add: join_head_char)
  qed
qed

lemma mask_secret_replace: "s \<noteq> [] \<Longrightarrow> mask_secret s xs = replace_matches (match_exact s) mask3 xs"
  by (simp add: mask_secret_def split_join_replace)

interpretation secret_masker: masker mask3 "mask_secret s" for s
proof unfold_locales
  show "masked mask3 xs (mask_secret s xs)" for xs
    by (cases "s = []") (simp_all add: mask_secret_replace replace_matches_masked, simp add: mask_secret_def masked_refl)
qed simp

lemma replace_exact_removes:
  assumes "s \<noteq> []" and "set s \<inter> set m = {}" and "m \<noteq> []"
  shows "\<not> sublist s (replace_matches (match_exact s) m xs)"
  using assms
proof (induction xs rule: length_induct)
  case (1 xs)
  show ?case
  proof (cases xs)
    case Nil
    with "1.prems" show ?thesis by simp
  next
    case (Cons x ys)
    show ?thesis
    proof (cases "startsWith xs s")
      case True
      then have head: "match_exact s (x # ys) = Some (Suc (length s - 1))"
        using "1.prems" Cons by (simp add: match_exact_def)
      moreover have "\<not> sublist s (replace_matches (match_exact s) m (drop (length s - 1) ys))"
        using "1.IH" "1.prems" Cons by simp
      ultimately have "\<not> sublist s (m @ replace_matches (match_exact s) m (drop (length s - 1) ys))"
        using "1.prems" by (blast dest: sublist_skip_disjoint)
      with head show ?thesis by (simp only: Cons replace_matches.simps option.case nat.case) simp
    next
      case False
      let ?r = "replace_matches (match_exact s) m ys"
      from False Cons have eq: "replace_matches (match_exact s) m xs = x # ?r"
        by (simp add: match_exact_def)
      have "\<not> prefix s (x # ?r)"
        using False masked_prefix [OF masked_keep [OF replace_matches_masked]] "1.prems" Cons
        by (auto simp: startsWith_def)
      moreover have "\<not> sublist s ?r" using "1.IH" "1.prems" Cons by simp
      ultimately show ?thesis by (simp add: eq sublist_Cons_right)
    qed
  qed
qed

lemma replace_exact_absent: "\<not> sublist s xs \<Longrightarrow> replace_matches (match_exact s) m xs = xs"
proof (induction xs)
  case (Cons x xs)
  then have "\<not> prefix s (x # xs)" "\<not> sublist s xs" by (auto simp: sublist_Cons_right)
  with Cons.IH show ?case by (simp add: match_exact_def startsWith_def)
qed simp

lemma mask_secret_removes: "s \<noteq> [] \<Longrightarrow> set s \<inter> set mask3 = {} \<Longrightarrow> \<not> sublist s (mask_secret s xs)"
  by (simp add: mask_secret_replace replace_exact_removes)

lemma fold_mask_keeps_absent:
  "\<not> sublist s xs \<Longrightarrow> set s \<inter> set mask3 = {} \<Longrightarrow> s \<noteq> [] \<Longrightarrow> \<not> sublist s (fold mask_secret ss xs)"
  by (induction ss arbitrary: xs) (simp_all add: secret_masker.keeps_absent)

lemma fold_mask_removes:
  "s \<in> set ss \<Longrightarrow> set s \<inter> set mask3 = {} \<Longrightarrow> s \<noteq> [] \<Longrightarrow> \<not> sublist s (fold mask_secret ss xs)"
  by (induction ss arbitrary: xs) (auto simp: fold_mask_keeps_absent mask_secret_removes)

lemma redact_removes:
  assumes "s \<in> set (concat (map snd reg))" and "set s \<inter> set mask3 = {}" and "s \<noteq> []"
  shows "\<not> sublist s (redact reg text)"
  unfolding redact_def Let_def fold_simps comp_def
  using fold_mask_removes [OF assms] assms(2,3)
  by (simp add: pattern_masker.keeps_absent)

section \<open>Facts about the registry\<close>

lemma map_of_map_set: "map_of (map_set k v kvs) = (map_of kvs)(k \<mapsto> v)"
  by (induction k v kvs rule: map_set.induct) auto

lemma map_of_map_delete: "map_of (map_delete k kvs) = (map_of kvs)(k := None)"
  by (induction kvs) (auto simp: map_delete_def)

lemma set_set_add [simp]: "set (set_add x xs) = insert x (set xs)"
  by (auto simp: set_add_def)

lemma map_of_registered: "map_of reg scope = Some vs \<Longrightarrow> set vs \<subseteq> set (concat (map snd reg))"
  by (induction reg) (auto split: if_splits)

lemma registerSecret_registers:
  assumes "4 \<le> length s"
  shows "s \<in> set (concat (map snd (registerSecret scope s reg)))"
proof -
  have "map_of (registerSecret scope s reg) scope = Some (set_add s (registered reg scope))"
    using assms by (simp add: registerSecret_def map_of_map_set)
  from map_of_registered [OF this] show ?thesis by auto
qed

section \<open>Evaluating redact\<close>

text \<open>
  A text without a dash and without the letter g matches no pattern. The code equation tests this first, so that a
  concrete log line is evaluated in one pass over its characters.
\<close>

definition is_plain :: "char \<Rightarrow> bool" where
  "is_plain c = (c \<noteq> CHR ''-'' \<and> c \<noteq> CHR ''g'')"

lemma replace_matches_none: "(\<And>x ys. is_plain x \<Longrightarrow> m (x # ys) = None) \<Longrightarrow> list_all is_plain xs \<Longrightarrow> replace_matches m mk xs = xs"
  by (induction xs) auto

lemma match_pem_line_plain: "is_plain x \<Longrightarrow> match_pem_line w (x # ys) = None"
  by (auto simp: match_pem_line_def is_plain_def startsWith_def Let_def)

lemma match_gh_token_plain: "is_plain x \<Longrightarrow> match_gh_token (x # ys) = None"
  by (cases "x # ys" rule: match_gh_token.cases) (auto simp: is_plain_def Let_def)

lemma redact_code [code]:
  "redact reg tx =
     (if concat (map snd reg) = [] \<and> list_all is_plain tx then tx
      else fold mask_pattern [match_private_key, match_gh_token, match_github_pat] (fold mask_secret (concat (map snd reg)) tx))"
proof (cases "concat (map snd reg) = [] \<and> list_all is_plain tx")
  case True
  have "match_private_key (x # ys) = None" "match_github_pat (x # ys) = None" if "is_plain x" for x ys
    using that match_pem_line_plain
    by (auto simp: match_private_key_def match_github_pat_def is_plain_def startsWith_def Let_def)
  with True match_gh_token_plain
  have "mask_pattern match_private_key tx = tx" "mask_pattern match_gh_token tx = tx" "mask_pattern match_github_pat tx = tx"
    by (simp_all add: mask_pattern_def replace_matches_none)
  moreover have "fold mask_secret (concat (map snd reg)) tx = tx" using True by (simp only: fold_simps)
  ultimately show ?thesis using True unfolding redact_def Let_def by (simp only: fold_simps if_True simp_thms)
next
  case False
  then show ?thesis unfolding redact_def Let_def by (simp only: if_False)
qed

section \<open>Properties\<close>



text \<open>
  A text the registry and the patterns have nothing to say about is passed on as it is: redaction takes away secrets
  and nothing else, so a log line stays readable.
\<close>

lemma redact_keeps_other_text:
  assumes "\<And>s. s \<in> set (concat (map snd reg)) \<Longrightarrow> \<not> sublist s tx" and "list_all is_plain tx"
  shows "redact reg tx = tx"
proof -
  have "fold mask_secret ss tx = tx" if "\<And>s. s \<in> set ss \<Longrightarrow> \<not> sublist s tx" for ss
    using that
  proof (induction ss)
    case (Cons s ss)
    then have "\<not> sublist s tx" by simp
    then have "mask_secret s tx = tx"
      by (cases "s = []") (simp_all add: mask_secret_replace replace_exact_absent)
    with Cons show ?case by simp
  qed simp
  then have "fold mask_secret (concat (map snd reg)) tx = tx" using assms(1) by blast
  then show ?thesis using assms(2) redact_code [of "[]" tx] by (simp add: redact_def Let_def del: set_concat)
qed


text \<open>
  Once the secrets of a run are wiped none of the values registered under its scope is in the registry any more, and
  the values of every other run still are.
\<close>

lemma wipe_unregisters_only_its_scope:
  "map_of (snd (secrets_wipe None (m, reg))) scope = (if scope = rs_scope m then None else map_of reg scope) \<and>
   secrets_size (fst (secrets_wipe None (m, reg))) = 0"
  by (simp add: secrets_wipe_def unregisterScope_def map_of_map_delete secrets_size_def)

end
