(* ===== verification/Effects.thy ===== *)
theory Effects
  imports Manager_Prelude
begin

text \<open>
  Code that changes a state and may throw: a computation takes the state and answers what it returned
  or threw together with the state it left. A throw keeps the effects made before it; a database
  transaction is a single step that has none when it throws.

  The predicates \<open>pres\<close> (an invariant holds afterwards, whether it returned or threw) and \<open>keeps\<close> (a part of
  the state is untouched) are closed under every combinator; the component proofs are built from these rules.
\<close>

section \<open>Computations\<close>

type_synonym ('s, 'a) comp = "'s \<Rightarrow> (thrown + 'a) \<times> 's"

definition ret :: "'a \<Rightarrow> ('s, 'a) comp" where
  "ret x s = (Inr x, s)"

definition throwM :: "thrown \<Rightarrow> ('s, 'a) comp" where
  "throwM e s = (Inl e, s)"

definition bindM :: "('s, 'a) comp \<Rightarrow> ('a \<Rightarrow> ('s, 'b) comp) \<Rightarrow> ('s, 'b) comp" where
  "bindM m k s = (case m s of (Inl e, s') \<Rightarrow> (Inl e, s') | (Inr x, s') \<Rightarrow> k x s')"

definition catchM :: "('s, 'a) comp \<Rightarrow> (thrown \<Rightarrow> ('s, 'a) comp) \<Rightarrow> ('s, 'a) comp" where
  "catchM m h s = (case m s of (Inl e, s') \<Rightarrow> h e s' | (Inr x, s') \<Rightarrow> (Inr x, s'))"

definition gets :: "('s \<Rightarrow> 'a) \<Rightarrow> ('s, 'a) comp" where
  "gets f s = (Inr (f s), s)"

definition modify :: "('s \<Rightarrow> 's) \<Rightarrow> ('s, unit) comp" where
  "modify f s = (Inr (), f s)"

definition liftE :: "thrown + 'a \<Rightarrow> ('s, 'a) comp" where
  "liftE r s = (r, s)"

definition whenM :: "bool \<Rightarrow> ('s, unit) comp \<Rightarrow> ('s, unit) comp" where
  "whenM b m = (if b then m else ret ())"

text \<open>One statement after the other, to the first that throws; and a \<^verbatim>\<open>for\<close> loop over an array.\<close>

fun seqM :: "('s, unit) comp list \<Rightarrow> ('s, unit) comp" where
  "seqM [] = ret ()"
| "seqM (m # ms) = bindM m (\<lambda>_. seqM ms)"

definition forM :: "'a list \<Rightarrow> ('a \<Rightarrow> ('s, unit) comp) \<Rightarrow> ('s, unit) comp" where
  "forM xs f = seqM (map f xs)"

section \<open>Invariants and frames of computations\<close>

definition pres :: "('s \<Rightarrow> bool) \<Rightarrow> ('s, 'a) comp \<Rightarrow> bool" where
  "pres I m \<longleftrightarrow> (\<forall>s. I s \<longrightarrow> I (snd (m s)))"

definition keeps :: "('s \<Rightarrow> 'b) \<Rightarrow> ('s, 'a) comp \<Rightarrow> bool" where
  "keeps f m \<longleftrightarrow> (\<forall>s. f (snd (m s)) = f s)"

lemmas comp_defs = ret_def throwM_def bindM_def catchM_def gets_def modify_def liftE_def whenM_def

lemma ret_app [simp]: "ret x s = (Inr x, s)"
  by (simp add: ret_def)

lemma throwM_app [simp]: "throwM e s = (Inl e, s)"
  by (simp add: throwM_def)

lemma gets_app [simp]: "gets f s = (Inr (f s), s)"
  by (simp add: gets_def)

lemma modify_app [simp]: "modify f s = (Inr (), f s)"
  by (simp add: modify_def)

lemma liftE_app [simp]: "liftE r s = (r, s)"
  by (simp add: liftE_def)

lemma whenM_simps [simp]: "whenM True m = m" "whenM False m = ret ()"
  by (simp_all add: whenM_def)

lemma bindM_ret [simp]: "bindM (ret x) k = k x"
  by (rule ext) (simp add: bindM_def)

lemma bindM_gets [simp]: "bindM (gets f) k s = k (f s) s"
  by (simp add: bindM_def)

lemma bindM_modify [simp]: "bindM (modify f) k s = k () (f s)"
  by (simp add: bindM_def)

lemma bindM_throwM [simp]: "bindM (throwM e) k = throwM e"
  by (rule ext) (simp add: bindM_def)

lemma bindM_Inl: "m s = (Inl e, s') \<Longrightarrow> bindM m k s = (Inl e, s')"
  by (simp add: bindM_def)

lemma bindM_Inr: "m s = (Inr x, s') \<Longrightarrow> bindM m k s = k x s'"
  by (simp add: bindM_def)

lemma bindM_liftE: "bindM (liftE r) k s = (case r of Inl e \<Rightarrow> (Inl e, s) | Inr x \<Rightarrow> k x s)"
  by (simp add: bindM_def)

lemma catchM_Inr: "m s = (Inr x, s') \<Longrightarrow> catchM m h s = (Inr x, s')"
  by (simp add: catchM_def)

lemma catchM_Inl: "m s = (Inl e, s') \<Longrightarrow> catchM m h s = h e s'"
  by (simp add: catchM_def)

text \<open>
  The rules of \<open>pres\<close>. A continuation after \<open>gets\<close> may use what was read, so the rule for \<open>bindM\<close> asks it
  for every value; \<open>pres_bind_gets\<close> keeps the connection to the state.
\<close>

lemma pres_ret [intro, simp]: "pres I (ret x)"
  by (simp add: pres_def)

lemma pres_throwM [intro, simp]: "pres I (throwM e)"
  by (simp add: pres_def)

lemma pres_gets [intro, simp]: "pres I (gets f)"
  by (simp add: pres_def)

lemma pres_liftE [intro, simp]: "pres I (liftE r)"
  by (simp add: pres_def)

lemma pres_modify: "(\<And>s. I s \<Longrightarrow> I (f s)) \<Longrightarrow> pres I (modify f)"
  by (simp add: pres_def)

lemma pres_bind [intro]: "pres I m \<Longrightarrow> (\<And>x. pres I (k x)) \<Longrightarrow> pres I (bindM m k)"
  by (force simp: pres_def bindM_def split: prod.splits sum.splits)

lemma pres_catch [intro]: "pres I m \<Longrightarrow> (\<And>e. pres I (h e)) \<Longrightarrow> pres I (catchM m h)"
  by (force simp: pres_def catchM_def split: prod.splits sum.splits)

lemma pres_when [intro]: "(b \<Longrightarrow> pres I m) \<Longrightarrow> pres I (whenM b m)"
  by (cases b) auto

lemma pres_seq [intro]: "(\<And>m. m \<in> set ms \<Longrightarrow> pres I m) \<Longrightarrow> pres I (seqM ms)"
  by (induction ms) auto

lemma pres_for [intro]: "(\<And>x. x \<in> set xs \<Longrightarrow> pres I (f x)) \<Longrightarrow> pres I (forM xs f)"
  unfolding forM_def by (rule pres_seq) auto

lemma presD: "pres I m \<Longrightarrow> I s \<Longrightarrow> I (snd (m s))"
  by (simp add: pres_def)

lemma presD': "pres I m \<Longrightarrow> I s \<Longrightarrow> m s = (r, s') \<Longrightarrow> I s'"
  by (force simp: pres_def)

lemma pres_conj: "pres I m \<Longrightarrow> pres J m \<Longrightarrow> pres (\<lambda>s. I s \<and> J s) m"
  by (simp add: pres_def)

lemma pres_of_keeps: "keeps f m \<Longrightarrow> pres (\<lambda>s. P (f s)) m"
  by (simp add: pres_def keeps_def)

lemma keeps_ret [intro, simp]: "keeps f (ret x)"
  by (simp add: keeps_def)

lemma keeps_throwM [intro, simp]: "keeps f (throwM e)"
  by (simp add: keeps_def)

lemma keeps_gets [intro, simp]: "keeps f (gets g)"
  by (simp add: keeps_def)

lemma keeps_liftE [intro, simp]: "keeps f (liftE r)"
  by (simp add: keeps_def)

lemma keeps_modify: "(\<And>s. f (g s) = f s) \<Longrightarrow> keeps f (modify g)"
  by (simp add: keeps_def)

lemma keeps_bind [intro]: "keeps f m \<Longrightarrow> (\<And>x. keeps f (k x)) \<Longrightarrow> keeps f (bindM m k)"
  by (simp add: keeps_def bindM_def split: prod.splits sum.splits) (metis snd_conv)

lemma keeps_catch [intro]: "keeps f m \<Longrightarrow> (\<And>e. keeps f (h e)) \<Longrightarrow> keeps f (catchM m h)"
  by (simp add: keeps_def catchM_def split: prod.splits sum.splits) (metis snd_conv)

lemma keeps_when [intro]: "(b \<Longrightarrow> keeps f m) \<Longrightarrow> keeps f (whenM b m)"
  by (cases b) auto

lemma keeps_seq [intro]: "(\<And>m. m \<in> set ms \<Longrightarrow> keeps f m) \<Longrightarrow> keeps f (seqM ms)"
  by (induction ms) auto

lemma keeps_for [intro]: "(\<And>x. x \<in> set xs \<Longrightarrow> keeps f (g x)) \<Longrightarrow> keeps f (forM xs g)"
  unfolding forM_def by (rule keeps_seq) auto

lemma keepsD: "keeps f m \<Longrightarrow> f (snd (m s)) = f s"
  by (simp add: keeps_def)

lemma keepsD': "keeps f m \<Longrightarrow> m s = (r, s') \<Longrightarrow> f s' = f s"
  by (metis keepsD snd_conv)

text \<open>From one property to another: the statements before keep the first, the last ones establish the second.\<close>

definition leads :: "('s \<Rightarrow> bool) \<Rightarrow> ('s \<Rightarrow> bool) \<Rightarrow> ('s, 'a) comp \<Rightarrow> bool" where
  "leads I M m \<longleftrightarrow> (\<forall>s. I s \<longrightarrow> M (snd (m s)))"

lemma leadsD: "leads I M m \<Longrightarrow> I s \<Longrightarrow> M (snd (m s))"
  by (simp add: leads_def)

lemma leads_pres: "pres I m \<Longrightarrow> (\<And>s. I s \<Longrightarrow> M s) \<Longrightarrow> leads I M m"
  by (simp add: leads_def pres_def)

lemma leads_gets: "(\<And>x. leads I M (k x)) \<Longrightarrow> leads I M (bindM (gets f) k)"
  by (simp add: leads_def)

lemma leads_bind: "pres I m \<Longrightarrow> (\<And>s. I s \<Longrightarrow> M s) \<Longrightarrow> (\<And>x. leads I M (k x)) \<Longrightarrow> leads I M (bindM m k)"
  unfolding leads_def pres_def by (simp add: bindM_def split: prod.splits sum.splits) (metis snd_conv)

lemma leads_then: "leads I M m \<Longrightarrow> (\<And>x. pres M (k x)) \<Longrightarrow> leads I M (bindM m k)"
  unfolding leads_def pres_def by (simp add: bindM_def split: prod.splits sum.splits) (metis snd_conv)

end
