(* ===== verification/Run_Store.thy ===== *)
theory Run_Store
  imports Run_Types Redaction Effects
begin

text \<open>
  The tables the executor owns (\<^verbatim>\<open>server/db/schema/runs.ts\<close>) with their unique indexes, the writers of step
  statuses (\<^verbatim>\<open>executor/step-status.ts\<close>), the audit trail (\<^verbatim>\<open>db/audit-writer.ts\<close>) and the state of the
  Manager process around the database: the secrets, the redaction registry, the runs in flight.

  A table is the list of its rows in insertion order. A query without an order reads the rows in that
  order. The stamp columns \<^verbatim>\<open>modified\<close>, \<^verbatim>\<open>modified_by\<close> and \<^verbatim>\<open>deleted_by\<close> and the ids of events, locks and
  audit rows are left out: no statement of the executor reads them. A statement fails where it would break a
  unique index; failures of the file itself (a full disk, a busy handle) are not modelled.
\<close>

section \<open>Rows\<close>

type_synonym run_id = string
type_synonym step_id = string

datatype plan_json = PlanSnap plan_snapshot | PlanReport json

record run_row =
  r_id :: run_id
  r_kind :: string
  r_targetKind :: string
  r_targetId :: string
  r_params :: json
  r_plan :: "plan_json option"
  r_status :: run_status
  r_approvedAt :: "nat option"
  r_startedAt :: "nat option"
  r_finishedAt :: "nat option"
  r_error :: "string option"
  r_owner :: string
  r_creation :: nat
  r_deleted :: "nat option"

record step_checkpoint =
  cp_data :: "json option"
  cp_cleanups :: "string list option"

record step_row =
  s_id :: step_id
  s_runId :: run_id
  s_ordinal :: nat
  s_name :: string
  s_title :: string
  s_status :: step_status
  s_startedAt :: "nat option"
  s_finishedAt :: "nat option"
  s_checkpoint :: "step_checkpoint option"
  s_skipReason :: "string option"
  s_error :: "string option"

record event_row =
  e_runId :: run_id
  e_stepId :: "step_id option"
  e_stream :: output_stream
  e_seq :: nat
  e_text :: string
  e_creation :: nat

record lock_row =
  l_resource :: lock_resource
  l_key :: string
  l_runId :: run_id
  l_creation :: nat
  l_deleted :: "nat option"

record audit_row =
  a_action :: string
  a_targetKind :: "string option"
  a_targetId :: "string option"
  a_runId :: "run_id option"
  a_detail :: "json option"

record server_row =
  sv_id :: string
  sv_name :: string
  sv_host :: string
  sv_lanHost :: "string option"
  sv_sshPort :: nat
  sv_sshUser :: string
  sv_master :: bool
  sv_hostKey :: "string option"
  sv_machineId :: "string option"
  sv_deleted :: "nat option"

text \<open>The inventory a run definition writes: the server rows, and the tables no executor code reads.\<close>

record inventory =
  servers :: "server_row list"
  inv_rest :: json

record db =
  runs :: "run_row list"
  steps :: "step_row list"
  events :: "event_row list"
  run_locks :: "lock_row list"
  audit :: "audit_row list"
  inventory :: inventory

section \<open>Statements\<close>

definition get_run :: "db \<Rightarrow> run_id \<Rightarrow> run_row option" where
  "get_run d rid = List.find (\<lambda>r. r_id r = rid) (runs d)"

definition status_of :: "db \<Rightarrow> run_id \<Rightarrow> run_status option" where
  "status_of d rid = map_option r_status (get_run d rid)"

definition update_run :: "run_id \<Rightarrow> (run_row \<Rightarrow> run_row) \<Rightarrow> db \<Rightarrow> db" where
  "update_run rid f d = d\<lparr>runs := update_where (\<lambda>r. r_id r = rid) f (runs d)\<rparr>"

definition insert_run :: "run_row \<Rightarrow> db \<Rightarrow> thrown + db" where
  "insert_run r d =
     (if r_id r \<in> r_id ` set (runs d) then Inl (sqlite_constraint ''runs.id'')
      else Inr (d\<lparr>runs := runs d @ [r]\<rparr>))"

text \<open>\<^verbatim>\<open>allStepRows\<close>: the run's rows in ordinal order.\<close>

definition allStepRows :: "db \<Rightarrow> run_id \<Rightarrow> step_row list" where
  "allStepRows d rid = sort_key s_ordinal (filter (\<lambda>s. s_runId s = rid) (steps d))"

definition find_step :: "db \<Rightarrow> run_id \<Rightarrow> string \<Rightarrow> step_row option" where
  "find_step d rid name = List.find (\<lambda>s. s_runId s = rid \<and> s_name s = name) (steps d)"

definition insert_step :: "step_row \<Rightarrow> db \<Rightarrow> thrown + db" where
  "insert_step s d =
     (if s_id s \<in> s_id ` set (steps d) then Inl (sqlite_constraint ''steps.id'')
      else if (s_runId s, s_ordinal s) \<in> (\<lambda>t. (s_runId t, s_ordinal t)) ` set (steps d)
        then Inl (sqlite_constraint ''steps.run_id, steps.ordinal'')
      else if (s_runId s, s_name s) \<in> (\<lambda>t. (s_runId t, s_name t)) ` set (steps d)
        then Inl (sqlite_constraint ''steps.run_id, steps.name'')
      else Inr (d\<lparr>steps := steps d @ [s]\<rparr>))"

fun insert_steps :: "step_row list \<Rightarrow> db \<Rightarrow> thrown + db" where
  "insert_steps [] d = Inr d"
| "insert_steps (s # ss) d = (case insert_step s d of Inl e \<Rightarrow> Inl e | Inr d' \<Rightarrow> insert_steps ss d')"

text \<open>The highest \<^verbatim>\<open>seq\<close> of the run's events plus one, \<^verbatim>\<open>COALESCE(MAX(seq), -1) + 1\<close>.\<close>

definition next_seq :: "db \<Rightarrow> run_id \<Rightarrow> nat" where
  "next_seq d rid = foldr (\<lambda>e n. if e_runId e = rid then max (Suc (e_seq e)) n else n) (events d) 0"

definition insert_event :: "event_row \<Rightarrow> db \<Rightarrow> thrown + db" where
  "insert_event e d =
     (if (e_runId e, e_seq e) \<in> (\<lambda>t. (e_runId t, e_seq t)) ` set (events d)
      then Inl (sqlite_constraint ''events.run_id, events.seq'')
      else Inr (d\<lparr>events := events d @ [e]\<rparr>))"

definition writeAudit :: "audit_row \<Rightarrow> db \<Rightarrow> db" where
  "writeAudit a d = d\<lparr>audit := audit d @ [a]\<rparr>"

definition run_audit :: "string \<Rightarrow> run_id \<Rightarrow> json option \<Rightarrow> audit_row" where
  "run_audit action rid detail =
     \<lparr>a_action = action, a_targetKind = None, a_targetId = None, a_runId = Some rid, a_detail = detail\<rparr>"

section \<open>Step statuses\<close>

text \<open>
  \<^verbatim>\<open>step-status.ts\<close>. The columns a status change carries are a function on the row that leaves the status
  alone; here each call names the ones it sets.
\<close>

definition setStepStatus ::
  "step_id \<Rightarrow> step_status \<Rightarrow> step_status \<Rightarrow> (step_row \<Rightarrow> step_row) \<Rightarrow> db \<Rightarrow> thrown + db" where
  "setStepStatus sid from to cols d =
     (case assertStepTransition from to of
        Inl e \<Rightarrow> Inl e
      | Inr _ \<Rightarrow> Inr (d\<lparr>steps := update_where (\<lambda>s. s_id s = sid) (\<lambda>s. cols (s\<lparr>s_status := to\<rparr>)) (steps d)\<rparr>))"

fun assert_all_transitions :: "step_status list \<Rightarrow> step_status \<Rightarrow> thrown + unit" where
  "assert_all_transitions [] to = Inr ()"
| "assert_all_transitions (f # fs) to =
     (case assertStepTransition f to of Inl e \<Rightarrow> Inl e | Inr _ \<Rightarrow> assert_all_transitions fs to)"

definition setStepStatusIn ::
  "run_id \<Rightarrow> step_status list \<Rightarrow> step_status \<Rightarrow> (step_row \<Rightarrow> step_row) \<Rightarrow> db \<Rightarrow> thrown + db" where
  "setStepStatusIn rid from to cols d =
     (case assert_all_transitions from to of
        Inl e \<Rightarrow> Inl e
      | Inr _ \<Rightarrow> Inr (d\<lparr>steps := update_where (\<lambda>s. s_runId s = rid \<and> s_status s \<in> set from)
                         (\<lambda>s. cols (s\<lparr>s_status := to\<rparr>)) (steps d)\<rparr>))"

section \<open>The process\<close>

text \<open>
  A run in flight is a frame: the \<^verbatim>\<open>AbortController\<close> and the \<^verbatim>\<open>RunContext\<close> of one call of \<^verbatim>\<open>execute\<close> (or of
  one streaming plan) with what its closure holds: the kind, the parsed parameters, the secrets, and while a step is in
  flight its row, its title, the rows the loop still has to walk and whether it is a cleanup run. \<^verbatim>\<open>active\<close> names the
  frame a cancel reaches.
\<close>

datatype work = Prologue | StepWork step_row string "step_row list" bool | PlanWork

record frame =
  f_id :: nat
  f_run :: run_id
  f_kind :: string
  f_params :: json
  f_secrets :: run_secrets
  f_aborted :: bool
  f_seq :: nat
  f_work :: work

record event_view =
  ev_seq :: nat
  ev_stream :: output_stream
  ev_text :: string
  ev_at :: nat

datatype log_level = LInfo | LWarn | LError

record exec =
  x_db :: db
  x_bus :: "(run_id \<times> event_view) list"
  x_log :: "(log_level \<times> run_id option \<times> string) list"
  x_secrets :: "(run_id \<times> run_secrets) list"
  x_registry :: registry
  x_active :: "(run_id \<times> nat) list"
  x_frames :: "frame list"
  x_nextFrame :: nat
  x_stopping :: bool
  x_warned :: "(run_id \<times> run_id list) list"
  x_clock :: nat
  x_minted :: nat

type_synonym 'a act = "(exec, 'a) comp"

definition onDb :: "(db \<Rightarrow> thrown + db) \<Rightarrow> unit act" where
  "onDb f st = (case f (x_db st) of Inl e \<Rightarrow> (Inl e, st) | Inr d \<Rightarrow> (Inr (), st\<lparr>x_db := d\<rparr>))"

definition setDb :: "(db \<Rightarrow> db) \<Rightarrow> unit act" where
  "setDb f = modify (\<lambda>st. st\<lparr>x_db := f (x_db st)\<rparr>)"

definition logLine :: "log_level \<Rightarrow> run_id option \<Rightarrow> string \<Rightarrow> unit act" where
  "logLine lvl rid msg = modify (\<lambda>st. st\<lparr>x_log := x_log st @ [(lvl, rid, msg)]\<rparr>)"

definition publish :: "run_id \<Rightarrow> event_view \<Rightarrow> unit act" where
  "publish rid e = modify (\<lambda>st. st\<lparr>x_bus := x_bus st @ [(rid, e)]\<rparr>)"

text \<open>\<^verbatim>\<open>run-meta.ts appendRunMeta\<close>.\<close>

definition appendRunMeta :: "run_id \<Rightarrow> string \<Rightarrow> unit act" where
  "appendRunMeta rid text = bindM (gets (\<lambda>st. st)) (\<lambda>st.
     (let seq = next_seq (x_db st) rid; line = redact (x_registry st) text in
      seqM [onDb (insert_event \<lparr>e_runId = rid, e_stepId = None, e_stream = Meta, e_seq = seq,
                    e_text = line, e_creation = x_clock st\<rparr>),
            publish rid \<lparr>ev_seq = seq, ev_stream = Meta, ev_text = line, ev_at = x_clock st\<rparr>]))"

section \<open>Facts about rows\<close>

definition rows_unique :: "db \<Rightarrow> bool" where
  "rows_unique d \<longleftrightarrow> distinct (map r_id (runs d)) \<and> distinct (map s_id (steps d)) \<and>
     distinct (map (\<lambda>s. (s_runId s, s_ordinal s)) (steps d)) \<and>
     distinct (map (\<lambda>s. (s_runId s, s_name s)) (steps d)) \<and>
     distinct (map (\<lambda>e. (e_runId e, e_seq e)) (events d))"

lemma next_seq_gt: "e \<in> set (events d) \<Longrightarrow> e_runId e = rid \<Longrightarrow> e_seq e < next_seq d rid"
proof -
  have "e \<in> set es \<Longrightarrow> e_runId e = rid \<Longrightarrow>
      e_seq e < foldr (\<lambda>e n. if e_runId e = rid then max (Suc (e_seq e)) n else n) es 0" for es
    by (induction es) auto
  then show "e \<in> set (events d) \<Longrightarrow> e_runId e = rid \<Longrightarrow> ?thesis" by (simp add: next_seq_def)
qed

lemma insert_event_next: "e_seq e = next_seq d (e_runId e) \<Longrightarrow> insert_event e d = Inr (d\<lparr>events := events d @ [e]\<rparr>)"
  by (auto simp: insert_event_def dest: next_seq_gt)

lemma get_run_update_run [db_simps]:
  "(\<And>r. r_id (f r) = r_id r) \<Longrightarrow>
   get_run (update_run rid f d) rid' = (if rid' = rid then map_option f (get_run d rid) else get_run d rid')"
proof -
  assume f: "\<And>r. r_id (f r) = r_id r"
  have *: "List.find (\<lambda>r. r_id r = rid') (update_where (\<lambda>r. r_id r = rid) f (runs d)) =
      map_option (\<lambda>x. if r_id x = rid then f x else x) (List.find (\<lambda>r. r_id r = rid') (runs d))"
    by (rule find_update_where_key) (simp add: f)
  then show ?thesis
  proof (cases "List.find (\<lambda>r. r_id r = rid') (runs d)")
    case (Some r)
    then have "r_id r = rid'" by (auto dest: find_Some_in)
    with * Some show ?thesis by (auto simp: get_run_def update_run_def)
  qed (auto simp: get_run_def update_run_def)
qed

lemma get_run_in: "get_run d rid = Some r \<Longrightarrow> r \<in> set (runs d) \<and> r_id r = rid"
  by (auto simp: get_run_def dest: find_Some_in)

lemma update_run_frame [simp]:
  "steps (update_run rid f d) = steps d" "events (update_run rid f d) = events d"
  "run_locks (update_run rid f d) = run_locks d" "audit (update_run rid f d) = audit d"
  "inventory (update_run rid f d) = inventory d"
  by (simp_all add: update_run_def)

lemma writeAudit_frame [simp]:
  "runs (writeAudit a d) = runs d" "steps (writeAudit a d) = steps d" "events (writeAudit a d) = events d"
  "run_locks (writeAudit a d) = run_locks d" "inventory (writeAudit a d) = inventory d"
  by (simp_all add: writeAudit_def)

lemma allStepRows_set: "set (allStepRows d rid) = {s \<in> set (steps d). s_runId s = rid}"
  by (auto simp: allStepRows_def)

lemma allStepRows_sorted: "sorted (map s_ordinal (allStepRows d rid))"
  by (simp add: allStepRows_def)

lemma assert_all_transitions_ok:
  "assert_all_transitions fs to = Inr u \<longleftrightarrow> (\<forall>f \<in> set fs. canStepTransition f to)"
proof (induction fs)
  case (Cons f fs)
  then show ?case
    by (cases "canStepTransition f to") (simp_all add: assertStepTransition_def)
qed simp

lemma setStepStatus_Inr:
  "setStepStatus sid from to cols d = Inr d' \<longleftrightarrow>
   canStepTransition from to \<and>
   d' = d\<lparr>steps := update_where (\<lambda>s. s_id s = sid) (\<lambda>s. cols (s\<lparr>s_status := to\<rparr>)) (steps d)\<rparr>"
  by (auto simp: setStepStatus_def assertStepTransition_def)

lemma assert_all_transitions_Inl:
  "assert_all_transitions fs to = Inl e \<Longrightarrow> \<exists>f \<in> set fs. \<not> canStepTransition f to"
  by (metis assert_all_transitions_ok sum.distinct(1))

lemma setStepStatusIn_Inr:
  "setStepStatusIn rid from to cols d = Inr d' \<longleftrightarrow>
   (\<forall>f \<in> set from. canStepTransition f to) \<and>
   d' = d\<lparr>steps := update_where (\<lambda>s. s_runId s = rid \<and> s_status s \<in> set from)
            (\<lambda>s. cols (s\<lparr>s_status := to\<rparr>)) (steps d)\<rparr>"
proof (cases "\<forall>f \<in> set from. canStepTransition f to")
  case True
  then have "assert_all_transitions from to = Inr ()" by (simp add: assert_all_transitions_ok)
  with True show ?thesis by (auto simp: setStepStatusIn_def)
next
  case False
  then have "\<And>u. assert_all_transitions from to \<noteq> Inr u" by (simp add: assert_all_transitions_ok)
  then obtain e where "assert_all_transitions from to = Inl e" by (cases "assert_all_transitions from to") auto
  with False show ?thesis by (simp add: setStepStatusIn_def)
qed

lemma onDb_app:
  "onDb f st = (case f (x_db st) of Inl e \<Rightarrow> (Inl e, st) | Inr d \<Rightarrow> (Inr (), st\<lparr>x_db := d\<rparr>))"
  by (simp add: onDb_def)

lemma pres_onDb: "(\<And>d d'. I d \<Longrightarrow> f d = Inr d' \<Longrightarrow> I d') \<Longrightarrow> pres (\<lambda>st. I (x_db st)) (onDb f)"
  by (auto simp: pres_def onDb_def split: sum.splits)

lemma pres_setDb: "(\<And>d. I d \<Longrightarrow> I (f d)) \<Longrightarrow> pres (\<lambda>st. I (x_db st)) (setDb f)"
  by (auto simp: pres_def setDb_def)

lemma keeps_onDb: "(\<And>d d'. f d = Inr d' \<Longrightarrow> g d' = g d) \<Longrightarrow> keeps (\<lambda>st. g (x_db st)) (onDb f)"
  by (auto simp: keeps_def onDb_def split: sum.splits)

lemma keeps_setDb: "(\<And>d. g (f d) = g d) \<Longrightarrow> keeps (\<lambda>st. g (x_db st)) (setDb f)"
  by (auto simp: keeps_def setDb_def)

lemma keeps_logLine [intro, simp]: "(\<And>st l. h (st\<lparr>x_log := l\<rparr>) = h st) \<Longrightarrow> keeps h (logLine lvl rid msg)"
  by (auto simp: keeps_def logLine_def)

lemma keeps_publish [intro, simp]: "(\<And>st l. h (st\<lparr>x_bus := l\<rparr>) = h st) \<Longrightarrow> keeps h (publish rid e)"
  by (auto simp: keeps_def publish_def)

lemma appendRunMeta_run:
  "appendRunMeta rid text st =
    (let seq = next_seq (x_db st) rid; line = redact (x_registry st) text;
         e = \<lparr>e_runId = rid, e_stepId = None, e_stream = Meta, e_seq = seq, e_text = line, e_creation = x_clock st\<rparr> in
     (Inr (), st\<lparr>x_db := (x_db st)\<lparr>events := events (x_db st) @ [e]\<rparr>,
                 x_bus := x_bus st @ [(rid, \<lparr>ev_seq = seq, ev_stream = Meta, ev_text = line, ev_at = x_clock st\<rparr>)]\<rparr>))"
  by (simp add: appendRunMeta_def Let_def bindM_def onDb_def insert_event_next publish_def)

end
