(* ===== verification/Locks.thy ===== *)
theory Locks
  imports Run_Store
begin

text \<open>
  The lock manager (\<^verbatim>\<open>executor/locks.ts\<close>): claims, conflicts, all-or-nothing acquisition, release and the
  boot-time repair. The locale \<open>lock_manager\<close> is the contract the queue and the recovery rely on, stated over the
  set of (run, claim) pairs a table holds; the interpretation discharges it for the model's tables.
\<close>

section \<open>Claims\<close>

definition claim :: "lock_resource \<Rightarrow> string \<Rightarrow> lock_claim" where
  "claim r k = \<lparr>c_resource = r, c_key = k\<rparr>"

definition deriveServerLocks :: "run_target_ref list \<Rightarrow> lock_claim list" where
  "deriveServerLocks targets = map (\<lambda>t. claim LServer (t_serverId t)) (filter t_ownsHost targets)"

definition isGlobalClaim :: "lock_claim \<Rightarrow> bool" where
  "isGlobalClaim c = ((c_resource c = LManager \<and> c_key c = ''self'') \<or> (c_resource c = LAll \<and> c_key c = ''*''))"

definition claim_text :: "lock_claim \<Rightarrow> string" where
  "claim_text c = show_resource (c_resource c) @ '':'' @ c_key c"

fun dedupe_from :: "string list \<Rightarrow> lock_claim list \<Rightarrow> lock_claim list" where
  "dedupe_from seen [] = []"
| "dedupe_from seen (c # cs) =
     (if claim_text c \<in> set seen then dedupe_from seen cs
      else c # dedupe_from (claim_text c # seen) cs)"

definition dedupeClaims :: "lock_claim list \<Rightarrow> lock_claim list" where
  "dedupeClaims cs = dedupe_from [] cs"

text \<open>A claim that is taken, by a run holding it or by a queued run ahead in line.\<close>

record taken_claim = lock_claim +
  tk_runId :: run_id

definition taken :: "run_id \<Rightarrow> lock_claim \<Rightarrow> taken_claim" where
  "taken rid c = \<lparr>c_resource = c_resource c, c_key = c_key c, tk_runId = rid\<rparr>"

definition taken_claim_of :: "taken_claim \<Rightarrow> lock_claim" where
  "taken_claim_of t = claim (c_resource t) (c_key t)"

definition lockConflicts :: "taken_claim list \<Rightarrow> lock_claim list \<Rightarrow> taken_claim list" where
  "lockConflicts ts claims =
     (if claims = [] then []
      else let global = filter (\<lambda>t. isGlobalClaim (taken_claim_of t)) ts in
        if global \<noteq> [] then global
        else if list_ex isGlobalClaim claims then ts
        else filter (\<lambda>t. list_ex (\<lambda>c. c_resource c = c_resource t \<and> c_key c = c_key t) claims) ts)"

section \<open>The lock table\<close>

definition live_locks :: "db \<Rightarrow> lock_row list" where
  "live_locks d = filter (\<lambda>l. l_deleted l = None) (run_locks d)"

definition lock_claim_of :: "lock_row \<Rightarrow> lock_claim" where
  "lock_claim_of l = claim (l_resource l) (l_key l)"

definition taken_of :: "lock_row \<Rightarrow> taken_claim" where
  "taken_of l = taken (l_runId l) (lock_claim_of l)"

text \<open>The unique index over the locks not released refuses a second holder.\<close>

definition new_lock :: "nat \<Rightarrow> lock_claim \<Rightarrow> run_id \<Rightarrow> lock_row" where
  "new_lock now c rid = \<lparr>l_resource = c_resource c, l_key = c_key c, l_runId = rid, l_creation = now, l_deleted = None\<rparr>"

definition insertLock :: "nat \<Rightarrow> lock_claim \<Rightarrow> run_id \<Rightarrow> db \<Rightarrow> thrown + db" where
  "insertLock now c rid d =
     (if list_ex (\<lambda>l. l_resource l = c_resource c \<and> l_key l = c_key c) (live_locks d)
      then Inl (sqlite_constraint ''run_locks.resource, run_locks.key'')
      else Inr (d\<lparr>run_locks := run_locks d @
        [new_lock now c rid]\<rparr>))"

fun insertLocks :: "nat \<Rightarrow> lock_claim list \<Rightarrow> run_id \<Rightarrow> db \<Rightarrow> thrown + db" where
  "insertLocks now [] rid d = Inr d"
| "insertLocks now (c # cs) rid d =
     (case insertLock now c rid d of Inl e \<Rightarrow> Inl e | Inr d' \<Rightarrow> insertLocks now cs rid d')"

definition acquireLocks :: "nat \<Rightarrow> run_id \<Rightarrow> lock_claim list \<Rightarrow> db \<Rightarrow> thrown + db" where
  "acquireLocks now rid rawClaims d =
     (let all = live_locks d;
          missing = filter (\<lambda>c. \<not> list_ex (\<lambda>l. l_runId l = rid \<and> l_resource l = c_resource c \<and> l_key l = c_key c) all)
                      (dedupeClaims rawClaims)
      in case lockConflicts (map taken_of (filter (\<lambda>l. l_runId l \<noteq> rid) all)) missing of
           held # _ \<Rightarrow> Inl (App (ResourceBusy ''Resource busy'' (show_resource (c_resource held)) (c_key held) (tk_runId held)))
         | [] \<Rightarrow> insertLocks now missing rid d)"

definition releaseLocks :: "nat \<Rightarrow> run_id \<Rightarrow> db \<Rightarrow> db" where
  "releaseLocks now rid d =
     d\<lparr>run_locks := update_where (\<lambda>l. l_runId l = rid \<and> l_deleted l = None) (\<lambda>l. l\<lparr>l_deleted := Some now\<rparr>) (run_locks d)\<rparr>"

definition listLocks :: "db \<Rightarrow> (lock_resource \<times> string \<times> run_id \<times> nat) list" where
  "listLocks d = map (\<lambda>l. (l_resource l, l_key l, l_runId l, l_creation l)) (live_locks d)"

definition may_hold_locks :: "db \<Rightarrow> run_id list" where
  "may_hold_locks d = map r_id (filter (\<lambda>r. r_status r \<in> {RApproved, RRunning, RFailed, RCancelled}) (runs d))"

definition reconcileLocks :: "nat \<Rightarrow> db \<Rightarrow> db" where
  "reconcileLocks now d =
     d\<lparr>run_locks := update_where (\<lambda>l. l_deleted l = None \<and> l_runId l \<notin> set (may_hold_locks d))
         (\<lambda>l. l\<lparr>l_deleted := Some now\<rparr>) (run_locks d)\<rparr>"

section \<open>What the table promises\<close>

text \<open>Two claims conflict when they name the same thing or one of them is global.\<close>

definition conflict :: "lock_claim \<Rightarrow> lock_claim \<Rightarrow> bool" where
  "conflict c e \<longleftrightarrow> isGlobalClaim c \<or> isGlobalClaim e \<or> c = e"

definition held :: "db \<Rightarrow> (run_id \<times> lock_claim) set" where
  "held d = (\<lambda>l. (l_runId l, lock_claim_of l)) ` set (live_locks d)"

definition locks_ok :: "db \<Rightarrow> bool" where
  "locks_ok d \<longleftrightarrow> distinct (map lock_claim_of (live_locks d)) \<and>
     (\<forall>(r, c) \<in> held d. \<forall>(r', e) \<in> held d. r \<noteq> r' \<longrightarrow> \<not> conflict c e)"

locale lock_manager =
  fixes acquire :: "'r \<Rightarrow> 'c list \<Rightarrow> 't \<Rightarrow> thrown + 't"
    and release :: "'r \<Rightarrow> 't \<Rightarrow> 't"
    and holds :: "'t \<Rightarrow> ('r \<times> 'c) set"
    and clash :: "'c \<Rightarrow> 'c \<Rightarrow> bool"
    and inv :: "'t \<Rightarrow> bool"
  assumes inv_exclusive: "inv t \<Longrightarrow> (r, c) \<in> holds t \<Longrightarrow> (r', e) \<in> holds t \<Longrightarrow> r \<noteq> r' \<Longrightarrow> \<not> clash c e"
    and acquire_ok: "inv t \<Longrightarrow> acquire r cs t = Inr t' \<Longrightarrow> inv t' \<and> holds t' = holds t \<union> {r} \<times> set cs"
    and acquire_free: "inv t \<Longrightarrow> (\<And>r' e c. (r', e) \<in> holds t \<Longrightarrow> r' \<noteq> r \<Longrightarrow> c \<in> set cs \<Longrightarrow> (r, c) \<notin> holds t \<Longrightarrow> \<not> clash c e) \<Longrightarrow>
        \<exists>t'. acquire r cs t = Inr t'"
    and acquire_taken: "inv t \<Longrightarrow> (r', e) \<in> holds t \<Longrightarrow> r' \<noteq> r \<Longrightarrow> c \<in> set cs \<Longrightarrow> (r, c) \<notin> holds t \<Longrightarrow> clash c e \<Longrightarrow>
        \<exists>x. acquire r cs t = Inl x"
    and inv_release: "inv t \<Longrightarrow> inv (release r t)"
    and holds_release: "holds (release r t) = {p \<in> holds t. fst p \<noteq> r}"
begin

text \<open>A run that holds all its claims acquires them again, whoever else holds what.\<close>

lemma reacquire:
  assumes "inv t" and "{r} \<times> set cs \<subseteq> holds t"
  shows "\<exists>t'. acquire r cs t = Inr t' \<and> inv t' \<and> holds t' = holds t"
proof -
  have "\<exists>t'. acquire r cs t = Inr t'" using assms by (intro acquire_free) auto
  then obtain t' where t': "acquire r cs t = Inr t'" ..
  with acquire_ok [OF assms(1)] assms(2) show ?thesis by blast
qed

lemma blocked_while_held:
  assumes "inv t" and "acquire r cs t = Inr t'" and "c \<in> set cs" and "e \<in> set es" and "clash e c"
    and "r' \<noteq> r" and "(r', e) \<notin> holds t'"
  shows "\<exists>x. acquire r' es t' = Inl x"
  using acquire_ok [OF assms(1,2)] assms(3-7) by (intro acquire_taken [where r' = r and e = c and c = e]) auto

lemma free_after_release:
  assumes "inv t" and "\<And>r' e. (r', e) \<in> holds t \<Longrightarrow> r' = r"
  shows "\<exists>t'. acquire q cs (release r t) = Inr t'"
  using assms by (intro acquire_free inv_release) (auto simp: holds_release)

lemma released: "(r, c) \<notin> holds (release r t)"
  by (simp add: holds_release)

end

lemma locks_okI:
  "distinct (map lock_claim_of (live_locks d)) \<Longrightarrow>
   (\<And>r c r' e. (r, c) \<in> held d \<Longrightarrow> (r', e) \<in> held d \<Longrightarrow> r \<noteq> r' \<Longrightarrow> \<not> conflict c e) \<Longrightarrow> locks_ok d"
  by (auto simp: locks_ok_def)

lemma locks_okD: "locks_ok d \<Longrightarrow> (r, c) \<in> held d \<Longrightarrow> (r', e) \<in> held d \<Longrightarrow> conflict c e \<Longrightarrow> r = r'"
  by (auto simp: locks_ok_def)

section \<open>Claims as sets\<close>

lemma show_resource_colon: "CHR '':'' \<notin> set (show_resource r)"
  by (cases r) simp_all

lemma append_sep_inject:
  "x \<notin> set a \<Longrightarrow> x \<notin> set b \<Longrightarrow> a @ x # s = b @ x # t \<longleftrightarrow> a = b \<and> s = t"
  by (induction a arbitrary: b) (case_tac b; auto)+

lemma show_resource_inject [simp]: "show_resource a = show_resource b \<longleftrightarrow> a = b"
  by (cases a; cases b) simp_all

lemma claim_text_inject [simp]: "claim_text c = claim_text e \<longleftrightarrow> c = (e :: lock_claim)"
  using append_sep_inject [of "CHR '':''" "show_resource (c_resource c)" "show_resource (c_resource e)" "c_key c" "c_key e"]
  by (auto simp: claim_text_def show_resource_colon intro: lock_claim.equality)

lemma dedupe_from_set: "set (dedupe_from (map claim_text seen) cs) = set cs - set seen"
proof (induction cs arbitrary: seen)
  case (Cons c cs)
  from Cons.IH [of "c # seen"] Cons.IH [of seen] show ?case by (auto simp: image_iff)
qed simp

lemma dedupe_from_distinct: "distinct (dedupe_from (map claim_text seen) cs)"
proof (induction cs arbitrary: seen)
  case (Cons c cs)
  from Cons.IH [of "c # seen"] Cons.IH [of seen] dedupe_from_set [of "c # seen" cs] show ?case by auto
qed simp

lemma set_dedupeClaims [simp]: "set (dedupeClaims cs) = set cs"
  using dedupe_from_set [of "[]" cs] by (simp add: dedupeClaims_def)

lemma distinct_dedupeClaims [simp]: "distinct (dedupeClaims cs)"
  using dedupe_from_distinct [of "[]" cs] by (simp add: dedupeClaims_def)

lemma claim_eq_iff: "claim r k = c \<longleftrightarrow> c_resource c = r \<and> c_key c = k"
  by (auto simp: claim_def)

lemma claim_of_sel [simp]: "claim (c_resource c) (c_key c) = c"
  by (simp add: claim_def)

lemma new_lock_sel [simp]: "lock_claim_of (new_lock now c rid) = c" "l_runId (new_lock now c rid) = rid"
    "l_deleted (new_lock now c rid) = None"
  by (simp_all add: new_lock_def lock_claim_of_def)

lemma claim_sel [simp]: "c_resource (claim r k) = r" "c_key (claim r k) = k"
  by (simp_all add: claim_def)

lemma taken_claim_of_taken [simp]: "taken_claim_of (taken rid c) = c"
  by (simp add: taken_claim_of_def taken_def claim_eq_iff)

lemma tk_runId_taken [simp]: "tk_runId (taken rid c) = rid"
  by (simp add: taken_def)

lemma conflict_sym: "conflict c e \<longleftrightarrow> conflict e c"
  by (auto simp: conflict_def)

lemma lockConflicts_subset: "set (lockConflicts ts cs) \<subseteq> set ts"
  by (auto simp: lockConflicts_def Let_def)

lemma eq_taken_claim_of: "c = taken_claim_of t \<longleftrightarrow> c_resource c = c_resource t \<and> c_key c = c_key t"
  by (auto simp: taken_claim_of_def claim_def)

lemma lockConflicts_alt:
  "lockConflicts ts cs = (if cs = [] then []
     else if \<exists>t \<in> set ts. isGlobalClaim (taken_claim_of t) then filter (\<lambda>t. isGlobalClaim (taken_claim_of t)) ts
     else filter (\<lambda>t. \<exists>c \<in> set cs. conflict c (taken_claim_of t)) ts)"
proof -
  have "list_ex (\<lambda>c. c_resource c = c_resource t \<and> c_key c = c_key t) cs \<longleftrightarrow> taken_claim_of t \<in> set cs" for t
    unfolding list_ex_iff eq_taken_claim_of [symmetric] by auto
  moreover have "ts = filter (\<lambda>t. \<exists>c \<in> set cs. conflict c (taken_claim_of t)) ts" if "list_ex isGlobalClaim cs"
    using that by (induction ts) (auto simp: list_ex_iff conflict_def)
  ultimately show ?thesis
    by (auto simp: lockConflicts_def Let_def filter_empty_conv list_ex_iff conflict_def intro!: filter_cong)
qed

lemma lockConflicts_Nil_iff:
  "lockConflicts ts cs = [] \<longleftrightarrow> (\<forall>t \<in> set ts. \<forall>c \<in> set cs. \<not> conflict c (taken_claim_of t))"
  by (cases cs) (auto simp: lockConflicts_alt filter_empty_conv conflict_def)

lemma lockConflicts_real:
  "t \<in> set (lockConflicts ts cs) \<Longrightarrow> \<exists>c \<in> set cs. conflict c (taken_claim_of t)"
  by (cases cs) (auto simp: lockConflicts_alt conflict_def split: if_splits)

section \<open>The table keeps its promises\<close>

lemma live_locks_run_locks_update [simp]:
  "live_locks (d\<lparr>run_locks := ls\<rparr>) = filter (\<lambda>l. l_deleted l = None) ls"
  by (simp add: live_locks_def)

lemma insertLock_Inr:
  "insertLock now c rid d = Inr d' \<longleftrightarrow> c \<notin> lock_claim_of ` set (live_locks d) \<and>
   d' = d\<lparr>run_locks := run_locks d @ [new_lock now c rid]\<rparr>"
  by (auto simp: insertLock_def list_ex_iff lock_claim_of_def claim_eq_iff image_iff) (metis claim_eq_iff)

lemma insertLocks_ok:
  "distinct cs \<Longrightarrow> set cs \<inter> lock_claim_of ` set (live_locks d) = {} \<Longrightarrow>
   \<exists>d'. insertLocks now cs rid d = Inr d'"
proof (induction cs arbitrary: d)
  case (Cons c cs)
  let ?l = "new_lock now c rid"
  have ins: "insertLock now c rid d = Inr (d\<lparr>run_locks := run_locks d @ [?l]\<rparr>)"
    using Cons.prems by (auto simp: insertLock_Inr)
  have "\<exists>d'. insertLocks now cs rid (d\<lparr>run_locks := run_locks d @ [?l]\<rparr>) = Inr d'"
    using Cons.prems by (intro Cons.IH) (auto simp: live_locks_def)
  with ins show ?case by simp
qed simp

lemma insertLocks_Inr:
  assumes "insertLocks now cs rid d = Inr d'"
  shows "live_locks d' = live_locks d @ map (\<lambda>c. new_lock now c rid) cs
    \<and> runs d' = runs d \<and> steps d' = steps d \<and> events d' = events d \<and> audit d' = audit d \<and> inventory d' = inventory d"
  using assms
  by (induction cs arbitrary: d) (auto simp: insertLock_Inr live_locks_def split: sum.splits)

lemma insertLocks_held:
  "insertLocks now cs rid d = Inr d' \<Longrightarrow> held d' = held d \<union> {rid} \<times> set cs"
  by (drule insertLocks_Inr) (force simp: held_def)

lemma insertLocks_distinct:
  "insertLocks now cs rid d = Inr d' \<Longrightarrow> distinct (map lock_claim_of (live_locks d)) \<Longrightarrow>
   distinct (map lock_claim_of (live_locks d'))"
  by (induction cs arbitrary: d) (auto simp: insertLock_Inr live_locks_def split: sum.splits)

definition missing_claims :: "run_id \<Rightarrow> lock_claim list \<Rightarrow> db \<Rightarrow> lock_claim list" where
  "missing_claims rid cs d = filter (\<lambda>c. (rid, c) \<notin> held d) (dedupeClaims cs)"

lemma acquireLocks_alt:
  "acquireLocks now rid cs d =
    (case lockConflicts (map taken_of (filter (\<lambda>l. l_runId l \<noteq> rid) (live_locks d))) (missing_claims rid cs d) of
       t # _ \<Rightarrow> Inl (App (ResourceBusy ''Resource busy'' (show_resource (c_resource t)) (c_key t) (tk_runId t)))
     | [] \<Rightarrow> insertLocks now (missing_claims rid cs d) rid d)"
proof -
  have *: "filter (\<lambda>c. \<not> list_ex (\<lambda>l. l_runId l = rid \<and> l_resource l = c_resource c \<and> l_key l = c_key c) (live_locks d)) (dedupeClaims cs)
      = missing_claims rid cs d"
    unfolding missing_claims_def
    by (rule filter_cong) (auto simp: held_def list_ex_iff lock_claim_of_def claim_eq_iff image_iff)
  show ?thesis unfolding acquireLocks_def Let_def * by (rule refl)
qed

lemma conflicts_of_others_Nil_iff:
  "lockConflicts (map taken_of (filter (\<lambda>l. l_runId l \<noteq> rid) (live_locks d))) cs = [] \<longleftrightarrow>
   (\<forall>(r, e) \<in> held d. r \<noteq> rid \<longrightarrow> (\<forall>c \<in> set cs. \<not> conflict c e))"
  by (auto simp: lockConflicts_Nil_iff held_def taken_of_def)

lemma set_missing_claims [simp]: "set (missing_claims rid cs d) = {c \<in> set cs. (rid, c) \<notin> held d}"
  by (auto simp: missing_claims_def)

lemma acquireLocks_success_iff:
  assumes "locks_ok d"
  shows "(\<exists>d'. acquireLocks now rid cs d = Inr d') \<longleftrightarrow>
    (\<forall>(r, e) \<in> held d. r \<noteq> rid \<longrightarrow> (\<forall>c \<in> set cs. (rid, c) \<notin> held d \<longrightarrow> \<not> conflict c e))"
    (is "?l \<longleftrightarrow> ?r")
proof
  assume ?l
  then show ?r
    by (auto simp: acquireLocks_alt conflicts_of_others_Nil_iff split: list.splits)
next
  assume r: ?r
  then have "lockConflicts (map taken_of (filter (\<lambda>l. l_runId l \<noteq> rid) (live_locks d))) (missing_claims rid cs d) = []"
    by (auto simp: conflicts_of_others_Nil_iff)
  moreover have "\<exists>d'. insertLocks now (missing_claims rid cs d) rid d = Inr d'"
  proof (rule insertLocks_ok)
    show "distinct (missing_claims rid cs d)" by (simp add: missing_claims_def)
    show "set (missing_claims rid cs d) \<inter> lock_claim_of ` set (live_locks d) = {}"
      using r by (fastforce simp: held_def conflict_def)
  qed
  ultimately show ?l by (simp add: acquireLocks_alt)
qed

lemma acquireLocks_ok:
  assumes ok: "locks_ok d" and acq: "acquireLocks now rid cs d = Inr d'"
  shows "locks_ok d'" and "held d' = held d \<union> {rid} \<times> set cs"
proof -
  from acq have nc: "lockConflicts (map taken_of (filter (\<lambda>l. l_runId l \<noteq> rid) (live_locks d))) (missing_claims rid cs d) = []"
    and ins: "insertLocks now (missing_claims rid cs d) rid d = Inr d'"
    by (auto simp: acquireLocks_alt split: list.splits)
  from insertLocks_held [OF ins] show h: "held d' = held d \<union> {rid} \<times> set cs" by auto
  have "distinct (map lock_claim_of (live_locks d'))"
    using insertLocks_distinct [OF ins] ok by (simp add: locks_ok_def)
  moreover have "\<not> conflict c e" if "(r, c) \<in> held d'" "(r', e) \<in> held d'" "r \<noteq> r'" for r c r' e
  proof -
    from ok have old: "\<And>r c r' e. (r, c) \<in> held d \<Longrightarrow> (r', e) \<in> held d \<Longrightarrow> r \<noteq> r' \<Longrightarrow> \<not> conflict c e"
      by (auto simp: locks_ok_def)
    from nc have new: "\<And>r e c. (r, e) \<in> held d \<Longrightarrow> r \<noteq> rid \<Longrightarrow> c \<in> set (missing_claims rid cs d) \<Longrightarrow> \<not> conflict c e"
      unfolding conflicts_of_others_Nil_iff by blast
    have split: "(q, f) \<in> held d' \<Longrightarrow> (q, f) \<in> held d \<or> q = rid \<and> f \<in> set (missing_claims rid cs d)" for q f
      using insertLocks_held [OF ins] by auto
    from split [OF that(1)] split [OF that(2)] that(3) show ?thesis
      using old [of r c r' e] new [of r c e] new [of r' e c] by (auto simp: conflict_sym [of c e])
  qed
  ultimately show "locks_ok d'" by (auto simp: locks_ok_def)
qed

lemma live_locks_release: "live_locks (releaseLocks now rid d) = filter (\<lambda>l. l_runId l \<noteq> rid) (live_locks d)"
proof -
  have "filter (\<lambda>l. l_deleted l = None) (update_where (\<lambda>l. l_runId l = rid \<and> l_deleted l = None) (\<lambda>l. l\<lparr>l_deleted := Some now\<rparr>) ls)
     = filter (\<lambda>l. l_runId l \<noteq> rid) (filter (\<lambda>l. l_deleted l = None) ls)" for ls
    by (induction ls) auto
  then show ?thesis by (simp add: releaseLocks_def live_locks_def)
qed

lemma held_release: "held (releaseLocks now rid d) = {p \<in> held d. fst p \<noteq> rid}"
  by (simp add: held_def live_locks_release Compr_image_eq)

lemma locks_ok_release:
  assumes "locks_ok d"
  shows "locks_ok (releaseLocks now rid d)"
proof -
  have "distinct (map lock_claim_of (live_locks (releaseLocks now rid d)))"
    using assms by (simp add: locks_ok_def live_locks_release distinct_map_filter)
  moreover have "held (releaseLocks now rid d) \<subseteq> held d" by (auto simp: held_release)
  ultimately show ?thesis using assms by (auto intro!: locks_okI dest: locks_okD)
qed

interpretation run_locks: lock_manager "acquireLocks now" "releaseLocks now" held conflict locks_ok for now
proof unfold_locales
  show "\<not> conflict c e" if "locks_ok t" "(r, c) \<in> held t" "(r', e) \<in> held t" "r \<noteq> r'" for t r c r' e
    using that by (auto simp: locks_ok_def)
  show "locks_ok t' \<and> held t' = held t \<union> {r} \<times> set cs" if "locks_ok t" "acquireLocks now r cs t = Inr t'" for t r cs t'
    using acquireLocks_ok [OF that] by simp
  show "\<exists>t'. acquireLocks now r cs t = Inr t'" if "locks_ok t"
    "\<And>r' e c. (r', e) \<in> held t \<Longrightarrow> r' \<noteq> r \<Longrightarrow> c \<in> set cs \<Longrightarrow> (r, c) \<notin> held t \<Longrightarrow> \<not> conflict c e" for t r cs
    using that by (auto simp: acquireLocks_success_iff)
  show "\<exists>x. acquireLocks now r cs t = Inl x" if "locks_ok t" "(r', e) \<in> held t" "r' \<noteq> r" "c \<in> set cs"
    "(r, c) \<notin> held t" "conflict c e" for t r' e r c cs
    using that acquireLocks_success_iff [of t now r cs] by (cases "acquireLocks now r cs t") auto
qed (simp_all add: locks_ok_release held_release)

lemma acquireLocks_frame:
  "acquireLocks now rid cs d = Inr d' \<Longrightarrow>
   runs d' = runs d \<and> steps d' = steps d \<and> events d' = events d \<and> audit d' = audit d \<and> inventory d' = inventory d"
  by (auto simp: acquireLocks_alt split: list.splits dest: insertLocks_Inr)

lemma releaseLocks_frame [simp]:
  "runs (releaseLocks now rid d) = runs d" "steps (releaseLocks now rid d) = steps d"
  "events (releaseLocks now rid d) = events d" "audit (releaseLocks now rid d) = audit d"
  "inventory (releaseLocks now rid d) = inventory d"
  by (simp_all add: releaseLocks_def)

lemma live_locks_reconcile:
  "live_locks (reconcileLocks now d) = filter (\<lambda>l. l_runId l \<in> set (may_hold_locks d)) (live_locks d)"
proof -
  have "filter (\<lambda>l. l_deleted l = None) (update_where (\<lambda>l. l_deleted l = None \<and> l_runId l \<notin> M) (\<lambda>l. l\<lparr>l_deleted := Some now\<rparr>) ls)
     = filter (\<lambda>l. l_runId l \<in> M) (filter (\<lambda>l. l_deleted l = None) ls)" for ls M
    by (induction ls) auto
  then show ?thesis by (simp add: reconcileLocks_def live_locks_def)
qed

lemma held_cong: "run_locks d = run_locks d' \<Longrightarrow> held d = held d'"
  by (simp add: held_def live_locks_def)

lemma locks_ok_cong: "run_locks d = run_locks d' \<Longrightarrow> locks_ok d = locks_ok d'"
  by (simp add: locks_ok_def held_def live_locks_def)

section \<open>Properties\<close>

text \<open>
  C3 Taking locks is all or nothing, and is refused exactly when another run holds a lock that conflicts with a claim this
  run does not hold yet. A successful take adds exactly the claims and keeps the table exclusive.
\<close>

theorem acquireLocks_decides:
  assumes "locks_ok d"
  shows "case acquireLocks now rid cs d of
      Inr d' \<Rightarrow> locks_ok d' \<and> held d' = held d \<union> {rid} \<times> set cs \<and> runs d' = runs d
    | Inl e \<Rightarrow> \<exists>r x c. (r, x) \<in> held d \<and> r \<noteq> rid \<and> c \<in> set cs \<and> (rid, c) \<notin> held d \<and> conflict c x"
proof (cases "acquireLocks now rid cs d")
  case (Inl e)
  then have "\<not> (\<exists>d'. acquireLocks now rid cs d = Inr d')" by simp
  then have "\<exists>p \<in> held d. fst p \<noteq> rid \<and> (\<exists>c \<in> set cs. (rid, c) \<notin> held d \<and> conflict c (snd p))"
    unfolding acquireLocks_success_iff [OF assms] by (simp add: split_beta)
  then obtain p c where "p \<in> held d" "fst p \<noteq> rid" "c \<in> set cs" "(rid, c) \<notin> held d" "conflict c (snd p)" by blast
  then have "\<exists>r x c. (r, x) \<in> held d \<and> r \<noteq> rid \<and> c \<in> set cs \<and> (rid, c) \<notin> held d \<and> conflict c x"
    by (intro exI [of _ "fst p"] exI [of _ "snd p"] exI [of _ c]) simp
  then show ?thesis by (simp only: Inl sum.case)
next
  case (Inr d')
  then show ?thesis using acquireLocks_ok [OF assms Inr] acquireLocks_frame [OF Inr] by simp
qed

theorem acquireLocks_decides_witness:
  "let c = \<lparr>c_resource = LServer, c_key = ''s1''\<rparr>;
       d = \<lparr>runs = [], steps = [], events = [], run_locks = [new_lock 0 c ''run_1''], audit = [], inventory = \<lparr>servers = [], inv_rest = JNull\<rparr>\<rparr>
   in locks_ok d \<and> (\<exists>e. acquireLocks 1 ''run_2'' [c] d = Inl e)"
proof -
  let ?c = "\<lparr>c_resource = LServer, c_key = ''s1''\<rparr>"
  let ?d = "\<lparr>runs = [], steps = [], events = [], run_locks = [new_lock 0 ?c ''run_1''], audit = [], inventory = \<lparr>servers = [], inv_rest = JNull\<rparr>\<rparr>"
  have "live_locks ?d = [new_lock 0 ?c ''run_1'']" by (simp add: live_locks_def new_lock_def)
  then have ok: "locks_ok ?d" and h: "held ?d = {(''run_1'', ?c)}" by (simp_all add: locks_ok_def held_def)
  have "\<exists>e. acquireLocks 1 ''run_2'' [?c] ?d = Inl e"
  proof (cases "acquireLocks 1 ''run_2'' [?c] ?d")
    case (Inr d')
    with acquireLocks_decides [OF ok, where now = 1 and rid = "''run_2''" and cs = "[?c]"] h have "locks_ok d'" "(''run_1'', ?c) \<in> held d'" "(''run_2'', ?c) \<in> held d'"
      by simp_all
    from locks_okD [OF this] show ?thesis by (simp add: conflict_def)
  qed simp
  with ok show ?thesis by (simp add: Let_def)
qed

text \<open>
  A run that took its locks shuts every other run out of whatever conflicts with one of them, until it releases them;
  once it does, and no other run holds anything, any run can take any locks.
\<close>

lemma lock_excludes_until_released:
  assumes "locks_ok d" and "acquireLocks now r cs d = Inr d'" and "c \<in> set cs" and "e \<in> set es" and "conflict e c"
    and "r' \<noteq> r" and "(r', e) \<notin> held d'"
  shows "(\<exists>x. acquireLocks now r' es d' = Inl x) \<and>
    ((\<forall>q f. (q, f) \<in> held d' \<longrightarrow> q = r) \<longrightarrow> (\<exists>d2. acquireLocks now r' es (releaseLocks now r d') = Inr d2))"
  using run_locks.blocked_while_held [OF assms] run_locks.free_after_release [of d' r now r' es] acquireLocks_ok(1) [OF assms(1,2)]
  by blast

text \<open>
  The boot's reconciliation takes away exactly the locks of runs that may hold none: an approved, running, failed or
  cancelled run keeps every lock it held, every other run keeps none.
\<close>

lemma reconcileLocks_exactly:
  "(r, c) \<in> held (reconcileLocks now d) \<longleftrightarrow> (r, c) \<in> held d \<and>
     (\<exists>row \<in> set (runs d). r_id row = r \<and> r_status row \<in> {RApproved, RRunning, RFailed, RCancelled})"
proof -
  have "(r \<in> set (may_hold_locks d)) = (\<exists>row \<in> set (runs d). r_id row = r \<and> r_status row \<in> {RApproved, RRunning, RFailed, RCancelled})"
    by (auto simp: may_hold_locks_def)
  moreover have "held (reconcileLocks now d) = {p \<in> held d. fst p \<in> set (may_hold_locks d)}"
    by (auto simp: held_def live_locks_reconcile)
  ultimately show ?thesis by simp
qed

end
