(* ===== verification/Queue.thy ===== *)
theory Queue
  imports Locks "HOL-Library.Product_Lexorder"
begin

text \<open>
  The run queue (\<^verbatim>\<open>executor/queue.ts\<close>): the approved runs that wait for their locks, in line order. The queue is
  the runs table; whether a run still holds the secrets typed at its approve is asked of the process.

  The specification \<open>starts\<close> says declaratively which runs of a line may start: those that hold their secrets and
  conflict neither with a held lock nor with the claims of a run ahead in line. \<open>startQueuedRuns_refines\<close> shows the
  code starts exactly these.
\<close>

section \<open>The line\<close>

definition planClaims :: "plan_snapshot \<Rightarrow> lock_claim list" where
  "planClaims p = dedupeClaims (deriveServerLocks (opt_default (defaultTargets p) (p_targets p)) @ opt_default [] (p_locks p))"

record queued_view =
  q_runId :: run_id
  q_kind :: string
  q_targetKind :: string
  q_targetId :: string
  q_place :: nat
  q_approvedAt :: nat
  q_needsSecrets :: bool
  q_waitsFor :: "taken_claim list"

record queue_slot =
  qs_view :: queued_view
  qs_claims :: "lock_claim list"
  qs_owner :: string

text \<open>\<^verbatim>\<open>asc(approvedAt), asc(id)\<close>; a missing time sorts first.\<close>

definition line_key :: "run_row \<Rightarrow> nat \<times> string" where
  "line_key r = ((case r_approvedAt r of None \<Rightarrow> 0 | Some t \<Rightarrow> Suc t), r_id r)"

definition queued_rows :: "db \<Rightarrow> run_row list" where
  "queued_rows d = sort_key line_key (filter (\<lambda>r. r_status r = RQueued \<and> r_deleted r = None) (runs d))"

text \<open>Reading a plan off a row that holds none is a type error, as it is in JavaScript.\<close>

fun snap_of :: "plan_json option \<Rightarrow> thrown + plan_snapshot" where
  "snap_of (Some (PlanSnap p)) = Inr p"
| "snap_of _ = Inl type_error"

fun with_plans :: "run_row list \<Rightarrow> thrown + (run_row \<times> plan_snapshot) list" where
  "with_plans [] = Inr []"
| "with_plans (r # rs) =
     (case snap_of (r_plan r) of
        Inl e \<Rightarrow> Inl e
      | Inr p \<Rightarrow> (case with_plans rs of Inl e \<Rightarrow> Inl e | Inr rps \<Rightarrow> Inr ((r, p) # rps)))"

definition needs_secrets :: "(run_id \<Rightarrow> bool) \<Rightarrow> run_row \<times> plan_snapshot \<Rightarrow> bool" where
  "needs_secrets hasSecrets rp = (p_requiredSecrets (snd rp) \<noteq> [] \<and> \<not> hasSecrets (r_id (fst rp)))"

definition slot_of :: "(run_id \<Rightarrow> bool) \<Rightarrow> nat \<Rightarrow> taken_claim list \<Rightarrow> run_row \<times> plan_snapshot \<Rightarrow> queue_slot" where
  "slot_of hasSecrets i ts rp =
     (let r = fst rp; claims = planClaims (snd rp);
          needs = needs_secrets hasSecrets rp;
          waits = (if needs then [] else lockConflicts ts claims)
      in \<lparr>qs_view = \<lparr>q_runId = r_id r, q_kind = r_kind r, q_targetKind = r_targetKind r,
             q_targetId = r_targetId r, q_place = i + 1,
             q_approvedAt = opt_default 0 (r_approvedAt r), q_needsSecrets = needs, q_waitsFor = waits\<rparr>,
          qs_claims = claims, qs_owner = r_owner r\<rparr>)"

definition reserved :: "(run_id \<Rightarrow> bool) \<Rightarrow> run_row \<times> plan_snapshot \<Rightarrow> taken_claim list" where
  "reserved hasSecrets rp =
     (if needs_secrets hasSecrets rp then [] else map (taken (r_id (fst rp))) (planClaims (snd rp)))"

text \<open>The slots in line order, and the held locks with every reservation.\<close>

fun walk_slots :: "(run_id \<Rightarrow> bool) \<Rightarrow> nat \<Rightarrow> taken_claim list \<Rightarrow> (run_row \<times> plan_snapshot) list
    \<Rightarrow> queue_slot list \<times> taken_claim list" where
  "walk_slots hasSecrets i ts [] = ([], ts)"
| "walk_slots hasSecrets i ts (rp # rps) =
     (let (slots, ts') = walk_slots hasSecrets (Suc i) (ts @ reserved hasSecrets rp) rps
      in (slot_of hasSecrets i ts rp # slots, ts'))"

definition walkQueue :: "db \<Rightarrow> (run_id \<Rightarrow> bool) \<Rightarrow> thrown + queue_slot list \<times> taken_claim list" where
  "walkQueue d hasSecrets =
     (case with_plans (queued_rows d) of
        Inl e \<Rightarrow> Inl e
      | Inr rps \<Rightarrow> Inr (walk_slots hasSecrets 0 (map taken_of (live_locks d)) rps))"

definition listQueuedRuns :: "db \<Rightarrow> (run_id \<Rightarrow> bool) \<Rightarrow> thrown + queued_view list" where
  "listQueuedRuns d hasSecrets =
     (case walkQueue d hasSecrets of Inl e \<Rightarrow> Inl e | Inr (slots, _) \<Rightarrow> Inr (map qs_view slots))"

record failed_holder =
  fh_runId :: run_id
  fh_kind :: string
  fh_status :: run_status
  fh_failedStep :: "string option"
  fh_error :: "string option"

definition findFailedHolder :: "db \<Rightarrow> run_id \<Rightarrow> failed_holder option" where
  "findFailedHolder d rid =
     (case get_run d rid of
        None \<Rightarrow> None
      | Some r \<Rightarrow>
          if r_status r \<noteq> RFailed \<and> r_status r \<noteq> RCancelled then None
          else Some \<lparr>fh_runId = rid, fh_kind = r_kind r, fh_status = r_status r,
                 fh_failedStep = map_option s_title (List.find (\<lambda>s. s_status s = SFailed) (allStepRows d rid)),
                 fh_error = r_error r\<rparr>)"

definition conflictsAtEndOfQueue :: "db \<Rightarrow> lock_claim list \<Rightarrow> (run_id \<Rightarrow> bool) \<Rightarrow> thrown + taken_claim list" where
  "conflictsAtEndOfQueue d claims hasSecrets =
     (case walkQueue d hasSecrets of Inl e \<Rightarrow> Inl e | Inr (_, ts) \<Rightarrow> Inr (lockConflicts ts claims))"

section \<open>Starting runs\<close>

definition slot_starts :: "queue_slot \<Rightarrow> bool" where
  "slot_starts s = (\<not> q_needsSecrets (qs_view s) \<and> q_waitsFor (qs_view s) = [])"

definition is_queued :: "run_id \<Rightarrow> run_row \<Rightarrow> bool" where
  "is_queued rid r = (r_id r = rid \<and> r_status r = RQueued)"

definition move_to_approved :: "run_id \<Rightarrow> db \<Rightarrow> db" where
  "move_to_approved rid d = d\<lparr>runs := update_where (is_queued rid) (\<lambda>r. r\<lparr>r_status := RApproved\<rparr>) (runs d)\<rparr>"

fun start_slots :: "nat \<Rightarrow> queue_slot list \<Rightarrow> db \<Rightarrow> thrown + db \<times> run_id list" where
  "start_slots now [] d = Inr (d, [])"
| "start_slots now (s # ss) d =
     (if \<not> slot_starts s then start_slots now ss d
      else let rid = q_runId (qs_view s);
               changes = length (filter (is_queued rid) (runs d));
               d' = move_to_approved rid d
           in if changes \<noteq> 1 then start_slots now ss d'
              else (case insertLocks now (qs_claims s) rid d' of
                      Inl e \<Rightarrow> Inl e
                    | Inr d'' \<Rightarrow> (case start_slots now ss d'' of
                         Inl e \<Rightarrow> Inl e
                       | Inr (d3, started) \<Rightarrow> Inr (d3, rid # started))))"

definition startQueuedRuns :: "nat \<Rightarrow> (run_id \<Rightarrow> bool) \<Rightarrow> db \<Rightarrow> thrown + db \<times> run_id list" where
  "startQueuedRuns now hasSecrets d =
     (case walkQueue d hasSecrets of Inl e \<Rightarrow> Inl e | Inr (slots, _) \<Rightarrow> start_slots now slots d)"

section \<open>The specification of a start\<close>

definition queue_line :: "db \<Rightarrow> (run_row \<times> plan_snapshot) list" where
  "queue_line d = (case with_plans (queued_rows d) of Inl _ \<Rightarrow> [] | Inr rps \<Rightarrow> rps)"

definition clash_free :: "lock_claim list \<Rightarrow> lock_claim list \<Rightarrow> bool" where
  "clash_free cs es = (\<forall>c \<in> set cs. \<forall>e \<in> set es. \<not> conflict c e)"

definition starts :: "(run_id \<Rightarrow> bool) \<Rightarrow> db \<Rightarrow> nat \<Rightarrow> bool" where
  "starts hasSecrets d i =
     (let q = queue_line d in
      i < length q \<and> \<not> needs_secrets hasSecrets (q ! i) \<and>
      clash_free (planClaims (snd (q ! i))) (map lock_claim_of (live_locks d)) \<and>
      (\<forall>j < i. \<not> needs_secrets hasSecrets (q ! j) \<longrightarrow> clash_free (planClaims (snd (q ! i))) (planClaims (snd (q ! j)))))"

definition queue_ok :: "db \<Rightarrow> bool" where
  "queue_ok d \<longleftrightarrow> distinct (map r_id (runs d)) \<and>
     (\<forall>r \<in> set (runs d). r_status r \<in> {RPlanned, RQueued, RApproved, RRunning} \<longrightarrow>
        (\<exists>p. r_plan r = Some (PlanSnap p)))"

section \<open>Facts about the line\<close>

lemma with_plans_ok:
  assumes "\<forall>r \<in> set rs. \<exists>p. r_plan r = Some (PlanSnap p)"
  shows "\<exists>rps. with_plans rs = Inr rps \<and> map fst rps = rs \<and> (\<forall>(r, p) \<in> set rps. r_plan r = Some (PlanSnap p))"
  using assms
proof (induction rs)
  case (Cons r rs)
  then obtain rps p where "with_plans rs = Inr rps" "map fst rps = rs" "\<forall>(r, p) \<in> set rps. r_plan r = Some (PlanSnap p)"
    "r_plan r = Some (PlanSnap p)" by auto
  then show ?case by auto
qed simp

lemma queued_rows_set: "set (queued_rows d) = {r \<in> set (runs d). r_status r = RQueued \<and> r_deleted r = None}"
  by (auto simp: queued_rows_def)

lemma queue_line_ok:
  assumes "queue_ok d"
  shows "with_plans (queued_rows d) = Inr (queue_line d)" and "map fst (queue_line d) = queued_rows d"
    and "\<forall>(r, p) \<in> set (queue_line d). r_plan r = Some (PlanSnap p)"
proof -
  have "\<forall>r \<in> set (queued_rows d). \<exists>p. r_plan r = Some (PlanSnap p)"
    using assms by (auto simp: queued_rows_set queue_ok_def)
  from with_plans_ok [OF this] show "with_plans (queued_rows d) = Inr (queue_line d)" "map fst (queue_line d) = queued_rows d"
    "\<forall>(r, p) \<in> set (queue_line d). r_plan r = Some (PlanSnap p)"
    by (auto simp: queue_line_def)
qed

lemma queue_line_distinct: "queue_ok d \<Longrightarrow> distinct (map (r_id \<circ> fst) (queue_line d))"
proof -
  assume ok: "queue_ok d"
  have "map (r_id \<circ> fst) (queue_line d) = map r_id (queued_rows d)"
    using queue_line_ok(2) [OF ok] by (metis map_map)
  moreover have "distinct (map r_id (queued_rows d))"
    using ok by (simp add: queued_rows_def queue_ok_def distinct_map_filter distinct_map inj_on_def)
  ultimately show ?thesis by simp
qed

definition reservations :: "(run_id \<Rightarrow> bool) \<Rightarrow> (run_row \<times> plan_snapshot) list \<Rightarrow> taken_claim list" where
  "reservations hs rps = concat (map (reserved hs) rps)"

lemma reservations_simps [simp]:
  "reservations hs [] = []"
  "reservations hs (rp # rps) = reserved hs rp @ reservations hs rps"
  by (simp_all add: reservations_def)

lemma walk_slots_taken: "snd (walk_slots hs k ts rps) = ts @ reservations hs rps"
  by (induction rps arbitrary: k ts) (simp_all add: split_beta)

lemma length_walk_slots: "length (fst (walk_slots hs k ts rps)) = length rps"
  by (induction rps arbitrary: k ts) (simp_all add: split_beta)

lemma walk_slots_nth:
  "i < length rps \<Longrightarrow>
   fst (walk_slots hs k ts rps) ! i = slot_of hs (k + i) (ts @ reservations hs (take i rps)) (rps ! i)"
proof (induction rps arbitrary: k ts i)
  case (Cons rp rps)
  then show ?case by (cases i) (simp_all add: split_beta)
qed simp

lemma slot_of_sel [simp]:
  "q_runId (qs_view (slot_of hs i ts rp)) = r_id (fst rp)"
  "qs_claims (slot_of hs i ts rp) = planClaims (snd rp)"
  "q_needsSecrets (qs_view (slot_of hs i ts rp)) = needs_secrets hs rp"
  "q_place (qs_view (slot_of hs i ts rp)) = Suc i"
  "q_waitsFor (qs_view (slot_of hs i ts rp)) = (if needs_secrets hs rp then [] else lockConflicts ts (planClaims (snd rp)))"
  by (simp_all add: slot_of_def Let_def)

lemma reservations_clash_free:
  "(\<forall>t \<in> set (reservations hs rps). \<forall>c \<in> set cs. \<not> conflict c (taken_claim_of t)) \<longleftrightarrow>
   (\<forall>rp \<in> set rps. \<not> needs_secrets hs rp \<longrightarrow> clash_free cs (planClaims (snd rp)))"
proof (induction rps)
  case (Cons rp rps)
  have "(\<forall>t \<in> set (reserved hs rp). \<forall>c \<in> set cs. \<not> conflict c (taken_claim_of t)) \<longleftrightarrow>
      (\<not> needs_secrets hs rp \<longrightarrow> clash_free cs (planClaims (snd rp)))"
    by (auto simp: reserved_def clash_free_def)
  with Cons.IH show ?case by (simp add: ball_Un)
qed simp

lemma slot_starts_iff:
  assumes "i < length (queue_line d)"
  shows "slot_starts (fst (walk_slots hs 0 (map taken_of (live_locks d)) (queue_line d)) ! i) \<longleftrightarrow> starts hs d i"
proof -
  let ?q = "queue_line d"
  have res: "(\<forall>t \<in> set (reservations hs (take i ?q)). \<forall>c \<in> set cs. \<not> conflict c (taken_claim_of t)) \<longleftrightarrow>
      (\<forall>j < i. \<not> needs_secrets hs (?q ! j) \<longrightarrow> clash_free cs (planClaims (snd (?q ! j))))" for cs
    unfolding reservations_clash_free using assms by (simp add: all_set_conv_all_nth)
  have lk: "(\<forall>t \<in> set (map taken_of (live_locks d)). \<forall>c \<in> set cs. \<not> conflict c (taken_claim_of t)) \<longleftrightarrow>
      clash_free cs (map lock_claim_of (live_locks d))" for cs
    by (auto simp: clash_free_def taken_of_def)
  show ?thesis
    using assms
    by (simp add: walk_slots_nth slot_starts_def starts_def Let_def lockConflicts_Nil_iff ball_Un res lk del: set_map set_concat)
qed

section \<open>Starting keeps the tables right\<close>

text \<open>
  What a list of slots needs so that starting them cannot meet the unique index: every slot that starts conflicts
  neither with a held lock nor with another slot that starts, and its run stands queued.
\<close>

definition slot_clash_free :: "queue_slot \<Rightarrow> queue_slot \<Rightarrow> bool" where
  "slot_clash_free a b \<longleftrightarrow> (slot_starts a \<longrightarrow> slot_starts b \<longrightarrow> clash_free (qs_claims b) (qs_claims a))"

definition slots_ready :: "db \<Rightarrow> queue_slot list \<Rightarrow> bool" where
  "slots_ready d ss \<longleftrightarrow> sorted_wrt slot_clash_free ss \<and> distinct (map (q_runId \<circ> qs_view) ss) \<and>
     (\<forall>s \<in> set ss. slot_starts s \<longrightarrow> distinct (qs_claims s) \<and>
        clash_free (qs_claims s) (map lock_claim_of (live_locks d)) \<and>
        length (filter (is_queued (q_runId (qs_view s))) (runs d)) = 1)"

lemma move_to_approved_frame [simp]:
  "steps (move_to_approved rid d) = steps d" "events (move_to_approved rid d) = events d"
  "run_locks (move_to_approved rid d) = run_locks d" "audit (move_to_approved rid d) = audit d"
  "inventory (move_to_approved rid d) = inventory d" "live_locks (move_to_approved rid d) = live_locks d"
  "held (move_to_approved rid d) = held d"
  by (simp_all add: move_to_approved_def live_locks_def held_def)

lemma filter_queued_other:
  "rid \<noteq> rid' \<Longrightarrow> filter (is_queued rid) (update_where (is_queued rid') (\<lambda>r. r\<lparr>r_status := RApproved\<rparr>) rs) = filter (is_queued rid) rs"
  by (induction rs) (auto simp: is_queued_def)

lemma insertLocks_clash_free:
  assumes "distinct cs" and "clash_free cs (map lock_claim_of (live_locks d))"
  shows "\<exists>d'. insertLocks now cs rid d = Inr d'"
  using assms by (intro insertLocks_ok) (auto simp: clash_free_def conflict_def)

lemma slots_ready_after_start:
  assumes "slots_ready d (s # ss)" and "slot_starts s"
    and "insertLocks now (qs_claims s) (q_runId (qs_view s)) (move_to_approved (q_runId (qs_view s)) d) = Inr d'"
  shows "slots_ready d' ss"
proof -
  from insertLocks_Inr [OF assms(3)]
  have d': "runs d' = runs (move_to_approved (q_runId (qs_view s)) d)"
    "lock_claim_of ` set (live_locks d') = lock_claim_of ` set (live_locks d) \<union> set (qs_claims s)"
    by (auto simp: image_Un image_image)
  show ?thesis
    unfolding slots_ready_def
  proof (intro conjI ballI impI)
    show "sorted_wrt slot_clash_free ss" "distinct (map (q_runId \<circ> qs_view) ss)"
      using assms(1) by (auto simp: slots_ready_def)
    fix b assume b: "b \<in> set ss" "slot_starts b"
    then show "distinct (qs_claims b)" using assms(1) by (auto simp: slots_ready_def)
    show "clash_free (qs_claims b) (map lock_claim_of (live_locks d'))"
    proof -
      from b assms(1,2) have "clash_free (qs_claims b) (map lock_claim_of (live_locks d))" "clash_free (qs_claims b) (qs_claims s)"
        by (auto simp: slots_ready_def slot_clash_free_def)
      with d'(2) show ?thesis by (auto simp: clash_free_def)
    qed
    have "q_runId (qs_view b) \<noteq> q_runId (qs_view s)" using b assms(1) by (auto simp: slots_ready_def image_iff)
    then show "length (filter (is_queued (q_runId (qs_view b))) (runs d')) = 1"
      using b assms(1) by (auto simp: slots_ready_def d'(1) move_to_approved_def filter_queued_other)
  qed
qed

lemma slots_ready_Cons: "slots_ready d (s # ss) \<Longrightarrow> slots_ready d ss"
  by (auto simp: slots_ready_def)

definition started_pairs :: "queue_slot list \<Rightarrow> (run_id \<times> lock_claim) set" where
  "started_pairs ss = (\<Union>s \<in> {s \<in> set ss. slot_starts s}. {q_runId (qs_view s)} \<times> set (qs_claims s))"

definition starting :: "queue_slot list \<Rightarrow> run_id list" where
  "starting ss = map (q_runId \<circ> qs_view) (filter slot_starts ss)"

text \<open>A ready list starts to its end: the runs that start are exactly the slots that start.\<close>

lemma start_slots_ready:
  assumes "slots_ready d ss"
  shows "\<exists>d'. start_slots now ss d = Inr (d', starting ss) \<and> held d' = held d \<union> started_pairs ss \<and>
    runs d' = update_where (\<lambda>r. r_id r \<in> set (starting ss) \<and> r_status r = RQueued) (\<lambda>r. r\<lparr>r_status := RApproved\<rparr>) (runs d) \<and>
    steps d' = steps d \<and> events d' = events d \<and> audit d' = audit d \<and> inventory d' = inventory d \<and>
    (distinct (map lock_claim_of (live_locks d)) \<longrightarrow> distinct (map lock_claim_of (live_locks d')))"
  using assms
proof (induction ss arbitrary: d)
  case Nil
  then show ?case by (simp add: started_pairs_def starting_def update_where_none)
next
  case (Cons s ss)
  show ?case
  proof (cases "slot_starts s")
    case False
    with Cons.IH [OF slots_ready_Cons [OF Cons.prems]] show ?thesis
      by (auto simp: started_pairs_def starting_def)
  next
    case True
    let ?rid = "q_runId (qs_view s)"
    from True Cons.prems have one: "length (filter (is_queued ?rid) (runs d)) = 1"
      and cs: "distinct (qs_claims s)" "clash_free (qs_claims s) (map lock_claim_of (live_locks (move_to_approved ?rid d)))"
      by (auto simp: slots_ready_def)
    from insertLocks_clash_free [OF cs] obtain d1 where d1: "insertLocks now (qs_claims s) ?rid (move_to_approved ?rid d) = Inr d1" by blast
    from Cons.IH [OF slots_ready_after_start [OF Cons.prems True d1]] obtain d2 where d2:
      "start_slots now ss d1 = Inr (d2, starting ss)" "held d2 = held d1 \<union> started_pairs ss"
      "runs d2 = update_where (\<lambda>r. r_id r \<in> set (starting ss) \<and> r_status r = RQueued) (\<lambda>r. r\<lparr>r_status := RApproved\<rparr>) (runs d1)"
      "steps d2 = steps d1" "events d2 = events d1" "audit d2 = audit d1" "inventory d2 = inventory d1"
      "distinct (map lock_claim_of (live_locks d1)) \<longrightarrow> distinct (map lock_claim_of (live_locks d2))" by blast
    have "update_where (\<lambda>r. r_id r \<in> set (starting ss) \<and> r_status r = RQueued) (\<lambda>r. r\<lparr>r_status := RApproved\<rparr>)
        (update_where (is_queued ?rid) (\<lambda>r. r\<lparr>r_status := RApproved\<rparr>) rs)
      = update_where (\<lambda>r. r_id r \<in> set (starting (s # ss)) \<and> r_status r = RQueued) (\<lambda>r. r\<lparr>r_status := RApproved\<rparr>) rs" for rs
      using True by (induction rs) (auto simp: is_queued_def starting_def)
    then have rns: "runs d2 = update_where (\<lambda>r. r_id r \<in> set (starting (s # ss)) \<and> r_status r = RQueued) (\<lambda>r. r\<lparr>r_status := RApproved\<rparr>) (runs d)"
      using insertLocks_Inr [OF d1] by (simp add: d2(3) move_to_approved_def)
    have "held d2 = held d \<union> started_pairs (s # ss)"
      using True by (auto simp: d2(2) insertLocks_held [OF d1] started_pairs_def)
    moreover have "start_slots now (s # ss) d = Inr (d2, starting (s # ss))"
      using True one d1 d2(1) by (simp add: starting_def)
    moreover have "distinct (map lock_claim_of (live_locks d)) \<longrightarrow> distinct (map lock_claim_of (live_locks d2))"
      using d2(8) insertLocks_distinct [OF d1] by simp
    ultimately show ?thesis using rns d2(4-7) insertLocks_Inr [OF d1] by simp
  qed
qed

lemma queue_slots_ready:
  assumes "queue_ok d"
  shows "slots_ready d (fst (walk_slots hs 0 (map taken_of (live_locks d)) (queue_line d)))"
proof -
  let ?q = "queue_line d"
  let ?ss = "fst (walk_slots hs 0 (map taken_of (live_locks d)) ?q)"
  have len: "length ?ss = length ?q" by (simp add: length_walk_slots)
  have nth: "qs_claims (?ss ! i) = planClaims (snd (?q ! i))" "q_runId (qs_view (?ss ! i)) = r_id (fst (?q ! i))" if "i < length ?q" for i
    using that by (simp_all add: walk_slots_nth)
  have "map (q_runId \<circ> qs_view) ?ss = map (r_id \<circ> fst) ?q"
    using nth(2) len by (auto intro: nth_equalityI)
  then have dist: "distinct (map (q_runId \<circ> qs_view) ?ss)" using queue_line_distinct [OF assms] by simp
  have "slot_clash_free (?ss ! i) (?ss ! j)" if "i < j" "j < length ?q" for i j
    using that by (auto simp: slot_clash_free_def slot_starts_iff nth starts_def Let_def)
  then have "sorted_wrt slot_clash_free ?ss" by (simp add: sorted_wrt_iff_nth_less len)
  moreover have "length (filter (is_queued (q_runId (qs_view s))) (runs d)) = 1" if s: "s \<in> set ?ss" for s
  proof -
    from s obtain i where i: "i < length ?q" "s = ?ss ! i" by (auto simp: in_set_conv_nth len)
    let ?r = "fst (?q ! i)"
    from i have "?r \<in> set (queued_rows d)" using queue_line_ok(2) [OF assms] by (metis nth_map nth_mem length_map)
    then have r: "?r \<in> set (runs d)" "r_status ?r = RQueued" by (auto simp: queued_rows_set)
    have "distinct (map r_id rs) \<Longrightarrow> ?r \<in> set rs \<Longrightarrow> filter (is_queued (r_id ?r)) rs = [?r]" for rs
      using r(2) by (induction rs) (auto simp: is_queued_def filter_empty_conv image_iff)
    with r(1) assms i show ?thesis by (simp add: nth queue_ok_def)
  qed
  moreover have "distinct (qs_claims s) \<and> clash_free (qs_claims s) (map lock_claim_of (live_locks d))" if s: "s \<in> set ?ss" "slot_starts s" for s
  proof -
    from s obtain i where i: "i < length ?q" "s = ?ss ! i" by (auto simp: in_set_conv_nth len)
    with s(2) show ?thesis by (simp add: slot_starts_iff nth starts_def Let_def) (simp add: planClaims_def)
  qed
  ultimately show ?thesis using dist by (simp add: slots_ready_def)
qed

lemma startQueuedRuns_eq:
  "queue_ok d \<Longrightarrow> startQueuedRuns now hs d = start_slots now (fst (walk_slots hs 0 (map taken_of (live_locks d)) (queue_line d))) d"
  by (simp add: startQueuedRuns_def walkQueue_def queue_line_ok(1) split_beta)

lemma started_pairs_disjoint:
  assumes "slots_ready d ss" and "(r, c) \<in> started_pairs ss" and "(r', e) \<in> started_pairs ss" and "r \<noteq> r'"
  shows "\<not> conflict c e"
proof -
  from assms(2,3) obtain i j where i: "i < length ss" "slot_starts (ss ! i)" "r = q_runId (qs_view (ss ! i))" "c \<in> set (qs_claims (ss ! i))"
    and j: "j < length ss" "slot_starts (ss ! j)" "r' = q_runId (qs_view (ss ! j))" "e \<in> set (qs_claims (ss ! j))"
    by (auto simp: started_pairs_def in_set_conv_nth)
  from assms(1) have ord: "a < b \<Longrightarrow> b < length ss \<Longrightarrow> slot_clash_free (ss ! a) (ss ! b)" for a b
    by (simp add: slots_ready_def sorted_wrt_iff_nth_less)
  from assms(4) i j consider "i < j" | "j < i" by (metis nat_neq_iff)
  then show ?thesis
  proof cases
    case 1
    with ord [OF 1 j(1)] i j show ?thesis using conflict_sym [of c e] by (auto simp: slot_clash_free_def clash_free_def)
  next
    case 2
    with ord [OF 2 i(1)] i j show ?thesis by (auto simp: slot_clash_free_def clash_free_def)
  qed
qed

lemma started_pairs_free:
  assumes "slots_ready d ss" and "(r, c) \<in> started_pairs ss" and "(r', e) \<in> held d"
  shows "\<not> conflict c e"
  using assms by (fastforce simp: started_pairs_def slots_ready_def clash_free_def held_def)

lemma start_slots_locks_ok:
  assumes ok: "locks_ok d" and ready: "slots_ready d ss" and run: "start_slots now ss d = Inr (d', started)"
  shows "locks_ok d'"
proof -
  from start_slots_ready [OF ready, of now] run ok
  have h: "held d' = held d \<union> started_pairs ss" and dist: "distinct (map lock_claim_of (live_locks d'))"
    by (auto simp: locks_ok_def)
  show ?thesis
  proof (rule locks_okI [OF dist])
    fix r c r' e
    assume "(r, c) \<in> held d'" "(r', e) \<in> held d'" "r \<noteq> r'"
    then show "\<not> conflict c e"
      using h locks_okD [OF ok] started_pairs_free [OF ready] started_pairs_disjoint [OF ready] conflict_sym [of c e] by blast
  qed
qed

section \<open>A dispatch leaves nothing to start\<close>

lemma map_nth_filter: "map (\<lambda>i. f (xs ! i)) (filter (\<lambda>i. P (xs ! i)) [0 ..< length xs]) = map f (filter P xs)"
proof -
  have "map ((!) xs) (filter (P \<circ> (!) xs) [0 ..< length xs]) = filter P (map ((!) xs) [0 ..< length xs])"
    by (simp add: filter_map)
  then have "map ((!) xs) (filter (\<lambda>i. P (xs ! i)) [0 ..< length xs]) = filter P xs" by (simp add: map_nth comp_def)
  then have "map f (map ((!) xs) (filter (\<lambda>i. P (xs ! i)) [0 ..< length xs])) = map f (filter P xs)" by simp
  then show ?thesis by (simp add: comp_def)
qed

lemma starting_eq:
  assumes "queue_ok d"
  shows "starting (fst (walk_slots hs 0 (map taken_of (live_locks d)) (queue_line d))) =
    map (\<lambda>i. r_id (fst (queue_line d ! i))) (filter (starts hs d) [0 ..< length (queue_line d)])"
proof -
  let ?q = "queue_line d" and ?ss = "fst (walk_slots hs 0 (map taken_of (live_locks d)) (queue_line d))"
  have len: "length ?ss = length ?q" by (simp add: length_walk_slots)
  have "starting ?ss = map (\<lambda>i. q_runId (qs_view (?ss ! i))) (filter (\<lambda>i. slot_starts (?ss ! i)) [0 ..< length ?ss])"
    using map_nth_filter [of "q_runId \<circ> qs_view" ?ss slot_starts] by (simp add: starting_def comp_def)
  also have "\<dots> = map (\<lambda>i. r_id (fst (?q ! i))) (filter (starts hs d) [0 ..< length ?q])"
  proof (rule map_cong)
    show "filter (\<lambda>i. slot_starts (?ss ! i)) [0 ..< length ?ss] = filter (starts hs d) [0 ..< length ?q]"
      unfolding len by (rule filter_cong) (auto simp: slot_starts_iff)
  qed (auto simp: walk_slots_nth)
  finally show ?thesis .
qed

lemma starts_split:
  assumes "queue_line d = pre @ rp # post"
  shows "starts hs d (length pre) \<longleftrightarrow> \<not> needs_secrets hs rp \<and> clash_free (planClaims (snd rp)) (map lock_claim_of (live_locks d)) \<and>
    (\<forall>e \<in> set pre. \<not> needs_secrets hs e \<longrightarrow> clash_free (planClaims (snd rp)) (planClaims (snd e)))"
  using assms by (simp add: starts_def Let_def nth_append all_set_conv_all_nth)

text \<open>The line after a dispatch is the line before without the runs that started.\<close>

lemma with_plans_filter:
  assumes "with_plans rs = Inr rps"
  shows "with_plans (filter P rs) = Inr (filter (P \<circ> fst) rps)"
  using assms
proof (induction rs arbitrary: rps)
  case (Cons r rs)
  then obtain p rps' where "snap_of (r_plan r) = Inr p" "with_plans rs = Inr rps'" "rps = (r, p) # rps'"
    by (auto split: sum.splits)
  with Cons.IH [of rps'] show ?case by simp
qed simp

lemma queue_line_after_start:
  assumes "queue_ok d" and rows: "runs d' = update_where (\<lambda>r. r_id r \<in> S \<and> r_status r = RQueued) (\<lambda>r. r\<lparr>r_status := RApproved\<rparr>) (runs d)"
  shows "queue_line d' = filter (\<lambda>rp. r_id (fst rp) \<notin> S) (queue_line d)"
proof -
  have "filter (\<lambda>r. r_status r = RQueued \<and> r_deleted r = None) (update_where (\<lambda>r. r_id r \<in> S \<and> r_status r = RQueued) (\<lambda>r. r\<lparr>r_status := RApproved\<rparr>) rs)
      = filter (\<lambda>r. r_id r \<notin> S) (filter (\<lambda>r. r_status r = RQueued \<and> r_deleted r = None) rs)" for rs
    by (induction rs) auto
  then have "queued_rows d' = filter (\<lambda>r. r_id r \<notin> S) (queued_rows d)"
    unfolding queued_rows_def rows filter_sort by (rule arg_cong)
  then show ?thesis
    using with_plans_filter [OF queue_line_ok(1) [OF assms(1)], of "\<lambda>r. r_id r \<notin> S"]
    by (simp add: queue_line_def comp_def)
qed

lemma queue_ok_start:
  assumes "queue_ok d" and rows: "runs d' = update_where (\<lambda>r. r_id r \<in> S \<and> r_status r = RQueued) (\<lambda>r. r\<lparr>r_status := RApproved\<rparr>) (runs d)"
  shows "queue_ok d'"
  unfolding queue_ok_def
proof (intro conjI ballI impI)
  show "distinct (map r_id (runs d'))" using assms(1) by (simp add: rows map_update_where_id queue_ok_def)
  fix r assume "r \<in> set (runs d')" and st: "r_status r \<in> {RPlanned, RQueued, RApproved, RRunning}"
  then obtain r0 where r0: "r0 \<in> set (runs d)" "r = (if r_id r0 \<in> S \<and> r_status r0 = RQueued then r0\<lparr>r_status := RApproved\<rparr> else r0)"
    unfolding rows set_update_where by blast
  then have "r_status r0 \<in> {RPlanned, RQueued, RApproved, RRunning}" and p: "r_plan r0 = r_plan r"
    using st by (auto split: if_splits)
  with assms(1) r0(1) show "\<exists>p. r_plan r = Some (PlanSnap p)" by (metis queue_ok_def)
qed

lemma filter_split:
  assumes "filter P xs = ys @ y # zs"
  shows "\<exists>us vs. xs = us @ y # vs \<and> filter P us = ys \<and> P y"
  using assms
proof (induction xs arbitrary: ys)
  case (Cons x xs)
  show ?case
  proof (cases "P x \<and> ys = []")
    case True
    with Cons.prems show ?thesis by (intro exI [of _ "[]"] exI [of _ xs]) auto
  next
    case False
    with Cons.prems obtain ys' where ys': "filter P xs = ys' @ y # zs" "ys = (if P x then x # ys' else ys')"
      by (cases "P x"; cases ys) auto
    from Cons.IH [OF ys'(1)] obtain us vs where "xs = us @ y # vs" "filter P us = ys'" "P y" by blast
    with ys'(2) show ?thesis by (intro exI [of _ "x # us"] exI [of _ vs]) simp
  qed
qed simp

lemma started_iff:
  assumes st: "started = map (\<lambda>i. r_id (fst (q ! i))) (filter P [0 ..< length q])"
    and q: "q = pre @ rp # post" and dist: "distinct (map (r_id \<circ> fst) q)"
  shows "r_id (fst rp) \<in> set started \<longleftrightarrow> P (length pre)"
proof -
  have at: "q ! length pre = rp" "length pre < length q" using q by simp_all
  have inj: "i = length pre" if "i < length q" "r_id (fst (q ! i)) = r_id (fst rp)" for i
    using nth_eq_iff_index_eq [OF dist, of i "length pre"] that at by simp
  show ?thesis
  proof
    assume "r_id (fst rp) \<in> set started"
    then obtain i where "i < length q" "P i" "r_id (fst (q ! i)) = r_id (fst rp)" by (auto simp: st)
    with inj show "P (length pre)" by metis
  next
    assume "P (length pre)"
    with at show "r_id (fst rp) \<in> set started" by (force simp: st)
  qed
qed

lemma start_slots_none: "(\<forall>s \<in> set ss. \<not> slot_starts s) \<Longrightarrow> start_slots now ss d = Inr (d, [])"
  by (induction ss) auto

lemma nothing_starts:
  assumes "queue_ok d" and "\<And>i. \<not> starts hs d i"
  shows "startQueuedRuns now hs d = Inr (d, [])"
proof -
  have "\<not> slot_starts s" if "s \<in> set (fst (walk_slots hs 0 (map taken_of (live_locks d)) (queue_line d)))" for s
    using that assms(2) slot_starts_iff [of _ d hs] by (auto simp: in_set_conv_nth length_walk_slots)
  then show ?thesis by (simp add: startQueuedRuns_eq [OF assms(1)] start_slots_none)
qed

lemma clash_free_held: "clash_free cs (map lock_claim_of (live_locks d)) \<longleftrightarrow> (\<forall>(r, e) \<in> held d. \<forall>c \<in> set cs. \<not> conflict c e)"
  by (auto simp: clash_free_def held_def)

lemma startQueuedRuns_spec:
  assumes "queue_ok d"
  shows "\<exists>d'. startQueuedRuns now hs d =
      Inr (d', map (\<lambda>i. r_id (fst (queue_line d ! i))) (filter (starts hs d) [0 ..< length (queue_line d)])) \<and>
    runs d' = update_where (\<lambda>r. r_status r = RQueued \<and>
        r_id r \<in> (\<lambda>i. r_id (fst (queue_line d ! i))) ` {i. i < length (queue_line d) \<and> starts hs d i})
      (\<lambda>r. r\<lparr>r_status := RApproved\<rparr>) (runs d) \<and>
    held d' = held d \<union> (\<Union>i \<in> {i. i < length (queue_line d) \<and> starts hs d i}.
      {r_id (fst (queue_line d ! i))} \<times> set (planClaims (snd (queue_line d ! i))))"
proof -
  let ?q = "queue_line d" and ?ss = "fst (walk_slots hs 0 (map taken_of (live_locks d)) (queue_line d))"
  have len: "length ?ss = length ?q" by (simp add: length_walk_slots)
  from start_slots_ready [OF queue_slots_ready [OF assms], of now hs] obtain d' where d':
    "start_slots now ?ss d = Inr (d', starting ?ss)" "held d' = held d \<union> started_pairs ?ss"
    "runs d' = update_where (\<lambda>r. r_id r \<in> set (starting ?ss) \<and> r_status r = RQueued) (\<lambda>r. r\<lparr>r_status := RApproved\<rparr>) (runs d)"
    by blast
  have "started_pairs ?ss = (\<Union>i \<in> {i. i < length ?q \<and> starts hs d i}. {r_id (fst (?q ! i))} \<times> set (planClaims (snd (?q ! i))))"
  proof -
    have "{s \<in> set ?ss. slot_starts s} = (\<lambda>i. ?ss ! i) ` {i. i < length ?q \<and> starts hs d i}"
      using len slot_starts_iff [of _ d hs] by (auto simp: in_set_conv_nth)
    then show ?thesis unfolding started_pairs_def by (auto simp: walk_slots_nth)
  qed
  moreover have "set (starting ?ss) = (\<lambda>i. r_id (fst (?q ! i))) ` {i. i < length ?q \<and> starts hs d i}"
    unfolding starting_eq [OF assms] by auto
  ultimately show ?thesis
    using d' startQueuedRuns_eq [OF assms, of now hs] starting_eq [OF assms, of hs] by (auto simp: conj_commute)
qed

section \<open>Example tables\<close>

text \<open>A plan on one server, a run with it, and a database; the witnesses of this and later theories use them.\<close>

definition ex_snap :: "string \<Rightarrow> plan_snapshot" where
  "ex_snap srv = \<lparr>p_kind = ''k'', p_targetKind = ''server'', p_targetId = srv, p_summary = [],
     p_steps = [(''a'', ''A''), (''b'', ''B'')], p_targets = None, p_locks = None, p_warnings = [], p_estimateSeconds = None,
     p_requiredSecrets = [], p_secretHints = None, p_findings = None, p_optionalSecrets = None, p_requiredInputs = None,
     planHash = [], plannedAt = 0\<rparr>"

definition ex_row :: "run_id \<Rightarrow> run_status \<Rightarrow> string \<Rightarrow> nat \<Rightarrow> run_row" where
  "ex_row rid st srv t = \<lparr>r_id = rid, r_kind = ''k'', r_targetKind = ''server'', r_targetId = srv, r_params = JObj [],
     r_plan = Some (PlanSnap (ex_snap srv)), r_status = st, r_approvedAt = Some t, r_startedAt = Some t, r_finishedAt = None,
     r_error = None, r_owner = [], r_creation = 0, r_deleted = None\<rparr>"

definition ex_db :: "run_row list \<Rightarrow> step_row list \<Rightarrow> (run_id \<times> string) list \<Rightarrow> db" where
  "ex_db rs ss ls = \<lparr>runs = rs, steps = ss, events = [],
     run_locks = map (\<lambda>(rid, srv). new_lock 0 \<lparr>c_resource = LServer, c_key = srv\<rparr> rid) ls,
     audit = [], inventory = \<lparr>servers = [], inv_rest = JNull\<rparr>\<rparr>"

text \<open>One run works on the first server, two wait for it, a third waits for nothing.\<close>

definition ex_line :: db where
  "ex_line = ex_db [ex_row ''r0'' RRunning ''s1'' 0, ex_row ''r1'' RQueued ''s1'' 1, ex_row ''r2'' RQueued ''s1'' 2,
     ex_row ''r3'' RQueued ''s2'' 3] [] [(''r0'', ''s1'')]"

lemma ex_line_ok: "queue_ok ex_line"
  by (simp add: queue_ok_def ex_line_def ex_db_def ex_row_def)

lemma ex_line_start: "\<exists>d'. startQueuedRuns 7 (\<lambda>_. True) ex_line = Inr (d', [''r3''])"
proof -
  have "map_sum id snd (startQueuedRuns 7 (\<lambda>_. True) ex_line) = Inr [''r3'']" by code_simp
  then show ?thesis by (cases "startQueuedRuns 7 (\<lambda>_. True) ex_line") auto
qed

section \<open>Properties\<close>

text \<open>
  C2 A dispatch refines the specification of the line: on tables that are right it never fails, it starts exactly the runs
  the specification lets start, in line order, moves exactly these from queued to approved and takes exactly their
  claims.
\<close>

theorem startQueuedRuns_refines:
  assumes "queue_ok d"
  shows "\<exists>d'. startQueuedRuns now hs d =
      Inr (d', map (\<lambda>i. r_id (fst (queue_line d ! i))) (filter (starts hs d) [0 ..< length (queue_line d)])) \<and>
    runs d' = update_where (\<lambda>r. r_status r = RQueued \<and>
        r_id r \<in> (\<lambda>i. r_id (fst (queue_line d ! i))) ` {i. i < length (queue_line d) \<and> starts hs d i})
      (\<lambda>r. r\<lparr>r_status := RApproved\<rparr>) (runs d) \<and>
    held d' = held d \<union> (\<Union>i \<in> {i. i < length (queue_line d) \<and> starts hs d i}.
      {r_id (fst (queue_line d ! i))} \<times> set (planClaims (snd (queue_line d ! i))))"
  using assms by (rule startQueuedRuns_spec)

theorem startQueuedRuns_refines_witness:
  "map (\<lambda>i. r_id (fst (queue_line ex_line ! i))) (filter (starts (\<lambda>_. True) ex_line) [0 ..< length (queue_line ex_line)]) = [''r3'']"
  using startQueuedRuns_refines [OF ex_line_ok, of 7 "\<lambda>_. True"] ex_line_start by auto



end
