(* ===== verification/Cleanup.thy ===== *)
theory Cleanup
  imports Queue
begin

text \<open>
  What the executor asks of a run definition (\<^verbatim>\<open>executor/types.ts RunDefinition\<close>) and the boot guard over the
  registered ones (\<^verbatim>\<open>executor/guards.ts\<close>), the gate of every recovery (\<^verbatim>\<open>executor/recover.ts\<close>) and the step
  bookkeeping of an abort with cleanup (\<^verbatim>\<open>executor/cleanup.ts\<close>).

  The hooks of a definition are code of the domains: each is a function that answers, or throws. A step's body is not
  a function but the environment of the executor: while a step is in flight it may call its context and in the end
  returns or throws.
\<close>

section \<open>Run definitions\<close>

record cleanup =
  cl_name :: string
  cl_title :: string

type_synonym secret_values = "(string \<times> string) list"

record run_definition =
  d_kind :: string
  d_parse :: "json \<Rightarrow> thrown + json"
  d_mutating :: bool
  d_plan :: "json \<Rightarrow> db \<Rightarrow> thrown + plan"
  d_planStream :: bool
  d_steps :: "json \<Rightarrow> step_impl list"
  d_cleanups :: "(json \<Rightarrow> cleanup list) option"
  d_assertAbortable :: "(json \<Rightarrow> db \<Rightarrow> thrown option) option"
  d_assertApprovable :: "(json \<Rightarrow> db \<Rightarrow> secret_values \<Rightarrow> thrown option) option"
  d_onTerminal :: "(run_status \<Rightarrow> run_id \<Rightarrow> json \<Rightarrow> db \<Rightarrow> inventory \<times> thrown option) option"

record executor_deps =
  runDefinitions :: "(string \<times> run_definition) list"
  ulid :: "nat \<Rightarrow> string"
  sha256 :: "string \<Rightarrow> string"

definition def_of :: "executor_deps \<Rightarrow> string \<Rightarrow> run_definition option" where
  "def_of D kind = map_of (runDefinitions D) kind"

definition newId :: "executor_deps \<Rightarrow> string \<Rightarrow> nat \<Rightarrow> string" where
  "newId D pre n = pre @ ''_'' @ ulid D n"

section \<open>Guards\<close>

definition ATTEST_TARGET_STEP :: string where
  "ATTEST_TARGET_STEP = ''attest-target''"

definition isMutatingPrecondition :: "run_definition option \<Rightarrow> string \<Rightarrow> bool" where
  "isMutatingPrecondition df stepName =
     (case df of None \<Rightarrow> False | Some x \<Rightarrow> d_mutating x \<and> stepName = ATTEST_TARGET_STEP)"

fun first_name :: "step_impl list \<Rightarrow> string option" where
  "first_name [] = None"
| "first_name (s # _) = Some (si_name s)"

fun assertGuardsArmed :: "(string \<times> run_definition) list \<Rightarrow> thrown + unit" where
  "assertGuardsArmed [] = Inr ()"
| "assertGuardsArmed ((k, df) # rest) =
     (if \<not> d_mutating df then assertGuardsArmed rest
      else if first_name (d_steps df (JObj [])) \<noteq> Some ATTEST_TARGET_STEP
        then Inl (JsError ''Error'' (''mutating run '' @ d_kind df @ '' must start with '' @ ATTEST_TARGET_STEP))
      else assertGuardsArmed rest)"

section \<open>Who may be recovered, and from where\<close>

definition assertRecoverable :: "run_id \<Rightarrow> run_status \<Rightarrow> nat option \<Rightarrow> string \<Rightarrow> thrown + unit" where
  "assertRecoverable rid status startedAt act =
     (if status = RFailed then Inr ()
      else if status = RCancelled \<and> startedAt \<noteq> None then Inr ()
      else Inl (App (Validation
        (if status = RCancelled
         then ''run '' @ rid @ '' was discarded before it started '' @ em_dash @ '' nothing to '' @ act @ ''; plan it again''
         else ''run '' @ rid @ '' is not failed/cancelled''))))"

definition stepToResume :: "db \<Rightarrow> run_id \<Rightarrow> run_status \<Rightarrow> thrown + step_row" where
  "stepToResume d rid status =
     (let wanted = (if status = RCancelled then [SFailed, SPending] else [SFailed])
      in case List.find (\<lambda>s. s_status s \<in> set wanted) (allStepRows d rid) of
           Some s \<Rightarrow> Inr s
         | None \<Rightarrow> Inl (App (Validation
             (if status = RCancelled
              then ''run '' @ rid @ '' has no step left to resume '' @ em_dash @ '' every step of it is ok or skipped''
              else ''run '' @ rid @ '' has no failed step to retry''))))"

section \<open>The rows of an abort\<close>

definition abandonUnfinished :: "run_id \<Rightarrow> db \<Rightarrow> thrown + db" where
  "abandonUnfinished rid d =
     setStepStatusIn rid [SPending, SRunning, SFailed, SSkipped] SSkipped (\<lambda>s. s\<lparr>s_skipReason := Some ''aborted''\<rparr>) d"

definition row_cleanups :: "step_row \<Rightarrow> string list" where
  "row_cleanups s = (case s_checkpoint s of None \<Rightarrow> [] | Some cp \<Rightarrow> opt_default [] (cp_cleanups cp))"

definition registeredCleanupNames :: "step_row list \<Rightarrow> string list" where
  "registeredCleanupNames all = concat (map row_cleanups (rev all))"

definition settleAbortWithoutCleanup :: "nat \<Rightarrow> run_id \<Rightarrow> db \<Rightarrow> thrown + db" where
  "settleAbortWithoutCleanup now rid d =
     (case abandonUnfinished rid d of
        Inl e \<Rightarrow> Inl e
      | Inr d' \<Rightarrow> Inr (update_run rid (\<lambda>r. r\<lparr>r_status := RCancelled, r_finishedAt := Some now\<rparr>) d'))"

definition cleanup_step_name :: "string \<Rightarrow> string" where
  "cleanup_step_name n = ''cleanup:'' @ n"

definition cleanup_row :: "run_id \<Rightarrow> step_id \<Rightarrow> nat \<Rightarrow> string \<Rightarrow> cleanup option \<Rightarrow> step_row" where
  "cleanup_row rid sid ord name c =
     \<lparr>s_id = sid, s_runId = rid, s_ordinal = ord, s_name = cleanup_step_name name,
      s_title = ''Cleanup: '' @ (case c of Some c \<Rightarrow> cl_title c | None \<Rightarrow> name),
      s_status = SPending, s_startedAt = None, s_finishedAt = None, s_checkpoint = None, s_skipReason = None, s_error = None\<rparr>"

definition clear_outcome :: "step_row \<Rightarrow> step_row" where
  "clear_outcome s = s\<lparr>s_error := None, s_skipReason := None, s_startedAt := None, s_finishedAt := None\<rparr>"

text \<open>The loop over the names: the row of an earlier abort is reused, a new name is appended behind the last ordinal.\<close>

fun schedule_names :: "run_id \<Rightarrow> (nat \<Rightarrow> step_id) \<Rightarrow> step_row list \<Rightarrow> (string \<rightharpoonup> cleanup) \<Rightarrow> nat \<Rightarrow> nat \<Rightarrow> string list \<Rightarrow> db \<Rightarrow> thrown + db" where
  "schedule_names rid gen all byName maxOrd i [] d = Inr d"
| "schedule_names rid gen all byName maxOrd i (name # names) d =
     (let r = (case List.find (\<lambda>s. s_name s = cleanup_step_name name) all of
                 Some existing \<Rightarrow> setStepStatus (s_id existing) (s_status existing) SPending clear_outcome d
               | None \<Rightarrow> insert_step (cleanup_row rid (gen i) (maxOrd + 1 + i) name (byName name)) d)
      in case r of Inl e \<Rightarrow> Inl e | Inr d' \<Rightarrow> schedule_names rid gen all byName maxOrd (Suc i) names d')"

definition max_ordinal :: "step_row list \<Rightarrow> nat" where
  "max_ordinal all = foldr (max \<circ> s_ordinal) all 0"

definition scheduleCleanupSteps ::
  "run_id \<Rightarrow> (nat \<Rightarrow> step_id) \<Rightarrow> step_row list \<Rightarrow> string list \<Rightarrow> (string \<rightharpoonup> cleanup) \<Rightarrow> db \<Rightarrow> thrown + db" where
  "scheduleCleanupSteps rid gen all names byName d =
     (case abandonUnfinished rid d of
        Inl e \<Rightarrow> Inl e
      | Inr d1 \<Rightarrow> (case schedule_names rid gen all byName (max_ordinal all) 0 names d1 of
            Inl e \<Rightarrow> Inl e
          | Inr d2 \<Rightarrow> Inr (update_run rid (\<lambda>r. r\<lparr>r_status := RRunning, r_error := None, r_finishedAt := None\<rparr>) d2)))"

section \<open>Facts\<close>

lemma assertGuardsArmed_ok:
  "assertGuardsArmed defs = Inr u \<longleftrightarrow>
   (\<forall>(k, df) \<in> set defs. d_mutating df \<longrightarrow> first_name (d_steps df (JObj [])) = Some ATTEST_TARGET_STEP)"
  by (induction defs rule: assertGuardsArmed.induct) auto

lemma abandonUnfinished_eq:
  "abandonUnfinished rid d = Inr (d\<lparr>steps := update_where (\<lambda>s. s_runId s = rid \<and> s_status s \<noteq> SOk)
      (\<lambda>s. s\<lparr>s_status := SSkipped, s_skipReason := Some ''aborted''\<rparr>) (steps d)\<rparr>)"
proof -
  have "(s \<in> set [SPending, SRunning, SFailed, SSkipped]) = (s \<noteq> SOk)" for s by (cases s) auto
  then have "setStepStatusIn rid [SPending, SRunning, SFailed, SSkipped] SSkipped (\<lambda>s. s\<lparr>s_skipReason := Some ''aborted''\<rparr>) d
    = Inr (d\<lparr>steps := update_where (\<lambda>s. s_runId s = rid \<and> s_status s \<noteq> SOk)
      (\<lambda>s. s\<lparr>s_status := SSkipped, s_skipReason := Some ''aborted''\<rparr>) (steps d)\<rparr>)"
    unfolding setStepStatusIn_Inr by (auto simp: canStepTransition_def)
  then show ?thesis by (simp add: abandonUnfinished_def)
qed

lemma can_reset_to_pending: "canStepTransition s SPending"
  by (cases s) (simp_all add: canStepTransition_def)

lemma max_ordinal_ge: "s \<in> set all \<Longrightarrow> s_ordinal s \<le> max_ordinal all"
  by (induction all) (auto simp: max_ordinal_def)

lemma stepToResume_Inr:
  "stepToResume d rid status = Inr s \<Longrightarrow>
   s \<in> set (allStepRows d rid) \<and> (s_status s = SFailed \<or> status = RCancelled \<and> s_status s = SPending)"
  by (auto simp: stepToResume_def Let_def split: option.splits if_splits dest!: find_Some_in)

lemma registeredCleanupNames_rev:
  "registeredCleanupNames (xs @ ys) = registeredCleanupNames ys @ registeredCleanupNames xs"
  by (simp add: registeredCleanupNames_def)

end
