(* ===== verification/Run_Context.thy ===== *)
theory Run_Context
  imports Cleanup
begin

text \<open>
  What a running step writes through its context (\<^verbatim>\<open>executor/context.ts\<close>: log lines, checkpoints, registered
  cleanups), the secrets handed in with an approve or a retry, and the terminal hook (\<^verbatim>\<open>executor/run-meta.ts\<close>).
  The SSH sessions of a context are in the theory \<^verbatim>\<open>Ssh_Context\<close>.
\<close>

section \<open>Frames\<close>

definition get_frame :: "exec \<Rightarrow> nat \<Rightarrow> frame option" where
  "get_frame st fid = List.find (\<lambda>f. f_id f = fid) (x_frames st)"

definition set_frame :: "nat \<Rightarrow> (frame \<Rightarrow> frame) \<Rightarrow> unit act" where
  "set_frame fid g = modify (\<lambda>st. st\<lparr>x_frames := update_where (\<lambda>f. f_id f = fid) g (x_frames st)\<rparr>)"

definition dropFrame :: "nat \<Rightarrow> unit act" where
  "dropFrame fid = modify (\<lambda>st. st\<lparr>x_frames := filter (\<lambda>f. f_id f \<noteq> fid) (x_frames st)\<rparr>)"

text \<open>\<^verbatim>\<open>new AbortController()\<close>, \<^verbatim>\<open>active.set\<close> and \<^verbatim>\<open>new RunContext\<close>, whose counter starts behind the stored events.\<close>

definition newFrame :: "run_id \<Rightarrow> string \<Rightarrow> json \<Rightarrow> work \<Rightarrow> nat act" where
  "newFrame rid kind params w = bindM (gets (\<lambda>st. st)) (\<lambda>st.
     (let fid = x_nextFrame st;
          f = \<lparr>f_id = fid, f_run = rid, f_kind = kind, f_params = params,
               f_secrets = opt_default (new_secrets rid) (map_of (x_secrets st) rid),
               f_aborted = False, f_seq = next_seq (x_db st) rid, f_work = w\<rparr>
      in bindM (modify (\<lambda>st. st\<lparr>x_frames := x_frames st @ [f], x_nextFrame := Suc fid,
                                x_active := map_set rid fid (x_active st)\<rparr>)) (\<lambda>_. ret fid)))"

section \<open>The run log\<close>

definition emit_line :: "nat \<Rightarrow> run_id \<Rightarrow> step_id option \<Rightarrow> output_stream \<Rightarrow> string \<Rightarrow> unit act" where
  "emit_line fid rid sid stream raw = bindM (gets (\<lambda>st. st)) (\<lambda>st.
     (let line = redact (x_registry st) raw;
          seq = (case get_frame st fid of Some f \<Rightarrow> f_seq f | None \<Rightarrow> 0)
      in seqM [set_frame fid (\<lambda>f. f\<lparr>f_seq := Suc (f_seq f)\<rparr>),
               whenM (stream \<noteq> Ephemeral)
                 (onDb (insert_event \<lparr>e_runId = rid, e_stepId = sid, e_stream = stream, e_seq = seq,
                          e_text = line, e_creation = x_clock st\<rparr>)),
               publish rid \<lparr>ev_seq = seq, ev_stream = stream, ev_text = line, ev_at = x_clock st\<rparr>]))"

text \<open>The lines of a text: split at every newline, less the empty line a final newline leaves.\<close>

definition log_lines :: "string \<Rightarrow> string list" where
  "log_lines text = (let lines = split_char newline text
     in if length lines > 1 \<and> last lines = [] then butlast lines else lines)"

definition emit :: "nat \<Rightarrow> run_id \<Rightarrow> step_id option \<Rightarrow> output_stream \<Rightarrow> string \<Rightarrow> unit act" where
  "emit fid rid sid stream text = forM (log_lines text) (emit_line fid rid sid stream)"

definition emitMeta :: "nat \<Rightarrow> run_id \<Rightarrow> string \<Rightarrow> unit act" where
  "emitMeta fid rid text = emit fid rid None Meta text"

section \<open>Checkpoints and registered cleanups\<close>

definition empty_checkpoint :: step_checkpoint where
  "empty_checkpoint = \<lparr>cp_data = None, cp_cleanups = None\<rparr>"

definition stepCheckpoint :: "db \<Rightarrow> run_id \<Rightarrow> string \<Rightarrow> step_checkpoint" where
  "stepCheckpoint d rid name =
     (case find_step d rid name of None \<Rightarrow> empty_checkpoint | Some s \<Rightarrow> opt_default empty_checkpoint (s_checkpoint s))"

definition writeCheckpoint :: "run_id \<Rightarrow> string \<Rightarrow> step_checkpoint \<Rightarrow> db \<Rightarrow> db" where
  "writeCheckpoint rid name cp d =
     d\<lparr>steps := update_where (\<lambda>s. s_runId s = rid \<and> s_name s = name) (\<lambda>s. s\<lparr>s_checkpoint := Some cp\<rparr>) (steps d)\<rparr>"

definition checkpoint :: "run_id \<Rightarrow> string \<Rightarrow> json \<Rightarrow> unit act" where
  "checkpoint rid name data = bindM (gets x_registry) (\<lambda>reg.
     (let text = json_stringify data in
      if redact reg text \<noteq> text then throwM (App (Internal ''checkpoint contains a registered secret''))
      else setDb (\<lambda>d. writeCheckpoint rid name ((stepCheckpoint d rid name)\<lparr>cp_data := Some data\<rparr>) d)))"

definition readCheckpoint :: "db \<Rightarrow> run_id \<Rightarrow> string \<Rightarrow> json option" where
  "readCheckpoint d rid name = cp_data (stepCheckpoint d rid name)"

definition appendCleanupName :: "run_id \<Rightarrow> string \<Rightarrow> string \<Rightarrow> db \<Rightarrow> db" where
  "appendCleanupName rid stepName name d =
     (let cp = stepCheckpoint d rid stepName;
          names = set_add name (opt_default [] (cp_cleanups cp))
      in writeCheckpoint rid stepName (cp\<lparr>cp_cleanups := Some names\<rparr>) d)"

section \<open>Secrets handed in\<close>

definition storeSecrets :: "run_id \<Rightarrow> secret_values \<Rightarrow> unit act" where
  "storeSecrets rid vs = modify (\<lambda>st.
     (let (m, reg) = fold (\<lambda>(k, v). secrets_set k v) vs (new_secrets rid, x_registry st)
      in st\<lparr>x_secrets := map_set rid m (x_secrets st), x_registry := reg\<rparr>))"

definition has_secrets :: "exec \<Rightarrow> run_id \<Rightarrow> bool" where
  "has_secrets st rid = (map_of (x_secrets st) rid \<noteq> None)"

definition wipeSecrets :: "run_secrets \<Rightarrow> unit act" where
  "wipeSecrets m = modify (\<lambda>st. st\<lparr>x_registry := snd (secrets_wipe None (m, x_registry st))\<rparr>)"

definition forgetSecrets :: "run_id \<Rightarrow> unit act" where
  "forgetSecrets rid = modify (\<lambda>st. st\<lparr>x_secrets := map_delete rid (x_secrets st)\<rparr>)"

definition dropActive :: "run_id \<Rightarrow> unit act" where
  "dropActive rid = modify (\<lambda>st. st\<lparr>x_active := map_delete rid (x_active st)\<rparr>)"

section \<open>The terminal hook\<close>

definition hook_failed_line :: "run_status \<Rightarrow> thrown \<Rightarrow> string" where
  "hook_failed_line status e =
     g_fail @ '' post-run choreography (onTerminal '' @ g_arrow @ '' '' @ show_run_status status @ '') failed: '' @
     thrown_message e @ '' '' @ em_dash @ '' server/cluster rows may not reflect this run's outcome''"

definition callOnTerminal :: "run_definition option \<Rightarrow> run_id \<Rightarrow> json \<Rightarrow> run_status \<Rightarrow> unit act" where
  "callOnTerminal df rid params status =
     (case df of
        None \<Rightarrow> ret ()
      | Some x \<Rightarrow> (case d_onTerminal x of
          None \<Rightarrow> ret ()
        | Some hook \<Rightarrow> bindM (gets x_db) (\<lambda>d.
            (let (stock, failure) = hook status rid params d in
             bindM (setDb (\<lambda>d. d\<lparr>inventory := stock\<rparr>)) (\<lambda>_.
               (case failure of
                  None \<Rightarrow> ret ()
                | Some e \<Rightarrow> bindM (logLine LError (Some rid) ''onTerminal hook failed (swallowed)'') (\<lambda>_.
                    catchM (appendRunMeta rid (hook_failed_line status e)) (\<lambda>_. ret ()))))))))"

end
