(* ===== verification/Run_Loop.thy ===== *)
theory Run_Loop
  imports Run_Context
begin

text \<open>
  How a run executes (\<^verbatim>\<open>executor/executor.ts execute\<close>, \<^verbatim>\<open>failRun\<close>, \<^verbatim>\<open>finishRun\<close>).

  JavaScript runs one segment of code at a time, from one \<^verbatim>\<open>await\<close> to the next. The one \<^verbatim>\<open>await\<close> of \<^verbatim>\<open>execute\<close> is
  the step's own \<^verbatim>\<open>run\<close>: so a run is the segment \<open>execute\<close> up to its first step, and then for every step the segment
  \<open>step_returns\<close> or \<open>step_throws\<close> up to the next. A segment answers whether it ended the run, which is when the code
  calls \<^verbatim>\<open>dispatch\<close>; the call is its last statement, so the theory \<^verbatim>\<open>Dispatch\<close> makes it.
\<close>

section \<open>What a run is loaded as\<close>

record loaded_run =
  lr_id :: run_id
  lr_kind :: string
  lr_targetKind :: string
  lr_targetId :: string
  lr_params :: json
  lr_plan :: "plan_json option"
  lr_status :: run_status
  lr_startedAt :: "nat option"

definition params_of :: "json \<Rightarrow> json" where
  "params_of j = (if j = JNull then JObj [] else j)"

definition loadRun :: "db \<Rightarrow> run_id \<Rightarrow> thrown + loaded_run" where
  "loadRun d rid =
     (case get_run d rid of
        None \<Rightarrow> Inl (App (Validation (''run '' @ rid @ '' not found'')))
      | Some r \<Rightarrow>
          if r_deleted r \<noteq> None then Inl (App (Validation (''run '' @ rid @ '' is deleted'')))
          else Inr \<lparr>lr_id = r_id r, lr_kind = r_kind r, lr_targetKind = r_targetKind r, lr_targetId = r_targetId r,
                 lr_params = params_of (r_params r), lr_plan = r_plan r, lr_status = r_status r, lr_startedAt = r_startedAt r\<rparr>)"

definition stepRowFull :: "db \<Rightarrow> run_id \<Rightarrow> string \<Rightarrow> thrown + step_row" where
  "stepRowFull d rid name =
     (case find_step d rid name of
        None \<Rightarrow> Inl (App (Internal (''step '' @ name @ '' not found on run '' @ rid)))
      | Some s \<Rightarrow> Inr s)"

section \<open>Ending a run\<close>

text \<open>The run row's last columns, as every terminal transaction sets them.\<close>

definition settle_run :: "run_id \<Rightarrow> run_status \<Rightarrow> string option \<Rightarrow> nat \<Rightarrow> db \<Rightarrow> db" where
  "settle_run rid status err now = update_run rid (\<lambda>r. r\<lparr>r_status := status, r_finishedAt := Some now,
     r_error := (case err of None \<Rightarrow> r_error r | Some e \<Rightarrow> Some e)\<rparr>)"

definition finishRun :: "nat \<Rightarrow> run_id \<Rightarrow> bool \<Rightarrow> unit act" where
  "finishRun fid rid release = bindM (gets (\<lambda>st. st)) (\<lambda>st.
     seqM [whenM release (setDb (releaseLocks (x_clock st) rid)),
           (case get_frame st fid of Some f \<Rightarrow> wipeSecrets (f_secrets f) | None \<Rightarrow> ret ()),
           dropFrame fid, dropActive rid, forgetSecrets rid])"

definition record_failure :: "executor_deps \<Rightarrow> run_id \<Rightarrow> string \<Rightarrow> unit act" where
  "record_failure D rid msg = bindM (gets x_clock) (\<lambda>now.
     seqM [setDb (settle_run rid RFailed (Some msg) now),
           appendRunMeta rid (g_fail @ '' run failed: '' @ msg),
           setDb (writeAudit (run_audit ''run.failed'' rid (Some (JObj [(''error'', JStr msg)])))),
           logLine LError (Some rid) ''run failed'',
           bindM (gets (\<lambda>st. get_run (x_db st) rid)) (\<lambda>r.
             (case r of None \<Rightarrow> ret ()
              | Some r \<Rightarrow> callOnTerminal (def_of D (r_kind r)) rid (params_of (r_params r)) RFailed))])"

definition failRun_core :: "executor_deps \<Rightarrow> run_id \<Rightarrow> string \<Rightarrow> unit act" where
  "failRun_core D rid msg =
     seqM [catchM (record_failure D rid msg) (\<lambda>_. logLine LError (Some rid) ''could not record the run's failure''),
           dropActive rid, forgetSecrets rid]"

text \<open>The catch-all of \<^verbatim>\<open>execute\<close>.\<close>

definition execute_catch :: "executor_deps \<Rightarrow> run_id \<Rightarrow> thrown \<Rightarrow> bool act" where
  "execute_catch D rid e = bindM (gets x_registry) (\<lambda>reg.
     bindM (failRun_core D rid (redact reg (thrown_message e))) (\<lambda>_. ret True))"

section \<open>The walk over the steps\<close>

text \<open>
  \<^verbatim>\<open>implByName\<close>: the steps, then the cleanups under their step names; a later entry replaces an earlier one. Of an
  implementation only the title is data, its \<^verbatim>\<open>run\<close> is the environment.
\<close>

definition cleanups_of :: "run_definition \<Rightarrow> json \<Rightarrow> cleanup list" where
  "cleanups_of df params = (case d_cleanups df of None \<Rightarrow> [] | Some f \<Rightarrow> f params)"

definition impl_titles :: "run_definition \<Rightarrow> json \<Rightarrow> string \<rightharpoonup> string" where
  "impl_titles df params =
     map_of (rev (map (\<lambda>s. (si_name s, si_title s)) (d_steps df params) @
                  map (\<lambda>c. (cleanup_step_name (cl_name c), ''Cleanup: '' @ cl_title c)) (cleanups_of df params)))"

definition is_done :: "step_row \<Rightarrow> bool" where
  "is_done row = (s_status row = SOk \<or> s_status row = SSkipped)"

definition frame_aborted :: "exec \<Rightarrow> nat \<Rightarrow> bool" where
  "frame_aborted st fid = (case get_frame st fid of Some f \<Rightarrow> f_aborted f | None \<Rightarrow> False)"

definition cancel_before :: "run_definition \<Rightarrow> json \<Rightarrow> nat \<Rightarrow> run_id \<Rightarrow> step_row \<Rightarrow> unit act" where
  "cancel_before df params fid rid row = bindM (gets x_clock) (\<lambda>now.
     seqM [setDb (settle_run rid RCancelled None now),
           emitMeta fid rid (g_cancel @ '' cancelled before: '' @ s_title row),
           setDb (writeAudit (run_audit ''run.cancelled'' rid (Some (JObj [(''beforeStep'', JStr (s_name row))])))),
           callOnTerminal (Some df) rid params RCancelled,
           finishRun fid rid False])"

definition pause_line :: "bool \<Rightarrow> step_row \<Rightarrow> string" where
  "pause_line hadSecrets row =
     g_pause @ '' interrupted by a Manager restart before: '' @ s_title row @ '' '' @ em_dash @
     '' the next Manager resumes this run'' @
     (if hadSecrets then ''; the values typed at approve are not kept across a restart, so a step that reads them asks for them again'' else [])"

definition pause_before :: "nat \<Rightarrow> run_id \<Rightarrow> step_row \<Rightarrow> unit act" where
  "pause_before fid rid row = bindM (gets (\<lambda>st. get_frame st fid)) (\<lambda>fr.
     (let secrets = (case fr of Some f \<Rightarrow> f_secrets f | None \<Rightarrow> new_secrets rid) in
      seqM [emitMeta fid rid (pause_line (secrets_size secrets > 0) row),
            wipeSecrets secrets, dropFrame fid, dropActive rid, forgetSecrets rid]))"

definition fail_missing :: "run_definition \<Rightarrow> json \<Rightarrow> nat \<Rightarrow> run_id \<Rightarrow> step_row \<Rightarrow> unit act" where
  "fail_missing df params fid rid row = bindM (gets x_clock) (\<lambda>now.
     (let missing = ''no implementation for step '' @ s_name row in
      seqM [onDb (\<lambda>d. (case setStepStatus (s_id row) (s_status row) SFailed (\<lambda>s. s\<lparr>s_error := Some missing, s_finishedAt := Some now\<rparr>) d of
                    Inl e \<Rightarrow> Inl e | Inr d' \<Rightarrow> Inr (settle_run rid RFailed (Some missing) now d'))),
            emitMeta fid rid (g_fail @ '' failed: '' @ s_name row @ '' '' @ em_dash @ '' '' @ missing),
            setDb (writeAudit (run_audit ''run.failed'' rid (Some (JObj [(''failedStep'', JStr (s_name row))])))),
            callOnTerminal (Some df) rid params RFailed,
            finishRun fid rid False]))"

definition start_step :: "nat \<Rightarrow> run_id \<Rightarrow> step_row \<Rightarrow> string \<Rightarrow> step_row list \<Rightarrow> bool \<Rightarrow> unit act" where
  "start_step fid rid row title rest isCleanup = bindM (gets x_clock) (\<lambda>now.
     seqM [onDb (setStepStatus (s_id row) (s_status row) SRunning (\<lambda>s. s\<lparr>s_startedAt := Some now\<rparr>)),
           emitMeta fid rid (g_play @ '' '' @ title),
           set_frame fid (\<lambda>f. f\<lparr>f_work := StepWork row title rest isCleanup\<rparr>)])"

definition final_status :: "bool \<Rightarrow> run_status" where
  "final_status isCleanup = (if isCleanup then RCancelled else RSucceeded)"

definition complete_run :: "run_definition \<Rightarrow> json \<Rightarrow> nat \<Rightarrow> run_id \<Rightarrow> bool \<Rightarrow> unit act" where
  "complete_run df params fid rid isCleanup = bindM (gets x_clock) (\<lambda>now.
     seqM [setDb (settle_run rid (final_status isCleanup) None now),
           emitMeta fid rid (if isCleanup then ''Run cancelled '' @ em_dash @ '' cleanup complete'' else ''Run succeeded''),
           setDb (writeAudit (run_audit (if isCleanup then ''run.cancelled'' else ''run.succeeded'') rid
             (if isCleanup then Some (JObj [(''cleanedUp'', JBool True)]) else None))),
           callOnTerminal (Some df) rid params (final_status isCleanup),
           finishRun fid rid True])"

text \<open>The loop over the rows, up to a step in flight (\<open>False\<close>: the run goes on or pauses) or to the run's end.\<close>

fun walk_rows :: "run_definition \<Rightarrow> json \<Rightarrow> nat \<Rightarrow> run_id \<Rightarrow> bool \<Rightarrow> step_row list \<Rightarrow> bool act" where
  "walk_rows df params fid rid isCleanup [] = bindM (complete_run df params fid rid isCleanup) (\<lambda>_. ret True)"
| "walk_rows df params fid rid isCleanup (row # rest) =
     (if is_done row then walk_rows df params fid rid isCleanup rest
      else bindM (gets (\<lambda>st. (frame_aborted st fid, x_stopping st))) (\<lambda>(aborted, stopping).
        if aborted then bindM (cancel_before df params fid rid row) (\<lambda>_. ret True)
        else if stopping then bindM (pause_before fid rid row) (\<lambda>_. ret False)
        else (case impl_titles df params (s_name row) of
                None \<Rightarrow> bindM (fail_missing df params fid rid row) (\<lambda>_. ret True)
              | Some title \<Rightarrow> bindM (start_step fid rid row title rest isCleanup) (\<lambda>_. ret False))))"

section \<open>execute\<close>

text \<open>\<^verbatim>\<open>String(v)\<close>, or \<^verbatim>\<open>JSON.stringify(v)\<close> for an object; the entries of what is no object are not shown.\<close>

fun param_text :: "json \<Rightarrow> string" where
  "param_text (JStr s) = s"
| "param_text j = json_stringify j"

fun args_text :: "json \<Rightarrow> string" where
  "args_text (JObj kvs) = join ''  '' (map (\<lambda>(k, v). k @ ''='' @ param_text v) kvs)"
| "args_text _ = []"

definition start_line :: "bool \<Rightarrow> bool \<Rightarrow> json \<Rightarrow> string" where
  "start_line afterRestart resuming params =
     (if afterRestart then ''Run resumed after a Manager restart''
      else if resuming then ''Run resumed''
      else (let args = args_text params in
            ''Run started'' @ (if args \<noteq> [] then ''  '' @ mid_dot @ ''  '' @ args else [])))"

definition mark_running :: "run_id \<Rightarrow> nat \<Rightarrow> db \<Rightarrow> db" where
  "mark_running rid at = update_run rid (\<lambda>r. r\<lparr>r_status := RRunning, r_startedAt := Some at\<rparr>)"

definition is_cleanup_run :: "step_row list \<Rightarrow> bool" where
  "is_cleanup_run rows = list_ex (\<lambda>r. startsWith (s_name r) ''cleanup:'') rows"

text \<open>From the registered controller to the first step.\<close>

definition begin_run :: "loaded_run \<Rightarrow> run_definition \<Rightarrow> json \<Rightarrow> bool \<Rightarrow> nat \<Rightarrow> bool act" where
  "begin_run run df params afterRestart fid =
     (let rid = lr_id run; resuming = (lr_startedAt run \<noteq> None) in
      bindM (gets x_clock) (\<lambda>now.
      bindM (setDb (mark_running rid (opt_default now (lr_startedAt run)))) (\<lambda>_.
      bindM (emitMeta fid rid (start_line afterRestart resuming (lr_params run))) (\<lambda>_.
      bindM (setDb (writeAudit (run_audit (if resuming then ''run.resumed'' else ''run.started'') rid None))) (\<lambda>_.
      bindM (gets (\<lambda>st. allStepRows (x_db st) rid)) (\<lambda>rows.
      walk_rows df params fid rid (is_cleanup_run rows) rows))))))"

definition plan_step_names :: "plan_json option \<Rightarrow> thrown + string list" where
  "plan_step_names pj = (case snap_of pj of Inl e \<Rightarrow> Inl e | Inr p \<Rightarrow> Inr (map fst (p_steps p)))"

text \<open>What \<^verbatim>\<open>execute\<close> decides before it registers the run: it throws, or refuses with a message, or goes on.\<close>

datatype admission = Refuse string "audit_row list" | Admit loaded_run run_definition json

definition admit_run :: "executor_deps \<Rightarrow> run_id \<Rightarrow> db \<Rightarrow> thrown + admission" where
  "admit_run D rid d =
     (case loadRun d rid of
        Inl e \<Rightarrow> Inl e
      | Inr run \<Rightarrow> (case def_of D (lr_kind run) of
          None \<Rightarrow> Inr (Refuse (''unknown run kind '' @ lr_kind run) [])
        | Some df \<Rightarrow> (case d_parse df (lr_params run) of
            Inl e \<Rightarrow> Inl e
          | Inr params \<Rightarrow> (case plan_step_names (lr_plan run) of
              Inl e \<Rightarrow> Inl e
            | Inr planned \<Rightarrow>
                (let actual = map si_name (d_steps df params) in
                 if join '','' actual \<noteq> join '','' planned
                 then Inr (Refuse (''step list diverged from the approved plan '' @ em_dash @ '' re-plan required'')
                        [run_audit ''run.plan_diverged'' rid (Some (JObj
                           [(''expected'', JArr (map JStr planned)), (''actual'', JArr (map JStr actual))]))])
                 else Inr (Admit run df params))))))"

definition execute :: "executor_deps \<Rightarrow> run_id \<Rightarrow> bool \<Rightarrow> bool act" where
  "execute D rid afterRestart = bindM (gets x_db) (\<lambda>d.
     (case admit_run D rid d of
        Inl e \<Rightarrow> execute_catch D rid e
      | Inr (Refuse msg audits) \<Rightarrow>
          bindM (seqM [forM audits (\<lambda>a. setDb (writeAudit a)), failRun_core D rid msg]) (\<lambda>_. ret True)
      | Inr (Admit run df params) \<Rightarrow>
          bindM (newFrame rid (lr_kind run) params Prologue) (\<lambda>fid.
          catchM (begin_run run df params afterRestart fid)
                 (\<lambda>e. bindM (dropFrame fid) (\<lambda>_. execute_catch D rid e)))))"

section \<open>A step comes back\<close>

definition fail_step :: "run_definition option \<Rightarrow> frame \<Rightarrow> step_row \<Rightarrow> string \<Rightarrow> thrown \<Rightarrow> unit act" where
  "fail_step df f row title err = bindM (gets (\<lambda>st. st)) (\<lambda>st.
     (let rid = f_run f; fid = f_id f; now = x_clock st;
          aborted = (frame_aborted st fid \<or> is_abort_error err);
          answered = redact (x_registry st) (thrown_message err);
          message = (if aborted \<and> \<not> is_abort_error err
                     then ''interrupted by a cancel while this step ran '' @ em_dash @ '' it answered afterwards: '' @ answered
                     else answered);
          status = (if aborted then RCancelled else RFailed)
      in seqM [onDb (\<lambda>d. (case setStepStatus (s_id row) SRunning SFailed (\<lambda>s. s\<lparr>s_error := Some message, s_finishedAt := Some now\<rparr>) d of
                    Inl e \<Rightarrow> Inl e | Inr d' \<Rightarrow> Inr (settle_run rid status (Some message) now d'))),
               emit fid rid (Some (s_id row)) Stderr (g_fail @ '' '' @ message),
               emitMeta fid rid ((if aborted then g_cancel @ '' cancelled during: '' else g_fail @ '' failed: '') @ title),
               setDb (writeAudit (run_audit (if aborted then ''run.cancelled'' else ''run.failed'') rid
                 (Some (JObj [(''failedStep'', JStr (s_name row))])))),
               whenM (\<not> aborted) (logLine LError (Some rid) ''run failed''),
               callOnTerminal df rid (f_params f) status,
               finishRun fid rid False]))"

text \<open>
  The rest of the loop body after \<^verbatim>\<open>await impl.run(stepCtx)\<close>: the \<^verbatim>\<open>try\<close> also covers the two statements that record
  the success, so an error of theirs fails the step.
\<close>

definition after_step :: "executor_deps \<Rightarrow> frame \<Rightarrow> step_row \<Rightarrow> string \<Rightarrow> step_row list \<Rightarrow> bool \<Rightarrow> thrown option \<Rightarrow> bool act" where
  "after_step D f row title rest isCleanup thrown =
     (let df = def_of D (f_kind f) in
      bindM (catchM
          (case thrown of
             Some e \<Rightarrow> throwM e
           | None \<Rightarrow> bindM (gets x_clock) (\<lambda>now.
               bindM (onDb (setStepStatus (s_id row) SRunning SOk (\<lambda>s. s\<lparr>s_finishedAt := Some now\<rparr>))) (\<lambda>_.
               bindM (emitMeta (f_id f) (f_run f) (g_check @ '' '' @ title)) (\<lambda>_. ret True))))
          (\<lambda>e. bindM (fail_step df f row title e) (\<lambda>_. ret False)))
        (\<lambda>went_ok. if \<not> went_ok then ret True
           else (case df of
              None \<Rightarrow> throwM type_error
            | Some x \<Rightarrow> walk_rows x (f_params f) (f_id f) (f_run f) isCleanup rest)))"

definition step_ends :: "executor_deps \<Rightarrow> nat \<Rightarrow> thrown option \<Rightarrow> bool act" where
  "step_ends D fid thrown = bindM (gets (\<lambda>st. get_frame st fid)) (\<lambda>fr.
     (case fr of
        None \<Rightarrow> ret False
      | Some f \<Rightarrow> (case f_work f of
          StepWork row title rest isCleanup \<Rightarrow>
            catchM (after_step D f row title rest isCleanup thrown)
                   (\<lambda>e. bindM (dropFrame fid) (\<lambda>_. execute_catch D (f_run f) e))
        | _ \<Rightarrow> ret False)))"

end
