(* ===== verification/Loop_Invariants.thy ===== *)
theory Loop_Invariants
  imports Run_Loop
begin

text \<open>
  What a property of the database has to withstand so that it holds after every segment of a run.

  \<open>log_invariant\<close> is the interface of a property no log line, audit row, inventory write or step status change can
  break. \<open>run_loop_invariant\<close> adds the two writes the loop makes to its own run: settling it, and releasing the locks of a
  settled run. Whoever proves these few laws has the property for \<^verbatim>\<open>execute\<close> and for every step that comes back.
\<close>

abbreviation on_db :: "(db \<Rightarrow> bool) \<Rightarrow> exec \<Rightarrow> bool" where
  "on_db I \<equiv> (\<lambda>st. I (x_db st))"

definition keeps_step_keys :: "(step_row \<Rightarrow> step_row) \<Rightarrow> bool" where
  "keeps_step_keys g \<longleftrightarrow> (\<forall>s. s_id (g s) = s_id s \<and> s_runId (g s) = s_runId s \<and> s_ordinal (g s) = s_ordinal s \<and>
     s_name (g s) = s_name s \<and> s_status (g s) = s_status s \<and> s_checkpoint (g s) = s_checkpoint s)"

lemma pres_modify_db: "(\<And>st. x_db (f st) = x_db st) \<Longrightarrow> pres (on_db I) (modify f)"
  by (simp add: pres_def)

lemma pres_quiet [intro, simp]:
  "pres (on_db I) (logLine lvl ro msg)" "pres (on_db I) (publish r e)" "pres (on_db I) (set_frame fid g)"
  "pres (on_db I) (dropFrame fid)" "pres (on_db I) (wipeSecrets m)" "pres (on_db I) (forgetSecrets r)"
  "pres (on_db I) (dropActive r)" "pres (on_db I) (newFrame r k p w)" "pres (on_db I) (storeSecrets r vs)"
  by (simp_all add: pres_def logLine_def publish_def set_frame_def dropFrame_def wipeSecrets_def forgetSecrets_def
      dropActive_def newFrame_def storeSecrets_def bindM_def Let_def split_beta)

lemma pres_bind_gets: "(\<And>x. pres I (k x)) \<Longrightarrow> pres I (bindM (gets f) k)"
  by (simp add: pres_def)

text \<open>A first statement that establishes a stronger property the rest of the sequence keeps.\<close>

lemma pres_seq_stronger:
  assumes "\<And>st st'. I st \<Longrightarrow> m st = (Inr (), st') \<Longrightarrow> J st'"
    and "\<And>st e st'. I st \<Longrightarrow> m st = (Inl e, st') \<Longrightarrow> I st'"
    and "pres J (seqM ms)" and "\<And>st. J st \<Longrightarrow> I st"
  shows "pres I (seqM (m # ms))"
  unfolding pres_def
proof (intro allI impI)
  fix st assume I: "I st"
  obtain r st' where m: "m st = (r, st')" by (cases "m st")
  show "I (snd (seqM (m # ms) st))"
  proof (cases r)
    case (Inl e)
    with m assms(2) [OF I] show ?thesis by (simp add: bindM_def)
  next
    case (Inr u)
    with m assms(1) [OF I] have "J st'" by simp
    with assms(3,4) m Inr show ?thesis by (simp add: bindM_def pres_def)
  qed
qed

locale log_invariant =
  fixes I :: "db \<Rightarrow> bool"
  assumes event: "I d \<Longrightarrow> insert_event e d = Inr d' \<Longrightarrow> I d'"
    and audit: "I d \<Longrightarrow> I (writeAudit a d)"
    and inventory: "I d \<Longrightarrow> I (d\<lparr>inventory := v\<rparr>)"
    and step_status: "I d \<Longrightarrow> keeps_step_keys cols \<Longrightarrow> setStepStatus sid from to cols d = Inr d' \<Longrightarrow> I d'"
begin

lemma pres_event [intro]: "pres (on_db I) (onDb (insert_event e))"
  by (rule pres_onDb) (rule event)

lemma pres_audit [intro]: "pres (on_db I) (setDb (writeAudit a))"
  by (rule pres_setDb) (rule audit)

lemma pres_step_status [intro]: "keeps_step_keys cols \<Longrightarrow> pres (on_db I) (onDb (setStepStatus sid from to cols))"
  by (rule pres_onDb) (rule step_status)

lemma pres_appendRunMeta [intro]: "pres (on_db I) (appendRunMeta r text)"
  unfolding appendRunMeta_def Let_def by (intro pres_bind_gets pres_seq) auto

lemma pres_emit_line [intro]: "pres (on_db I) (emit_line fid r sid stream raw)"
  unfolding emit_line_def Let_def by (intro pres_bind_gets pres_seq) (auto intro: pres_when)

lemma pres_emit [intro]: "pres (on_db I) (emit fid r sid stream text)"
  unfolding emit_def by (rule pres_for) auto

lemma pres_emitMeta [intro]: "pres (on_db I) (emitMeta fid r text)"
  unfolding emitMeta_def by (rule pres_emit)

lemma pres_callOnTerminal [intro]: "pres (on_db I) (callOnTerminal df r params status)"
proof (cases df)
  case (Some x)
  show ?thesis
  proof (cases "d_onTerminal x")
    case (Some hook)
    have "pres (on_db I) (setDb (\<lambda>d. d\<lparr>inventory := v\<rparr>))" for v
      by (rule pres_setDb) (rule inventory)
    then show ?thesis
      using Some \<open>df = Some x\<close>
      by (auto simp: callOnTerminal_def Let_def split_beta intro!: pres_bind_gets pres_bind pres_catch split: option.splits)
  qed (simp add: callOnTerminal_def Some)
qed (simp add: callOnTerminal_def)

lemma pres_pause_before [intro]: "pres (on_db I) (pause_before fid r row)"
  unfolding pause_before_def Let_def by (intro pres_bind_gets pres_seq) auto

lemma keys_startedAt [simp]: "keeps_step_keys (\<lambda>s. s\<lparr>s_startedAt := t\<rparr>)"
  by (simp add: keeps_step_keys_def)

lemma keys_finishedAt [simp]: "keeps_step_keys (\<lambda>s. s\<lparr>s_finishedAt := t\<rparr>)"
  by (simp add: keeps_step_keys_def)

lemma keys_failed [simp]: "keeps_step_keys (\<lambda>s. s\<lparr>s_error := e, s_finishedAt := t\<rparr>)"
  by (simp add: keeps_step_keys_def)

lemma pres_start_step [intro]: "pres (on_db I) (start_step fid r row title rest cu)"
  unfolding start_step_def by (intro pres_bind_gets pres_seq) auto

end

definition settled_status :: "run_status \<Rightarrow> bool" where
  "settled_status s = (s = RFailed \<or> s = RCancelled \<or> s = RSucceeded)"

locale run_loop_invariant = log_invariant I + settled: log_invariant "\<lambda>d. I d \<and> S d"
  for I :: "db \<Rightarrow> bool" and S :: "db \<Rightarrow> bool" +
  fixes rid :: run_id
  assumes settle: "I d \<Longrightarrow> settled_status status \<Longrightarrow>
      I (settle_run rid status err now d) \<and> S (settle_run rid status err now d)"
    and release: "I d \<Longrightarrow> S d \<Longrightarrow> I (releaseLocks now rid d) \<and> S (releaseLocks now rid d)"
begin

abbreviation IS :: "exec \<Rightarrow> bool" where
  "IS \<equiv> on_db (\<lambda>d. I d \<and> S d)"

lemma pres_finishRun: "pres IS (finishRun fid rid b)"
proof -
  have "pres IS (setDb (releaseLocks now rid))" for now
    by (rule pres_setDb) (simp add: release)
  moreover have "pres IS (case get_frame st fid of Some f \<Rightarrow> wipeSecrets (f_secrets f) | None \<Rightarrow> ret ())" for st
    by (auto split: option.splits)
  ultimately show ?thesis
    unfolding finishRun_def by (intro pres_bind_gets pres_seq) (auto intro: pres_when)
qed

text \<open>The settling transaction and what follows it.\<close>

lemma pres_settle_then:
  assumes "settled_status status" and "\<And>m. m \<in> set ms \<Longrightarrow> pres IS m"
  shows "pres (on_db I) (seqM (setDb (settle_run rid status err now) # ms))"
  by (rule pres_seq_stronger [where J = IS])
     (use assms settle in \<open>auto simp: setDb_def intro: pres_seq\<close>)

lemma pres_settle_step_then:
  assumes "settled_status status" and "keeps_step_keys cols" and "\<And>m. m \<in> set ms \<Longrightarrow> pres IS m"
  shows "pres (on_db I) (seqM (onDb (\<lambda>d. case setStepStatus sid from to cols d of
      Inl e \<Rightarrow> Inl e | Inr d' \<Rightarrow> Inr (settle_run rid status err now d')) # ms))"
proof (rule pres_seq_stronger [where J = IS])
  fix st st' :: exec
  assume "on_db I st" and "onDb (\<lambda>d. case setStepStatus sid from to cols d of
      Inl e \<Rightarrow> Inl e | Inr d' \<Rightarrow> Inr (settle_run rid status err now d')) st = (Inr (), st')"
  then show "IS st'"
    using step_status [OF _ assms(2)] settle assms(1)
    by (auto simp: onDb_def split: sum.splits)
qed (use assms(3) in \<open>auto simp: onDb_def split: sum.splits intro: pres_seq\<close>)

lemma pres_cancel_before: "pres (on_db I) (cancel_before df params fid rid row)"
  unfolding cancel_before_def
  by (intro pres_bind_gets pres_settle_then) (auto simp: settled_status_def pres_finishRun)

lemma pres_complete_run: "pres (on_db I) (complete_run df params fid rid cu)"
  unfolding complete_run_def
  by (intro pres_bind_gets pres_settle_then) (auto simp: settled_status_def final_status_def pres_finishRun)

lemma pres_fail_missing: "pres (on_db I) (fail_missing df params fid rid row)"
  unfolding fail_missing_def Let_def
  by (intro pres_bind_gets pres_settle_step_then) (auto simp: settled_status_def pres_finishRun)

lemma pres_fail_step:
  assumes rid: "f_run f = rid"
  shows "pres (on_db I) (fail_step df f row title err)"
  unfolding fail_step_def Let_def rid
  by (intro pres_bind_gets pres_settle_step_then) (auto simp: settled_status_def pres_finishRun intro: pres_when)

lemma pres_record_failure: "pres (on_db I) (record_failure D rid msg)"
proof -
  have "pres IS (case r of None \<Rightarrow> ret () | Some r \<Rightarrow> callOnTerminal (def_of D (r_kind r)) rid (params_of (r_params r)) RFailed)" for r
    by (auto split: option.splits)
  then show ?thesis
    unfolding record_failure_def
    by (intro pres_bind_gets pres_settle_then) (auto simp: settled_status_def intro: pres_bind_gets)
qed

lemma pres_failRun_core: "pres (on_db I) (failRun_core D rid msg)"
  unfolding failRun_core_def by (rule pres_seq) (auto intro: pres_catch pres_record_failure)

lemma pres_execute_catch: "pres (on_db I) (execute_catch D rid e)"
  unfolding execute_catch_def by (intro pres_bind_gets pres_bind pres_failRun_core) simp

lemma pres_walk_rows: "pres (on_db I) (walk_rows df params fid rid cu rows)"
proof (induction rows)
  case (Cons row rest)
  then show ?case
    by (auto intro!: pres_bind_gets pres_bind pres_cancel_before pres_fail_missing split: option.splits)
qed (auto intro: pres_complete_run)

lemma pres_after_step:
  assumes "f_run f = rid"
  shows "pres (on_db I) (after_step D f row title rest cu t)"
proof -
  have "pres (on_db I) (case t of Some e \<Rightarrow> throwM e
      | None \<Rightarrow> bindM (gets x_clock) (\<lambda>now.
          bindM (onDb (setStepStatus (s_id row) SRunning SOk (\<lambda>s. s\<lparr>s_finishedAt := Some now\<rparr>))) (\<lambda>_.
          bindM (emitMeta (f_id f) (f_run f) (g_check @ '' '' @ title)) (\<lambda>_. ret True))))"
    by (cases t) (auto intro!: pres_bind_gets pres_bind)
  moreover have "pres (on_db I) (if \<not> ok then ret True else (case df of None \<Rightarrow> throwM type_error
      | Some x \<Rightarrow> walk_rows x (f_params f) (f_id f) (f_run f) cu rest))" for ok df
    using pres_walk_rows assms by (cases df) auto
  ultimately show ?thesis
    unfolding after_step_def Let_def
    by (intro pres_bind pres_catch) (auto intro: pres_fail_step assms)
qed

lemma pres_catch_all:
  assumes "pres (on_db I) m"
  shows "pres (on_db I) (catchM m (\<lambda>e. bindM (dropFrame fid) (\<lambda>_. execute_catch D rid e)))"
  using assms by (intro pres_catch pres_bind pres_execute_catch) auto

text \<open>A step that comes back, on a frame of this run.\<close>

lemma step_ends_keeps:
  assumes "I (x_db st)" and "\<And>f. get_frame st fid = Some f \<Longrightarrow> f_run f = rid"
  shows "I (x_db (snd (step_ends D fid t st)))"
proof (cases "get_frame st fid")
  case (Some f)
  with assms(2) have rid: "f_run f = rid" by simp
  show ?thesis
  proof (cases "f_work f")
    case (StepWork row title rest cu)
    then show ?thesis
      using presD [OF pres_catch_all [OF pres_after_step [OF rid]] assms(1)] Some
      by (simp add: step_ends_def rid)
  qed (use Some assms(1) in \<open>simp_all add: step_ends_def\<close>)
qed (use assms(1) in \<open>simp add: step_ends_def\<close>)

text \<open>A run that is fired: the mark that it runs is the first write it makes.\<close>

lemma execute_keeps:
  assumes "I (x_db st)" and mark: "\<And>t. I (mark_running rid t (x_db st))"
  shows "I (x_db (snd (execute D rid after st)))"
proof (cases "admit_run D rid (x_db st)")
  case (Inl e)
  then show ?thesis using presD [OF pres_execute_catch assms(1)] by (simp add: execute_def)
next
  case (Inr a)
  show ?thesis
  proof (cases a)
    case (Refuse msg audits)
    have "pres (on_db I) (bindM (seqM [forM audits (\<lambda>a. setDb (writeAudit a)), failRun_core D rid msg]) (\<lambda>_. ret True))"
      by (rule pres_bind, rule pres_seq) (auto intro: pres_for pres_failRun_core)
    from presD [OF this assms(1)] show ?thesis by (simp add: execute_def Inr Refuse)
  next
    case (Admit run df params)
    then have id: "lr_id run = rid"
      using Inr by (auto simp: admit_run_def loadRun_def Let_def split: sum.splits option.splits if_splits dest!: get_run_in)
    obtain fid st1 where nf: "newFrame rid (lr_kind run) params Prologue st = (Inr fid, st1)" and db1: "x_db st1 = x_db st"
      by (auto simp: newFrame_def Let_def bindM_def)
    let ?k = "\<lambda>now. bindM (emitMeta fid rid (start_line after (lr_startedAt run \<noteq> None) (lr_params run))) (\<lambda>_.
      bindM (setDb (writeAudit (run_audit (if lr_startedAt run \<noteq> None then ''run.resumed'' else ''run.started'') rid None))) (\<lambda>_.
      bindM (gets (\<lambda>st. allStepRows (x_db st) rid)) (\<lambda>rows. walk_rows df params fid rid (is_cleanup_run rows) rows)))"
    let ?st2 = "st1\<lparr>x_db := mark_running rid (opt_default (x_clock st1) (lr_startedAt run)) (x_db st1)\<rparr>"
    have "pres (on_db I) (?k now)" for now
      by (intro pres_bind pres_bind_gets pres_walk_rows) auto
    then have "pres (on_db I) (catchM (?k now) (\<lambda>e. bindM (dropFrame fid) (\<lambda>_. execute_catch D rid e)))" for now
      by (rule pres_catch_all)
    moreover have "on_db I ?st2" using mark by (simp add: db1)
    ultimately have "I (x_db (snd (catchM (?k (x_clock st1)) (\<lambda>e. bindM (dropFrame fid) (\<lambda>_. execute_catch D rid e)) ?st2)))"
      by (rule presD)
    then show ?thesis
      by (simp add: execute_def Inr Admit bindM_def [of "newFrame _ _ _ _"] nf begin_run_def Let_def id catchM_def setDb_def)
  qed
qed

end

end
