(* ===== verification/Dispatch.thy ===== *)
theory Dispatch
  imports Loop_Invariants
begin

text \<open>
  Starting what the queue lets start (\<^verbatim>\<open>executor/queue-dispatch.ts\<close>).

  A dispatch fires the runs it started, a fired run that ends before its first \<^verbatim>\<open>await\<close> dispatches again, inside the
  loop of the first dispatch. These nested calls are a stack of tasks; \<open>drain\<close> works it off from the top, in the order
  the calls are made. It ends because every nested dispatch that starts a run takes one off the queue.
\<close>

section \<open>What a segment answers\<close>

lemma seq_cannot_throw: "(\<And>m st. m \<in> set ms \<Longrightarrow> fst (m st) = Inr ()) \<Longrightarrow> fst (seqM ms st) = Inr ()"
proof (induction ms arbitrary: st)
  case (Cons m ms)
  from Cons.prems [of m st] obtain st' where m: "m st = (Inr (), st')" by (cases "m st") auto
  from Cons have "fst (seqM ms st') = Inr ()" by simp
  with m show ?case by (simp add: bindM_def)
qed simp

lemma failRun_core_returns: "fst (failRun_core D rid msg st) = Inr ()"
  unfolding failRun_core_def
  by (rule seq_cannot_throw)
     (auto simp: catchM_def logLine_def dropActive_def forgetSecrets_def split: prod.splits sum.splits)

lemma execute_catch_answers: "fst (execute_catch D rid e st) = Inr True"
  using failRun_core_returns [of D rid "redact (x_registry st) (thrown_message e)" st]
  by (cases "failRun_core D rid (redact (x_registry st) (thrown_message e)) st") (simp add: execute_catch_def bindM_def)

lemma catch_all_answers: "\<exists>b. fst (catchM m (\<lambda>e. bindM (dropFrame fid) (\<lambda>_. execute_catch D rid e)) st) = Inr b"
  using execute_catch_answers by (auto simp: catchM_def dropFrame_def split: prod.splits sum.splits)

text \<open>\<^verbatim>\<open>execute\<close> never rejects.\<close>

lemma execute_answers: "\<exists>b. fst (execute D rid after st) = Inr b"
proof (cases "admit_run D rid (x_db st)")
  case (Inl e)
  then show ?thesis using execute_catch_answers by (intro exI [of _ True]) (simp add: execute_def)
next
  case (Inr a)
  show ?thesis
  proof (cases a)
    case (Refuse msg audits)
    have "fst (forM audits (\<lambda>a. setDb (writeAudit a)) st) = Inr ()" for st
      unfolding forM_def by (rule seq_cannot_throw) (auto simp: setDb_def)
    then have "fst (seqM [forM audits (\<lambda>a. setDb (writeAudit a)), failRun_core D rid msg] st) = Inr ()"
      by (intro seq_cannot_throw) (auto simp: failRun_core_returns)
    then show ?thesis by (auto simp: execute_def Inr Refuse bindM_def split: prod.splits sum.splits)
  next
    case (Admit run df params)
    obtain fid st1 where "newFrame rid (lr_kind run) params Prologue st = (Inr fid, st1)"
      by (auto simp: newFrame_def Let_def bindM_def)
    then show ?thesis
      using catch_all_answers by (simp add: execute_def Inr Admit bindM_def [of "newFrame _ _ _ _"])
  qed
qed

lemma step_ends_answers: "\<exists>b. fst (step_ends D fid t st) = Inr b"
  using catch_all_answers by (auto simp: step_ends_def split: option.splits work.splits)

section \<open>How many runs wait\<close>

definition n_queued :: "db \<Rightarrow> nat" where
  "n_queued d = length (filter (\<lambda>r. r_status r = RQueued) (runs d))"

lemma n_queued_update_run:
  "(\<And>r. r_status (g r) \<noteq> RQueued) \<Longrightarrow> n_queued (update_run rid g d) \<le> n_queued d"
proof -
  assume g: "\<And>r. r_status (g r) \<noteq> RQueued"
  have "length (filter (\<lambda>r. r_status r = RQueued) (update_where (\<lambda>r. r_id r = rid) g rs))
      \<le> length (filter (\<lambda>r. r_status r = RQueued) rs)" for rs
    by (induction rs) (auto simp: g)
  then show ?thesis by (simp add: n_queued_def update_run_def)
qed

lemma insert_event_frame:
  "insert_event e d = Inr d' \<Longrightarrow> runs d' = runs d \<and> steps d' = steps d \<and> run_locks d' = run_locks d \<and>
     events d' = events d @ [e] \<and> inventory d' = inventory d"
  by (auto simp: insert_event_def split: if_splits)

interpretation queue_count: run_loop_invariant "\<lambda>d. n_queued d \<le> n" "\<lambda>_. True" rid for n rid
proof unfold_locales
  fix d status err now
  assume "n_queued d \<le> n" and s: "settled_status status"
  moreover have "n_queued (settle_run rid status err now d) \<le> n_queued d"
    unfolding settle_run_def using s by (intro n_queued_update_run) (auto simp: settled_status_def)
  ultimately show "n_queued (settle_run rid status err now d) \<le> n \<and> True" by simp
qed (auto simp: n_queued_def setStepStatus_Inr insert_event_frame)

lemma execute_n_queued: "n_queued (x_db (snd (execute D rid after st))) \<le> n_queued (x_db st)"
  by (rule queue_count.execute_keeps) (auto simp: mark_running_def intro!: n_queued_update_run)

lemma move_to_approved_count:
  "n_queued (move_to_approved rid d) + length (filter (is_queued rid) (runs d)) = n_queued d"
proof -
  have "length (filter (\<lambda>r. r_status r = RQueued) (update_where (is_queued rid) (\<lambda>r. r\<lparr>r_status := RApproved\<rparr>) rs)) +
      length (filter (is_queued rid) rs) = length (filter (\<lambda>r. r_status r = RQueued) rs)" for rs
    by (induction rs) (auto simp: is_queued_def)
  then show ?thesis by (simp add: n_queued_def move_to_approved_def)
qed

lemma start_slots_count:
  "start_slots now ss d = Inr (d', started) \<Longrightarrow> n_queued d' + length started \<le> n_queued d"
proof (induction now ss d arbitrary: d' started rule: start_slots.induct)
  case (2 now s ss d)
  show ?case
  proof (cases "slot_starts s")
    case False
    with 2 show ?thesis by simp
  next
    case True
    let ?rid = "q_runId (qs_view s)"
    let ?d = "move_to_approved ?rid d"
    note count = move_to_approved_count [of ?rid d]
    show ?thesis
    proof (cases "length (filter (is_queued ?rid) (runs d)) = 1")
      case False
      with 2 True count show ?thesis by (fastforce simp: Let_def)
    next
      case one: True
      with 2(4) True obtain d2 st2 where d2: "insertLocks now (qs_claims s) ?rid ?d = Inr d2"
        "start_slots now ss d2 = Inr (d', st2)" "started = ?rid # st2"
        by (auto simp: Let_def split: sum.splits)
      with 2(3) [OF _ refl refl refl] True one have "n_queued d' + length st2 \<le> n_queued d2" by simp
      moreover have "n_queued d2 = n_queued ?d" using insertLocks_Inr [OF d2(1)] by (simp add: n_queued_def)
      ultimately show ?thesis using count one d2(3) by simp
    qed
  qed
qed simp

lemma startQueuedRuns_count:
  "startQueuedRuns now hs d = Inr (d', started) \<Longrightarrow> n_queued d' + length started \<le> n_queued d"
  by (auto simp: startQueuedRuns_def split: sum.splits dest: start_slots_count)

section \<open>The dispatcher\<close>

text \<open>The holders a waiting run was warned about are in \<^verbatim>\<open>warned\<close>, one line per pair.\<close>

fun warn_claims :: "run_id \<Rightarrow> taken_claim list \<Rightarrow> run_id list \<Rightarrow> exec \<Rightarrow> run_id list \<times> exec" where
  "warn_claims rid [] reported st = (reported, st)"
| "warn_claims rid (w # ws) reported st =
     (if tk_runId w \<in> set reported then warn_claims rid ws reported st
      else (case findFailedHolder (x_db st) (tk_runId w) of
              None \<Rightarrow> warn_claims rid ws reported st
            | Some holder \<Rightarrow> warn_claims rid ws (reported @ [tk_runId w])
                (st\<lparr>x_log := x_log st @ [(LWarn, Some rid, ''a run waits behind a failed run's lock'')]\<rparr>)))"

fun warn_views :: "queued_view list \<Rightarrow> exec \<Rightarrow> exec" where
  "warn_views [] st = st"
| "warn_views (q # qs) st =
     (let (reported, st') = warn_claims (q_runId q) (q_waitsFor q) (opt_default [] (map_of (x_warned st) (q_runId q))) st
      in warn_views qs (if reported \<noteq> [] then st'\<lparr>x_warned := map_set (q_runId q) reported (x_warned st')\<rparr> else st'))"

definition warnAboutFailedHolders :: "exec \<Rightarrow> exec" where
  "warnAboutFailedHolders st =
     (case listQueuedRuns (x_db st) (has_secrets st) of
        Inl e \<Rightarrow> st\<lparr>x_log := x_log st @ [(LError, None, ''could not check whether a queued run waits behind a failed run'')]\<rparr>
      | Inr qs \<Rightarrow> warn_views qs st)"

definition leave :: "run_id \<Rightarrow> exec \<Rightarrow> exec" where
  "leave rid st = st\<lparr>x_warned := map_delete rid (x_warned st)\<rparr>"

datatype task = TDispatch | TFire run_id bool | TLeave run_id | TWarn

definition fire_tasks :: "run_id list \<Rightarrow> task list" where
  "fire_tasks started = concat (map (\<lambda>r. [TFire r False, TLeave r]) started)"

fun task_weight :: "task \<Rightarrow> nat" where
  "task_weight TDispatch = 2"
| "task_weight (TFire _ _) = 3"
| "task_weight (TLeave _) = 1"
| "task_weight TWarn = 1"

definition drain_measure :: "task list \<Rightarrow> exec \<Rightarrow> nat" where
  "drain_measure ts st = 4 * n_queued (x_db st) + sum_list (map task_weight ts)"

lemma warn_claims_db: "x_db (snd (warn_claims rid ws reported st)) = x_db st"
  by (induction rid ws reported st rule: warn_claims.induct) (auto split: option.splits)

lemma warn_views_db: "x_db (warn_views qs st) = x_db st"
  by (induction qs st rule: warn_views.induct) (auto simp: Let_def split_beta warn_claims_db)

lemma warn_db [simp]: "x_db (warnAboutFailedHolders st) = x_db st"
  by (auto simp: warnAboutFailedHolders_def warn_views_db split: sum.splits)

lemma leave_db [simp]: "x_db (leave rid st) = x_db st"
  by (simp add: leave_def)

lemma fire_tasks_weight: "sum_list (map task_weight (fire_tasks started)) = 4 * length started"
  by (induction started) (simp_all add: fire_tasks_def)

lemma drain_measure_start:
  "startQueuedRuns (x_clock st) (has_secrets st) (x_db st) = Inr (d, started) \<Longrightarrow>
   drain_measure (fire_tasks started @ TWarn # ts) (st\<lparr>x_db := d\<rparr>) < drain_measure (TDispatch # ts) st"
  using startQueuedRuns_count [of "x_clock st" "has_secrets st" "x_db st" d started]
  by (simp add: drain_measure_def fire_tasks_weight)

lemma drain_measure_fire:
  assumes "(x, st') = execute D rid after st"
  shows "drain_measure (TDispatch # ts) st' < drain_measure (TFire rid after # ts) st"
    and "drain_measure ts st' < drain_measure (TFire rid after # ts) st"
  using execute_n_queued [of D rid after st] assms [symmetric] by (simp_all add: drain_measure_def)

lemma drain_measure_simps:
  "drain_measure ts st < drain_measure (TDispatch # ts) st"
  "drain_measure (TWarn # ts) (st\<lparr>x_log := l\<rparr>) < drain_measure (TDispatch # ts) st"
  "drain_measure ts (leave rid st) < drain_measure (TLeave rid # ts) st"
  "drain_measure ts (warnAboutFailedHolders st) < drain_measure (TWarn # ts) st"
  by (simp_all add: drain_measure_def)

function (sequential) drain :: "executor_deps \<Rightarrow> task list \<Rightarrow> exec \<Rightarrow> exec" where
  "drain D [] st = st"
| "drain D (TDispatch # ts) st =
     (if x_stopping st then drain D ts st
      else (case startQueuedRuns (x_clock st) (has_secrets st) (x_db st) of
              Inl e \<Rightarrow> drain D (TWarn # ts)
                 (st\<lparr>x_log := x_log st @ [(LError, None, ''the queued runs could not be started'')]\<rparr>)
            | Inr (d, started) \<Rightarrow> drain D (fire_tasks started @ TWarn # ts) (st\<lparr>x_db := d\<rparr>)))"
| "drain D (TFire rid after # ts) st =
     (case execute D rid after st of
        (Inr True, st') \<Rightarrow> drain D (TDispatch # ts) st'
      | (_, st') \<Rightarrow> drain D ts st')"
| "drain D (TLeave rid # ts) st = drain D ts (leave rid st)"
| "drain D (TWarn # ts) st = drain D ts (warnAboutFailedHolders st)"
  by pat_completeness auto
termination
  by (relation "measure (\<lambda>(D, ts, st). drain_measure ts st)")
     (auto simp: drain_measure_start drain_measure_fire drain_measure_simps)

declare drain.simps [simp del]

definition dispatch :: "executor_deps \<Rightarrow> unit act" where
  "dispatch D = modify (drain D [TDispatch])"

definition fireExecute :: "executor_deps \<Rightarrow> run_id \<Rightarrow> bool \<Rightarrow> unit act" where
  "fireExecute D rid afterRestart = modify (drain D [TFire rid afterRestart])"

definition failRun :: "executor_deps \<Rightarrow> run_id \<Rightarrow> string \<Rightarrow> unit act" where
  "failRun D rid msg = bindM (failRun_core D rid msg) (\<lambda>_. dispatch D)"

text \<open>The next segment of a run, with the dispatch its end makes.\<close>

definition stepEnds :: "executor_deps \<Rightarrow> nat \<Rightarrow> thrown option \<Rightarrow> unit act" where
  "stepEnds D fid thrown = bindM (step_ends D fid thrown) (\<lambda>ended. whenM ended (dispatch D))"

definition failedNote :: "db \<Rightarrow> run_id \<Rightarrow> string" where
  "failedNote d rid =
     (case findFailedHolder d rid of
        None \<Rightarrow> []
      | Some h \<Rightarrow> '', '' @ show_run_status (fh_status h) @
          (case fh_failedStep h of Some s \<Rightarrow> if s \<noteq> [] then '' at step '' @ s else [] | None \<Rightarrow> []))"

definition waits_text :: "db \<Rightarrow> taken_claim list \<Rightarrow> string" where
  "waits_text d ws =
     (if ws \<noteq> [] then join '', '' (map (\<lambda>w. show_resource (c_resource w) @ '' '' @ c_key w @ '' (run '' @ tk_runId w @ failedNote d (tk_runId w) @ '')'') ws)
      else ''the next start of the queue'')"

datatype approve_answer = AnsApproved | AnsQueued

definition startedOrQueued :: "run_id \<Rightarrow> approve_answer act" where
  "startedOrQueued rid = bindM (gets (\<lambda>st. st)) (\<lambda>st.
     bindM (liftE (listQueuedRuns (x_db st) (has_secrets st))) (\<lambda>qs.
       (case List.find (\<lambda>q. q_runId q = rid) qs of
          None \<Rightarrow> ret AnsApproved
        | Some place \<Rightarrow> bindM (appendRunMeta rid (g_wait @ '' queued at place '' @ show_nat (q_place place) @
              '': it waits for '' @ waits_text (x_db st) (q_waitsFor place))) (\<lambda>_. ret AnsQueued))))"

end
