(* ===== verification/Operations.thy ===== *)
theory Operations
  imports Dispatch
begin

text \<open>
  The operations of the executor (\<^verbatim>\<open>executor/executor.ts\<close>: plan, approve, discard, delete, cancel, resume on boot,
  shutdown; \<^verbatim>\<open>executor/approve.ts\<close>; \<^verbatim>\<open>executor/step-recovery.ts\<close>: retry, skip, abort).

  An operation that awaits a hook of the definition is two segments: what it checks before the \<^verbatim>\<open>await\<close>, and what it does
  with the answer, in whatever state it then finds. An operation that awaits nothing is one segment.
\<close>

section \<open>Plan\<close>

definition names_of :: "(string \<times> string) list \<Rightarrow> string list" where
  "names_of ps = map fst ps"

definition plan_draft :: "executor_deps \<Rightarrow> string \<Rightarrow> json \<Rightarrow> db \<Rightarrow> thrown + run_definition \<times> json \<times> plan" where
  "plan_draft D kind raw d =
     (case def_of D kind of
        None \<Rightarrow> Inl (App (Validation (''unknown run kind: '' @ kind)))
      | Some df \<Rightarrow> (case d_parse df raw of
          Inl e \<Rightarrow> Inl e
        | Inr params \<Rightarrow> (case d_plan df params d of
            Inl e \<Rightarrow> Inl e
          | Inr planned \<Rightarrow>
              if join '','' (map si_name (d_steps df params)) \<noteq> join '','' (names_of (p_steps planned))
              then Inl (App (Internal (''planner/steps name mismatch for '' @ kind)))
              else Inr (df, params, planned))))"

definition snapshot :: "executor_deps \<Rightarrow> plan \<Rightarrow> json \<Rightarrow> preflight_check list \<Rightarrow> nat \<Rightarrow> plan_snapshot" where
  "snapshot D planned params findings now =
     (let p = planned\<lparr>p_findings := Some findings\<rparr>
      in plan.extend p \<lparr>planHash = hashPlan (sha256 D) p params, plannedAt = now\<rparr>)"

definition new_step :: "run_id \<Rightarrow> (nat \<Rightarrow> step_id) \<Rightarrow> nat \<times> step_impl \<Rightarrow> step_row" where
  "new_step rid gen = (\<lambda>(i, s). \<lparr>s_id = gen i, s_runId = rid, s_ordinal = i, s_name = si_name s, s_title = si_title s,
     s_status = SPending, s_startedAt = None, s_finishedAt = None, s_checkpoint = None, s_skipReason = None, s_error = None\<rparr>)"

definition new_steps :: "run_id \<Rightarrow> (nat \<Rightarrow> step_id) \<Rightarrow> step_impl list \<Rightarrow> step_row list" where
  "new_steps rid gen impls = map (new_step rid gen) (zip [0 ..< length impls] impls)"

definition new_run :: "run_id \<Rightarrow> string \<Rightarrow> string \<Rightarrow> string \<Rightarrow> json \<Rightarrow> plan_json option \<Rightarrow> run_status \<Rightarrow> string \<Rightarrow> nat \<Rightarrow> run_row" where
  "new_run rid kind tk ti params pj status owner now =
     \<lparr>r_id = rid, r_kind = kind, r_targetKind = tk, r_targetId = ti, r_params = params, r_plan = pj, r_status = status,
      r_approvedAt = None, r_startedAt = None, r_finishedAt = None, r_error = None, r_owner = owner, r_creation = now, r_deleted = None\<rparr>"

definition mint :: "nat \<Rightarrow> nat act" where
  "mint n = bindM (gets x_minted) (\<lambda>m. bindM (modify (\<lambda>st. st\<lparr>x_minted := m + n\<rparr>)) (\<lambda>_. ret m))"

definition plan_commit :: "executor_deps \<Rightarrow> string \<Rightarrow> string \<Rightarrow> run_definition \<Rightarrow> json \<Rightarrow> plan \<Rightarrow> (run_id \<times> plan_snapshot) act" where
  "plan_commit D owner kind df params planned =
     (let impls = d_steps df params; (lines, answer) = runProbes impls params in
      bindM (forM lines (logLine LInfo None)) (\<lambda>_.
      bindM (liftE answer) (\<lambda>findings.
      bindM (gets x_clock) (\<lambda>now.
      bindM (mint (Suc (length impls))) (\<lambda>m.
      (let snap = snapshot D planned params findings now; rid = newId D ''run'' m in
       bindM (onDb (\<lambda>d. (case insert_run (new_run rid kind (p_targetKind planned) (p_targetId planned) params (Some (PlanSnap snap)) RPlanned owner now) d of
                Inl e \<Rightarrow> Inl e | Inr d' \<Rightarrow> insert_steps (new_steps rid (\<lambda>i. newId D ''step'' (m + 1 + i)) impls) d'))) (\<lambda>_.
       bindM (setDb (writeAudit \<lparr>a_action = ''run.planned'', a_targetKind = Some (p_targetKind planned),
                a_targetId = Some (p_targetId planned), a_runId = Some rid,
                a_detail = Some (JObj [(''kind'', JStr kind), (''summary'', JStr (p_summary planned))])\<rparr>)) (\<lambda>_.
       ret (rid, snap)))))))))"

section \<open>Approve\<close>

fun require_secrets :: "string list \<Rightarrow> secret_values \<Rightarrow> thrown + unit" where
  "require_secrets [] vs = Inr ()"
| "require_secrets (n # ns) vs =
     (case map_of vs n of
        Some v \<Rightarrow> if v = [] then Inl (App (Validation (''missing required secret: '' @ n))) else require_secrets ns vs
      | None \<Rightarrow> Inl (App (Validation (''missing required secret: '' @ n))))"

definition assertApprovable :: "loaded_run \<Rightarrow> run_definition option \<Rightarrow> db \<Rightarrow> secret_values option \<Rightarrow> thrown + unit" where
  "assertApprovable run df d secrets =
     (case snap_of (lr_plan run) of
        Inl e \<Rightarrow> Inl e
      | Inr p \<Rightarrow> (case require_secrets (p_requiredSecrets p) (opt_default [] secrets) of
          Inl e \<Rightarrow> Inl e
        | Inr _ \<Rightarrow> (case df of
            None \<Rightarrow> Inr ()
          | Some x \<Rightarrow> (case d_assertApprovable x of
              None \<Rightarrow> Inr ()
            | Some hook \<Rightarrow> (case d_parse x (lr_params run) of
                Inl e \<Rightarrow> Inl e
              | Inr params \<Rightarrow> (case hook params d (opt_default [] secrets) of
                  Some e \<Rightarrow> Inl e
                | None \<Rightarrow> Inr ()))))))"

text \<open>The part of \<^verbatim>\<open>approve\<close> before the \<^verbatim>\<open>await\<close>: the loaded run, and whether it is a queued one that lost its secrets.\<close>

definition approve_check :: "executor_deps \<Rightarrow> run_id \<Rightarrow> secret_values option \<Rightarrow> exec \<Rightarrow> thrown + loaded_run" where
  "approve_check D rid secrets st =
     (case loadRun (x_db st) rid of
        Inl e \<Rightarrow> Inl e
      | Inr run \<Rightarrow>
          (let allowed = (if lr_status run = RQueued
             then (case listQueuedRuns (x_db st) (has_secrets st) of
                     Inl e \<Rightarrow> Inl e
                   | Inr qs \<Rightarrow> (case List.find (\<lambda>q. q_runId q = rid) qs of
                       Some q \<Rightarrow> if q_needsSecrets q then Inr ()
                         else Inl (App (IllegalTransition (''run '' @ rid @ '' is already queued with everything it needs'')))
                     | None \<Rightarrow> Inl (App (IllegalTransition (''run '' @ rid @ '' is already queued with everything it needs'')))))
             else assertRunTransition (lr_status run) RQueued)
           in case allowed of
                Inl e \<Rightarrow> Inl e
              | Inr _ \<Rightarrow> (case assertApprovable run (def_of D (lr_kind run)) (x_db st) secrets of
                  Inl e \<Rightarrow> Inl e | Inr _ \<Rightarrow> Inr run)))"

text \<open>\<^verbatim>\<open>UPDATE runs SET status = 'queued' WHERE id = ? AND status = 'planned'\<close>: answers whether it moved exactly one row.\<close>

definition move_to_queued :: "nat \<Rightarrow> run_id \<Rightarrow> db \<Rightarrow> nat \<times> db" where
  "move_to_queued now rid d =
     (let P = (\<lambda>r. r_id r = rid \<and> r_status r = RPlanned)
      in (length (filter P (runs d)),
          d\<lparr>runs := update_where P (\<lambda>r. r\<lparr>r_status := RQueued, r_approvedAt := Some now\<rparr>) (runs d)\<rparr>))"

definition refuse_unless_free :: "loaded_run \<Rightarrow> plan_snapshot \<Rightarrow> unit act" where
  "refuse_unless_free run p = bindM (gets (\<lambda>st. conflictsAtEndOfQueue (x_db st) (planClaims p) (has_secrets st))) (\<lambda>r.
     (case r of
        Inl e \<Rightarrow> throwM e
      | Inr [] \<Rightarrow> ret ()
      | Inr (h # _) \<Rightarrow> throwM (App (ResourceBusy ''Resource busy'' (show_resource (c_resource h)) (c_key h) (tk_runId h)))))"

definition approve_commit :: "executor_deps \<Rightarrow> loaded_run \<Rightarrow> secret_values option \<Rightarrow> bool \<Rightarrow> approve_answer act" where
  "approve_commit D run secrets onlyIfFree =
     (let rid = lr_id run in
      bindM (liftE (snap_of (lr_plan run))) (\<lambda>p.
      bindM (whenM onlyIfFree (refuse_unless_free run p)) (\<lambda>_.
      bindM (gets (\<lambda>st. move_to_queued (x_clock st) rid (x_db st))) (\<lambda>(changes, d).
      bindM (setDb (\<lambda>_. d)) (\<lambda>_.
      bindM (whenM (changes \<noteq> 1) (throwM (App (IllegalTransition
                (''run '' @ rid @ '' was approved or discarded while this approve was checked''))))) (\<lambda>_.
      bindM (setDb (writeAudit (run_audit ''run.approved'' rid (Some (JObj [(''planHash'', JStr (planHash p))]))))) (\<lambda>_.
      bindM (storeSecrets rid (opt_default [] secrets)) (\<lambda>_.
      bindM (dispatch D) (\<lambda>_. startedOrQueued rid)))))))))"

definition retype_commit :: "executor_deps \<Rightarrow> loaded_run \<Rightarrow> secret_values option \<Rightarrow> approve_answer act" where
  "retype_commit D run secrets =
     (let rid = lr_id run in
      bindM (seqM [storeSecrets rid (opt_default [] secrets),
        setDb (writeAudit (run_audit ''run.secrets_retyped'' rid None)),
        appendRunMeta rid ''its secrets were typed again, and it keeps its place in the queue'',
        dispatch D]) (\<lambda>_. startedOrQueued rid))"

definition approve_resume :: "executor_deps \<Rightarrow> loaded_run \<Rightarrow> secret_values option \<Rightarrow> bool \<Rightarrow> approve_answer act" where
  "approve_resume D run secrets onlyIfFree =
     (if lr_status run = RQueued then retype_commit D run secrets else approve_commit D run secrets onlyIfFree)"

section \<open>Discard, delete, cancel\<close>

definition wipeRun :: "run_id \<Rightarrow> unit act" where
  "wipeRun rid = bindM (gets (\<lambda>st. map_of (x_secrets st) rid)) (\<lambda>m.
     bindM (case m of Some s \<Rightarrow> wipeSecrets s | None \<Rightarrow> ret ()) (\<lambda>_. forgetSecrets rid))"

definition discard :: "executor_deps \<Rightarrow> run_id \<Rightarrow> unit act" where
  "discard D rid = bindM (gets (\<lambda>st. st)) (\<lambda>st.
     bindM (liftE (loadRun (x_db st) rid)) (\<lambda>run.
     bindM (liftE (assertRunTransition (lr_status run) RCancelled)) (\<lambda>_.
     seqM [setDb (settle_run rid RCancelled None (x_clock st)),
           setDb (writeAudit (run_audit ''run.cancelled'' rid (Some (JObj
             [(''discarded'', JBool True), (''queued'', JBool (lr_status run = RQueued))])))),
           callOnTerminal (def_of D (lr_kind run)) rid (lr_params run) RCancelled,
           wipeRun rid,
           modify (leave rid),
           whenM (lr_status run = RQueued) (dispatch D)])))"

definition mark_deleted :: "run_id \<Rightarrow> nat \<Rightarrow> db \<Rightarrow> db" where
  "mark_deleted rid now = update_run rid (\<lambda>r. r\<lparr>r_deleted := Some now\<rparr>)"

definition deleteRun :: "executor_deps \<Rightarrow> run_id \<Rightarrow> unit act" where
  "deleteRun D rid = bindM (gets (\<lambda>st. st)) (\<lambda>st.
     (case get_run (x_db st) rid of
        None \<Rightarrow> throwM (App (NotFound (''run '' @ rid)))
      | Some r \<Rightarrow>
          if r_deleted r \<noteq> None then ret ()
          else if \<not> isDeletableRun (r_status r) then throwM (App (IllegalTransition
            (''run '' @ rid @ '' is '' @ show_run_status (r_status r) @ '' '' @ em_dash @ '' an in-flight run must settle before it can be deleted'')))
          else seqM [
            whenM (r_status r = RPlanned) (callOnTerminal (def_of D (r_kind r)) rid (params_of (r_params r)) RCancelled),
            setDb (\<lambda>d. mark_deleted rid (x_clock st) (releaseLocks (x_clock st) rid d)),
            forgetSecrets rid,
            dispatch D,
            setDb (writeAudit \<lparr>a_action = ''run.deleted'', a_targetKind = Some (r_targetKind r), a_targetId = Some (r_targetId r),
              a_runId = Some rid, a_detail = Some (JObj [(''kind'', JStr (r_kind r)),
                (''statusAtDelete'', JStr (show_run_status (r_status r))), (''soft'', JBool True)])\<rparr>)]))"

definition cancelPaused :: "executor_deps \<Rightarrow> run_id \<Rightarrow> unit act" where
  "cancelPaused D rid = bindM (gets (\<lambda>st. st)) (\<lambda>st.
     (case get_run (x_db st) rid of
        None \<Rightarrow> ret ()
      | Some r \<Rightarrow>
          if r_status r \<noteq> RRunning then ret ()
          else (let nxt = List.find (\<lambda>s. \<not> is_done s) (allStepRows (x_db st) rid) in
            seqM [setDb (settle_run rid RCancelled None (x_clock st)),
                  appendRunMeta rid (g_cancel @ '' cancelled before: '' @ (case nxt of Some s \<Rightarrow> s_title s | None \<Rightarrow> ''its end'')),
                  setDb (writeAudit (run_audit ''run.cancelled'' rid (Some (JObj
                    [(''beforeStep'', (case nxt of Some s \<Rightarrow> JStr (s_name s) | None \<Rightarrow> JNull))])))),
                  callOnTerminal (def_of D (r_kind r)) rid (params_of (r_params r)) RCancelled])))"

text \<open>\<^verbatim>\<open>cancel\<close> up to \<^verbatim>\<open>settle\<close>, which only waits.\<close>

definition cancel :: "executor_deps \<Rightarrow> run_id \<Rightarrow> unit act" where
  "cancel D rid = bindM (gets (\<lambda>st. st)) (\<lambda>st.
     (if status_of (x_db st) rid = Some RQueued then discard D rid
      else (case map_of (x_active st) rid of
              Some fid \<Rightarrow> set_frame fid (\<lambda>f. f\<lparr>f_aborted := True\<rparr>)
            | None \<Rightarrow> whenM (x_stopping st) (cancelPaused D rid))))"

section \<open>Boot and shutdown\<close>

definition interrupted_line :: string where
  "interrupted_line = ''validation was interrupted by a manager restart '' @ em_dash @ '' re-submit the onboarding''"

definition retype_line :: string where
  "retype_line = g_pause @ '' the Manager restarted while this run was queued, and typed secrets live only in memory: type them again on the run page, and the run keeps its place''"

definition runs_in :: "run_status list \<Rightarrow> db \<Rightarrow> run_id list" where
  "runs_in ss d = map r_id (filter (\<lambda>r. r_status r \<in> set ss) (runs d))"

definition reset_running :: "run_id \<Rightarrow> db \<Rightarrow> thrown + db" where
  "reset_running rid = setStepStatusIn rid [SRunning] SPending (\<lambda>s. s\<lparr>s_startedAt := None\<rparr>)"

definition resume_body :: "executor_deps \<Rightarrow> unit act" where
  "resume_body D = bindM (gets (\<lambda>st. runs_in [RPlanning] (x_db st))) (\<lambda>orphaned.
     bindM (forM orphaned (\<lambda>rid. failRun D rid interrupted_line)) (\<lambda>_.
     bindM (gets (\<lambda>st. runs_in [RRunning, RApproved] (x_db st))) (\<lambda>pending.
     bindM (forM pending (\<lambda>rid. onDb (reset_running rid))) (\<lambda>_.
     bindM (forM pending (\<lambda>rid. fireExecute D rid True)) (\<lambda>_.
     bindM (gets (\<lambda>st. listQueuedRuns (x_db st) (has_secrets st))) (\<lambda>r.
     bindM (liftE r) (\<lambda>qs.
     bindM (forM (filter q_needsSecrets qs) (\<lambda>q. appendRunMeta (q_runId q) retype_line)) (\<lambda>_.
     dispatch D))))))))"

definition resumeOnBoot :: "executor_deps \<Rightarrow> unit act" where
  "resumeOnBoot D = catchM (resume_body D)
     (\<lambda>_. logLine LError None ''boot-time recovery could not read or normalize the runs a crash left behind'')"

definition shutdown :: "unit act" where
  "shutdown = modify (\<lambda>st. st\<lparr>x_stopping := True\<rparr>)"

text \<open>A process begins with what the database holds. Frames keep their numbers apart from those of earlier processes.\<close>

definition fresh_process :: "exec \<Rightarrow> exec" where
  "fresh_process st = st\<lparr>x_bus := [], x_log := [], x_secrets := [], x_registry := [], x_active := [], x_frames := [],
     x_stopping := False, x_warned := []\<rparr>"

definition boot :: "executor_deps \<Rightarrow> unit act" where
  "boot D = bindM (modify fresh_process) (\<lambda>_. bindM (gets x_clock) (\<lambda>now.
     bindM (setDb (reconcileLocks now)) (\<lambda>_. resumeOnBoot D)))"

section \<open>Recovery\<close>

definition reset_row :: "step_row \<Rightarrow> db \<Rightarrow> thrown + db" where
  "reset_row s d = (if s_status s \<noteq> SOk
     then setStepStatus (s_id s) (s_status s) SPending (\<lambda>s. s\<lparr>s_error := None, s_startedAt := None, s_finishedAt := None\<rparr>) d
     else Inr d)"

fun reset_rows :: "step_row list \<Rightarrow> db \<Rightarrow> thrown + db" where
  "reset_rows [] d = Inr d"
| "reset_rows (s # ss) d = (case reset_row s d of Inl e \<Rightarrow> Inl e | Inr d' \<Rightarrow> reset_rows ss d')"

definition restart_run :: "run_id \<Rightarrow> db \<Rightarrow> db" where
  "restart_run rid = update_run rid (\<lambda>r. r\<lparr>r_status := RRunning, r_error := None, r_finishedAt := None\<rparr>)"

definition reset_from :: "run_id \<Rightarrow> nat \<Rightarrow> db \<Rightarrow> thrown + db" where
  "reset_from rid ord d =
     (case reset_rows (filter (\<lambda>s. s_runId s = rid \<and> ord \<le> s_ordinal s) (steps d)) d of
        Inl e \<Rightarrow> Inl e | Inr d' \<Rightarrow> Inr (restart_run rid d'))"

definition retry_target :: "db \<Rightarrow> loaded_run \<Rightarrow> string option \<Rightarrow> thrown + step_row" where
  "retry_target d run stepName =
     (case (case stepName of Some n \<Rightarrow> if n \<noteq> [] then stepRowFull d (lr_id run) n else stepToResume d (lr_id run) (lr_status run)
                           | None \<Rightarrow> stepToResume d (lr_id run) (lr_status run)) of
        Inl e \<Rightarrow> Inl e
      | Inr s \<Rightarrow>
          if s_status s \<noteq> SFailed \<and> s_status s \<noteq> SSkipped \<and> s_status s \<noteq> SPending
          then Inl (App (Validation (''cannot retry from step '' @ s_name s @ '' (status '' @ show_step_status (s_status s) @ '')'')))
          else Inr s)"

definition take_plan_locks :: "run_id \<Rightarrow> plan_json option \<Rightarrow> unit act" where
  "take_plan_locks rid pj = bindM (liftE (snap_of pj)) (\<lambda>p.
     bindM (gets x_clock) (\<lambda>now. onDb (acquireLocks now rid (planClaims p))))"

definition retryFromStep :: "executor_deps \<Rightarrow> run_id \<Rightarrow> string option \<Rightarrow> secret_values option \<Rightarrow> unit act" where
  "retryFromStep D rid stepName secrets = bindM (gets x_db) (\<lambda>d.
     bindM (liftE (loadRun d rid)) (\<lambda>run.
     bindM (liftE (assertRecoverable rid (lr_status run) (lr_startedAt run) ''retry'')) (\<lambda>_.
     bindM (liftE (retry_target d run stepName)) (\<lambda>target.
     bindM (take_plan_locks rid (lr_plan run)) (\<lambda>_.
     bindM (onDb (reset_from rid (s_ordinal target))) (\<lambda>_.
     seqM [setDb (writeAudit (run_audit ''run.step_retried'' rid (Some (JObj [(''step'', JStr (s_name target))])))),
           storeSecrets rid (opt_default [] secrets),
           fireExecute D rid False]))))))"

definition precondition_line :: "string \<Rightarrow> string \<Rightarrow> string" where
  "precondition_line stepName kind =
     ''step '' @ stepName @ '' is the fail-closed precondition of this '' @ kind @ '' run '' @ em_dash @ '' it cannot be skipped. '' @
     ''It refused because of what it found in the world, not because of anything this run did, and every step after it mutates. '' @
     ''Fix what it refused and retry the step, or abort/delete the run.''"

definition skip_target :: "executor_deps \<Rightarrow> db \<Rightarrow> run_id \<Rightarrow> string \<Rightarrow> string \<Rightarrow> thrown + loaded_run \<times> step_row" where
  "skip_target D d rid stepName reason =
     (case loadRun d rid of
        Inl e \<Rightarrow> Inl e
      | Inr run \<Rightarrow> (case assertRecoverable rid (lr_status run) (lr_startedAt run) ''skip'' of
          Inl e \<Rightarrow> Inl e
        | Inr _ \<Rightarrow>
            if trim reason = [] then Inl (App (Validation ''a skip reason is required''))
            else (case stepRowFull d rid stepName of
                    Inl e \<Rightarrow> Inl e
                  | Inr step \<Rightarrow>
                      if s_status step \<noteq> SFailed then Inl (App (Validation (''step '' @ stepName @ '' is not the failed step'')))
                      else if isMutatingPrecondition (def_of D (lr_kind run)) (s_name step)
                        then Inl (App (Validation (precondition_line stepName (lr_kind run))))
                      else Inr (run, step))))"

definition skip_row :: "run_id \<Rightarrow> step_row \<Rightarrow> string \<Rightarrow> db \<Rightarrow> thrown + db" where
  "skip_row rid step reason d =
     (case setStepStatus (s_id step) (s_status step) SSkipped (\<lambda>s. s\<lparr>s_skipReason := Some reason\<rparr>) d of
        Inl e \<Rightarrow> Inl e | Inr d' \<Rightarrow> Inr (restart_run rid d'))"

definition skipStep :: "executor_deps \<Rightarrow> string \<Rightarrow> run_id \<Rightarrow> string \<Rightarrow> string \<Rightarrow> unit act" where
  "skipStep D actor rid stepName reason = bindM (gets x_db) (\<lambda>d.
     bindM (liftE (skip_target D d rid stepName reason)) (\<lambda>(run, step).
     bindM (take_plan_locks rid (lr_plan run)) (\<lambda>_.
     bindM (onDb (skip_row rid step reason)) (\<lambda>_.
     seqM [setDb (writeAudit (run_audit ''run.step_skipped'' rid (Some (JObj [(''step'', JStr stepName), (''reason'', JStr reason)])))),
           appendRunMeta rid (g_skip @ '' skipped by '' @ actor @ '': '' @ reason),
           fireExecute D rid False]))))"

text \<open>
  \<^verbatim>\<open>abortWithCleanup\<close> up to \<^verbatim>\<open>await assertAbortable\<close>: it settles the run here when no step registered a cleanup,
  and answers what it read when one did.
\<close>

record abort_ticket =
  ab_run :: loaded_run
  ab_rows :: "step_row list"
  ab_names :: "string list"
  ab_params :: json
  ab_secrets :: "secret_values option"

definition nothing_line :: string where
  "nothing_line = g_cancel @ '' cancelled '' @ em_dash @ '' nothing to clean up: no completed step registered a compensation''"

definition abort_begin :: "executor_deps \<Rightarrow> run_id \<Rightarrow> secret_values option \<Rightarrow> abort_ticket option act" where
  "abort_begin D rid secrets = bindM (gets (\<lambda>st. st)) (\<lambda>st.
     bindM (liftE (loadRun (x_db st) rid)) (\<lambda>run.
     (if lr_status run \<noteq> RFailed \<and> lr_status run \<noteq> RCancelled
      then throwM (App (Validation (''run '' @ rid @ '' is not failed/cancelled'')))
      else (let df = def_of D (lr_kind run); rows = allStepRows (x_db st) rid; names = registeredCleanupNames rows in
        if names = [] then
          bindM (seqM [onDb (settleAbortWithoutCleanup (x_clock st) rid),
                appendRunMeta rid nothing_line,
                setDb (writeAudit (run_audit ''run.cancelled'' rid (Some (JObj [(''cleanedUp'', JBool False)])))),
                setDb (releaseLocks (x_clock st) rid),
                dispatch D]) (\<lambda>_. ret None)
        else (case df of
            None \<Rightarrow> ret (Some \<lparr>ab_run = run, ab_rows = rows, ab_names = names, ab_params = JObj [], ab_secrets = secrets\<rparr>)
          | Some x \<Rightarrow> bindM (liftE (d_parse x (lr_params run))) (\<lambda>params.
              (case (case d_assertAbortable x of None \<Rightarrow> None | Some hook \<Rightarrow> hook params (x_db st)) of
                 Some e \<Rightarrow> throwM e
               | None \<Rightarrow> ret (Some \<lparr>ab_run = run, ab_rows = rows, ab_names = names, ab_params = params, ab_secrets = secrets\<rparr>))))))))"

definition cleanup_map :: "run_definition option \<Rightarrow> json \<Rightarrow> string \<rightharpoonup> cleanup" where
  "cleanup_map df params = map_of (rev (map (\<lambda>c. (cl_name c, c)) (case df of None \<Rightarrow> [] | Some x \<Rightarrow> cleanups_of x params)))"

definition abort_commit :: "executor_deps \<Rightarrow> abort_ticket \<Rightarrow> unit act" where
  "abort_commit D t =
     (let run = ab_run t; rid = lr_id run in
      bindM (mint (length (ab_names t))) (\<lambda>m.
      bindM (take_plan_locks rid (lr_plan run)) (\<lambda>_.
      bindM (onDb (scheduleCleanupSteps rid (\<lambda>i. newId D ''step'' (m + i)) (ab_rows t) (ab_names t)
               (cleanup_map (def_of D (lr_kind run)) (ab_params t)))) (\<lambda>_.
      seqM [(case ab_secrets t of None \<Rightarrow> ret () | Some vs \<Rightarrow> storeSecrets rid vs),
            setDb (writeAudit (run_audit ''run.cleanup_started'' rid None)),
            fireExecute D rid False]))))"

end
