(* ===== verification/Streaming_Plan.thy ===== *)
theory Streaming_Plan
  imports Operations
begin

text \<open>
  The streaming plan (\<^verbatim>\<open>executor/streaming-plan.ts\<close>): a run is recorded while its planner still validates, and
  settles planned or failed when the planner answers. The planner is code of the definition; its lines reach the run
  log through the context of the frame, its answer is one of three.
\<close>

datatype stream_result = StreamRejected json string | StreamPlanned json plan | StreamThrew thrown

definition recordOutcome :: "nat \<Rightarrow> run_id \<Rightarrow> unit act \<Rightarrow> unit act" where
  "recordOutcome fid rid rec =
     seqM [catchM rec (\<lambda>_. logLine LError (Some rid) ''could not record the plan's outcome''), dropActive rid, dropFrame fid]"

definition stream_failed :: "nat \<Rightarrow> run_id \<Rightarrow> thrown \<Rightarrow> unit act" where
  "stream_failed fid rid e = bindM (gets (\<lambda>st. st)) (\<lambda>st.
     (let aborted = (frame_aborted st fid \<or> is_abort_error e);
          message = redact (x_registry st) (thrown_message e)
      in recordOutcome fid rid (seqM [
           setDb (settle_run rid (if aborted then RCancelled else RFailed) (Some message) (x_clock st)),
           emitMeta fid rid (if aborted then g_cancel @ '' cancelled during validation'' else g_fail @ '' validation failed: '' @ message),
           setDb (writeAudit (run_audit (if aborted then ''run.cancelled'' else ''run.failed'') rid
             (Some (JObj [(''duringPlanning'', JBool True)]))))])))"

definition beginStreamingPlan :: "executor_deps \<Rightarrow> string \<Rightarrow> string \<Rightarrow> json \<Rightarrow> (run_id \<times> nat option) act" where
  "beginStreamingPlan D owner kind raw =
     (case def_of D kind of
        None \<Rightarrow> throwM (App (Validation (''unknown run kind: '' @ kind)))
      | Some df \<Rightarrow>
          if \<not> d_planStream df then throwM (App (Validation (''run kind '' @ kind @ '' has no streaming planner'')))
          else bindM (mint 1) (\<lambda>m. bindM (gets x_clock) (\<lambda>now.
            (let rid = newId D ''run'' m in
             bindM (onDb (insert_run (new_run rid kind ''cluster'' rid (params_of raw) None RPlanning owner now))) (\<lambda>_.
             bindM (setDb (writeAudit \<lparr>a_action = ''run.planning'', a_targetKind = Some ''cluster'', a_targetId = Some rid,
                      a_runId = Some rid, a_detail = Some (JObj [(''kind'', JStr kind)])\<rparr>)) (\<lambda>_.
             bindM (newFrame rid kind (params_of raw) PlanWork) (\<lambda>fid.
             catchM (bindM (emitMeta fid rid (''Validating the repository in the sandbox'' @ ellipsis)) (\<lambda>_. ret (rid, Some fid)))
                    (\<lambda>e. bindM (stream_failed fid rid e) (\<lambda>_. ret (rid, None)))))))))) "

definition settle_planned :: "run_id \<Rightarrow> plan \<Rightarrow> json \<Rightarrow> plan_snapshot \<Rightarrow> step_row list \<Rightarrow> db \<Rightarrow> thrown + db" where
  "settle_planned rid planned params snap rows d =
     insert_steps rows (update_run rid (\<lambda>r. r\<lparr>r_status := RPlanned, r_targetKind := p_targetKind planned,
       r_targetId := p_targetId planned, r_params := params, r_plan := Some (PlanSnap snap)\<rparr>) d)"

definition settle_rejected :: "run_id \<Rightarrow> json \<Rightarrow> string \<Rightarrow> nat \<Rightarrow> db \<Rightarrow> db" where
  "settle_rejected rid report summary now = update_run rid (\<lambda>r. r\<lparr>r_status := RFailed, r_plan := Some (PlanReport report),
     r_error := Some summary, r_finishedAt := Some now\<rparr>)"

definition stream_planned :: "executor_deps \<Rightarrow> nat \<Rightarrow> run_id \<Rightarrow> run_definition \<Rightarrow> json \<Rightarrow> plan \<Rightarrow> unit act" where
  "stream_planned D fid rid df raw planned =
     bindM (liftE (d_parse df raw)) (\<lambda>params.
     (let impls = d_steps df params; (lines, answer) = runProbes impls params in
      bindM (whenM (join '','' (map si_name impls) \<noteq> join '','' (names_of (p_steps planned)))
               (throwM (App (Internal (''planner/steps name mismatch for '' @ d_kind df))))) (\<lambda>_.
      bindM (emitMeta fid rid (''Measuring what the steps will meet'' @ ellipsis)) (\<lambda>_.
      bindM (forM lines (emitMeta fid rid)) (\<lambda>_.
      bindM (liftE answer) (\<lambda>findings.
      bindM (gets x_clock) (\<lambda>now.
      bindM (mint (length impls)) (\<lambda>m.
      bindM (onDb (settle_planned rid planned params (snapshot D planned params findings now)
               (new_steps rid (\<lambda>i. newId D ''step'' (m + i)) impls))) (\<lambda>_.
      seqM [emitMeta fid rid (g_check @ '' Validation passed '' @ em_dash @ '' the plan is ready for approval''),
            setDb (writeAudit (run_audit ''run.planned'' rid (Some (JObj [(''kind'', JStr (d_kind df)), (''summary'', JStr (p_summary planned))])))),
            dropActive rid, dropFrame fid])))))))))"

definition stream_ends :: "executor_deps \<Rightarrow> nat \<Rightarrow> run_id \<Rightarrow> string \<Rightarrow> stream_result \<Rightarrow> unit act" where
  "stream_ends D fid rid kind result =
     catchM (case result of
         StreamThrew e \<Rightarrow> throwM e
       | StreamRejected report summary \<Rightarrow> bindM (gets x_clock) (\<lambda>now.
           recordOutcome fid rid (seqM [
             setDb (settle_rejected rid report summary now),
             emitMeta fid rid (g_fail @ '' '' @ summary),
             setDb (writeAudit (run_audit ''run.failed'' rid (Some (JObj [(''rejected'', JBool True)]))))]))
       | StreamPlanned raw planned \<Rightarrow> (case def_of D kind of
           None \<Rightarrow> throwM type_error
         | Some df \<Rightarrow> stream_planned D fid rid df raw planned))
       (stream_failed fid rid)"

end
