(* ===== verification/Exec_Invariant.thy ===== *)
theory Exec_Invariant
  imports Streaming_Plan
begin

text \<open>
  The invariant of the executor's tables: every run that is approved or running holds every lock its plan claims, no two
  runs hold conflicting locks, every run the queue reads has a plan, every step belongs to a run.

  \<open>dispatch_invariant\<close> is the interface between the run loop and the dispatcher: what a property needs so that working
  off a whole stack of fired runs and nested dispatches keeps it.
\<close>

section \<open>The invariant\<close>

definition active_status :: "run_status \<Rightarrow> bool" where
  "active_status s = (s = RApproved \<or> s = RRunning)"

definition active_run :: "run_id \<Rightarrow> db \<Rightarrow> bool" where
  "active_run rid d = list_ex (\<lambda>r. r_id r = rid \<and> active_status (r_status r)) (runs d)"

definition claims_held :: "db \<Rightarrow> bool" where
  "claims_held d \<longleftrightarrow> (\<forall>r \<in> set (runs d). active_status (r_status r) \<longrightarrow>
     (\<forall>p. r_plan r = Some (PlanSnap p) \<longrightarrow> {r_id r} \<times> set (planClaims p) \<subseteq> held d))"

definition steps_owned :: "db \<Rightarrow> bool" where
  "steps_owned d \<longleftrightarrow> s_runId ` set (steps d) \<subseteq> r_id ` set (runs d)"

definition db_ok :: "db \<Rightarrow> bool" where
  "db_ok d \<longleftrightarrow> locks_ok d \<and> queue_ok d \<and> claims_held d \<and> steps_owned d"

definition run_keys :: "db \<Rightarrow> (run_id \<times> plan_json option) list" where
  "run_keys d = map (\<lambda>r. (r_id r, r_plan r)) (runs d)"

definition step_key :: "step_row \<Rightarrow> step_id \<times> run_id \<times> nat \<times> string" where
  "step_key s = (s_id s, s_runId s, s_ordinal s, s_name s)"

definition step_keys :: "db \<Rightarrow> (step_id \<times> run_id \<times> nat \<times> string) list" where
  "step_keys d = map step_key (steps d)"

lemma active_run_iff: "active_run rid d \<longleftrightarrow> (\<exists>r \<in> set (runs d). r_id r = rid \<and> active_status (r_status r))"
  by (auto simp: active_run_def list_ex_iff)

lemma active_runI: "r \<in> set (runs d) \<Longrightarrow> r_id r = rid \<Longrightarrow> active_status (r_status r) \<Longrightarrow> active_run rid d"
  by (auto simp: active_run_iff)

lemma active_status_simps [simp]:
  "active_status RApproved" "active_status RRunning" "\<not> active_status RQueued" "\<not> active_status RPlanned"
  "\<not> active_status RPlanning" "\<not> active_status RFailed" "\<not> active_status RCancelled" "\<not> active_status RSucceeded"
  by (simp_all add: active_status_def)

lemma settled_not_active: "settled_status s \<Longrightarrow> \<not> active_status s"
  by (auto simp: settled_status_def)

lemma steps_owned_keys: "steps_owned d \<longleftrightarrow> (\<forall>k \<in> set (step_keys d). fst (snd k) \<in> fst ` set (run_keys d))"
  by (force simp: steps_owned_def step_keys_def run_keys_def step_key_def)

text \<open>What the invariant and the keys read: the runs, the locks and the keys of the steps.\<close>

definition same_core :: "db \<Rightarrow> db \<Rightarrow> bool" where
  "same_core d d' \<longleftrightarrow> runs d = runs d' \<and> run_locks d = run_locks d' \<and> step_keys d = step_keys d'"

lemma db_ok_core: "same_core d d' \<Longrightarrow> db_ok d' \<longleftrightarrow> db_ok d"
  using locks_ok_cong [of d d'] held_cong [of d d']
  by (simp add: same_core_def db_ok_def queue_ok_def claims_held_def steps_owned_keys run_keys_def)

lemma active_run_core: "same_core d d' \<Longrightarrow> active_run r d' \<longleftrightarrow> active_run r d"
  by (simp add: same_core_def active_run_def)

lemma core_insert_event: "insert_event e d = Inr d' \<Longrightarrow> same_core d d'"
  by (auto simp: same_core_def step_keys_def dest: insert_event_frame)

lemma map_step_key_update: "(\<And>s. P s \<Longrightarrow> step_key (g s) = step_key s) \<Longrightarrow> map step_key (update_where P g ss) = map step_key ss"
  by (rule map_update_where_id)

lemma core_setStepStatus: "keeps_step_keys cols \<Longrightarrow> setStepStatus sid from to cols d = Inr d' \<Longrightarrow> same_core d d'"
  by (auto simp: same_core_def setStepStatus_Inr step_keys_def keeps_step_keys_def step_key_def intro!: map_step_key_update [symmetric])

lemma core_log_invariant:
  assumes "\<And>d d'. same_core d d' \<Longrightarrow> I d \<Longrightarrow> I d'"
  shows "log_invariant I"
proof
  fix d show "I d \<Longrightarrow> I (writeAudit a d)" for a
    by (rule assms [of d]) (simp_all add: same_core_def step_keys_def)
  fix v show "I d \<Longrightarrow> I (d\<lparr>inventory := v\<rparr>)"
    by (rule assms [of d]) (simp_all add: same_core_def step_keys_def)
qed (blast intro: assms core_insert_event core_setStepStatus)+

section \<open>The interface of the dispatcher\<close>

fun fires :: "task list \<Rightarrow> run_id list" where
  "fires [] = []"
| "fires (TFire rid _ # ts) = rid # fires ts"
| "fires (_ # ts) = fires ts"

lemma fires_append [simp]: "fires (xs @ ys) = fires xs @ fires ys"
  by (induction xs rule: fires.induct) simp_all

lemma fires_fire_tasks [simp]: "fires (fire_tasks started) = started"
  by (induction started) (simp_all add: fire_tasks_def)

locale dispatch_invariant =
  fixes I :: "db \<Rightarrow> bool" and R :: "run_id \<Rightarrow> db \<Rightarrow> bool" and S :: "run_id \<Rightarrow> db \<Rightarrow> bool"
  assumes loop: "rid \<notin> F \<Longrightarrow> run_loop_invariant (\<lambda>d. I d \<and> (\<forall>r \<in> F. R r d)) (S rid) rid"
    and mark: "I d \<Longrightarrow> R rid d \<Longrightarrow> I (mark_running rid t d)"
    and mark_other: "I d \<Longrightarrow> R rid d \<Longrightarrow> R r d \<Longrightarrow> R r (mark_running rid t d)"
    and start: "I d \<Longrightarrow> startQueuedRuns now hs d = Inr (d', started) \<Longrightarrow>
        I d' \<and> distinct started \<and> (\<forall>r \<in> set started. R r d' \<and> \<not> R r d) \<and> (\<forall>r. R r d \<longrightarrow> R r d')"
begin

lemma execute_ready:
  assumes "I (x_db st)" and "R rid (x_db st)" and "rid \<notin> F" and "\<forall>r \<in> F. R r (x_db st)"
  shows "I (x_db (snd (execute D rid after st))) \<and> (\<forall>r \<in> F. R r (x_db (snd (execute D rid after st))))"
  by (rule run_loop_invariant.execute_keeps [OF loop]) (use assms mark mark_other in auto)

lemma drain_keeps:
  assumes "I (x_db st)" and "distinct (fires ts)" and "\<forall>r \<in> set (fires ts). R r (x_db st)"
  shows "I (x_db (drain D ts st))"
  using assms
proof (induction D ts st rule: drain.induct)
  case (1 D st)
  then show ?case by (simp add: drain.simps)
next
  case (2 D ts st)
  show ?case
  proof (cases "startQueuedRuns (x_clock st) (has_secrets st) (x_db st)")
    case (Inl e)
    with 2 show ?thesis by (simp add: drain.simps)
  next
    case (Inr p)
    obtain d started where p: "p = (d, started)" by (cases p)
    note s = start [OF "2.prems"(1) Inr [unfolded p]]
    show ?thesis
    proof (cases "x_stopping st")
      case True
      with 2 show ?thesis by (simp add: drain.simps)
    next
      case False
      have "set started \<inter> set (fires ts) = {}" using s "2.prems"(3) by auto
      then have "distinct (fires (fire_tasks started @ TWarn # ts))" using s "2.prems"(2) by simp
      moreover have "\<forall>r \<in> set (fires (fire_tasks started @ TWarn # ts)). R r d" using s "2.prems"(3) by auto
      ultimately show ?thesis using "2.IH"(3) [OF False Inr p [symmetric]] s Inr p False by (simp add: drain.simps)
    qed
  qed
next
  case (3 D rid after ts st)
  obtain x st' where ex: "execute D rid after st = (x, st')" by (cases "execute D rid after st")
  from execute_ready [of st rid "set (fires ts)" D after] "3.prems" ex
  have "I (x_db st')" "\<forall>r \<in> set (fires ts). R r (x_db st')" by auto
  with "3.IH" "3.prems" ex show ?case by (auto simp: drain.simps split: sum.splits bool.splits)
qed (simp_all add: drain.simps)

lemma dispatch_keeps: "I (x_db st) \<Longrightarrow> I (x_db (snd (dispatch D st)))"
  by (simp add: dispatch_def drain_keeps)

lemma fireExecute_keeps: "I (x_db st) \<Longrightarrow> R rid (x_db st) \<Longrightarrow> I (x_db (snd (fireExecute D rid after st)))"
  by (simp add: fireExecute_def drain_keeps)

lemma loop1: "run_loop_invariant I (S rid) rid"
  using loop [of rid "{}"] by simp

lemma pres_dispatch: "pres (on_db I) (dispatch D)"
  by (simp add: pres_def dispatch_keeps)

lemma pres_failRun: "pres (on_db I) (failRun D rid msg)"
  unfolding failRun_def
  by (intro pres_bind run_loop_invariant.pres_failRun_core [OF loop1] pres_dispatch)

lemma stepEnds_keeps:
  assumes "I (x_db st)"
  shows "I (x_db (snd (stepEnds D fid t st)))"
proof -
  have "I (x_db (snd (step_ends D fid t st)))"
  proof (cases "get_frame st fid")
    case (Some f)
    then show ?thesis by (intro run_loop_invariant.step_ends_keeps [OF loop1 [of "f_run f"]] assms) simp
  qed (simp add: step_ends_def assms)
  moreover obtain b st' where "step_ends D fid t st = (Inr b, st')"
    using step_ends_answers [of D fid t st] by (cases "step_ends D fid t st") auto
  ultimately show ?thesis by (simp add: stepEnds_def bindM_def whenM_def dispatch_keeps)
qed

end

section \<open>The executor's tables satisfy it\<close>

text \<open>What a segment neither adds nor takes away: the runs with their plans, and which runs have steps.\<close>

definition step_runs :: "db \<Rightarrow> run_id set" where
  "step_runs d = (\<lambda>k. fst (snd k)) ` set (step_keys d)"

definition tables_ok :: "(run_id \<times> plan_json option) set \<Rightarrow> run_id set \<Rightarrow> db \<Rightarrow> bool" where
  "tables_ok X Y d \<longleftrightarrow> db_ok d \<and> set (run_keys d) = X \<and> step_runs d = Y"

lemma step_runs_alt: "step_runs d = s_runId ` set (steps d)"
  by (force simp: step_runs_def step_keys_def step_key_def)

lemma step_runs_cong: "step_keys d = step_keys d' \<Longrightarrow> step_runs d = step_runs d'"
  by (simp add: step_runs_def)

lemma update_run_keys: "(\<And>r. r_id (g r) = r_id r \<and> r_plan (g r) = r_plan r) \<Longrightarrow> run_keys (update_run rid g d) = run_keys d"
  by (simp add: run_keys_def update_run_def map_update_where_id)

lemma in_update_run:
  "r \<in> set (runs (update_run rid g d)) \<longleftrightarrow>
   (\<exists>r0 \<in> set (runs d). r = (if r_id r0 = rid then g r0 else r0))"
proof -
  have "runs (update_run rid g d) = update_where (\<lambda>r. r_id r = rid) g (runs d)" by (simp add: update_run_def)
  then show ?thesis by (simp only: set_update_where image_iff)
qed

lemma not_active_update:
  "(\<And>r. \<not> active_status (r_status (g r))) \<Longrightarrow> (\<And>r. r_id (g r) = r_id r) \<Longrightarrow> \<not> active_run rid (update_run rid g d)"
  unfolding active_run_iff Bex_def in_update_run by metis

lemma held_update_run [simp]: "held (update_run rid g d) = held d"
  by (rule held_cong) simp

lemma step_keys_update_run [simp]: "step_keys (update_run rid g d) = step_keys d" "step_runs (update_run rid g d) = step_runs d"
  by (simp_all add: step_keys_def step_runs_def)

lemma queue_ok_update_run:
  assumes "queue_ok d" and "\<And>r. r_id (g r) = r_id r"
    and "\<And>r. r \<in> set (runs d) \<Longrightarrow> r_id r = rid \<Longrightarrow> r_status (g r) \<in> {RPlanned, RQueued, RApproved, RRunning} \<Longrightarrow>
           \<exists>p. r_plan (g r) = Some (PlanSnap p)"
  shows "queue_ok (update_run rid g d)"
proof -
  have "map r_id (runs (update_run rid g d)) = map r_id (runs d)"
    by (simp add: update_run_def map_update_where_id assms(2))
  then show ?thesis
    using assms(1,3) unfolding queue_ok_def by (fastforce simp: in_update_run)
qed

text \<open>A status that is not active needs no locks, whatever the run held before.\<close>

lemma tables_ok_settle:
  assumes "tables_ok X Y d"
    and g: "\<And>r. r_id (g r) = r_id r \<and> r_plan (g r) = r_plan r"
    and s: "\<And>r. r_status (g r) \<notin> {RPlanned, RQueued, RApproved, RRunning}"
  shows "tables_ok X Y (update_run rid g d)"
proof -
  from assms(1) have ok: "locks_ok d" "queue_ok d" "claims_held d" "steps_owned d" by (auto simp: tables_ok_def db_ok_def)
  have "locks_ok (update_run rid g d)" using ok(1) locks_ok_cong [of "update_run rid g d" d] by simp
  moreover have "queue_ok (update_run rid g d)" using ok(2) g s by (intro queue_ok_update_run) auto
  moreover have "claims_held (update_run rid g d)"
    using ok(3) s by (fastforce simp: claims_held_def in_update_run active_status_def split: if_splits)
  moreover have "steps_owned (update_run rid g d)" using ok(4) g by (simp add: steps_owned_keys update_run_keys)
  ultimately show ?thesis using assms(1) g by (simp add: tables_ok_def db_ok_def update_run_keys)
qed

lemma active_update_other: "r \<noteq> rid \<Longrightarrow> (\<And>r. r_id (g r) = r_id r) \<Longrightarrow> active_run r (update_run rid g d) \<longleftrightarrow> active_run r d"
  by (fastforce simp: active_run_iff in_update_run split: if_splits)

lemma tables_ok_release:
  assumes "tables_ok X Y d" and "\<not> active_run rid d"
  shows "tables_ok X Y (releaseLocks now rid d)"
proof -
  have "claims_held (releaseLocks now rid d)"
    using assms by (fastforce simp: tables_ok_def db_ok_def claims_held_def active_run_iff held_release)
  then show ?thesis
    using assms(1) by (simp add: tables_ok_def db_ok_def locks_ok_release queue_ok_def steps_owned_def run_keys_def step_keys_def step_runs_def)
qed

lemma tables_ok_activate:
  assumes "tables_ok X Y d" and g: "\<And>r. r_id (g r) = r_id r \<and> r_plan (g r) = r_plan r"
    and st: "\<And>r. active_status (r_status (g r))"
    and plan: "\<And>r. r \<in> set (runs d) \<Longrightarrow> r_id r = rid \<Longrightarrow>
        \<exists>p. r_plan r = Some (PlanSnap p) \<and> {rid} \<times> set (planClaims p) \<subseteq> held d"
  shows "tables_ok X Y (update_run rid g d)"
proof -
  from assms(1) have ok: "locks_ok d" "queue_ok d" "claims_held d" "steps_owned d" by (auto simp: tables_ok_def db_ok_def)
  have "locks_ok (update_run rid g d)" using ok(1) locks_ok_cong [of "update_run rid g d" d] by simp
  moreover have "queue_ok (update_run rid g d)" using ok(2) g plan by (intro queue_ok_update_run) force+
  moreover have "claims_held (update_run rid g d)"
    unfolding claims_held_def
  proof (intro ballI impI allI)
    fix r p
    assume "r \<in> set (runs (update_run rid g d))" "active_status (r_status r)" and p: "r_plan r = Some (PlanSnap p)"
    then obtain r0 where r0: "r0 \<in> set (runs d)" "r = (if r_id r0 = rid then g r0 else r0)" "active_status (r_status r)"
      by (auto simp: in_update_run)
    show "{r_id r} \<times> set (planClaims p) \<subseteq> held (update_run rid g d)"
    proof (cases "r_id r0 = rid")
      case True
      with plan [OF r0(1)] r0(2) p g show ?thesis by auto
    next
      case False
      with r0 p ok(3) show ?thesis by (simp add: claims_held_def)
    qed
  qed
  moreover have "steps_owned (update_run rid g d)" using ok(4) g by (simp add: steps_owned_keys update_run_keys)
  ultimately show ?thesis using assms(1) g by (simp add: tables_ok_def db_ok_def update_run_keys)
qed

lemma tables_ok_core: "same_core d d' \<Longrightarrow> tables_ok X Y d \<Longrightarrow> tables_ok X Y d'"
  using db_ok_core [of d d'] step_runs_cong [of d d'] by (simp add: tables_ok_def same_core_def run_keys_def)

lemma tables_loop_invariant:
  assumes "rid \<notin> F"
  shows "run_loop_invariant (\<lambda>d. tables_ok X Y d \<and> (\<forall>r \<in> F. active_run r d)) (\<lambda>d. \<not> active_run rid d) rid"
proof (rule run_loop_invariant.intro)
  let ?J = "\<lambda>d. tables_ok X Y d \<and> (\<forall>r \<in> F. active_run r d)"
  show "log_invariant ?J" "log_invariant (\<lambda>d. ?J d \<and> \<not> active_run rid d)"
    by (rule core_log_invariant; auto simp: active_run_core intro: tables_ok_core)+
  show "run_loop_invariant_axioms ?J (\<lambda>d. \<not> active_run rid d) rid"
  proof (rule run_loop_invariant_axioms.intro)
    fix d status err now assume J: "?J d" and s: "settled_status status"
    let ?g = "\<lambda>r. r\<lparr>r_status := status, r_finishedAt := Some now, r_error := (case err of None \<Rightarrow> r_error r | Some e \<Rightarrow> Some e)\<rparr>"
    from s have "status \<notin> {RPlanned, RQueued, RApproved, RRunning}" by (auto simp: settled_status_def)
    then have "tables_ok X Y (update_run rid ?g d)"
      using J by (intro tables_ok_settle) simp_all
    moreover have "active_run r (update_run rid ?g d)" if "r \<in> F" for r
      using J that assms by (subst active_update_other) auto
    moreover have "\<not> active_run rid (update_run rid ?g d)"
      using settled_not_active [OF s] by (intro not_active_update) simp_all
    ultimately show "?J (settle_run rid status err now d) \<and> \<not> active_run rid (settle_run rid status err now d)"
      by (simp add: settle_run_def)
  next
    fix d now assume "?J d" and "\<not> active_run rid d"
    then show "?J (releaseLocks now rid d) \<and> \<not> active_run rid (releaseLocks now rid d)"
      by (simp add: tables_ok_release active_run_def)
  qed
qed

lemma active_run_plan:
  assumes "tables_ok X Y d" and "active_run rid d" and "r \<in> set (runs d)" and "r_id r = rid"
  shows "\<exists>p. r_plan r = Some (PlanSnap p) \<and> {rid} \<times> set (planClaims p) \<subseteq> held d"
proof -
  from assms have "distinct (map r_id (runs d))" by (simp add: tables_ok_def db_ok_def queue_ok_def)
  with assms(2-4) have "active_status (r_status r)"
    by (auto simp: active_run_iff) (metis find_distinct_key option.inject)
  with assms show ?thesis
    by (auto simp: tables_ok_def db_ok_def queue_ok_def claims_held_def active_status_def)
qed

text \<open>What a dispatch does to the runs and the locks, on tables that are right.\<close>

lemma startQueuedRuns_tables:
  assumes ok: "db_ok d" and run: "startQueuedRuns now hs d = Inr (d', started)"
  shows "runs d' = update_where (\<lambda>r. r_id r \<in> set started \<and> r_status r = RQueued) (\<lambda>r. r\<lparr>r_status := RApproved\<rparr>) (runs d)"
    and "steps d' = steps d" and "locks_ok d'" and "held d \<subseteq> held d'" and "distinct started"
    and "\<And>rid. rid \<in> set started \<Longrightarrow> \<exists>r p. r \<in> set (runs d) \<and> r_id r = rid \<and> r_status r = RQueued \<and>
           r_plan r = Some (PlanSnap p) \<and> {rid} \<times> set (planClaims p) \<subseteq> held d'"
proof -
  from ok have q: "queue_ok d" and l: "locks_ok d" by (auto simp: db_ok_def)
  let ?q = "queue_line d"
  let ?ss = "fst (walk_slots hs 0 (map taken_of (live_locks d)) ?q)"
  note ready = queue_slots_ready [OF q, of hs]
  from run have run': "start_slots now ?ss d = Inr (d', started)" by (simp add: startQueuedRuns_eq [OF q])
  with start_slots_ready [OF ready, of now] have st: "started = starting ?ss" and h: "held d' = held d \<union> started_pairs ?ss"
    and r: "runs d' = update_where (\<lambda>r. r_id r \<in> set (starting ?ss) \<and> r_status r = RQueued) (\<lambda>r. r\<lparr>r_status := RApproved\<rparr>) (runs d)"
    and s: "steps d' = steps d" by auto
  show "runs d' = update_where (\<lambda>r. r_id r \<in> set started \<and> r_status r = RQueued) (\<lambda>r. r\<lparr>r_status := RApproved\<rparr>) (runs d)"
    "steps d' = steps d" "held d \<subseteq> held d'" using r s h st by simp_all
  show "locks_ok d'" by (rule start_slots_locks_ok [OF l ready run'])
  show "distinct started"
    using ready by (simp add: st starting_def slots_ready_def distinct_map_filter)
  fix rid assume "rid \<in> set started"
  then obtain i where i: "i < length ?q" "slot_starts (?ss ! i)" "rid = r_id (fst (?q ! i))"
    by (auto simp: st starting_def in_set_conv_nth length_walk_slots walk_slots_nth)
  let ?r = "fst (?q ! i)" and ?p = "snd (?q ! i)"
  have "?r \<in> set (queued_rows d)" using i(1) queue_line_ok(2) [OF q] by (metis nth_map nth_mem length_map)
  moreover have "r_plan ?r = Some (PlanSnap ?p)" using bspec [OF queue_line_ok(3) [OF q] nth_mem [OF i(1)]] by (simp add: split_beta)
  moreover have "{rid} \<times> set (planClaims ?p) \<subseteq> started_pairs ?ss"
  proof -
    have "?ss ! i \<in> set ?ss" using i(1) by (simp add: length_walk_slots)
    moreover have "q_runId (qs_view (?ss ! i)) = rid" "qs_claims (?ss ! i) = planClaims ?p"
      using i by (simp_all add: walk_slots_nth)
    ultimately show ?thesis using i(2) by (force simp: started_pairs_def)
  qed
  ultimately show "\<exists>r p. r \<in> set (runs d) \<and> r_id r = rid \<and> r_status r = RQueued \<and>
      r_plan r = Some (PlanSnap p) \<and> {rid} \<times> set (planClaims p) \<subseteq> held d'"
    using i(3) h by (auto simp: queued_rows_set)
qed

lemma tables_ok_start:
  assumes ok: "tables_ok X Y d" and run: "startQueuedRuns now hs d = Inr (d', started)"
  shows "tables_ok X Y d'"
proof -
  from ok have d: "db_ok d" and k: "set (run_keys d) = X" "step_runs d = Y" by (simp_all add: tables_ok_def)
  note t = startQueuedRuns_tables [OF d run]
  let ?P = "\<lambda>r. r_id r \<in> set started \<and> r_status r = RQueued"
  have rows: "set (runs d') = (\<lambda>r. if ?P r then r\<lparr>r_status := RApproved\<rparr> else r) ` set (runs d)"
    by (simp only: t(1) set_update_where)
  have ids: "map r_id (runs d') = map r_id (runs d)" and keys: "run_keys d' = run_keys d"
    by (simp_all add: t(1) map_update_where_id run_keys_def)
  have dist: "distinct (map r_id (runs d))" using d by (simp add: db_ok_def queue_ok_def)
  have "queue_ok d'"
    unfolding queue_ok_def
  proof (intro conjI ballI impI)
    show "distinct (map r_id (runs d'))" using ids dist by simp
    fix r assume "r \<in> set (runs d')" and "r_status r \<in> {RPlanned, RQueued, RApproved, RRunning}"
    then obtain r0 where "r0 \<in> set (runs d)" "r = (if ?P r0 then r0\<lparr>r_status := RApproved\<rparr> else r0)"
      "r_status r \<in> {RPlanned, RQueued, RApproved, RRunning}" unfolding rows by blast
    with d show "\<exists>p. r_plan r = Some (PlanSnap p)" by (cases "?P r0") (auto simp: db_ok_def queue_ok_def)
  qed
  moreover have "claims_held d'"
    unfolding claims_held_def
  proof (intro ballI impI allI)
    fix r p assume "r \<in> set (runs d')" and a: "active_status (r_status r)" and p: "r_plan r = Some (PlanSnap p)"
    then obtain r0 where r0: "r0 \<in> set (runs d)" "r = (if ?P r0 then r0\<lparr>r_status := RApproved\<rparr> else r0)" unfolding rows by blast
    show "{r_id r} \<times> set (planClaims p) \<subseteq> held d'"
    proof (cases "?P r0")
      case True
      with t(6) obtain r1 p1 where r1: "r1 \<in> set (runs d)" "r_id r1 = r_id r0" "r_plan r1 = Some (PlanSnap p1)"
        "{r_id r0} \<times> set (planClaims p1) \<subseteq> held d'" by blast
      with dist r0(1) have "r1 = r0" by (metis find_distinct_key option.inject)
      with r1 r0 True p show ?thesis by simp
    next
      case False
      then have "r = r0" using r0(2) by (metis (full_types))
      with d r0(1) a p have "{r_id r} \<times> set (planClaims p) \<subseteq> held d" unfolding db_ok_def claims_held_def by blast
      with t(4) show ?thesis by blast
    qed
  qed
  moreover have "step_keys d' = step_keys d" by (simp add: step_keys_def t(2))
  ultimately show ?thesis
    using k keys t(3) d step_runs_cong [of d' d] by (simp add: tables_ok_def db_ok_def steps_owned_keys)
qed

lemma active_after_start:
  assumes ok: "tables_ok X Y d" and run: "startQueuedRuns now hs d = Inr (d', started)"
  shows "rid \<in> set started \<Longrightarrow> active_run rid d' \<and> \<not> active_run rid d" and "active_run rid d \<Longrightarrow> active_run rid d'"
proof -
  from ok have d: "db_ok d" and dist: "distinct (map r_id (runs d))" by (simp_all add: tables_ok_def db_ok_def queue_ok_def)
  note t = startQueuedRuns_tables [OF d run]
  have in_runs: "r \<in> set (runs d) \<Longrightarrow> (if r_id r \<in> set started \<and> r_status r = RQueued then r\<lparr>r_status := RApproved\<rparr> else r) \<in> set (runs d')" for r
    unfolding t(1) set_update_where by (rule imageI)
  show "active_run rid d' \<and> \<not> active_run rid d" if "rid \<in> set started"
  proof -
    from t(6) [OF that] obtain r where r: "r \<in> set (runs d)" "r_id r = rid" "r_status r = RQueued" by blast
    with dist have only: "r' \<in> set (runs d) \<Longrightarrow> r_id r' = rid \<Longrightarrow> r' = r" for r' by (metis find_distinct_key option.inject)
    from r that in_runs [OF r(1)] have "r\<lparr>r_status := RApproved\<rparr> \<in> set (runs d')" by simp
    from active_runI [OF this, of rid] r(2) have "active_run rid d'" by simp
    moreover have "\<not> active_run rid d" using only r(3) by (auto simp: active_run_iff)
    ultimately show ?thesis by simp
  qed
  assume "active_run rid d"
  then obtain r where r: "r \<in> set (runs d)" "r_id r = rid" "active_status (r_status r)" by (auto simp: active_run_iff)
  then have "r_status r \<noteq> RQueued" by auto
  with in_runs [OF r(1)] have "r \<in> set (runs d')" by simp
  with r show "active_run rid d'" by (intro active_runI)
qed

lemma active_update: "active_run r d \<Longrightarrow> (\<And>r. r_id (g r) = r_id r \<and> active_status (r_status (g r))) \<Longrightarrow> active_run r (update_run rid g d)"
  unfolding active_run_iff Bex_def in_update_run by metis

lemma active_mark: "active_run r d \<Longrightarrow> active_run r (mark_running rid t d)"
  unfolding mark_running_def by (erule active_update) simp

interpretation tables: dispatch_invariant "tables_ok X Y" active_run "\<lambda>rid d. \<not> active_run rid d" for X Y
proof (rule dispatch_invariant.intro)
  show "run_loop_invariant (\<lambda>d. tables_ok X Y d \<and> (\<forall>r \<in> F. active_run r d)) (\<lambda>d. \<not> active_run rid d) rid" if "rid \<notin> F" for rid F
    by (rule tables_loop_invariant [OF that])
  show "tables_ok X Y (mark_running rid t d)" if "tables_ok X Y d" "active_run rid d" for d rid t
    unfolding mark_running_def using that active_run_plan [OF that] by (intro tables_ok_activate) simp_all
  show "active_run r (mark_running rid t d)" if "tables_ok X Y d" "active_run rid d" "active_run r d" for d rid r t
    using that(3) by (rule active_mark)
  show "tables_ok X Y d' \<and> distinct started \<and> (\<forall>r \<in> set started. active_run r d' \<and> \<not> active_run r d) \<and>
      (\<forall>r. active_run r d \<longrightarrow> active_run r d')"
    if "tables_ok X Y d" "startQueuedRuns now hs d = Inr (d', started)" for d now hs d' started
    using tables_ok_start [OF that] active_after_start [OF that] startQueuedRuns_tables(5) [of d now hs d' started] that
    by (auto simp: tables_ok_def)
qed

end
