(* ===== verification/Op_Invariants.thy ===== *)
theory Op_Invariants
  imports Exec_Invariant
begin

text \<open>Every operation of the executor keeps the invariant of its tables.\<close>

section \<open>Composing\<close>

lemma bind_run:
  assumes "\<And>r st'. m st = (r, st') \<Longrightarrow> J st'" and "\<And>st. J st \<Longrightarrow> I st" and "\<And>x st'. J st' \<Longrightarrow> I (snd (k x st'))"
  shows "I (snd (bindM m k st))"
  using assms by (cases "m st") (auto simp: bindM_def split: sum.splits)

lemma bind_run_ok:
  assumes "\<And>e st'. m st = (Inl e, st') \<Longrightarrow> I st'" and "\<And>x st'. m st = (Inr x, st') \<Longrightarrow> I (snd (k x st'))"
  shows "I (snd (bindM m k st))"
  using assms by (cases "m st") (auto simp: bindM_def split: sum.splits)

lemma seq_run_pres:
  assumes "pres J m" and "J st" and "\<And>st. J st \<Longrightarrow> I st" and "\<And>st'. J st' \<Longrightarrow> I (snd (seqM ms st'))"
  shows "I (snd (seqM (m # ms) st))"
proof -
  have "J (snd (m st))" using assms(1,2) by (rule presD)
  then show ?thesis using assms(3,4) by (cases "m st") (auto simp: bindM_def split: sum.splits)
qed

lemma seq_last:
  assumes "\<And>m. m \<in> set ms \<Longrightarrow> pres J m" and "J st" and "\<And>st. J st \<Longrightarrow> I st" and "\<And>st. J st \<Longrightarrow> I (snd (final st))"
  shows "I (snd (seqM (ms @ [final]) st))"
  using assms(1,2)
proof (induction ms arbitrary: st)
  case Nil
  obtain r st' where f: "final st = (r, st')" by (cases "final st")
  from assms(4) [OF Nil.prems(2)] f have "I st'" by simp
  with f show ?case by (cases r) (simp_all add: bindM_def)
next
  case (Cons m ms)
  have "pres J m" using Cons.prems(1) by simp
  from seq_run_pres [OF this Cons.prems(2), where I = I and ms = "ms @ [final]"] assms(3) Cons show ?case by simp
qed

interpretation tables_log: log_invariant "tables_ok X Y" for X Y
  by (rule core_log_invariant) (rule tables_ok_core)

interpretation idle_log: log_invariant "\<lambda>d. tables_ok X Y d \<and> \<not> active_run rid d" for X Y rid
  by (rule core_log_invariant) (auto simp: active_run_core intro: tables_ok_core)

interpretation active_log: log_invariant "\<lambda>d. tables_ok X Y d \<and> active_run rid d" for X Y rid
  by (rule core_log_invariant) (auto simp: active_run_core intro: tables_ok_core)

lemma pres_mint [intro, simp]: "pres (on_db I) (mint n)"
  by (simp add: pres_def mint_def)

lemma pres_modify_leave [intro, simp]: "pres (on_db I) (modify (leave rid))"
  by (simp add: pres_def)

lemma pres_wipeRun [intro, simp]: "pres (on_db I) (wipeRun rid)"
  unfolding wipeRun_def by (intro pres_bind_gets pres_bind) (auto split: option.splits)

lemma pres_startedOrQueued [intro]: "pres (on_db (tables_ok X Y)) (startedOrQueued rid)"
  unfolding startedOrQueued_def
  by (intro pres_bind_gets pres_bind) (auto split: option.splits)

section \<open>Approve\<close>

lemma tables_ok_move_to_queued:
  assumes "tables_ok X Y d"
  shows "tables_ok X Y (snd (move_to_queued now rid d))"
proof -
  let ?P = "\<lambda>r. r_id r = rid \<and> r_status r = RPlanned"
  let ?g = "\<lambda>r. if r_status r = RPlanned then r\<lparr>r_status := RQueued, r_approvedAt := Some now\<rparr> else r"
  have eq: "snd (move_to_queued now rid d) = update_run rid ?g d"
    by (auto simp: move_to_queued_def Let_def update_run_def update_where_def)
  from assms have ok: "locks_ok d" "queue_ok d" "claims_held d" "steps_owned d" by (auto simp: tables_ok_def db_ok_def)
  have keys: "run_keys (update_run rid ?g d) = run_keys d" by (rule update_run_keys) simp
  have "locks_ok (update_run rid ?g d)" using ok(1) locks_ok_cong [of "update_run rid ?g d" d] by simp
  moreover have "queue_ok (update_run rid ?g d)"
    using ok(2) by (intro queue_ok_update_run) (auto simp: queue_ok_def)
  moreover have "claims_held (update_run rid ?g d)"
    unfolding claims_held_def
  proof (intro ballI impI allI)
    fix r p
    assume "r \<in> set (runs (update_run rid ?g d))" and a: "active_status (r_status r)" and p: "r_plan r = Some (PlanSnap p)"
    then obtain r0 where "r0 \<in> set (runs d)" "r = (if r_id r0 = rid then ?g r0 else r0)" by (auto simp: in_update_run)
    with a have "r \<in> set (runs d)" by (auto split: if_splits)
    with ok(3) a p show "{r_id r} \<times> set (planClaims p) \<subseteq> held (update_run rid ?g d)" by (simp add: claims_held_def)
  qed
  moreover have "steps_owned (update_run rid ?g d)" using ok(4) by (simp add: steps_owned_keys keys)
  ultimately show ?thesis using assms by (simp add: eq tables_ok_def db_ok_def keys)
qed

lemma pres_refuse_unless_free: "pres (on_db I) (refuse_unless_free run p)"
  unfolding refuse_unless_free_def by (intro pres_bind_gets) (auto split: sum.splits list.splits)

lemma approve_commit_ok:
  assumes "tables_ok X Y (x_db st)"
  shows "tables_ok X Y (x_db (snd (approve_commit D run secrets onlyIfFree st)))"
proof -
  let ?I = "on_db (tables_ok X Y)"
  have rest: "pres ?I (bindM (whenM (c \<noteq> 1) (throwM e)) (\<lambda>_. bindM (setDb (writeAudit a)) (\<lambda>_.
      bindM (storeSecrets (lr_id run) vs) (\<lambda>_. bindM (dispatch D) (\<lambda>_. startedOrQueued (lr_id run))))))" for c :: nat and e a vs
    by (intro pres_bind pres_when) (auto intro: tables.pres_dispatch)
  have step: "pres ?I (bindM (gets (\<lambda>st. move_to_queued (x_clock st) (lr_id run) (x_db st))) (\<lambda>(c, d). bindM (setDb (\<lambda>_. d)) (\<lambda>_.
      bindM (whenM (c \<noteq> 1) (throwM e)) (\<lambda>_. bindM (setDb (writeAudit a)) (\<lambda>_.
      bindM (storeSecrets (lr_id run) vs) (\<lambda>_. bindM (dispatch D) (\<lambda>_. startedOrQueued (lr_id run))))))))" for e a vs
    unfolding pres_def
  proof (intro allI impI)
    fix st assume "?I st"
    from presD [OF rest, of "st\<lparr>x_db := snd (move_to_queued (x_clock st) (lr_id run) (x_db st))\<rparr>"] tables_ok_move_to_queued [OF this]
    show "?I (snd (bindM (gets (\<lambda>st. move_to_queued (x_clock st) (lr_id run) (x_db st))) (\<lambda>(c, d). bindM (setDb (\<lambda>_. d)) (\<lambda>_.
      bindM (whenM (c \<noteq> 1) (throwM e)) (\<lambda>_. bindM (setDb (writeAudit a)) (\<lambda>_.
      bindM (storeSecrets (lr_id run) vs) (\<lambda>_. bindM (dispatch D) (\<lambda>_. startedOrQueued (lr_id run))))))) st))"
      by (simp add: split_beta setDb_def)
  qed
  have "pres ?I (approve_commit D run secrets onlyIfFree)"
    unfolding approve_commit_def Let_def
    by (rule pres_bind, rule pres_liftE, rule pres_bind, rule pres_when, rule pres_refuse_unless_free, rule step)
  from presD [OF this assms] show ?thesis .
qed

lemma approve_resume_ok:
  assumes "tables_ok X Y (x_db st)"
  shows "tables_ok X Y (x_db (snd (approve_resume D run secrets onlyIfFree st)))"
proof -
  have "pres (on_db (tables_ok X Y)) (retype_commit D run secrets)"
    unfolding retype_commit_def Let_def by (intro pres_bind pres_seq) (auto intro: tables.pres_dispatch)
  from presD [OF this assms] approve_commit_ok [OF assms] show ?thesis by (simp add: approve_resume_def)
qed

section \<open>Discard, delete, cancel\<close>

lemma pres_settle: "settled_status s \<Longrightarrow> pres (on_db (tables_ok X Y)) (setDb (settle_run rid s err now))"
  using run_loop_invariant.settle [OF tables.loop1] by (intro pres_setDb) blast

lemma pres_discard: "pres (on_db (tables_ok X Y)) (discard D rid)"
  unfolding discard_def
  by (intro pres_bind_gets pres_bind pres_seq)
     (auto simp: settled_status_def intro: pres_settle pres_when tables.pres_dispatch)

lemma tables_ok_mark_deleted: "tables_ok X Y d \<Longrightarrow> tables_ok X Y (mark_deleted rid now d)"
proof -
  assume ok: "tables_ok X Y d"
  let ?g = "\<lambda>r. r\<lparr>r_deleted := Some now\<rparr>"
  have keys: "run_keys (update_run rid ?g d) = run_keys d" by (rule update_run_keys) simp
  have "locks_ok (update_run rid ?g d)" using ok locks_ok_cong [of "update_run rid ?g d" d] by (simp add: tables_ok_def db_ok_def)
  moreover have "queue_ok (update_run rid ?g d)"
    using ok by (intro queue_ok_update_run) (auto simp: tables_ok_def db_ok_def queue_ok_def)
  moreover have "claims_held (update_run rid ?g d)"
    unfolding claims_held_def
  proof (intro ballI impI allI)
    fix r p
    assume "r \<in> set (runs (update_run rid ?g d))" "active_status (r_status r)" "r_plan r = Some (PlanSnap p)"
    then obtain r0 where "r0 \<in> set (runs d)" "r_id r0 = r_id r" "r_plan r0 = r_plan r" "r_status r0 = r_status r"
      by (auto simp: in_update_run split: if_splits)
    with ok \<open>active_status (r_status r)\<close> \<open>r_plan r = Some (PlanSnap p)\<close>
    show "{r_id r} \<times> set (planClaims p) \<subseteq> held (update_run rid ?g d)"
      unfolding tables_ok_def db_ok_def claims_held_def held_update_run by metis
  qed
  ultimately show ?thesis
    using ok by (auto simp: mark_deleted_def tables_ok_def db_ok_def steps_owned_keys keys)
qed

lemma unique_run:
  assumes "tables_ok X Y d" and "r \<in> set (runs d)" and "r' \<in> set (runs d)" and "r_id r = r_id r'"
  shows "r = r'"
proof -
  have "distinct (map r_id (runs d))" using assms(1) by (simp add: tables_ok_def db_ok_def queue_ok_def)
  with assms(2-4) show ?thesis unfolding distinct_map by (blast dest: inj_onD)
qed

lemma deleteRun_ok:
  assumes ok: "tables_ok X Y (x_db st)"
  shows "tables_ok X Y (x_db (snd (deleteRun D rid st)))"
proof (cases "get_run (x_db st) rid")
  case (Some r)
  show ?thesis
  proof (cases "r_deleted r \<noteq> None \<or> \<not> isDeletableRun (r_status r)")
    case False
    from Some have r: "r \<in> set (runs (x_db st))" "r_id r = rid" by (auto dest: get_run_in)
    then have "r' \<in> set (runs (x_db st)) \<Longrightarrow> r_id r' = rid \<Longrightarrow> r' = r" for r'
      using unique_run [OF ok] by simp
    with False have idle: "\<not> active_run rid (x_db st)" by (auto simp: active_run_iff isDeletableRun_def active_status_def)
    let ?J = "on_db (\<lambda>d. tables_ok X Y d \<and> \<not> active_run rid d)"
    have del: "pres (on_db (tables_ok X Y)) (seqM [forgetSecrets rid, dispatch D, setDb (writeAudit a)])" for a
      by (rule pres_seq) (auto intro: tables.pres_dispatch)
    have tail: "on_db (tables_ok X Y) (snd (seqM (setDb (\<lambda>d. mark_deleted rid (x_clock st) (releaseLocks (x_clock st) rid d)) #
        [forgetSecrets rid, dispatch D, setDb (writeAudit a)]) st'))" if "?J st'" for st' a
      using presD [OF del, of "st'\<lparr>x_db := mark_deleted rid (x_clock st) (releaseLocks (x_clock st) rid (x_db st'))\<rparr>"] that
      by (simp add: setDb_def tables_ok_mark_deleted tables_ok_release)
    have hook: "pres ?J (whenM (r_status r = RPlanned) (callOnTerminal df rid ps RCancelled))" for df ps
      by (rule pres_when) (rule idle_log.pres_callOnTerminal)
    have "on_db (tables_ok X Y) (snd (seqM (whenM (r_status r = RPlanned) (callOnTerminal df rid ps RCancelled) #
        setDb (\<lambda>d. mark_deleted rid (x_clock st) (releaseLocks (x_clock st) rid d)) #
        [forgetSecrets rid, dispatch D, setDb (writeAudit a)]) st))" for df ps a
      by (rule seq_run_pres [where J = ?J and I = "on_db (tables_ok X Y)", OF hook _ _ tail]) (use ok idle in simp_all)
    moreover from False have "r_deleted r = None" "isDeletableRun (r_status r)" by auto
    ultimately show ?thesis by (simp add: deleteRun_def Some del: seqM.simps)
  qed (use ok Some in \<open>auto simp: deleteRun_def\<close>)
qed (use ok in \<open>simp add: deleteRun_def\<close>)

lemma pres_cancelPaused: "pres (on_db (tables_ok X Y)) (cancelPaused D rid)"
proof -
  have body: "pres (on_db (tables_ok X Y)) (seqM [setDb (settle_run rid RCancelled None now), appendRunMeta rid l,
      setDb (writeAudit a), callOnTerminal df rid ps RCancelled])" for now l a df ps
    by (rule pres_seq) (auto simp: settled_status_def intro: pres_settle)
  show ?thesis
    unfolding cancelPaused_def Let_def
    by (intro pres_bind_gets) (simp add: body del: seqM.simps split: option.split)
qed

lemma pres_cancel: "pres (on_db (tables_ok X Y)) (cancel D rid)"
  unfolding cancel_def
  by (intro pres_bind_gets) (auto intro: pres_discard pres_cancelPaused pres_when split: option.splits)

section \<open>Recovery\<close>

lemma claims_held_mono: "claims_held d \<Longrightarrow> runs d' = runs d \<Longrightarrow> held d \<subseteq> held d' \<Longrightarrow> claims_held d'"
  unfolding claims_held_def by (metis subset_trans)

lemma tables_ok_acquire:
  assumes "tables_ok X Y d" and "acquireLocks now rid cs d = Inr d'"
  shows "tables_ok X Y d'" and "{rid} \<times> set cs \<subseteq> held d'" and "runs d' = runs d"
proof -
  note f = acquireLocks_frame [OF assms(2)]
  from assms(1) have l: "locks_ok d" by (simp add: tables_ok_def db_ok_def)
  note a = acquireLocks_ok [OF l assms(2)]
  show "{rid} \<times> set cs \<subseteq> held d'" "runs d' = runs d" using a f by auto
  have "claims_held d'"
    by (rule claims_held_mono [of d]) (use assms(1) a f in \<open>auto simp: tables_ok_def db_ok_def\<close>)
  then show "tables_ok X Y d'"
    using assms(1) a f by (simp add: tables_ok_def db_ok_def queue_ok_def steps_owned_def run_keys_def step_keys_def step_runs_def)
qed

text \<open>
  The shape retry, skip and abort share: take the locks, rewrite the steps and set the run running in one transaction,
  write some rows, fire the run.
\<close>

definition restarts :: "run_id \<Rightarrow> run_id set \<Rightarrow> (db \<Rightarrow> thrown + db) \<Rightarrow> bool" where
  "restarts rid Y G \<longleftrightarrow> (\<forall>d d'. step_runs d = Y \<longrightarrow> G d = Inr d' \<longrightarrow>
     (\<exists>d1. runs d1 = runs d \<and> run_locks d1 = run_locks d \<and> step_runs d1 = Y \<and> d' = restart_run rid d1))"

lemma steps_owned_runs: "steps_owned d \<longleftrightarrow> step_runs d \<subseteq> fst ` set (run_keys d)"
  by (auto simp: steps_owned_keys step_runs_def)

lemma restart_ok:
  assumes ok: "tables_ok X Y d" and key: "(rid, Some (PlanSnap p)) \<in> X" and h: "{rid} \<times> set (planClaims p) \<subseteq> held d"
    and G: "restarts rid Y G" and run: "G d = Inr d'"
  shows "tables_ok X Y d'" and "active_run rid d'"
proof -
  from ok have "step_runs d = Y" by (simp add: tables_ok_def)
  with G run obtain d1 where d1: "runs d1 = runs d" "run_locks d1 = run_locks d" "step_runs d1 = Y" "d' = restart_run rid d1"
    unfolding restarts_def by blast
  from ok have "steps_owned d" "step_runs d = Y" by (simp_all add: tables_ok_def db_ok_def)
  then have "steps_owned d1" using d1 by (simp add: steps_owned_runs run_keys_def)
  then have ok1: "tables_ok X Y d1"
    using ok d1 locks_ok_cong [of d1 d] held_cong [of d1 d]
    by (simp add: tables_ok_def db_ok_def queue_ok_def claims_held_def run_keys_def)
  from key ok1 obtain r where r: "r \<in> set (runs d1)" "r_id r = rid" "r_plan r = Some (PlanSnap p)"
    by (auto simp: tables_ok_def run_keys_def)
  have one: "r' \<in> set (runs d1) \<Longrightarrow> r_id r' = rid \<Longrightarrow> r' = r" for r'
    using unique_run [OF ok1 _ r(1)] r(2) by simp
  show "tables_ok X Y d'"
    unfolding d1(4) restart_run_def
    by (rule tables_ok_activate [OF ok1]) (use one r(3) h held_cong [OF d1(2)] in \<open>auto\<close>)
  have "r\<lparr>r_status := RRunning, r_error := None, r_finishedAt := None\<rparr> \<in> set (runs d')"
    unfolding d1(4) restart_run_def in_update_run using r by (intro bexI [of _ r]) simp_all
  from active_runI [OF this, of rid] r(2) show "active_run rid d'" by simp
qed

lemma fire_after:
  assumes "\<And>m. m \<in> set ms \<Longrightarrow> pres (on_db (\<lambda>d. tables_ok X Y d \<and> active_run rid d)) m"
    and "tables_ok X Y (x_db st)" and "active_run rid (x_db st)"
  shows "tables_ok X Y (x_db (snd (seqM (ms @ [fireExecute D rid b]) st)))"
  by (rule seq_last [where J = "on_db (\<lambda>d. tables_ok X Y d \<and> active_run rid d)" and I = "on_db (tables_ok X Y)"])
     (use assms tables.fireExecute_keeps in auto)

lemma recovery_ok:
  assumes ok: "tables_ok X Y (x_db st)" and key: "(rid, pj) \<in> X" and G: "restarts rid Y G"
    and ms: "\<And>m. m \<in> set ms \<Longrightarrow> pres (on_db (\<lambda>d. tables_ok X Y d \<and> active_run rid d)) m"
  shows "tables_ok X Y (x_db (snd (bindM (take_plan_locks rid pj) (\<lambda>_. bindM (onDb G) (\<lambda>_. seqM (ms @ [fireExecute D rid b]))) st)))"
proof (cases "snap_of pj")
  case (Inl e)
  then show ?thesis using ok by (simp add: take_plan_locks_def bindM_def)
next
  case (Inr p)
  then have pj: "pj = Some (PlanSnap p)" by (cases pj rule: snap_of.cases) auto
  show ?thesis
  proof (cases "acquireLocks (x_clock st) rid (planClaims p) (x_db st)")
    case (Inl e)
    then show ?thesis using ok \<open>snap_of pj = Inr p\<close> by (simp add: take_plan_locks_def bindM_def onDb_def)
  next
    case acq: (Inr d1)
    note a = tables_ok_acquire [OF ok acq]
    show ?thesis
    proof (cases "G d1")
      case (Inl e)
      then show ?thesis using a(1) acq Inr by (simp add: take_plan_locks_def bindM_def onDb_def)
    next
      case g: (Inr d2)
      note r = restart_ok [OF a(1) key [unfolded pj] a(2) G g]
      have "tables_ok X Y (x_db (snd (seqM (ms @ [fireExecute D rid b]) (st\<lparr>x_db := d2\<rparr>))))"
        by (rule fire_after [OF ms]) (simp_all add: r)
      then show ?thesis using acq Inr g by (simp add: take_plan_locks_def bindM_def onDb_def)
    qed
  qed
qed

lemma loadRun_key: "loadRun d rid = Inr run \<Longrightarrow> lr_id run = rid \<and> (rid, lr_plan run) \<in> set (run_keys d)"
  by (auto simp: loadRun_def run_keys_def split: option.splits if_splits dest!: get_run_in)

lemma reset_row_core: "reset_row s d = Inr d' \<Longrightarrow> same_core d d'"
  by (auto simp: reset_row_def same_core_def keeps_step_keys_def split: if_splits
      dest!: core_setStepStatus [of "\<lambda>s. s\<lparr>s_error := None, s_startedAt := None, s_finishedAt := None\<rparr>", rotated])

lemma reset_rows_core: "reset_rows ss d = Inr d' \<Longrightarrow> same_core d d'"
proof (induction ss arbitrary: d)
  case (Cons s ss)
  then obtain d1 where "reset_row s d = Inr d1" "reset_rows ss d1 = Inr d'" by (auto split: sum.splits)
  with Cons.IH reset_row_core show ?case by (fastforce simp: same_core_def)
qed (simp add: same_core_def)

lemma restarts_core:
  assumes "\<And>d d'. G d = Inr d' \<Longrightarrow> \<exists>d1. same_core d d1 \<and> d' = restart_run rid d1"
  shows "restarts rid Y G"
  unfolding restarts_def
proof (intro allI impI)
  fix d d' assume Y: "step_runs d = Y" and "G d = Inr d'"
  with assms obtain d1 where d1: "same_core d d1" "d' = restart_run rid d1" by blast
  then have "step_runs d1 = Y" using Y step_runs_cong [of d d1] by (simp add: same_core_def)
  with d1 show "\<exists>d1. runs d1 = runs d \<and> run_locks d1 = run_locks d \<and> step_runs d1 = Y \<and> d' = restart_run rid d1"
    by (auto simp: same_core_def)
qed

lemma restarts_reset_from: "restarts rid Y (reset_from rid ord)"
  by (rule restarts_core) (auto simp: reset_from_def split: sum.splits dest: reset_rows_core)

lemma restarts_skip_row: "restarts rid Y (skip_row rid step reason)"
proof (rule restarts_core)
  fix d d' assume "skip_row rid step reason d = Inr d'"
  then obtain d1 where d1: "setStepStatus (s_id step) (s_status step) SSkipped (\<lambda>s. s\<lparr>s_skipReason := Some reason\<rparr>) d = Inr d1"
    "d' = restart_run rid d1" by (auto simp: skip_row_def split: sum.splits)
  have "same_core d d1" by (rule core_setStepStatus [OF _ d1(1)]) (simp add: keeps_step_keys_def)
  with d1(2) show "\<exists>d1. same_core d d1 \<and> d' = restart_run rid d1" by blast
qed

lemma retryFromStep_ok:
  assumes ok: "tables_ok X Y (x_db st)"
  shows "tables_ok X Y (x_db (snd (retryFromStep D rid stepName secrets st)))"
proof (cases "loadRun (x_db st) rid")
  case (Inr run)
  from ok loadRun_key [OF Inr] have key: "(rid, lr_plan run) \<in> X" by (simp add: tables_ok_def)
  have "tables_ok X Y (x_db (snd (bindM (take_plan_locks rid (lr_plan run)) (\<lambda>_. bindM (onDb (reset_from rid ord)) (\<lambda>_.
      seqM ([setDb (writeAudit a), storeSecrets rid vs] @ [fireExecute D rid False]))) st)))" for ord a vs
    by (rule recovery_ok [OF ok key restarts_reset_from]) auto
  then show ?thesis
    using ok Inr by (simp add: retryFromStep_def bindM_liftE split: sum.splits del: seqM.simps)
qed (use ok in \<open>simp add: retryFromStep_def bindM_liftE\<close>)

lemma skipStep_ok:
  assumes ok: "tables_ok X Y (x_db st)"
  shows "tables_ok X Y (x_db (snd (skipStep D actor rid stepName reason st)))"
proof (cases "skip_target D (x_db st) rid stepName reason")
  case (Inr rs)
  obtain run step where rs: "rs = (run, step)" by (cases rs)
  with Inr have "loadRun (x_db st) rid = Inr run" by (auto simp: skip_target_def split: sum.splits if_splits)
  from ok loadRun_key [OF this] have key: "(rid, lr_plan run) \<in> X" by (simp add: tables_ok_def)
  have "tables_ok X Y (x_db (snd (bindM (take_plan_locks rid (lr_plan run)) (\<lambda>_. bindM (onDb (skip_row rid step reason)) (\<lambda>_.
      seqM ([setDb (writeAudit a), appendRunMeta rid l] @ [fireExecute D rid False]))) st)))" for a l
    by (rule recovery_ok [OF ok key restarts_skip_row]) auto
  then show ?thesis using Inr rs by (simp add: skipStep_def bindM_liftE del: seqM.simps)
qed (use ok in \<open>simp add: skipStep_def bindM_liftE\<close>)

section \<open>Abort\<close>

lemma step_runs_insert: "insert_step s d = Inr d' \<Longrightarrow> runs d' = runs d \<and> run_locks d' = run_locks d \<and> step_runs d' = insert (s_runId s) (step_runs d)"
  by (auto simp: insert_step_def step_runs_alt split: if_splits)

lemma step_runs_insert_steps:
  "insert_steps ss d = Inr d' \<Longrightarrow> runs d' = runs d \<and> run_locks d' = run_locks d \<and> step_runs d' = s_runId ` set ss \<union> step_runs d"
proof (induction ss arbitrary: d)
  case (Cons s ss)
  then obtain d1 where "insert_step s d = Inr d1" "insert_steps ss d1 = Inr d'" by (auto split: sum.splits)
  with Cons.IH [of d1] step_runs_insert [of s d d1] show ?case by auto
qed simp

lemma schedule_names_frame:
  assumes "schedule_names rid gen rows byName mo i names d = Inr d'"
  shows "runs d' = runs d \<and> run_locks d' = run_locks d \<and> step_runs d \<subseteq> step_runs d' \<and> step_runs d' \<subseteq> insert rid (step_runs d)"
  using assms
proof (induction rid gen rows byName mo i names d rule: schedule_names.induct)
  case (2 rid gen rows byName mo i name names d)
  let ?r = "case List.find (\<lambda>s. s_name s = cleanup_step_name name) rows of
      Some existing \<Rightarrow> setStepStatus (s_id existing) (s_status existing) SPending clear_outcome d
    | None \<Rightarrow> insert_step (cleanup_row rid (gen i) (mo + 1 + i) name (byName name)) d"
  from 2(2) obtain d1 where d1: "?r = Inr d1" "schedule_names rid gen rows byName mo (Suc i) names d1 = Inr d'"
    by (auto simp: Let_def split: sum.splits)
  have "runs d1 = runs d \<and> run_locks d1 = run_locks d \<and> step_runs d \<subseteq> step_runs d1 \<and> step_runs d1 \<subseteq> insert rid (step_runs d)"
  proof (cases "List.find (\<lambda>s. s_name s = cleanup_step_name name) rows")
    case None
    with d1(1) step_runs_insert [of "cleanup_row rid (gen i) (mo + 1 + i) name (byName name)" d d1] show ?thesis
      by (auto simp: cleanup_row_def)
  next
    case (Some s)
    with d1(1) have "same_core d d1"
      using core_setStepStatus [of clear_outcome "s_id s" "s_status s" SPending d d1]
      by (simp add: keeps_step_keys_def clear_outcome_def)
    then show ?thesis using step_runs_cong [of d d1] by (auto simp: same_core_def)
  qed
  with 2(1) [OF refl d1] show ?case by auto
qed auto

lemma restarts_schedule: "rid \<in> Y \<Longrightarrow> restarts rid Y (scheduleCleanupSteps rid gen rows names byName)"
  unfolding restarts_def
proof (intro allI impI)
  fix d d' assume rid: "rid \<in> Y" and Y: "step_runs d = Y" and "scheduleCleanupSteps rid gen rows names byName d = Inr d'"
  then obtain d1 d2 where d1: "abandonUnfinished rid d = Inr d1" and d2: "schedule_names rid gen rows byName (max_ordinal rows) 0 names d1 = Inr d2"
    and d': "d' = restart_run rid d2" by (auto simp: scheduleCleanupSteps_def restart_run_def split: sum.splits)
  have "map step_key (update_where P (\<lambda>s. s\<lparr>s_status := SSkipped, s_skipReason := Some ''aborted''\<rparr>) ss) = map step_key ss" for P ss
    by (rule map_step_key_update) (simp add: step_key_def)
  then have core: "same_core d d1" using d1 by (auto simp: abandonUnfinished_eq same_core_def step_keys_def)
  then have "step_runs d1 = Y" using Y step_runs_cong [of d d1] by (simp add: same_core_def)
  with schedule_names_frame [OF d2] rid have "step_runs d2 = Y" by auto
  with schedule_names_frame [OF d2] core d'
  show "\<exists>d1. runs d1 = runs d \<and> run_locks d1 = run_locks d \<and> step_runs d1 = Y \<and> d' = restart_run rid d1"
    by (auto simp: same_core_def)
qed

lemma abort_commit_ok:
  assumes ok: "tables_ok X Y (x_db st)" and key: "(lr_id (ab_run t), lr_plan (ab_run t)) \<in> X" and rid: "lr_id (ab_run t) \<in> Y"
  shows "tables_ok X Y (x_db (snd (abort_commit D t st)))"
proof -
  have "pres (on_db (\<lambda>d. tables_ok X Y d \<and> active_run (lr_id (ab_run t)) d)) (case ab_secrets t of None \<Rightarrow> ret () | Some vs \<Rightarrow> storeSecrets (lr_id (ab_run t)) vs)"
    by (auto split: option.splits)
  then have "tables_ok X Y (x_db (snd (bindM (take_plan_locks (lr_id (ab_run t)) (lr_plan (ab_run t))) (\<lambda>_.
      bindM (onDb (scheduleCleanupSteps (lr_id (ab_run t)) gen rows names byName)) (\<lambda>_.
      seqM ([case ab_secrets t of None \<Rightarrow> ret () | Some vs \<Rightarrow> storeSecrets (lr_id (ab_run t)) vs, setDb (writeAudit a)] @
        [fireExecute D (lr_id (ab_run t)) False]))) (st\<lparr>x_minted := n\<rparr>))))" for gen rows names byName a n
    using ok by (intro recovery_ok [OF _ key restarts_schedule [OF rid]]) auto
  then show ?thesis by (simp add: abort_commit_def mint_def Let_def bindM_def [of "bindM _ _"] del: seqM.simps)
qed

lemma settleAbort_ok:
  assumes "tables_ok X Y d" and "settleAbortWithoutCleanup now rid d = Inr d'"
  shows "tables_ok X Y d' \<and> \<not> active_run rid d'"
proof -
  let ?d = "d\<lparr>steps := update_where (\<lambda>s. s_runId s = rid \<and> s_status s \<noteq> SOk)
      (\<lambda>s. s\<lparr>s_status := SSkipped, s_skipReason := Some ''aborted''\<rparr>) (steps d)\<rparr>"
  have "map step_key (update_where P (\<lambda>s. s\<lparr>s_status := SSkipped, s_skipReason := Some ''aborted''\<rparr>) ss) = map step_key ss" for P ss
    by (rule map_step_key_update) (simp add: step_key_def)
  then have "same_core d ?d" by (simp add: same_core_def step_keys_def)
  with assms(1) have "tables_ok X Y ?d" by (blast intro: tables_ok_core)
  moreover have "d' = update_run rid (\<lambda>r. r\<lparr>r_status := RCancelled, r_finishedAt := Some now\<rparr>) ?d"
    using assms(2) by (simp add: settleAbortWithoutCleanup_def abandonUnfinished_eq)
  ultimately show ?thesis
    using tables_ok_settle [of X Y ?d "\<lambda>r. r\<lparr>r_status := RCancelled, r_finishedAt := Some now\<rparr>" rid]
      not_active_update [of "\<lambda>r. r\<lparr>r_status := RCancelled, r_finishedAt := Some now\<rparr>" rid ?d] by simp
qed

lemma abort_without_cleanup_ok:
  assumes ok: "tables_ok X Y (x_db st)"
  shows "tables_ok X Y (x_db (snd (seqM [onDb (settleAbortWithoutCleanup now rid), appendRunMeta rid l, setDb (writeAudit a),
      setDb (releaseLocks now rid), dispatch D] st)))"
proof (cases "settleAbortWithoutCleanup now rid (x_db st)")
  case (Inr d1)
  let ?J = "on_db (\<lambda>d. tables_ok X Y d \<and> \<not> active_run rid d)"
  have rel: "pres ?J (setDb (releaseLocks now rid))"
    by (rule pres_setDb) (simp add: tables_ok_release active_run_def)
  have "on_db (tables_ok X Y) (snd (seqM ([appendRunMeta rid l, setDb (writeAudit a), setDb (releaseLocks now rid)] @ [dispatch D])
      (st\<lparr>x_db := d1\<rparr>)))"
  proof (rule seq_last [where J = ?J])
    show "pres ?J m" if "m \<in> set [appendRunMeta rid l, setDb (writeAudit a), setDb (releaseLocks now rid)]" for m
      using that rel idle_log.pres_appendRunMeta idle_log.pres_audit by auto
    show "?J (st\<lparr>x_db := d1\<rparr>)" using settleAbort_ok [OF ok Inr] by simp
  qed (simp_all add: tables.dispatch_keeps)
  moreover have "seqM (onDb (settleAbortWithoutCleanup now rid) # ms) st = seqM ms (st\<lparr>x_db := d1\<rparr>)" for ms
    by (simp add: onDb_def bindM_def Inr)
  ultimately show ?thesis by (simp only: append.simps)
qed (use ok in \<open>simp add: onDb_def bindM_def\<close>)

lemma abort_begin_ok:
  assumes ok: "tables_ok X Y (x_db st)" and run: "abort_begin D rid secrets st = (r, st')"
  shows "tables_ok X Y (x_db st')"
    and "r = Inr (Some t) \<Longrightarrow> (lr_id (ab_run t), lr_plan (ab_run t)) \<in> X \<and> lr_id (ab_run t) \<in> Y"
proof -
  let ?d = "x_db st"
  have "tables_ok X Y (x_db st') \<and> (r = Inr (Some t) \<longrightarrow> (lr_id (ab_run t), lr_plan (ab_run t)) \<in> X \<and> lr_id (ab_run t) \<in> Y)"
  proof (cases "loadRun ?d rid")
    case (Inr lrun)
    from ok loadRun_key [OF Inr] have key: "lr_id lrun = rid" "(rid, lr_plan lrun) \<in> X" by (simp_all add: tables_ok_def)
    show ?thesis
    proof (cases "registeredCleanupNames (allStepRows ?d rid) = []")
      case True
      have "tables_ok X Y (x_db st') \<and> r \<noteq> Inr (Some t)"
        using run True Inr ok abort_without_cleanup_ok [OF ok, of "x_clock st" rid nothing_line
          "run_audit ''run.cancelled'' rid (Some (JObj [(''cleanedUp'', JBool False)]))" D]
        by (auto simp: abort_begin_def Let_def bindM_liftE bindM_def [of "seqM _"] split: if_splits prod.splits sum.splits simp del: seqM.simps)
      then show ?thesis by simp
    next
      case False
      then have "allStepRows ?d rid \<noteq> []" by (auto simp: registeredCleanupNames_def)
      then obtain s where "s \<in> set (allStepRows ?d rid)" by (cases "allStepRows ?d rid") auto
      then have "rid \<in> step_runs ?d" by (auto simp: allStepRows_set step_runs_alt)
      then have "rid \<in> Y" using ok by (simp add: tables_ok_def)
      with run False Inr ok key show ?thesis
        by (auto simp: abort_begin_def Let_def bindM_liftE split: if_splits sum.splits option.splits simp del: seqM.simps)
    qed
  qed (use run ok in \<open>auto simp: abort_begin_def bindM_liftE\<close>)
  then show "tables_ok X Y (x_db st')" "r = Inr (Some t) \<Longrightarrow> (lr_id (ab_run t), lr_plan (ab_run t)) \<in> X \<and> lr_id (ab_run t) \<in> Y"
    by simp_all
qed

section \<open>Boot\<close>

lemma drain_append: "drain D (xs @ ys) st = drain D ys (drain D xs st)"
proof (induction D xs st rule: drain.induct)
  case (3 D rid after ts st)
  obtain x st' where "execute D rid after st = (x, st')" by (cases "execute D rid after st")
  with 3 show ?case by (auto simp: drain.simps split: sum.splits bool.splits)
qed (auto simp: drain.simps split: sum.splits)

lemma fire_all: "forM rids (\<lambda>rid. fireExecute D rid b) st = (Inr (), drain D (map (\<lambda>rid. TFire rid b) rids) st)"
proof (induction rids arbitrary: st)
  case (Cons rid rids)
  then show ?case using drain_append [of D "[TFire rid b]" "map (\<lambda>rid. TFire rid b) rids" st]
    by (simp add: forM_def fireExecute_def bindM_def)
qed (simp add: forM_def drain.simps)

lemma fires_map [simp]: "fires (map (\<lambda>rid. TFire rid b) rids) = rids"
  by (induction rids) simp_all

lemma tables_ok_reconcile:
  assumes ok: "tables_ok X Y d"
  shows "tables_ok X Y (reconcileLocks now d)"
proof -
  let ?d = "reconcileLocks now d"
  have f: "runs ?d = runs d" "steps ?d = steps d" by (simp_all add: reconcileLocks_def)
  have h: "held ?d = {p \<in> held d. fst p \<in> set (may_hold_locks d)}"
    by (auto simp: held_def live_locks_reconcile)
  have "distinct (map lock_claim_of (live_locks ?d))"
    using ok by (simp add: tables_ok_def db_ok_def locks_ok_def live_locks_reconcile distinct_map_filter)
  then have "locks_ok ?d"
    using ok h by (auto intro!: locks_okI simp: tables_ok_def db_ok_def dest: locks_okD)
  moreover have "claims_held ?d"
    unfolding claims_held_def f
  proof (intro ballI impI allI)
    fix r p assume r: "r \<in> set (runs d)" "active_status (r_status r)" "r_plan r = Some (PlanSnap p)"
    then have "r_id r \<in> set (may_hold_locks d)" by (auto simp: may_hold_locks_def active_status_def)
    moreover have "{r_id r} \<times> set (planClaims p) \<subseteq> held d"
      using ok r unfolding tables_ok_def db_ok_def claims_held_def by blast
    ultimately show "{r_id r} \<times> set (planClaims p) \<subseteq> held ?d" by (auto simp: h)
  qed
  moreover have "steps_owned ?d" using ok f by (simp add: tables_ok_def db_ok_def steps_owned_def)
  ultimately show ?thesis
    using ok by (simp add: tables_ok_def db_ok_def queue_ok_def run_keys_def step_runs_alt f)
qed

lemma reset_running_core: "reset_running rid d = Inr d' \<Longrightarrow> same_core d d'"
proof -
  assume "reset_running rid d = Inr d'"
  moreover have "map step_key (update_where P (\<lambda>s. s\<lparr>s_status := SPending, s_startedAt := None\<rparr>) ss) = map step_key ss" for P ss
    by (rule map_step_key_update) (simp add: step_key_def)
  ultimately show ?thesis by (auto simp: reset_running_def setStepStatusIn_Inr same_core_def step_keys_def)
qed

text \<open>Firing every run that was running or approved: each is active, and none is named twice.\<close>

lemma resume_pending_ok:
  assumes ok: "tables_ok X Y (x_db st)" and d: "distinct pending" and a: "\<forall>r \<in> set pending. active_run r (x_db st)"
    and rest: "\<And>st. tables_ok X Y (x_db st) \<Longrightarrow> tables_ok X Y (x_db (snd (k st)))"
  shows "tables_ok X Y (x_db (snd (bindM (forM pending (\<lambda>rid. onDb (reset_running rid))) (\<lambda>_.
      bindM (forM pending (\<lambda>rid. fireExecute D rid True)) (\<lambda>_. k)) st)))"
proof -
  let ?J = "on_db (\<lambda>d. tables_ok X Y d \<and> (\<forall>r \<in> set pending. active_run r d))"
  have "pres ?J (onDb (reset_running rid))" for rid
    by (rule pres_onDb) (auto dest!: reset_running_core simp: active_run_core intro: tables_ok_core)
  then have J: "pres ?J (forM pending (\<lambda>rid. onDb (reset_running rid)))" by (intro pres_for)
  have "?J (snd (forM pending (\<lambda>rid. onDb (reset_running rid)) st))" by (rule presD [OF J]) (use ok a in simp)
  then show ?thesis
  proof (cases "forM pending (\<lambda>rid. onDb (reset_running rid)) st")
    case (Pair r st1)
    with \<open>?J (snd _)\<close> have j: "tables_ok X Y (x_db st1)" "\<forall>r \<in> set pending. active_run r (x_db st1)" by simp_all
    have "tables_ok X Y (x_db (drain D (map (\<lambda>rid. TFire rid True) pending) st1))"
      using j d by (intro tables.drain_keeps) simp_all
    with j Pair rest show ?thesis by (cases r) (simp_all add: bindM_def fire_all)
  qed
qed

lemma resume_body_ok:
  assumes ok: "tables_ok X Y (x_db st)"
  shows "tables_ok X Y (x_db (snd (resume_body D st)))"
proof -
  let ?I = "on_db (tables_ok X Y)"
  let ?rest = "bindM (gets (\<lambda>st. listQueuedRuns (x_db st) (has_secrets st))) (\<lambda>r. bindM (liftE r) (\<lambda>qs.
     bindM (forM (filter q_needsSecrets qs) (\<lambda>q. appendRunMeta (q_runId q) retype_line)) (\<lambda>_. dispatch D)))"
  have rest: "pres ?I ?rest"
    by (intro pres_bind_gets pres_bind pres_for) (auto intro: tables.pres_dispatch)
  have go: "?I (snd (bindM (gets (\<lambda>st. runs_in [RRunning, RApproved] (x_db st))) (\<lambda>pending.
      bindM (forM pending (\<lambda>rid. onDb (reset_running rid))) (\<lambda>_.
      bindM (forM pending (\<lambda>rid. fireExecute D rid True)) (\<lambda>_. ?rest))) st))" if "?I st" for st
  proof -
    have "distinct (runs_in [RRunning, RApproved] (x_db st))"
      using that by (simp add: tables_ok_def db_ok_def queue_ok_def runs_in_def distinct_map_filter)
    moreover have "\<forall>r \<in> set (runs_in [RRunning, RApproved] (x_db st)). active_run r (x_db st)"
      by (auto simp: runs_in_def active_run_iff)
    ultimately show ?thesis using resume_pending_ok [OF that, of _ ?rest D] presD [OF rest] by simp
  qed
  have orphans: "pres ?I (forM os (\<lambda>rid. failRun D rid interrupted_line))" for os
    by (rule pres_for) (rule tables.pres_failRun)
  show ?thesis
    unfolding resume_body_def
    by (subst bindM_gets, rule bind_run [where J = ?I]) (use presD' [OF orphans ok] go in blast)+
qed

lemma boot_ok:
  assumes ok: "tables_ok X Y (x_db st)"
  shows "tables_ok X Y (x_db (snd (boot D st)))"
proof -
  have "pres (on_db (tables_ok X Y)) (resumeOnBoot D)"
    unfolding resumeOnBoot_def by (rule pres_catch) (simp_all add: pres_def resume_body_ok logLine_def)
  moreover have "tables_ok X Y (reconcileLocks now (x_db (fresh_process st)))" for now
    using tables_ok_reconcile [OF ok] by (simp add: fresh_process_def)
  ultimately show ?thesis by (simp add: boot_def setDb_def pres_def)
qed

end
