(* ===== verification/Plan_Invariants.thy ===== *)
theory Plan_Invariants
  imports Op_Invariants
begin

text \<open>
  The operations that add runs, steps or a plan: a plan, the begin of a streaming plan and its end. What was planned
  before stays: \<open>moves C X Y X' Y'\<close> says only the runs in \<open>C\<close>, which had no steps, changed.
\<close>

definition moves :: "run_id set \<Rightarrow> (run_id \<times> plan_json option) set \<Rightarrow> run_id set \<Rightarrow>
    (run_id \<times> plan_json option) set \<Rightarrow> run_id set \<Rightarrow> bool" where
  "moves C X Y X' Y' \<longleftrightarrow> C \<inter> Y = {} \<and> (\<forall>(i, p) \<in> X. i \<notin> C \<longrightarrow> (i, p) \<in> X') \<and> fst ` X \<subseteq> fst ` X' \<and>
     Y \<subseteq> Y' \<and> Y' \<subseteq> Y \<union> C"

definition moved :: "run_id set \<Rightarrow> (run_id \<times> plan_json option) set \<Rightarrow> run_id set \<Rightarrow> db \<Rightarrow> bool" where
  "moved C X Y d \<longleftrightarrow> (\<exists>X' Y'. tables_ok X' Y' d \<and> moves C X Y X' Y')"

lemma moves_new: "N \<subseteq> {i} \<Longrightarrow> i \<notin> Y \<Longrightarrow> moves {i} X Y (insert (i, p) X) (N \<union> Y)"
  by (auto simp: moves_def)

lemma moved_refl: "C \<inter> Y = {} \<Longrightarrow> tables_ok X Y d \<Longrightarrow> moved C X Y d"
  unfolding moved_def moves_def by blast

lemma pres_moved:
  assumes "\<And>X Y. pres (on_db (tables_ok X Y)) m"
  shows "pres (on_db (moved C X Y)) m"
  using assms unfolding pres_def moved_def by blast

interpretation moved_log: log_invariant "moved C X Y" for C X Y
  by (rule core_log_invariant) (auto simp: moved_def intro: tables_ok_core)

section \<open>New rows\<close>

lemma insert_run_ok:
  assumes ok: "tables_ok X Y d" and ins: "insert_run r d = Inr d'"
    and st: "r_status r = RPlanning \<or> r_status r = RPlanned \<and> (\<exists>p. r_plan r = Some (PlanSnap p))"
  shows "tables_ok (insert (r_id r, r_plan r) X) Y d'" and "r_id r \<notin> fst ` X"
proof -
  from ins have new: "r_id r \<notin> r_id ` set (runs d)" and d': "d' = d\<lparr>runs := runs d @ [r]\<rparr>"
    by (auto simp: insert_run_def split: if_splits)
  have k: "set (run_keys d') = insert (r_id r, r_plan r) (set (run_keys d))" by (auto simp: run_keys_def d')
  show "r_id r \<notin> fst ` X" using new ok by (force simp: tables_ok_def run_keys_def)
  have "locks_ok d'" using ok locks_ok_cong [of d' d] by (simp add: tables_ok_def db_ok_def d')
  moreover have "queue_ok d'" using ok new st by (auto simp: tables_ok_def db_ok_def queue_ok_def d')
  moreover have "claims_held d'"
    using ok st held_cong [of d' d] by (auto simp: tables_ok_def db_ok_def claims_held_def d')
  moreover have "steps_owned d'" using ok by (auto simp: tables_ok_def db_ok_def steps_owned_def d')
  ultimately show "tables_ok (insert (r_id r, r_plan r) X) Y d'"
    using ok k by (simp add: tables_ok_def db_ok_def step_runs_alt) (simp add: d')
qed

lemma insert_steps_ok:
  assumes ok: "tables_ok X Y d" and ins: "insert_steps ss d = Inr d'" and own: "s_runId ` set ss \<subseteq> fst ` X"
  shows "tables_ok X (s_runId ` set ss \<union> Y) d'"
proof -
  note f = step_runs_insert_steps [OF ins]
  then have k: "run_keys d' = run_keys d" by (simp add: run_keys_def)
  have "locks_ok d'" using ok f locks_ok_cong [of d' d] by (simp add: tables_ok_def db_ok_def)
  moreover have "queue_ok d'" "claims_held d'"
    using ok f held_cong [of d' d] by (simp_all add: tables_ok_def db_ok_def queue_ok_def claims_held_def)
  moreover have "steps_owned d'"
    using ok own f k by (auto simp: tables_ok_def db_ok_def steps_owned_runs)
  ultimately show ?thesis using ok k f by (simp add: tables_ok_def db_ok_def)
qed

lemma new_run_sel:
  "r_id (new_run rid kind tk ti ps pj s own now) = rid" "r_plan (new_run rid kind tk ti ps pj s own now) = pj"
  "r_status (new_run rid kind tk ti ps pj s own now) = s"
  by (simp_all add: new_run_def)

lemma new_steps_run: "s_runId ` set (new_steps rid gen impls) \<subseteq> {rid}"
  by (auto simp: new_steps_def new_step_def)

section \<open>Plan\<close>

lemma insert_planned_ok:
  assumes ok: "tables_ok X Y d"
    and run: "(case insert_run r d of Inl e \<Rightarrow> Inl e | Inr d' \<Rightarrow> insert_steps (new_steps (r_id r) gen impls) d') = Inr d2"
    and st: "r_status r = RPlanned" "r_plan r = Some (PlanSnap p)"
  shows "\<exists>C. C \<inter> fst ` X = {} \<and> moved C X Y d2"
proof -
  from run obtain d1 where d1: "insert_run r d = Inr d1" "insert_steps (new_steps (r_id r) gen impls) d1 = Inr d2"
    by (auto split: sum.splits)
  have i: "tables_ok (insert (r_id r, r_plan r) X) Y d1" "r_id r \<notin> fst ` X"
    using insert_run_ok [OF ok d1(1)] st by simp_all
  have "tables_ok (insert (r_id r, r_plan r) X) (s_runId ` set (new_steps (r_id r) gen impls) \<union> Y) d2"
    using new_steps_run by (intro insert_steps_ok [OF i(1) d1(2)]) fastforce
  moreover have "Y \<subseteq> fst ` X" using ok by (auto simp: tables_ok_def db_ok_def steps_owned_runs)
  then have "moves {r_id r} X Y (insert (r_id r, r_plan r) X) (s_runId ` set (new_steps (r_id r) gen impls) \<union> Y)"
    using i(2) by (intro moves_new [OF new_steps_run]) blast
  ultimately have "moved {r_id r} X Y d2" unfolding moved_def by blast
  with i(2) show ?thesis by (intro exI [of _ "{r_id r}"]) simp
qed

interpretation fresh_log: log_invariant "\<lambda>d. \<exists>C. C \<inter> fst ` X = {} \<and> moved C X Y d" for X Y
  by (rule core_log_invariant) (meson moved_def tables_ok_core)

lemma plan_commit_ok:
  assumes ok: "tables_ok X Y (x_db st)"
  shows "\<exists>C. C \<inter> fst ` X = {} \<and> moved C X Y (x_db (snd (plan_commit D owner kind df params planned st)))"
proof -
  let ?P = "\<lambda>st. \<exists>C. C \<inter> fst ` X = {} \<and> moved C X Y (x_db st)"
  have base: "?P st" if "tables_ok X Y (x_db st)" for st
    using moved_refl [of "{}", OF _ that] by blast
  have rest: "pres ?P (bindM (setDb (writeAudit a)) (\<lambda>_. ret x))" for a and x :: "run_id \<times> plan_snapshot"
    by (rule pres_bind, rule fresh_log.pres_audit) simp
  have ins: "?P (snd (bindM (onDb (\<lambda>d. (case insert_run (new_run rid kind tk ti params (Some (PlanSnap p)) RPlanned owner now) d of
      Inl e \<Rightarrow> Inl e | Inr d' \<Rightarrow> insert_steps (new_steps rid gen impls) d'))) (\<lambda>_. bindM (setDb (writeAudit a)) (\<lambda>_. ret x)) st))"
    (is "?P (snd (bindM (onDb ?ins) _ st))")
    if t: "tables_ok X Y (x_db st)" for rid tk ti p now gen impls a st and x :: "run_id \<times> plan_snapshot"
  proof (rule bind_run_ok)
    show "?P st'" if "onDb ?ins st = (Inl e, st')" for e st'
      using base [OF t] that by (auto simp: onDb_def split: sum.splits)
    fix u st' assume "onDb ?ins st = (Inr u, st')"
    then obtain d2 where "?ins (x_db st) = Inr d2" "st' = st\<lparr>x_db := d2\<rparr>" by (auto simp: onDb_def split: sum.splits)
    with insert_planned_ok [OF t, of "new_run rid kind tk ti params (Some (PlanSnap p)) RPlanned owner now" gen impls d2 p, unfolded new_run_sel]
    have "?P st'" by simp
    then show "?P (snd (bindM (setDb (writeAudit a)) (\<lambda>_. ret x) st'))" using rest by (simp add: pres_def)
  qed
  obtain ls answer where pr: "runProbes (d_steps df params) params = (ls, answer)" by fastforce
  have logs: "tables_ok X Y (x_db (snd (forM ls (logLine LInfo None) st)))"
    by (rule presD [of "on_db (tables_ok X Y)", OF pres_for ok]) simp
  show ?thesis
    unfolding plan_commit_def Let_def pr case_prod_conv
  proof (rule bind_run [where J = "on_db (tables_ok X Y)"])
    show "on_db (tables_ok X Y) st'" if "forM ls (logLine LInfo None) st = (r, st')" for r st' using logs that by simp
    fix u st' assume t: "on_db (tables_ok X Y) st'"
    show "?P (snd (bindM (liftE answer) (\<lambda>findings. bindM (gets x_clock) (\<lambda>now. bindM (mint (Suc (length (d_steps df params)))) (\<lambda>m.
        bindM (onDb (\<lambda>d. case insert_run (new_run (newId D ''run'' m) kind (p_targetKind planned) (p_targetId planned) params
             (Some (PlanSnap (snapshot D planned params findings now))) RPlanned owner now) d of
             Inl e \<Rightarrow> Inl e | Inr d' \<Rightarrow> insert_steps (new_steps (newId D ''run'' m) (\<lambda>i. newId D ''step'' (m + 1 + i)) (d_steps df params)) d')) (\<lambda>_.
        bindM (setDb (writeAudit \<lparr>a_action = ''run.planned'', a_targetKind = Some (p_targetKind planned),
             a_targetId = Some (p_targetId planned), a_runId = Some (newId D ''run'' m),
             a_detail = Some (JObj [(''kind'', JStr kind), (''summary'', JStr (p_summary planned))])\<rparr>)) (\<lambda>_.
        ret (newId D ''run'' m, snapshot D planned params findings now)))))) st'))"
    proof (cases answer)
      case (Inl e)
      then show ?thesis using base t by (simp add: bindM_liftE)
    next
      case (Inr findings)
      show ?thesis
        using ins [of "st'\<lparr>x_minted := x_minted st' + Suc (length (d_steps df params))\<rparr>"] t
        by (simp add: bindM_liftE Inr mint_def bindM_def [of "bindM _ _"])
    qed
  qed (use base in simp)
qed

section \<open>Streaming plans\<close>

lemma pres_recordOutcome: "pres (on_db I) rec \<Longrightarrow> pres (on_db I) (recordOutcome fid rid rec)"
  unfolding recordOutcome_def by (intro pres_seq) (auto intro: pres_catch)

lemma pres_stream_failed: "pres (on_db (tables_ok X Y)) (stream_failed fid rid e)"
proof -
  have "pres (on_db (tables_ok X Y)) (seqM [setDb (settle_run rid (if b then RCancelled else RFailed) err now), emitMeta fid rid l, setDb (writeAudit a)])"
    for b err now l a
    by (rule pres_seq) (auto simp: settled_status_def intro: pres_settle)
  then show ?thesis
    unfolding stream_failed_def Let_def by (intro pres_bind_gets pres_recordOutcome) blast
qed

lemma beginStreamingPlan_ok:
  assumes ok: "tables_ok X Y (x_db st)" and run: "beginStreamingPlan D owner kind raw st = (r, st')"
  shows "tables_ok X Y (x_db st') \<and> (\<forall>a. r \<noteq> Inr a) \<or>
    (\<exists>rid p. rid \<notin> fst ` X \<and> tables_ok (insert (rid, p) X) Y (x_db st') \<and> (\<forall>a. r = Inr a \<longrightarrow> fst a = rid))"
proof (cases "def_of D kind")
  case None
  with ok run show ?thesis by (auto simp: beginStreamingPlan_def)
next
  case (Some df)
  show ?thesis
  proof (cases "d_planStream df")
    case False
    with Some ok run show ?thesis by (auto simp: beginStreamingPlan_def)
  next
    case True
    let ?rid = "newId D ''run'' (x_minted st)"
    let ?r = "new_run ?rid kind ''cluster'' ?rid (params_of raw) None RPlanning owner (x_clock st)"
    show ?thesis
    proof (cases "insert_run ?r (x_db st)")
      case (Inl e)
      with Some True ok run show ?thesis by (auto simp: beginStreamingPlan_def mint_def bindM_def onDb_def Let_def)
    next
      case (Inr d1)
      note i = insert_run_ok [OF ok Inr, unfolded new_run_sel, simplified]
      define k where "k = bindM (setDb (writeAudit \<lparr>a_action = ''run.planning'', a_targetKind = Some ''cluster'', a_targetId = Some ?rid,
                      a_runId = Some ?rid, a_detail = Some (JObj [(''kind'', JStr kind)])\<rparr>)) (\<lambda>_.
             bindM (newFrame ?rid kind (params_of raw) PlanWork) (\<lambda>fid.
             catchM (bindM (emitMeta fid ?rid (''Validating the repository in the sandbox'' @ ellipsis)) (\<lambda>_. ret (?rid, Some fid)))
                    (\<lambda>e. bindM (stream_failed fid ?rid e) (\<lambda>_. ret (?rid, None)))))"
      have "pres (on_db (tables_ok X' Y)) k" for X'
        unfolding k_def by (intro pres_bind pres_catch pres_stream_failed) auto
      from presD [OF this, of "insert (?rid, None) X"] i(1)
      have t: "tables_ok (insert (?rid, None) X) Y (x_db (snd (k (st\<lparr>x_minted := x_minted st + 1, x_db := d1\<rparr>))))" by simp
      have eq: "beginStreamingPlan D owner kind raw st = k (st\<lparr>x_minted := x_minted st + 1, x_db := d1\<rparr>)"
        using Some True Inr by (simp add: beginStreamingPlan_def mint_def bindM_def onDb_def Let_def k_def)
      have "fst a = ?rid" if "k st1 = (Inr a, st2)" for st1 st2 a
        using that by (auto simp: k_def bindM_def catchM_def split: prod.splits sum.splits)
      then have "\<forall>a. r = Inr a \<longrightarrow> fst a = ?rid" using run unfolding eq by blast
      moreover have "tables_ok (insert (?rid, None) X) Y (x_db st')" using t run eq by (metis snd_conv)
      ultimately show ?thesis using i(2) by blast
    qed
  qed
qed

lemma moves_replan: "i \<notin> Y \<Longrightarrow> N \<subseteq> {i} \<Longrightarrow> fst ` X \<subseteq> fst ` X' \<Longrightarrow> (\<And>j p. (j, p) \<in> X \<Longrightarrow> j \<noteq> i \<Longrightarrow> (j, p) \<in> X') \<Longrightarrow> moves {i} X Y X' (N \<union> Y)"
  unfolding moves_def by blast

text \<open>A row that gets another plan and a status that is not active.\<close>

lemma replan_ok:
  assumes ok: "tables_ok X Y d" and i: "rid \<notin> Y"
    and g: "\<And>r. r_id (g r) = r_id r" "\<And>r. \<not> active_status (r_status (g r))"
    and q: "\<And>r. r_status (g r) \<in> {RPlanned, RQueued} \<Longrightarrow> \<exists>p. r_plan (g r) = Some (PlanSnap p)"
  shows "\<exists>X'. tables_ok X' Y (update_run rid g d) \<and> fst ` X' = fst ` X \<and> (\<forall>N \<subseteq> {rid}. moves {rid} X Y X' (N \<union> Y))"
proof -
  let ?d = "update_run rid g d"
  from ok have l: "locks_ok d" "queue_ok d" "claims_held d" "steps_owned d" by (simp_all add: tables_ok_def db_ok_def)
  have ids: "map r_id (runs ?d) = map r_id (runs d)" by (simp add: update_run_def map_update_where_id g)
  have fst_keys: "fst ` set (run_keys e) = r_id ` set (runs e)" for e by (force simp: run_keys_def)
  have fk: "fst ` set (run_keys ?d) = fst ` set (run_keys d)" unfolding fst_keys by (metis ids set_map)
  have "locks_ok ?d" using l(1) locks_ok_cong [of ?d d] by simp
  moreover have "queue_ok ?d"
    by (rule queue_ok_update_run [OF l(2) g(1)]) (use q g(2) in \<open>auto simp: active_status_def\<close>)
  moreover have "claims_held ?d"
    unfolding claims_held_def
  proof (intro ballI impI allI)
    fix r p assume "r \<in> set (runs ?d)" and a: "active_status (r_status r)" and p: "r_plan r = Some (PlanSnap p)"
    then obtain r0 where "r0 \<in> set (runs d)" "r = (if r_id r0 = rid then g r0 else r0)" by (auto simp: in_update_run)
    with a g(2) have "r \<in> set (runs d)" by (metis (full_types))
    with l(3) a p show "{r_id r} \<times> set (planClaims p) \<subseteq> held ?d" by (simp add: claims_held_def)
  qed
  moreover have "steps_owned ?d" using l(4) by (simp add: steps_owned_runs fk)
  ultimately have t: "tables_ok (set (run_keys ?d)) Y ?d" using ok by (simp add: tables_ok_def db_ok_def)
  have keep: "(j, p) \<in> X \<Longrightarrow> j \<noteq> rid \<Longrightarrow> (j, p) \<in> set (run_keys ?d)" for j p
  proof -
    assume "(j, p) \<in> X" and j: "j \<noteq> rid"
    then obtain r where r: "r \<in> set (runs d)" "j = r_id r" "p = r_plan r" using ok by (auto simp: tables_ok_def run_keys_def)
    with j have "r \<in> set (runs ?d)" unfolding in_update_run by (intro bexI [of _ r]) simp_all
    with r show "(j, p) \<in> set (run_keys ?d)" by (force simp: run_keys_def)
  qed
  have X: "fst ` X = fst ` set (run_keys d)" using ok by (simp add: tables_ok_def)
  from t show ?thesis
    by (intro exI [of _ "set (run_keys ?d)"]) (use moves_replan [OF i _ _ keep] X fk in auto)
qed

lemma settle_rejected_moved:
  assumes "tables_ok X Y d" and "rid \<notin> Y"
  shows "moved {rid} X Y (settle_rejected rid report summary now d)"
proof -
  have "\<exists>X'. tables_ok X' Y (settle_rejected rid report summary now d) \<and> fst ` X' = fst ` X \<and>
      (\<forall>N \<subseteq> {rid}. moves {rid} X Y X' (N \<union> Y))"
    unfolding settle_rejected_def by (rule replan_ok [OF assms]) simp_all
  then show ?thesis unfolding moved_def by (metis Un_empty_left empty_subsetI)
qed

lemma settle_planned_moved:
  assumes ok: "tables_ok X Y d" and i: "rid \<notin> Y" and own: "rid \<in> fst ` X"
    and run: "settle_planned rid planned params snap (new_steps rid gen impls) d = Inr d'"
  shows "moved {rid} X Y d'"
proof -
  let ?g = "\<lambda>r. r\<lparr>r_status := RPlanned, r_targetKind := p_targetKind planned, r_targetId := p_targetId planned,
    r_params := params, r_plan := Some (PlanSnap snap)\<rparr>"
  have "\<exists>X'. tables_ok X' Y (update_run rid ?g d) \<and> fst ` X' = fst ` X \<and> (\<forall>N \<subseteq> {rid}. moves {rid} X Y X' (N \<union> Y))"
    by (rule replan_ok [OF ok i]) simp_all
  then obtain X' where X': "tables_ok X' Y (update_run rid ?g d)" "fst ` X' = fst ` X"
    "\<forall>N \<subseteq> {rid}. moves {rid} X Y X' (N \<union> Y)" by blast
  have m: "moves {rid} X Y X' (s_runId ` set (new_steps rid gen impls) \<union> Y)"
    by (rule X'(3) [THEN spec, THEN mp]) (rule new_steps_run)
  have "tables_ok X' (s_runId ` set (new_steps rid gen impls) \<union> Y) d'"
  proof (rule insert_steps_ok [OF X'(1)])
    show "insert_steps (new_steps rid gen impls) (update_run rid ?g d) = Inr d'" using run by (simp add: settle_planned_def)
    show "s_runId ` set (new_steps rid gen impls) \<subseteq> fst ` X'" unfolding X'(2) using own new_steps_run by blast
  qed
  with m show ?thesis unfolding moved_def by blast
qed

lemma pres_moved_failed: "pres (on_db (moved C X Y)) (stream_failed fid rid e)"
  by (rule pres_moved) (rule pres_stream_failed)

lemma stream_planned_moved:
  assumes i: "rid \<notin> Y" and own: "rid \<in> fst ` X"
  shows "leads (on_db (tables_ok X Y)) (on_db (moved {rid} X Y)) (stream_planned D fid rid df raw planned)"
proof -
  let ?I = "on_db (tables_ok X Y)" and ?M = "on_db (moved {rid} X Y)"
  have base: "?M st" if "?I st" for st using moved_refl i that by simp
  have tail: "pres ?M (seqM [emitMeta fid rid l, setDb (writeAudit a), dropActive rid, dropFrame fid])" for l a
    by (rule pres_seq) auto
  have commit: "leads ?I ?M (onDb (settle_planned rid planned params snap (new_steps rid gen impls)))" for params snap gen impls
    using settle_planned_moved [OF _ i own] base by (auto simp: leads_def onDb_def split: sum.splits)
  have lines: "pres ?I (forM ls (emitMeta fid rid))" for ls by (rule pres_for) auto
  show ?thesis
    unfolding stream_planned_def Let_def split_beta
    by (intro leads_bind [where I = ?I] leads_gets leads_then [OF commit] tail lines base pres_when) auto
qed

lemma stream_ends_ok:
  assumes i: "rid \<notin> Y" and own: "rid \<in> fst ` X" and ok: "tables_ok X Y (x_db st)"
  shows "moved {rid} X Y (x_db (snd (stream_ends D fid rid kind result st)))"
proof -
  let ?I = "on_db (tables_ok X Y)" and ?M = "on_db (moved {rid} X Y)"
  have base: "?M st" if "?I st" for st using moved_refl i that by simp
  have reject: "leads ?I ?M (recordOutcome fid rid (seqM [setDb (settle_rejected rid report summary now), emitMeta fid rid l, setDb (writeAudit a)]))"
    for report summary now l a
  proof -
    have "leads ?I ?M (setDb (settle_rejected rid report summary now))"
      using settle_rejected_moved [OF _ i] by (simp add: leads_def setDb_def)
    moreover have "pres ?M (seqM [emitMeta fid rid l, setDb (writeAudit a)])" by (rule pres_seq) auto
    ultimately have "leads ?I ?M (seqM [setDb (settle_rejected rid report summary now), emitMeta fid rid l, setDb (writeAudit a)])"
      by (simp only: seqM.simps leads_then)
    then have "leads ?I ?M (catchM (seqM [setDb (settle_rejected rid report summary now), emitMeta fid rid l, setDb (writeAudit a)])
        (\<lambda>_. logLine LError (Some rid) t))" for t
      unfolding leads_def by (auto simp: catchM_def logLine_def split: prod.splits sum.splits simp del: seqM.simps)
    moreover have "pres ?M (seqM [dropActive rid, dropFrame fid])" by (rule pres_seq) auto
    ultimately show ?thesis unfolding recordOutcome_def by (simp only: seqM.simps leads_then)
  qed
  have "leads ?I ?M (case result of StreamThrew e \<Rightarrow> throwM e
       | StreamRejected report summary \<Rightarrow> bindM (gets x_clock) (\<lambda>now. recordOutcome fid rid (seqM [
             setDb (settle_rejected rid report summary now), emitMeta fid rid (g_fail @ '' '' @ summary),
             setDb (writeAudit (run_audit ''run.failed'' rid (Some (JObj [(''rejected'', JBool True)]))))]))
       | StreamPlanned raw planned \<Rightarrow> (case def_of D kind of None \<Rightarrow> throwM type_error
         | Some df \<Rightarrow> stream_planned D fid rid df raw planned))"
    using base reject stream_planned_moved [OF i own]
    by (cases result; cases "def_of D kind") (auto simp del: seqM.simps intro: leads_gets leads_pres)
  from leadsD [OF this ok] presD [OF pres_moved_failed] show ?thesis
    unfolding stream_ends_def catchM_def by (auto split: prod.splits sum.splits)
qed

end
