(* ===== verification/System.thy ===== *)
theory System
  imports Plan_Invariants
begin

text \<open>
  The executor as a whole: every call a route, a schedule or a step can make is an event, an operation that awaits leaves a
  pending continuation, a crash loses the process and keeps the tables. \<open>sys_do\<close> is one atomic segment; \<open>reachable\<close> is
  every interleaving of them.
\<close>

section \<open>Events\<close>

datatype pending =
    PPlan string string run_definition json plan
  | PApprove loaded_run "secret_values option" bool
  | PAbort abort_ticket
  | PStream nat run_id string

record system =
  y_exec :: exec
  y_pending :: "pending list"

datatype event =
    ETick nat
  | EPlan string string json
  | EApprove run_id "secret_values option" bool
  | EAbort run_id "secret_values option"
  | EStream string string json
  | EAnswer nat
  | EStreamAnswer nat stream_result
  | EStreamLine nat string
  | EDiscard run_id
  | EDelete run_id
  | ECancel run_id
  | ERetry run_id "string option" "secret_values option"
  | ESkip string run_id string string
  | EStepEnds nat "thrown option"
  | EStepLog nat output_stream string
  | ECheckpoint nat json
  | ERegisterCleanup nat string
  | EInventory nat inventory
  | EShutdown
  | EBoot

fun is_stream :: "pending \<Rightarrow> bool" where
  "is_stream (PStream _ _ _) = True"
| "is_stream _ = False"

definition drop_nth :: "nat \<Rightarrow> 'a list \<Rightarrow> 'a list" where
  "drop_nth i xs = take i xs @ drop (Suc i) xs"

definition run_act :: "'a act \<Rightarrow> system \<Rightarrow> system" where
  "run_act m s = s\<lparr>y_exec := snd (m (y_exec s))\<rparr>"

text \<open>What a step in flight does through its context; a frame without one is ignored.\<close>

definition with_step :: "nat \<Rightarrow> (frame \<Rightarrow> step_row \<Rightarrow> unit act) \<Rightarrow> system \<Rightarrow> system" where
  "with_step fid k s =
     (case get_frame (y_exec s) fid of
        None \<Rightarrow> s
      | Some f \<Rightarrow> (case f_work f of StepWork row title rest cu \<Rightarrow> run_act (k f row) s | _ \<Rightarrow> s))"

definition answer :: "executor_deps \<Rightarrow> pending \<Rightarrow> system \<Rightarrow> system" where
  "answer D p s =
     (case p of
        PPlan owner kind df params planned \<Rightarrow> run_act (plan_commit D owner kind df params planned) s
      | PApprove run secrets onlyIfFree \<Rightarrow> run_act (approve_resume D run secrets onlyIfFree) s
      | PAbort t \<Rightarrow> run_act (abort_commit D t) s
      | PStream fid rid kind \<Rightarrow> s)"

definition await :: "pending \<Rightarrow> system \<Rightarrow> system" where
  "await p s = s\<lparr>y_pending := y_pending s @ [p]\<rparr>"

fun sys_do :: "executor_deps \<Rightarrow> event \<Rightarrow> system \<Rightarrow> system" where
  "sys_do D (ETick n) s = run_act (modify (\<lambda>st. st\<lparr>x_clock := x_clock st + n\<rparr>)) s"
| "sys_do D (EPlan owner kind raw) s =
     (case plan_draft D kind raw (x_db (y_exec s)) of
        Inl _ \<Rightarrow> s
      | Inr (df, params, planned) \<Rightarrow> await (PPlan owner kind df params planned) s)"
| "sys_do D (EApprove rid secrets onlyIfFree) s =
     (case approve_check D rid secrets (y_exec s) of
        Inl _ \<Rightarrow> s
      | Inr run \<Rightarrow> await (PApprove run secrets onlyIfFree) s)"
| "sys_do D (EAbort rid secrets) s =
     (case abort_begin D rid secrets (y_exec s) of
        (Inr (Some t), st) \<Rightarrow> await (PAbort t) (s\<lparr>y_exec := st\<rparr>)
      | (_, st) \<Rightarrow> s\<lparr>y_exec := st\<rparr>)"
| "sys_do D (EStream owner kind raw) s =
     (case beginStreamingPlan D owner kind raw (y_exec s) of
        (Inr (rid, Some fid), st) \<Rightarrow> await (PStream fid rid kind) (s\<lparr>y_exec := st\<rparr>)
      | (_, st) \<Rightarrow> s\<lparr>y_exec := st\<rparr>)"
| "sys_do D (EAnswer i) s =
     (if i < length (y_pending s) \<and> \<not> is_stream (y_pending s ! i)
      then answer D (y_pending s ! i) (s\<lparr>y_pending := drop_nth i (y_pending s)\<rparr>) else s)"
| "sys_do D (EStreamAnswer i result) s =
     (if i < length (y_pending s)
      then (case y_pending s ! i of
              PStream fid rid kind \<Rightarrow> run_act (stream_ends D fid rid kind result) (s\<lparr>y_pending := drop_nth i (y_pending s)\<rparr>)
            | _ \<Rightarrow> s)
      else s)"
| "sys_do D (EStreamLine i text) s =
     (if i < length (y_pending s)
      then (case y_pending s ! i of PStream fid rid kind \<Rightarrow> run_act (emitMeta fid rid text) s | _ \<Rightarrow> s)
      else s)"
| "sys_do D (EDiscard rid) s = run_act (discard D rid) s"
| "sys_do D (EDelete rid) s = run_act (deleteRun D rid) s"
| "sys_do D (ECancel rid) s = run_act (cancel D rid) s"
| "sys_do D (ERetry rid stepName secrets) s = run_act (retryFromStep D rid stepName secrets) s"
| "sys_do D (ESkip actor rid stepName reason) s = run_act (skipStep D actor rid stepName reason) s"
| "sys_do D (EStepEnds fid thrown) s = run_act (stepEnds D fid thrown) s"
| "sys_do D (EStepLog fid stream text) s = with_step fid (\<lambda>f row. emit fid (f_run f) (Some (s_id row)) stream text) s"
| "sys_do D (ECheckpoint fid data) s = with_step fid (\<lambda>f row. checkpoint (f_run f) (s_name row) data) s"
| "sys_do D (ERegisterCleanup fid name) s = with_step fid (\<lambda>f row. setDb (appendCleanupName (f_run f) (s_name row) name)) s"
| "sys_do D (EInventory fid stock) s = with_step fid (\<lambda>f row. setDb (\<lambda>d. d\<lparr>inventory := stock\<rparr>)) s"
| "sys_do D EShutdown s = run_act shutdown s"
| "sys_do D EBoot s = (run_act (boot D) s)\<lparr>y_pending := []\<rparr>"

definition empty_db :: db where
  "empty_db = \<lparr>runs = [], steps = [], events = [], run_locks = [], audit = [], inventory = \<lparr>servers = [], inv_rest = JNull\<rparr>\<rparr>"

definition exec_on :: "db \<Rightarrow> exec" where
  "exec_on d = \<lparr>x_db = d, x_bus = [], x_log = [], x_secrets = [], x_registry = [], x_active = [], x_frames = [],
     x_nextFrame = 0, x_stopping = False, x_warned = [], x_clock = 0, x_minted = 0\<rparr>"

definition init_system :: system where
  "init_system = \<lparr>y_exec = exec_on empty_db, y_pending = []\<rparr>"

inductive reachable :: "executor_deps \<Rightarrow> system \<Rightarrow> bool" for D where
  reach_init: "reachable D init_system"
| reach_step: "reachable D s \<Longrightarrow> reachable D (sys_do D ev s)"

section \<open>The invariant\<close>

fun streams :: "pending list \<Rightarrow> run_id list" where
  "streams [] = []"
| "streams (PStream fid rid kind # ps) = rid # streams ps"
| "streams (_ # ps) = streams ps"

fun tickets :: "pending list \<Rightarrow> (run_id \<times> plan_json option) list" where
  "tickets [] = []"
| "tickets (PAbort t # ps) = (lr_id (ab_run t), lr_plan (ab_run t)) # tickets ps"
| "tickets (_ # ps) = tickets ps"

definition pending_ok :: "(run_id \<times> plan_json option) set \<Rightarrow> run_id set \<Rightarrow> pending list \<Rightarrow> bool" where
  "pending_ok X Y ps \<longleftrightarrow> distinct (streams ps) \<and> set (streams ps) \<subseteq> fst ` X \<and> set (streams ps) \<inter> Y = {} \<and>
     set (tickets ps) \<subseteq> X \<and> fst ` set (tickets ps) \<subseteq> Y"

definition sys_ok :: "system \<Rightarrow> bool" where
  "sys_ok s \<longleftrightarrow> (\<exists>X Y. tables_ok X Y (x_db (y_exec s)) \<and> pending_ok X Y (y_pending s))"

lemma streams_append [simp]: "streams (xs @ ys) = streams xs @ streams ys"
  by (induction xs rule: streams.induct) simp_all

lemma tickets_append [simp]: "tickets (xs @ ys) = tickets xs @ tickets ys"
  by (induction xs rule: tickets.induct) simp_all

lemma pending_split: "i < length ps \<Longrightarrow> ps = take i ps @ ps ! i # drop (Suc i) ps"
  by (rule id_take_nth_drop)

lemma pending_drop:
  assumes "pending_ok X Y ps" and "i < length ps"
  shows "pending_ok X Y (drop_nth i ps)"
proof -
  have "ps = take i ps @ [ps ! i] @ drop (Suc i) ps" using pending_split [OF assms(2)] by simp
  then have "streams ps = streams (take i ps) @ streams [ps ! i] @ streams (drop (Suc i) ps)"
    "tickets ps = tickets (take i ps) @ tickets [ps ! i] @ tickets (drop (Suc i) ps)"
    by (metis streams_append, metis tickets_append)
  with assms(1) show ?thesis unfolding pending_ok_def drop_nth_def by auto
qed

lemma pending_moves:
  assumes "pending_ok X Y ps" and "moves C X Y X' Y'" and "C \<inter> set (streams ps) = {}"
  shows "pending_ok X' Y' ps"
proof -
  from assms(2) have m: "C \<inter> Y = {}" "\<And>i p. (i, p) \<in> X \<Longrightarrow> i \<notin> C \<Longrightarrow> (i, p) \<in> X'" "fst ` X \<subseteq> fst ` X'" "Y \<subseteq> Y'" "Y' \<subseteq> Y \<union> C"
    by (auto simp: moves_def)
  have "set (tickets ps) \<subseteq> X'"
  proof
    fix t assume t: "t \<in> set (tickets ps)"
    with assms(1) m(1) have "t \<in> X" "fst t \<in> Y" "fst t \<notin> C" by (auto simp: pending_ok_def)
    with m(2) [of "fst t" "snd t"] show "t \<in> X'" by simp
  qed
  moreover have "fst ` set (tickets ps) \<subseteq> Y'" using assms(1) m(4) by (auto simp: pending_ok_def)
  moreover have "set (streams ps) \<subseteq> fst ` X'" using assms(1) m(3) by (auto simp: pending_ok_def)
  moreover have "set (streams ps) \<inter> Y' = {}" using assms(1,3) m(5) by (auto simp: pending_ok_def)
  ultimately show ?thesis using assms(1) by (simp add: pending_ok_def)
qed

lemma sys_okI: "tables_ok X Y (x_db (y_exec s)) \<Longrightarrow> pending_ok X Y (y_pending s) \<Longrightarrow> sys_ok s"
  unfolding sys_ok_def by blast

lemma run_act_ok:
  assumes "sys_ok s" and "\<And>X Y st. tables_ok X Y (x_db st) \<Longrightarrow> tables_ok X Y (x_db (snd (m st)))"
  shows "sys_ok (run_act m s)"
proof -
  from assms(1) obtain X Y where "tables_ok X Y (x_db (y_exec s))" "pending_ok X Y (y_pending s)" by (auto simp: sys_ok_def)
  with assms(2) show ?thesis by (intro sys_okI [of X Y]) (simp_all add: run_act_def)
qed

lemma run_act_pres:
  assumes "sys_ok s" and "\<And>X Y. pres (on_db (tables_ok X Y)) m"
  shows "sys_ok (run_act m s)"
  using assms(2) by (intro run_act_ok [OF assms(1)]) (simp add: pres_def)

lemma with_step_ok:
  assumes "sys_ok s" and "\<And>X Y f row. pres (on_db (tables_ok X Y)) (k f row)"
  shows "sys_ok (with_step fid k s)"
  using assms unfolding with_step_def by (auto intro: run_act_pres split: option.splits work.splits)

lemma await_ok:
  assumes "sys_ok s" and "streams [p] = []" and "tickets [p] = []"
  shows "sys_ok (await p s)"
  using assms unfolding sys_ok_def await_def pending_ok_def by auto

lemma core_writeCheckpoint: "same_core d (writeCheckpoint rid name cp d)"
  by (simp add: same_core_def writeCheckpoint_def step_keys_def step_key_def map_update_where_id)

lemma pres_checkpoint: "pres (on_db (tables_ok X Y)) (checkpoint rid name data)"
proof -
  have "pres (on_db (tables_ok X Y)) (setDb (\<lambda>d. writeCheckpoint rid name (g d) d))" for g
    by (rule pres_setDb) (blast intro: tables_ok_core core_writeCheckpoint)
  then show ?thesis unfolding checkpoint_def Let_def by (intro pres_bind_gets) simp
qed

lemma pres_appendCleanupName: "pres (on_db (tables_ok X Y)) (setDb (appendCleanupName rid stepName name))"
  unfolding appendCleanupName_def Let_def
  by (rule pres_setDb) (blast intro: tables_ok_core core_writeCheckpoint)

lemma answer_ok:
  assumes ok: "sys_ok s" and i: "i < length (y_pending s)" and p: "y_pending s ! i = p" and np: "\<not> is_stream p"
  shows "sys_ok (answer D p (s\<lparr>y_pending := drop_nth i (y_pending s)\<rparr>))"
proof -
  from ok obtain X Y where t: "tables_ok X Y (x_db (y_exec s))" and pe: "pending_ok X Y (y_pending s)" by (auto simp: sys_ok_def)
  let ?s = "s\<lparr>y_pending := drop_nth i (y_pending s)\<rparr>"
  have pd: "pending_ok X Y (y_pending ?s)" using pending_drop [OF pe i] by simp
  show ?thesis
  proof (cases p)
    case (PPlan owner kind df params planned)
    from plan_commit_ok [OF t, of D owner kind df params planned] obtain C X' Y' where C: "C \<inter> fst ` X = {}"
      "tables_ok X' Y' (x_db (snd (plan_commit D owner kind df params planned (y_exec s))))" "moves C X Y X' Y'"
      by (auto simp: moved_def)
    have "C \<inter> set (streams (y_pending ?s)) = {}" using C(1) pd by (auto simp: pending_ok_def)
    from pending_moves [OF pd C(3) this] C(2) show ?thesis
      by (intro sys_okI [of X' Y']) (simp_all add: PPlan answer_def run_act_def)
  next
    case (PApprove run secrets onlyIfFree)
    from approve_resume_ok [OF t] pd show ?thesis by (intro sys_okI [of X Y]) (simp_all add: PApprove answer_def run_act_def)
  next
    case (PAbort a)
    have "(lr_id (ab_run a), lr_plan (ab_run a)) \<in> set (tickets (y_pending s))"
      using pending_split [OF i] p PAbort by (metis tickets_append tickets.simps(2) in_set_conv_decomp)
    with pe have "(lr_id (ab_run a), lr_plan (ab_run a)) \<in> X" "lr_id (ab_run a) \<in> Y" by (auto simp: pending_ok_def)
    from abort_commit_ok [OF t this] pd show ?thesis by (intro sys_okI [of X Y]) (simp_all add: PAbort answer_def run_act_def)
  qed (use np in simp)
qed

lemma stream_answer_ok:
  assumes ok: "sys_ok s" and i: "i < length (y_pending s)" and p: "y_pending s ! i = PStream fid rid kind"
  shows "sys_ok (run_act (stream_ends D fid rid kind result) (s\<lparr>y_pending := drop_nth i (y_pending s)\<rparr>))"
proof -
  from ok obtain X Y where t: "tables_ok X Y (x_db (y_exec s))" and pe: "pending_ok X Y (y_pending s)" by (auto simp: sys_ok_def)
  let ?s = "s\<lparr>y_pending := drop_nth i (y_pending s)\<rparr>"
  have pd: "pending_ok X Y (y_pending ?s)" using pending_drop [OF pe i] by simp
  have "streams (y_pending s) = streams (take i (y_pending s)) @ rid # streams (drop (Suc i) (y_pending s))"
    using pending_split [OF i] p by (metis streams_append streams.simps(2))
  with pe have r: "rid \<notin> Y" "rid \<in> fst ` X" "rid \<notin> set (streams (y_pending ?s))"
    by (auto simp: pending_ok_def drop_nth_def)
  from stream_ends_ok [OF r(1,2) t] obtain X' Y' where "tables_ok X' Y' (x_db (snd (stream_ends D fid rid kind result (y_exec s))))"
    "moves {rid} X Y X' Y'" unfolding moved_def by blast
  with pending_moves [OF pd, of "{rid}"] r(3) show ?thesis by (intro sys_okI [of X' Y']) (simp_all add: run_act_def)
qed

lemma abort_event_ok:
  assumes ok: "sys_ok s"
  shows "sys_ok (sys_do D (EAbort rid secrets) s)"
proof -
  from ok obtain X Y where t: "tables_ok X Y (x_db (y_exec s))" and pe: "pending_ok X Y (y_pending s)" by (auto simp: sys_ok_def)
  obtain r st where run: "abort_begin D rid secrets (y_exec s) = (r, st)" by (cases "abort_begin D rid secrets (y_exec s)")
  note b = abort_begin_ok [OF t run]
  show ?thesis
  proof (cases "\<exists>a. r = Inr (Some a)")
    case True
    then obtain a where a: "r = Inr (Some a)" ..
    with b(2) pe have "pending_ok X Y (y_pending s @ [PAbort a])" by (auto simp: pending_ok_def)
    with b(1) run a show ?thesis by (intro sys_okI [of X Y]) (simp_all add: await_def)
  next
    case False
    with run have "sys_do D (EAbort rid secrets) s = s\<lparr>y_exec := st\<rparr>" by (auto split: sum.splits option.splits)
    with b(1) pe show ?thesis by (intro sys_okI [of X Y]) simp_all
  qed
qed

lemma stream_event_ok:
  assumes ok: "sys_ok s"
  shows "sys_ok (sys_do D (EStream owner kind raw) s)"
proof -
  from ok obtain X Y where t: "tables_ok X Y (x_db (y_exec s))" and pe: "pending_ok X Y (y_pending s)" by (auto simp: sys_ok_def)
  obtain r st where run: "beginStreamingPlan D owner kind raw (y_exec s) = (r, st)" by (cases "beginStreamingPlan D owner kind raw (y_exec s)")
  from beginStreamingPlan_ok [OF t run] show ?thesis
  proof
    assume a: "tables_ok X Y (x_db st) \<and> (\<forall>a. r \<noteq> Inr a)"
    then have "sys_do D (EStream owner kind raw) s = s\<lparr>y_exec := st\<rparr>" using run by (auto split: sum.splits)
    with a pe show ?thesis by (intro sys_okI [of X Y]) simp_all
  next
    assume "\<exists>rid p. rid \<notin> fst ` X \<and> tables_ok (insert (rid, p) X) Y (x_db st) \<and> (\<forall>a. r = Inr a \<longrightarrow> fst a = rid)"
    then obtain rid p where n: "rid \<notin> fst ` X" "tables_ok (insert (rid, p) X) Y (x_db st)" "\<forall>a. r = Inr a \<longrightarrow> fst a = rid" by blast
    have "Y \<subseteq> fst ` X" using t by (auto simp: tables_ok_def db_ok_def steps_owned_runs)
    with n(1) pe have p1: "pending_ok (insert (rid, p) X) Y (y_pending s)"
      and p2: "pending_ok (insert (rid, p) X) Y (y_pending s @ [PStream fid rid kind])" for fid
      by (auto simp: pending_ok_def)
    have "\<exists>q \<in> {y_pending s} \<union> (\<lambda>fid. y_pending s @ [PStream fid rid kind]) ` UNIV.
        sys_do D (EStream owner kind raw) s = s\<lparr>y_exec := st, y_pending := q\<rparr>"
      using run n(3) by (auto simp: await_def split: sum.splits option.splits prod.splits)
    with n(2) p1 p2 show ?thesis by (auto intro!: sys_okI [of "insert (rid, p) X" Y])
  qed
qed

lemmas event_rules = run_act_ok run_act_pres with_step_ok await_ok pres_modify_db deleteRun_ok retryFromStep_ok skipStep_ok
  pres_discard pres_cancel tables.stepEnds_keeps tables_log.pres_emit pres_checkpoint pres_appendCleanupName pres_setDb tables_log.inventory

lemma sys_do_ok:
  assumes ok: "sys_ok s"
  shows "sys_ok (sys_do D ev s)"
proof (cases ev)
  case (EAbort rid secrets)
  then show ?thesis using abort_event_ok [OF ok] by simp
next
  case (EStream owner kind raw)
  then show ?thesis using stream_event_ok [OF ok] by simp
next
  case (EAnswer i)
  then show ?thesis using answer_ok [OF ok _ refl] ok by simp
next
  case (EStreamAnswer i result)
  then show ?thesis using stream_answer_ok [OF ok] ok by (auto split: pending.splits)
next
  case (EStreamLine i l)
  then show ?thesis using ok by (auto split: pending.splits intro!: run_act_pres)
next
  case EBoot
  from ok obtain X Y where "tables_ok X Y (x_db (y_exec s))" by (auto simp: sys_ok_def)
  from boot_ok [OF this] show ?thesis by (intro sys_okI [of X Y]) (simp_all add: EBoot run_act_def pending_ok_def)
next
  case (ETick n)
  then show ?thesis using ok by (auto intro: event_rules)
next
  case (EPlan owner kind raw)
  then show ?thesis using ok by (auto intro: event_rules split: sum.splits)
next
  case (EApprove rid secrets onlyIfFree)
  then show ?thesis using ok by (auto intro: event_rules split: sum.splits)
next
  case EShutdown
  then show ?thesis using ok by (auto simp: shutdown_def intro: event_rules)
qed (use ok in \<open>auto intro: event_rules\<close>)

lemma sys_ok_init: "sys_ok init_system"
proof (rule sys_okI [of "{}" "{}"])
  show "tables_ok {} {} (x_db (y_exec init_system))"
    by (simp add: init_system_def exec_on_def empty_db_def tables_ok_def db_ok_def locks_ok_def held_def live_locks_def queue_ok_def
        claims_held_def steps_owned_def run_keys_def step_runs_def step_keys_def)
qed (simp add: init_system_def pending_ok_def)

lemma reachable_ok: "reachable D s \<Longrightarrow> sys_ok s"
  by (induction rule: reachable.induct) (simp_all add: sys_ok_init sys_do_ok)

lemma reachable_db_ok: "reachable D s \<Longrightarrow> db_ok (x_db (y_exec s))"
  by (drule reachable_ok) (auto simp: sys_ok_def tables_ok_def)

end
