(* ===== verification/Run_Properties.thy ===== *)
theory Run_Properties
  imports System
begin

text \<open>
  How a run goes on and ends (\<^verbatim>\<open>executor/executor.ts execute\<close>): which step starts, what a cancel, a shutdown, a failed
  step and the last step leave behind.

  The statements are about a frame that is ready: it exists, and its counter stands behind the stored events of its run,
  which is how \<^verbatim>\<open>new RunContext\<close> sets it.
\<close>

section \<open>What writing to the log leaves alone\<close>

text \<open>The state without what the log, the bus and the inventory hold and without the counters of the frames.\<close>

definition unlogged :: "frame \<Rightarrow> frame" where
  "unlogged f = f\<lparr>f_seq := 0\<rparr>"

definition quiet :: "exec \<Rightarrow> exec" where
  "quiet st = st\<lparr>x_db := (x_db st)\<lparr>events := [], inventory := inventory empty_db\<rparr>, x_bus := [], x_log := [],
     x_frames := map unlogged (x_frames st)\<rparr>"

lemma unlogged_simps [simp]:
  "f_id (unlogged f) = f_id f" "f_run (unlogged f) = f_run f" "f_kind (unlogged f) = f_kind f"
  "f_params (unlogged f) = f_params f" "f_secrets (unlogged f) = f_secrets f" "f_aborted (unlogged f) = f_aborted f"
  "f_work (unlogged f) = f_work f"
  by (simp_all add: unlogged_def)

lemma quiet_fields:
  assumes "quiet st' = quiet st"
  shows "runs (x_db st') = runs (x_db st)" and "steps (x_db st') = steps (x_db st)"
    and "run_locks (x_db st') = run_locks (x_db st)" and "audit (x_db st') = audit (x_db st)"
    and "x_secrets st' = x_secrets st" and "x_registry st' = x_registry st" and "x_active st' = x_active st"
    and "x_stopping st' = x_stopping st" and "x_clock st' = x_clock st" and "x_minted st' = x_minted st"
    and "map unlogged (x_frames st') = map unlogged (x_frames st)"
  using assms by (cases st; cases st'; cases "x_db st"; cases "x_db st'"; simp add: quiet_def)+

lemma find_map_key: "(\<And>x. key (h x) = key x) \<Longrightarrow>
    List.find (\<lambda>x. key x = a) (map h xs) = map_option h (List.find (\<lambda>x. key x = a) xs)"
  by (induction xs) auto

lemma get_frame_unlogged: "map_option unlogged (get_frame st fid) = List.find (\<lambda>f. f_id f = fid) (map unlogged (x_frames st))"
  by (simp add: get_frame_def find_map_key [of f_id unlogged])

lemma quiet_frame:
  "quiet st' = quiet st \<Longrightarrow> map_option unlogged (get_frame st' fid) = map_option unlogged (get_frame st fid)"
  by (drule quiet_fields(11)) (simp add: get_frame_unlogged)

lemma quiet_frame_Some:
  assumes "quiet st' = quiet st" and "get_frame st fid = Some f"
  obtains f' where "get_frame st' fid = Some f'" and "unlogged f' = unlogged f"
  using quiet_frame [OF assms(1), of fid] assms(2) by (cases "get_frame st' fid") auto

lemma quiet_seq_update: "quiet (st\<lparr>x_frames := update_where P (\<lambda>f. f\<lparr>f_seq := g f\<rparr>) (x_frames st)\<rparr>) = quiet st"
  by (simp add: quiet_def update_where_def comp_def unlogged_def if_distrib cong: if_cong)

lemma quiet_bus: "quiet (st\<lparr>x_bus := b\<rparr>) = quiet st"
  by (simp add: quiet_def)

lemma quiet_log: "quiet (st\<lparr>x_log := b\<rparr>) = quiet st"
  by (simp add: quiet_def)

lemma quiet_events: "quiet (st\<lparr>x_db := (x_db st)\<lparr>events := es\<rparr>\<rparr>) = quiet st"
  by (simp add: quiet_def)

lemma quiet_stock: "quiet (st\<lparr>x_db := (x_db st)\<lparr>inventory := i\<rparr>\<rparr>) = quiet st"
  by (simp add: quiet_def)

lemma keeps_quiet_line [simp]: "keeps quiet (emit_line fid rid sid stream raw)"
proof -
  have "keeps quiet (set_frame fid (\<lambda>f. f\<lparr>f_seq := Suc (f_seq f)\<rparr>))"
    by (simp add: keeps_def set_frame_def quiet_seq_update)
  moreover have "keeps quiet (onDb (insert_event e))" for e
    by (simp add: keeps_def onDb_def insert_event_def quiet_events)
  moreover have "keeps quiet (publish rid e)" for e
    by (simp add: keeps_def publish_def quiet_bus)
  ultimately show ?thesis
    unfolding emit_line_def Let_def by (intro keeps_bind keeps_gets keeps_seq) auto
qed

lemma keeps_quiet_emit [simp]: "keeps quiet (emit fid rid sid stream raw)" "keeps quiet (emitMeta fid rid raw)"
  by (auto simp: emit_def emitMeta_def)

lemma keeps_quiet_meta [simp]: "keeps quiet (appendRunMeta rid raw)"
  by (simp add: keeps_def appendRunMeta_run Let_def quiet_def)

lemma keeps_quiet_log [simp]: "keeps quiet (logLine lvl rid msg)"
  by (simp add: keeps_def logLine_def quiet_log)

lemma keeps_quiet_hook [simp]: "keeps quiet (callOnTerminal df rid params status)"
proof -
  have "keeps quiet (setDb (\<lambda>d. d\<lparr>inventory := i\<rparr>))" for i
    by (simp add: keeps_def setDb_def quiet_stock)
  then show ?thesis
    by (auto simp: callOnTerminal_def Let_def split_beta split: option.splits intro!: keeps_bind keeps_catch)
qed

section \<open>What a frame writes is taken\<close>

definition frame_ready :: "exec \<Rightarrow> nat \<Rightarrow> run_id \<Rightarrow> bool" where
  "frame_ready st fid rid \<longleftrightarrow> (case get_frame st fid of None \<Rightarrow> False | Some f \<Rightarrow> next_seq (x_db st) rid \<le> f_seq f)"

lemma next_seq_append:
  "next_seq (d\<lparr>events := es @ [e]\<rparr>) rid =
     (if e_runId e = rid then max (Suc (e_seq e)) (next_seq (d\<lparr>events := es\<rparr>) rid) else next_seq (d\<lparr>events := es\<rparr>) rid)"
proof -
  have "foldr (\<lambda>e n. if e_runId e = rid then max (Suc (e_seq e)) n else n) es (max a b) =
      max a (foldr (\<lambda>e n. if e_runId e = rid then max (Suc (e_seq e)) n else n) es b)" for a b :: nat
    by (induction es) (auto simp: max.left_commute)
  from this [of "Suc (e_seq e)" 0] show ?thesis by (auto simp: next_seq_def)
qed

lemma insert_event_fresh: "next_seq d (e_runId e) \<le> e_seq e \<Longrightarrow> insert_event e d = Inr (d\<lparr>events := events d @ [e]\<rparr>)"
  by (force simp: insert_event_def dest: next_seq_gt)

lemma get_set_frame:
  "(\<And>f. f_id (g f) = f_id f) \<Longrightarrow>
   get_frame (st\<lparr>x_frames := update_where (\<lambda>f. f_id f = fid) g (x_frames st)\<rparr>) fid = map_option g (get_frame st fid)"
proof -
  assume g: "\<And>f. f_id (g f) = f_id f"
  have "List.find (\<lambda>f. f_id f = fid) (update_where (\<lambda>f. f_id f = fid) g fs) = map_option g (List.find (\<lambda>f. f_id f = fid) fs)" for fs
    by (induction fs) (auto simp: update_where_def g)
  then show ?thesis by (simp add: get_frame_def)
qed

lemma emit_line_taken:
  assumes "frame_ready st fid rid"
  shows "fst (emit_line fid rid sid stream raw st) = Inr () \<and> frame_ready (snd (emit_line fid rid sid stream raw st)) fid rid"
proof -
  from assms obtain f where f: "get_frame st fid = Some f" "next_seq (x_db st) rid \<le> f_seq f"
    by (auto simp: frame_ready_def split: option.splits)
  let ?fs = "update_where (\<lambda>f. f_id f = fid) (\<lambda>f. f\<lparr>f_seq := Suc (f_seq f)\<rparr>) (x_frames st)"
  have g: "get_frame (st\<lparr>x_frames := ?fs\<rparr>) fid = Some (f\<lparr>f_seq := Suc (f_seq f)\<rparr>)"
    using get_set_frame [where g = "\<lambda>f. f\<lparr>f_seq := Suc (f_seq f)\<rparr>"] f by simp
  have x: "get_frame (s\<lparr>x_db := d\<rparr>) fid = get_frame s fid" "get_frame (s\<lparr>x_bus := b\<rparr>) fid = get_frame s fid" for s d b
    by (simp_all add: get_frame_def)
  from f(2) have "next_seq (x_db st) rid \<le> Suc (f_seq f)" by simp
  then show ?thesis
    using f g next_seq_append [where d = "x_db st" and es = "events (x_db st)" and rid = rid]
    by (cases "stream = Ephemeral")
       (simp_all add: emit_line_def f(1) Let_def bindM_def set_frame_def onDb_def publish_def insert_event_fresh frame_ready_def x)
qed

lemma seq_taken:
  "(\<And>m st. m \<in> set ms \<Longrightarrow> R st \<Longrightarrow> fst (m st) = Inr () \<and> R (snd (m st))) \<Longrightarrow> R st \<Longrightarrow>
   fst (seqM ms st) = Inr () \<and> R (snd (seqM ms st))"
proof (induction ms arbitrary: st)
  case (Cons m ms)
  from Cons.prems(1) [of m st] Cons.prems(2) obtain st' where m: "m st = (Inr (), st')" "R st'" by (cases "m st") auto
  from Cons.IH [of st'] Cons.prems(1) m(2) have "fst (seqM ms st') = Inr () \<and> R (snd (seqM ms st'))" by simp
  with m(1) show ?case by (simp add: bindM_def)
qed simp

lemma emit_taken:
  assumes "frame_ready st fid rid"
  shows "fst (emit fid rid sid stream raw st) = Inr () \<and> frame_ready (snd (emit fid rid sid stream raw st)) fid rid"
  unfolding emit_def forM_def using assms
  by (intro seq_taken [where R = "\<lambda>st. frame_ready st fid rid"]) (auto simp: emit_line_taken)

text \<open>One line for a frame that is ready: it is taken, and only the log and the counter change.\<close>

lemma emitMeta_run:
  assumes "frame_ready st fid rid"
  obtains st' where "emitMeta fid rid raw st = (Inr (), st')" and "quiet st' = quiet st" and "frame_ready st' fid rid"
  using emit_taken [OF assms, of None Meta raw] keepsD [OF keeps_quiet_emit(2) [of fid rid raw], of st]
  by (cases "emitMeta fid rid raw st") (auto simp: emitMeta_def)

lemma hook_returns: "fst (callOnTerminal df rid params status st) = Inr ()"
  by (auto simp: callOnTerminal_def Let_def split_beta setDb_def logLine_def catchM_def bindM_def
      split: option.splits prod.splits sum.splits)

lemma hook_run:
  obtains st' where "callOnTerminal df rid params status st = (Inr (), st')" and "quiet st' = quiet st"
  using hook_returns [of df rid params status st] keepsD [OF keeps_quiet_hook [of df rid params status], of st]
  by (cases "callOnTerminal df rid params status st") auto

section \<open>The walk over the rows\<close>

lemma walk_rows_first:
  "walk_rows df params fid rid cu rows = walk_rows df params fid rid cu (dropWhile is_done rows)"
  by (induction rows) auto

lemma frame_ready_core:
  "x_frames st' = x_frames st \<Longrightarrow> events (x_db st') = events (x_db st) \<Longrightarrow> frame_ready st' fid rid = frame_ready st fid rid"
  by (simp add: frame_ready_def get_frame_def next_seq_def split: option.split)

definition step_begun :: "nat \<Rightarrow> step_row \<Rightarrow> step_row" where
  "step_begun now s = s\<lparr>s_status := SRunning, s_startedAt := Some now\<rparr>"

lemma start_step_run:
  assumes ready: "frame_ready st fid rid" and can: "canStepTransition (s_status row) SRunning"
  shows "\<exists>st' f'. start_step fid rid row title rest cu st = (Inr (), st') \<and>
     get_frame st' fid = Some f' \<and> f_work f' = StepWork row title rest cu \<and>
     steps (x_db st') = update_where (\<lambda>s. s_id s = s_id row) (step_begun (x_clock st)) (steps (x_db st)) \<and>
     runs (x_db st') = runs (x_db st) \<and> run_locks (x_db st') = run_locks (x_db st)"
proof -
  let ?st1 = "st\<lparr>x_db := (x_db st)\<lparr>steps := update_where (\<lambda>s. s_id s = s_id row) (step_begun (x_clock st)) (steps (x_db st))\<rparr>\<rparr>"
  have db: "onDb (setStepStatus (s_id row) (s_status row) SRunning (\<lambda>s. s\<lparr>s_startedAt := Some (x_clock st)\<rparr>)) st = (Inr (), ?st1)"
    using can by (simp add: onDb_def setStepStatus_def assertStepTransition_def step_begun_def [abs_def])
  have "frame_ready ?st1 fid rid" using ready by (subst frame_ready_core [of _ st]) simp_all
  then obtain st2 where st2: "emitMeta fid rid (g_play @ '' '' @ title) ?st1 = (Inr (), st2)" "quiet st2 = quiet ?st1"
      "frame_ready st2 fid rid" by (rule emitMeta_run)
  let ?g = "\<lambda>f. f\<lparr>f_work := StepWork row title rest cu\<rparr>"
  let ?st3 = "st2\<lparr>x_frames := update_where (\<lambda>f. f_id f = fid) ?g (x_frames st2)\<rparr>"
  from st2(3) obtain f2 where f2: "get_frame st2 fid = Some f2" by (auto simp: frame_ready_def split: option.splits)
  have "get_frame ?st3 fid = Some (?g f2)" using get_set_frame [where g = ?g] f2 by simp
  moreover have "start_step fid rid row title rest cu st = (Inr (), ?st3)"
    by (simp add: start_step_def bindM_def db st2(1) [simplified] set_frame_def)
  ultimately show ?thesis using quiet_fields(1-3) [OF st2(2)] by simp
qed

section \<open>The ends of a run\<close>

lemma settle_run_frame [simp]:
  "steps (settle_run rid status err now d) = steps d" "run_locks (settle_run rid status err now d) = run_locks d"
  "events (settle_run rid status err now d) = events d"
  by (simp_all add: settle_run_def)

definition freed :: "bool \<Rightarrow> run_id \<Rightarrow> exec \<Rightarrow> db" where
  "freed release rid st = (if release then releaseLocks (x_clock st) rid (x_db st) else x_db st)"

lemma finishRun_run:
  assumes "get_frame st fid = Some f"
  shows "finishRun fid rid release st = (Inr (), st\<lparr>x_db := freed release rid st,
     x_registry := snd (secrets_wipe None (f_secrets f, x_registry st)),
     x_frames := filter (\<lambda>f. f_id f \<noteq> fid) (x_frames st), x_active := map_delete rid (x_active st),
     x_secrets := map_delete rid (x_secrets st)\<rparr>)"
  using assms by (cases release)
    (simp_all add: finishRun_def freed_def setDb_def wipeSecrets_def dropFrame_def dropActive_def forgetSecrets_def bindM_def)

lemma dropped_frame: "List.find (\<lambda>f. f_id f = fid) (filter (\<lambda>f. f_id f \<noteq> fid) fs) = None"
  by (auto simp: find_None_iff)

lemma map_of_delete: "map_of (map_delete k m) k = None"
  by (induction m) (auto simp: map_delete_def)

text \<open>What the four ends of a run share: the row, a line, the audit, the hook, and the frame taken down.\<close>

lemma run_end:
  assumes ready: "frame_ready st fid rid"
  shows "\<exists>st' f'. seqM [setDb (settle_run rid status err now), emitMeta fid rid line, setDb (writeAudit a),
       callOnTerminal df rid params status, finishRun fid rid release] st = (Inr (), st') \<and>
     unlogged f' = unlogged (the (get_frame st fid)) \<and>
     runs (x_db st') = runs (settle_run rid status err now (x_db st)) \<and> steps (x_db st') = steps (x_db st) \<and>
     run_locks (x_db st') = run_locks (freed release rid st) \<and>
     get_frame st' fid = None \<and> map_of (x_active st') rid = None \<and> map_of (x_secrets st') rid = None \<and>
     x_registry st' = snd (secrets_wipe None (f_secrets f', x_registry st))"
proof -
  let ?st1 = "st\<lparr>x_db := settle_run rid status err now (x_db st)\<rparr>"
  have 1: "setDb (settle_run rid status err now) st = (Inr (), ?st1)" by (simp add: setDb_def)
  have "frame_ready ?st1 fid rid" using ready by (subst frame_ready_core [of _ st]) (simp_all add: settle_run_def)
  then obtain st2 where 2: "emitMeta fid rid line ?st1 = (Inr (), st2)" "quiet st2 = quiet ?st1" by (rule emitMeta_run)
  let ?st3 = "st2\<lparr>x_db := writeAudit a (x_db st2)\<rparr>"
  have 3: "setDb (writeAudit a) st2 = (Inr (), ?st3)" by (simp add: setDb_def)
  obtain st4 where 4: "callOnTerminal df rid params status ?st3 = (Inr (), st4)" "quiet st4 = quiet ?st3" by (rule hook_run)
  from ready obtain f where "get_frame st fid = Some f" by (auto simp: frame_ready_def split: option.splits)
  then have "get_frame ?st1 fid = Some f" by (simp add: get_frame_def)
  from quiet_frame_Some [OF 2(2) this] obtain f2 where f2: "get_frame st2 fid = Some f2" "unlogged f2 = unlogged f" .
  then have "get_frame ?st3 fid = Some f2" by (simp add: get_frame_def)
  from quiet_frame_Some [OF 4(2) this] obtain f4 where f4: "get_frame st4 fid = Some f4" "unlogged f4 = unlogged f2" .
  note q = quiet_fields [OF 2(2)] quiet_fields [OF 4(2)]
  show ?thesis
    using f2(2) f4(2) \<open>get_frame st fid = Some f\<close> q
    by (intro exI [of _ "snd (finishRun fid rid release st4)"] exI [of _ f4])
       (simp add: bindM_def 1 2(1) 3 4(1) finishRun_run [OF f4(1)] get_frame_def dropped_frame map_of_delete
          freed_def releaseLocks_def)
qed

lemma get_run_settle:
  "get_run (settle_run rid status err now d) r' =
     (if r' = rid then map_option (\<lambda>r. r\<lparr>r_status := status, r_finishedAt := Some now,
        r_error := (case err of None \<Rightarrow> r_error r | Some e \<Rightarrow> Some e)\<rparr>) (get_run d rid) else get_run d r')"
  by (simp add: settle_run_def get_run_update_run)

lemma get_run_cong: "runs d = runs d' \<Longrightarrow> get_run d = get_run d'"
  by (rule ext) (simp add: get_run_def)

text \<open>
  A cancel stops a run between two steps. When the walk reaches a row that is not done and the run was cancelled, no
  step starts and no step row changes: the run reads \<open>cancelled\<close>, every other run is left alone, the run keeps every lock,
  and its frame and its secrets are gone from the process.
\<close>

lemma cancel_stops_the_walk:
  assumes "frame_ready st fid rid" and "get_frame st fid = Some f" and "f_aborted f"
    and "row \<in> set rows" and "\<not> is_done row"
  shows "\<exists>st'. walk_rows df params fid rid cu rows st = (Inr True, st') \<and>
     steps (x_db st') = steps (x_db st) \<and> run_locks (x_db st') = run_locks (x_db st) \<and>
     (\<forall>r. get_run (x_db st') r = (if r = rid
        then map_option (\<lambda>r. r\<lparr>r_status := RCancelled, r_finishedAt := Some (x_clock st)\<rparr>) (get_run (x_db st) rid)
        else get_run (x_db st) r)) \<and>
     get_frame st' fid = None \<and> map_of (x_active st') rid = None \<and> map_of (x_secrets st') rid = None"
proof -
  from assms(4,5) obtain x xs where rows: "dropWhile is_done rows = x # xs" "\<not> is_done x"
    by (metis dropWhile_eq_Nil_conv hd_dropWhile list.collapse)
  from run_end [OF assms(1), of RCancelled None "x_clock st" "g_cancel @ '' cancelled before: '' @ s_title x"
      "run_audit ''run.cancelled'' rid (Some (JObj [(''beforeStep'', JStr (s_name x))]))" "Some df" params False]
  obtain st' where st': "cancel_before df params fid rid x st = (Inr (), st')"
    "runs (x_db st') = runs (settle_run rid RCancelled None (x_clock st) (x_db st))" "steps (x_db st') = steps (x_db st)"
    "run_locks (x_db st') = run_locks (x_db st)"
    "get_frame st' fid = None" "map_of (x_active st') rid = None" "map_of (x_secrets st') rid = None"
    by (auto simp: cancel_before_def freed_def)
  have "frame_aborted st fid" using assms(2,3) by (simp add: frame_aborted_def)
  then have "walk_rows df params fid rid cu rows st = (Inr True, st')"
    using st'(1) rows by (subst walk_rows_first) (simp add: bindM_def)
  with st' get_run_cong [OF st'(2)] show ?thesis by (auto simp: get_run_settle)
qed

text \<open>
  A shutdown pauses a run, it never ends one. When the walk reaches a row that is not done while the Manager stops, and
  the run was not cancelled, the run's row, its steps and its locks are exactly as they were, so the next Manager finds the
  run \<open>running\<close> where it stood; the process forgets the run and its secrets.
\<close>

lemma shutdown_pauses_the_walk:
  assumes "frame_ready st fid rid" and "get_frame st fid = Some f" and "\<not> f_aborted f" and "x_stopping st"
    and "row \<in> set rows" and "\<not> is_done row"
  shows "\<exists>st'. walk_rows df params fid rid cu rows st = (Inr False, st') \<and>
     runs (x_db st') = runs (x_db st) \<and> steps (x_db st') = steps (x_db st) \<and>
     run_locks (x_db st') = run_locks (x_db st) \<and>
     get_frame st' fid = None \<and> map_of (x_active st') rid = None \<and> map_of (x_secrets st') rid = None \<and>
     x_registry st' = unregisterScope (rs_scope (f_secrets f)) (x_registry st)"
proof -
  from assms(5,6) obtain x xs where rows: "dropWhile is_done rows = x # xs" "\<not> is_done x"
    by (metis dropWhile_eq_Nil_conv hd_dropWhile list.collapse)
  from emitMeta_run [OF assms(1)] obtain st1 where st1:
    "emitMeta fid rid (pause_line (secrets_size (f_secrets f) > 0) x) st = (Inr (), st1)" "quiet st1 = quiet st" .
  have "frame_aborted st fid = False" using assms(2,3) by (simp add: frame_aborted_def)
  then show ?thesis
    using rows assms(2,4) quiet_fields [OF st1(2)]
    by (subst walk_rows_first)
       (simp add: bindM_def Let_def pause_before_def st1(1) wipeSecrets_def dropFrame_def dropActive_def forgetSecrets_def
          get_frame_def dropped_frame map_of_delete secrets_wipe_def)
qed

text \<open>
  C19 Steps run one at a time and in order. When nothing stops the run, the walk puts exactly one step in flight: the first row
  that is neither ok nor skipped. That row alone changes, to \<open>running\<close>, and what the frame still has to walk are the rows
  behind it; the runs and the locks stay as they are.
\<close>

theorem walk_starts_the_first_open_step:
  assumes "frame_ready st fid rid" and "get_frame st fid = Some f" and "\<not> f_aborted f" and "\<not> x_stopping st"
    and "rows = done_rows @ row # rest" and "list_all is_done done_rows" and "\<not> is_done row"
    and "s_status row \<noteq> SRunning" and "impl_titles df params (s_name row) = Some title"
  shows "\<exists>st' f'. walk_rows df params fid rid cu rows st = (Inr False, st') \<and>
     get_frame st' fid = Some f' \<and> f_work f' = StepWork row title rest cu \<and>
     steps (x_db st') = update_where (\<lambda>s. s_id s = s_id row)
       (\<lambda>s. s\<lparr>s_status := SRunning, s_startedAt := Some (x_clock st)\<rparr>) (steps (x_db st)) \<and>
     runs (x_db st') = runs (x_db st) \<and> run_locks (x_db st') = run_locks (x_db st)"
proof -
  have rows: "dropWhile is_done rows = row # rest"
    using assms(5-7) by (auto simp: dropWhile_append list_all_iff)
  have "canStepTransition (s_status row) SRunning"
    using assms(7,8) by (cases "s_status row") (simp_all add: is_done_def canStepTransition_def)
  from start_step_run [OF assms(1) this, of title rest cu] obtain st' f' where st':
    "start_step fid rid row title rest cu st = (Inr (), st')" "get_frame st' fid = Some f'"
    "f_work f' = StepWork row title rest cu"
    "steps (x_db st') = update_where (\<lambda>s. s_id s = s_id row) (step_begun (x_clock st)) (steps (x_db st))"
    "runs (x_db st') = runs (x_db st)" "run_locks (x_db st') = run_locks (x_db st)" by blast
  have "frame_aborted st fid = False" using assms(2,3) by (simp add: frame_aborted_def)
  then have "walk_rows df params fid rid cu rows st = (Inr False, st')"
    using assms(4,7,9) st'(1) by (subst walk_rows_first) (simp add: rows bindM_def)
  with st' show ?thesis by (auto simp: step_begun_def [abs_def])
qed

text \<open>
  C21 A run whose rows are all done ends and gives everything back: it reads \<open>succeeded\<close>, or \<open>cancelled\<close> when it was a
  cleanup run, it holds no lock any more while every other run holds what it held, and no other run's row changes.
\<close>

theorem completion_releases_the_locks:
  assumes "frame_ready st fid rid" and "list_all is_done rows"
  shows "\<exists>st'. walk_rows df params fid rid cu rows st = (Inr True, st') \<and>
     steps (x_db st') = steps (x_db st) \<and>
     held (x_db st') = {p \<in> held (x_db st). fst p \<noteq> rid} \<and>
     (\<forall>r. get_run (x_db st') r = (if r = rid
        then map_option (\<lambda>r. r\<lparr>r_status := (if cu then RCancelled else RSucceeded), r_finishedAt := Some (x_clock st)\<rparr>)
               (get_run (x_db st) rid)
        else get_run (x_db st) r)) \<and>
     get_frame st' fid = None \<and> map_of (x_active st') rid = None \<and> map_of (x_secrets st') rid = None"
proof -
  have rows: "dropWhile is_done rows = []" using assms(2) by (simp add: dropWhile_eq_Nil_conv list_all_iff)
  from run_end [OF assms(1), of "final_status cu" None "x_clock st"
      "if cu then ''Run cancelled '' @ em_dash @ '' cleanup complete'' else ''Run succeeded''"
      "run_audit (if cu then ''run.cancelled'' else ''run.succeeded'') rid (if cu then Some (JObj [(''cleanedUp'', JBool True)]) else None)"
      "Some df" params True]
  obtain st' where st': "complete_run df params fid rid cu st = (Inr (), st')"
    "runs (x_db st') = runs (settle_run rid (final_status cu) None (x_clock st) (x_db st))" "steps (x_db st') = steps (x_db st)"
    "run_locks (x_db st') = run_locks (releaseLocks (x_clock st) rid (x_db st))"
    "get_frame st' fid = None" "map_of (x_active st') rid = None" "map_of (x_secrets st') rid = None"
    by (auto simp: complete_run_def freed_def)
  have "held (x_db st') = held (releaseLocks (x_clock st) rid (x_db st))"
    using st'(4) by (simp add: held_def live_locks_def)
  moreover have "walk_rows df params fid rid cu rows st = (Inr True, st')"
    using st'(1) by (subst walk_rows_first) (simp add: rows bindM_def)
  ultimately show ?thesis
    using st' get_run_cong [OF st'(2)] by (auto simp: held_release get_run_settle final_status_def)
qed

section \<open>A step that fails\<close>

definition step_failed :: "string \<Rightarrow> nat \<Rightarrow> step_row \<Rightarrow> step_row" where
  "step_failed msg now s = s\<lparr>s_status := SFailed, s_error := Some msg, s_finishedAt := Some now\<rparr>"

definition failure_text :: "exec \<Rightarrow> bool \<Rightarrow> thrown \<Rightarrow> string" where
  "failure_text st aborted err =
     (if aborted \<and> \<not> is_abort_error err
      then ''interrupted by a cancel while this step ran '' @ em_dash @ '' it answered afterwards: '' @ redact (x_registry st) (thrown_message err)
      else redact (x_registry st) (thrown_message err))"

lemma emit_run:
  assumes "frame_ready st fid rid"
  obtains st' where "emit fid rid sid stream raw st = (Inr (), st')" and "quiet st' = quiet st" and "frame_ready st' fid rid"
  using emit_taken [OF assms, of sid stream raw] keepsD [OF keeps_quiet_emit(1) [of fid rid sid stream raw], of st]
  by (cases "emit fid rid sid stream raw st") auto

lemma fail_step_run:
  fixes f st err
  defines "aborted \<equiv> f_aborted f \<or> is_abort_error err"
  assumes ready: "frame_ready st (f_id f) (f_run f)" and fr: "get_frame st (f_id f) = Some f"
  shows "\<exists>st'. fail_step df f row title err st = (Inr (), st') \<and>
     steps (x_db st') = update_where (\<lambda>s. s_id s = s_id row) (step_failed (failure_text st aborted err) (x_clock st)) (steps (x_db st)) \<and>
     run_locks (x_db st') = run_locks (x_db st) \<and>
     runs (x_db st') = runs (settle_run (f_run f) (if aborted then RCancelled else RFailed) (Some (failure_text st aborted err)) (x_clock st) (x_db st)) \<and>
     get_frame st' (f_id f) = None \<and> map_of (x_active st') (f_run f) = None \<and> map_of (x_secrets st') (f_run f) = None"
proof -
  let ?rid = "f_run f" and ?fid = "f_id f"
  let ?msg = "failure_text st aborted err" and ?status = "if aborted then RCancelled else RFailed"
  let ?d1 = "settle_run ?rid ?status (Some ?msg) (x_clock st) ((x_db st)\<lparr>steps := update_where (\<lambda>s. s_id s = s_id row)
      (step_failed ?msg (x_clock st)) (steps (x_db st))\<rparr>)"
  let ?st1 = "st\<lparr>x_db := ?d1\<rparr>"
  have ab: "(frame_aborted st ?fid \<or> is_abort_error err) = aborted" using fr by (simp add: aborted_def frame_aborted_def)
  have msg: "(if aborted \<and> \<not> is_abort_error err
      then ''interrupted by a cancel while this step ran '' @ em_dash @ '' it answered afterwards: '' @ redact (x_registry st) (thrown_message err)
      else redact (x_registry st) (thrown_message err)) = ?msg" by (simp add: failure_text_def)
  have 1: "onDb (\<lambda>d. (case setStepStatus (s_id row) SRunning SFailed (\<lambda>s. s\<lparr>s_error := Some ?msg, s_finishedAt := Some (x_clock st)\<rparr>) d of
      Inl e \<Rightarrow> Inl e | Inr d' \<Rightarrow> Inr (settle_run ?rid ?status (Some ?msg) (x_clock st) d'))) st = (Inr (), ?st1)"
    by (simp add: onDb_def setStepStatus_def assertStepTransition_def canStepTransition_def step_failed_def [abs_def])
  have "frame_ready ?st1 ?fid ?rid" using ready by (subst frame_ready_core [of _ st]) simp_all
  then obtain st2 where 2: "emit ?fid ?rid (Some (s_id row)) Stderr (g_fail @ '' '' @ ?msg) ?st1 = (Inr (), st2)"
      "quiet st2 = quiet ?st1" "frame_ready st2 ?fid ?rid" by (rule emit_run)
  from 2(3) obtain st3 where 3: "emitMeta ?fid ?rid ((if aborted then g_cancel @ '' cancelled during: '' else g_fail @ '' failed: '') @ title) st2 = (Inr (), st3)"
      "quiet st3 = quiet st2" "frame_ready st3 ?fid ?rid" by (rule emitMeta_run)
  let ?a = "run_audit (if aborted then ''run.cancelled'' else ''run.failed'') ?rid (Some (JObj [(''failedStep'', JStr (s_name row))]))"
  let ?st4 = "st3\<lparr>x_db := writeAudit ?a (x_db st3)\<rparr>"
  have 4: "setDb (writeAudit ?a) st3 = (Inr (), ?st4)" by (simp add: setDb_def)
  obtain st5 where 5: "whenM (\<not> aborted) (logLine LError (Some ?rid) ''run failed'') ?st4 = (Inr (), st5)" "quiet st5 = quiet ?st4"
    by (cases aborted) (auto simp: logLine_def quiet_log)
  obtain st6 where 6: "callOnTerminal df ?rid (f_params f) ?status st5 = (Inr (), st6)" "quiet st6 = quiet st5" by (rule hook_run)
  have "get_frame ?st1 ?fid = Some f" using fr by (simp add: get_frame_def)
  from quiet_frame_Some [OF 2(2) this] obtain f2 where f2: "get_frame st2 ?fid = Some f2" .
  from quiet_frame_Some [OF 3(2) this] obtain f3 where "get_frame st3 ?fid = Some f3" .
  then have "get_frame ?st4 ?fid = Some f3" by (simp add: get_frame_def)
  from quiet_frame_Some [OF 5(2) this] obtain f5 where "get_frame st5 ?fid = Some f5" .
  from quiet_frame_Some [OF 6(2) this] obtain f6 where f6: "get_frame st6 ?fid = Some f6" .
  have run: "fail_step df f row title err st = (Inr (), snd (finishRun ?fid ?rid False st6))"
    unfolding fail_step_def Let_def bindM_gets ab msg
    by (simp add: bindM_def 1 2(1) 3(1) 4 5(1) 6(1) finishRun_run [OF f6] del: append.simps append_Cons whenM_simps)
  show ?thesis
    unfolding run using quiet_fields [OF 2(2)] quiet_fields [OF 3(2)] quiet_fields [OF 5(2)] quiet_fields [OF 6(2)]
    by (simp add: finishRun_run [OF f6] freed_def get_frame_def dropped_frame map_of_delete settle_run_def update_run_def)
qed

text \<open>
  C20 A step that throws ends its run and nothing else. Its row alone changes, to \<open>failed\<close> with a redacted reason; the run
  reads \<open>failed\<close>, or \<open>cancelled\<close> when it was cancelled while the step ran; the run keeps every lock, so no other run starts
  on what it left half done; and the process forgets the run and its secrets.
\<close>

theorem failed_step_keeps_the_locks:
  fixes f st err
  defines "aborted \<equiv> f_aborted f \<or> is_abort_error err"
  assumes "frame_ready st fid (f_run f)" and "get_frame st fid = Some f" and "f_work f = StepWork row title rest cu"
  shows "\<exists>st' msg. step_ends D fid (Some err) st = (Inr True, st') \<and>
     msg = failure_text st aborted err \<and>
     steps (x_db st') = update_where (\<lambda>s. s_id s = s_id row)
       (\<lambda>s. s\<lparr>s_status := SFailed, s_error := Some msg, s_finishedAt := Some (x_clock st)\<rparr>) (steps (x_db st)) \<and>
     run_locks (x_db st') = run_locks (x_db st) \<and>
     (\<forall>r. get_run (x_db st') r = (if r = f_run f
        then map_option (\<lambda>r. r\<lparr>r_status := (if aborted then RCancelled else RFailed), r_finishedAt := Some (x_clock st),
               r_error := Some msg\<rparr>) (get_run (x_db st) (f_run f))
        else get_run (x_db st) r)) \<and>
     get_frame st' fid = None \<and> map_of (x_active st') (f_run f) = None \<and> map_of (x_secrets st') (f_run f) = None"
proof -
  have fid: "f_id f = fid" using assms(3) by (auto simp: get_frame_def dest: find_Some_in)
  from fail_step_run [of st f "def_of D (f_kind f)" row title err] assms(2,3)
  obtain st' where st': "fail_step (def_of D (f_kind f)) f row title err st = (Inr (), st')"
    "steps (x_db st') = update_where (\<lambda>s. s_id s = s_id row) (step_failed (failure_text st aborted err) (x_clock st)) (steps (x_db st))"
    "run_locks (x_db st') = run_locks (x_db st)"
    "runs (x_db st') = runs (settle_run (f_run f) (if aborted then RCancelled else RFailed) (Some (failure_text st aborted err)) (x_clock st) (x_db st))"
    "get_frame st' fid = None" "map_of (x_active st') (f_run f) = None" "map_of (x_secrets st') (f_run f) = None"
    by (auto simp: fid aborted_def)
  have "step_ends D fid (Some err) st = (Inr True, st')"
    using st'(1) by (simp add: step_ends_def assms(3,4) after_step_def Let_def catchM_def bindM_def)
  with st' get_run_cong [OF st'(4)] show ?thesis
    by (auto simp: get_run_settle step_failed_def [abs_def])
qed

section \<open>A run in flight, for the witnesses\<close>

definition demo_step :: "string \<Rightarrow> nat \<Rightarrow> step_status \<Rightarrow> step_row" where
  "demo_step name i status = \<lparr>s_id = ''step_'' @ name, s_runId = ''run_1'', s_ordinal = i, s_name = name, s_title = name,
     s_status = status, s_startedAt = None, s_finishedAt = None, s_checkpoint = None, s_skipReason = None, s_error = None\<rparr>"

definition demo_db :: "step_row list \<Rightarrow> db" where
  "demo_db rows = \<lparr>runs = [\<lparr>r_id = ''run_1'', r_kind = ''k'', r_targetKind = ''server'', r_targetId = ''srv_1'', r_params = JObj [],
       r_plan = None, r_status = RRunning, r_approvedAt = Some 1, r_startedAt = Some 1, r_finishedAt = None, r_error = None,
       r_owner = ''op_1'', r_creation = 1, r_deleted = None\<rparr>],
     steps = rows, events = [], run_locks = [\<lparr>l_resource = LServer, l_key = ''srv_1'', l_runId = ''run_1'', l_creation = 1, l_deleted = None\<rparr>],
     audit = [], inventory = \<lparr>servers = [], inv_rest = JNull\<rparr>\<rparr>"

definition demo_frame :: "bool \<Rightarrow> work \<Rightarrow> frame" where
  "demo_frame aborted w = \<lparr>f_id = 4, f_run = ''run_1'', f_kind = ''k'', f_params = JObj [],
     f_secrets = \<lparr>rs_scope = ''run_1'', rs_map = [(''pw'', ''hunter22'')]\<rparr>, f_aborted = aborted, f_seq = 2, f_work = w\<rparr>"

definition demo_exec :: "step_row list \<Rightarrow> bool \<Rightarrow> bool \<Rightarrow> work \<Rightarrow> exec" where
  "demo_exec rows aborted stopping w = (exec_on (demo_db rows))\<lparr>x_frames := [demo_frame aborted w], x_active := [(''run_1'', 4)],
     x_nextFrame := 5, x_stopping := stopping, x_clock := 9,
     x_secrets := [(''run_1'', f_secrets (demo_frame aborted w))], x_registry := [(''run_1'', [''hunter22''])]\<rparr>"

definition demo_def :: run_definition where
  "demo_def = \<lparr>d_kind = ''k'', d_parse = Inr, d_mutating = False, d_plan = (\<lambda>_ _. Inl type_error), d_planStream = False,
     d_steps = (\<lambda>_. [\<lparr>si_name = ''a'', si_title = ''a'', si_probe = None\<rparr>, \<lparr>si_name = ''b'', si_title = ''b'', si_probe = None\<rparr>]),
     d_cleanups = None, d_assertAbortable = None, d_assertApprovable = None, d_onTerminal = None\<rparr>"

lemmas demo_defs = demo_step_def demo_db_def demo_frame_def demo_exec_def demo_def_def exec_on_def frame_ready_def get_frame_def
  next_seq_def is_done_def impl_titles_def cleanups_of_def

lemma cancel_stops_the_walk_instance:
  "\<exists>st'. walk_rows demo_def (JObj []) 4 ''run_1'' False [demo_step ''a'' 0 SOk, demo_step ''b'' 1 SPending]
       (demo_exec [demo_step ''a'' 0 SOk, demo_step ''b'' 1 SPending] True False Prologue) = (Inr True, st') \<and>
     map_option r_status (get_run (x_db st') ''run_1'') = Some RCancelled"
  using cancel_stops_the_walk [of "demo_exec [demo_step ''a'' 0 SOk, demo_step ''b'' 1 SPending] True False Prologue" 4 "''run_1''"
      "demo_frame True Prologue" "demo_step ''b'' 1 SPending" "[demo_step ''a'' 0 SOk, demo_step ''b'' 1 SPending]" demo_def "JObj []" False]
  by (force simp: demo_defs get_run_def)

theorem walk_starts_the_first_open_step_witness:
  "\<exists>st' f'. walk_rows demo_def (JObj []) 4 ''run_1'' False [demo_step ''a'' 0 SOk, demo_step ''b'' 1 SPending]
       (demo_exec [demo_step ''a'' 0 SOk, demo_step ''b'' 1 SPending] False False Prologue) = (Inr False, st') \<and>
     get_frame st' 4 = Some f' \<and> f_work f' = StepWork (demo_step ''b'' 1 SPending) ''b'' [] False"
  using walk_starts_the_first_open_step [of "demo_exec [demo_step ''a'' 0 SOk, demo_step ''b'' 1 SPending] False False Prologue" 4 "''run_1''"
      "demo_frame False Prologue" "[demo_step ''a'' 0 SOk, demo_step ''b'' 1 SPending]" "[demo_step ''a'' 0 SOk]" "demo_step ''b'' 1 SPending" "[]"
      demo_def "JObj []" "''b''" False]
  by (force simp: demo_defs)

theorem completion_releases_the_locks_witness:
  "\<exists>st'. walk_rows demo_def (JObj []) 4 ''run_1'' False [demo_step ''a'' 0 SOk]
       (demo_exec [demo_step ''a'' 0 SOk] False False Prologue) = (Inr True, st') \<and> held (x_db st') = {}"
proof -
  let ?st = "demo_exec [demo_step ''a'' 0 SOk] False False Prologue"
  have h: "frame_ready ?st 4 ''run_1''" "list_all is_done [demo_step ''a'' 0 SOk]" by (simp_all add: demo_defs)
  have "{p \<in> held (x_db ?st). fst p \<noteq> ''run_1''} = {}" by (auto simp: demo_defs held_def live_locks_def)
  with completion_releases_the_locks [OF h, of demo_def "JObj []" False] show ?thesis by (elim exE conjE) metis
qed

theorem failed_step_keeps_the_locks_witness:
  "\<exists>st'. step_ends \<lparr>runDefinitions = [(''k'', demo_def)], ulid = show_nat, sha256 = id\<rparr> 4 (Some type_error)
       (demo_exec [demo_step ''a'' 0 SRunning] False False (StepWork (demo_step ''a'' 0 SRunning) ''a'' [] False)) = (Inr True, st') \<and>
     map_option r_status (get_run (x_db st') ''run_1'') = Some RFailed"
proof -
  let ?w = "StepWork (demo_step ''a'' 0 SRunning) ''a'' [] False"
  let ?f = "demo_frame False ?w" and ?st = "demo_exec [demo_step ''a'' 0 SRunning] False False ?w"
  have h: "frame_ready ?st 4 (f_run ?f)" "get_frame ?st 4 = Some ?f" "f_work ?f = ?w"
    by (simp_all add: demo_defs)
  have f: "f_run ?f = ''run_1''" "\<not> f_aborted ?f" "\<not> is_abort_error type_error"
    by (simp_all add: demo_frame_def type_error_def)
  have r: "\<exists>r. get_run (x_db ?st) ''run_1'' = Some r" by (simp add: demo_defs get_run_def)
  from failed_step_keeps_the_locks [OF h, of "\<lparr>runDefinitions = [(''k'', demo_def)], ulid = show_nat, sha256 = id\<rparr>" type_error] r
  show ?thesis unfolding f(1) by (elim exE conjE) (simp add: f)
qed
end
