(* ===== verification/Recovery_Properties.thy ===== *)
theory Recovery_Properties
  imports Run_Properties
begin

text \<open>
  What the operations around a run promise: retry, skip and abort (\<^verbatim>\<open>executor/step-recovery.ts\<close>, \<^verbatim>\<open>executor/cleanup.ts\<close>), the
  checkpoints and log lines of a step (\<^verbatim>\<open>executor/context.ts\<close>), approve and delete (\<^verbatim>\<open>executor/executor.ts\<close>).
\<close>

lemma get_run_frame [simp]: "get_run (d\<lparr>steps := ss\<rparr>) r = get_run d r"
  by (simp add: get_run_def)

section \<open>Retry\<close>

definition step_reset :: "step_row \<Rightarrow> step_row" where
  "step_reset s = s\<lparr>s_status := SPending, s_error := None, s_startedAt := None, s_finishedAt := None\<rparr>"

lemma step_reset_id [simp]: "s_id (step_reset s) = s_id s"
  by (simp add: step_reset_def)

lemma step_reset_twice [simp]: "step_reset (step_reset s) = step_reset s"
  by (simp add: step_reset_def)

lemma reset_rows_eq:
  "reset_rows rs d = Inr (d\<lparr>steps := map (\<lambda>s. if list_ex (\<lambda>r. s_id r = s_id s \<and> s_status r \<noteq> SOk) rs then step_reset s else s) (steps d)\<rparr>)"
proof (induction rs arbitrary: d)
  case (Cons r rs)
  have r: "reset_row r d = Inr (d\<lparr>steps := map (\<lambda>s. if s_id r = s_id s \<and> s_status r \<noteq> SOk then step_reset s else s) (steps d)\<rparr>)"
    by (auto simp: reset_row_def setStepStatus_def assertStepTransition_def can_reset_to_pending update_where_def step_reset_def eq_commute)
  show ?case by (simp add: r Cons.IH comp_def)
qed simp



section \<open>Skip\<close>

text \<open>
  C36 The precondition of a mutating run cannot be waved through. Once the boot has armed the guards, every mutating definition
  begins with \<^verbatim>\<open>attest-target\<close>, and skipping that step on a run of such a kind is refused whatever the run's state and
  the reason given; nothing changes.
\<close>

theorem precondition_cannot_be_skipped:
  assumes "assertGuardsArmed (runDefinitions D) = Inr ()"
    and "def_of D kind = Some df" and "d_mutating df"
    and "get_run (x_db st) rid = Some r" and "r_kind r = kind"
  shows "first_name (d_steps df (JObj [])) = Some ATTEST_TARGET_STEP \<and>
     (\<exists>e. skipStep D actor rid ATTEST_TARGET_STEP reason st = (Inl e, st))"
proof
  have "(kind, df) \<in> set (runDefinitions D)" using assms(2) by (simp add: def_of_def map_of_SomeD)
  then show "first_name (d_steps df (JObj [])) = Some ATTEST_TARGET_STEP"
    using assms(1,3) by (auto simp: assertGuardsArmed_ok)
  have "\<exists>e. skip_target D (x_db st) rid ATTEST_TARGET_STEP reason = Inl e"
    using assms(2-5) by (auto simp: skip_target_def loadRun_def stepRowFull_def find_step_def isMutatingPrecondition_def
        split: sum.splits option.splits dest!: find_Some_in)
  then show "\<exists>e. skipStep D actor rid ATTEST_TARGET_STEP reason st = (Inl e, st)"
    by (auto simp: skipStep_def bindM_liftE)
qed

definition demo_mutating :: executor_deps where
  "demo_mutating = \<lparr>runDefinitions = [(''k'', demo_def\<lparr>d_mutating := True,
     d_steps := (\<lambda>_. [\<lparr>si_name = ''attest-target'', si_title = [], si_probe = None\<rparr>])\<rparr>)], ulid = show_nat, sha256 = id\<rparr>"

theorem precondition_cannot_be_skipped_witness:
  "\<exists>e. skipStep demo_mutating ''op_1'' ''run_1'' ''attest-target'' ''looked at it''
       (exec_on (demo_db [demo_step ''attest-target'' 0 SFailed])) = (Inl e, exec_on (demo_db [demo_step ''attest-target'' 0 SFailed]))"
  using precondition_cannot_be_skipped [of demo_mutating "''k''" "snd (hd (runDefinitions demo_mutating))"
      "exec_on (demo_db [demo_step ''attest-target'' 0 SFailed])" "''run_1''" "hd (runs (demo_db []))" "''op_1''" "''looked at it''"]
  by (simp add: demo_mutating_def demo_def_def def_of_def ATTEST_TARGET_STEP_def exec_on_def demo_db_def get_run_def)

section \<open>Abort\<close>

lemma insort_before: "\<forall>y \<in> set ys. f x \<le> f y \<Longrightarrow> insort_key f x (zs @ ys) = insort_key f x zs @ ys"
  by (induction zs) (auto simp: insort_is_Cons)

lemma sort_key_append: "\<forall>x \<in> set xs. \<forall>y \<in> set ys. f x \<le> f y \<Longrightarrow> sort_key f (xs @ ys) = sort_key f xs @ sort_key f ys"
  by (induction xs) (auto simp: insort_before)

lemma sort_key_sorted: "sorted (map f xs) \<Longrightarrow> sort_key f xs = xs"
  by (induction xs) (auto simp: insort_is_Cons)

definition cleanup_rows :: "run_id \<Rightarrow> (nat \<Rightarrow> step_id) \<Rightarrow> (string \<rightharpoonup> cleanup) \<Rightarrow> nat \<Rightarrow> nat \<Rightarrow> string list \<Rightarrow> step_row list" where
  "cleanup_rows rid gen byName ord i names =
     map (\<lambda>(j, n). cleanup_row rid (gen (i + j)) (ord + 1 + i + j) n (byName n)) (zip [0 ..< length names] names)"

lemma cleanup_rows_Cons:
  "cleanup_rows rid gen byName ord i (n # ns) =
     cleanup_row rid (gen i) (ord + 1 + i) n (byName n) # cleanup_rows rid gen byName ord (Suc i) ns"
  by (auto simp: cleanup_rows_def upt_conv_Cons map_Suc_upt [symmetric] zip_map1 simp del: map_Suc_upt upt_Suc)

lemma cleanup_row_sel:
  "s_id (cleanup_row rid g n name c) = g" "s_runId (cleanup_row rid g n name c) = rid"
  "s_ordinal (cleanup_row rid g n name c) = n" "s_name (cleanup_row rid g n name c) = cleanup_step_name name"
  by (simp_all add: cleanup_row_def)

lemma schedule_new_names:
  assumes "\<And>n. n \<in> set names \<Longrightarrow> List.find (\<lambda>s. s_name s = cleanup_step_name n) all = None"
    and "distinct names" and "inj gen"
    and "\<And>j. i \<le> j \<Longrightarrow> gen j \<notin> s_id ` set (steps d)"
    and "\<And>s. s \<in> set (steps d) \<Longrightarrow> s_runId s = rid \<Longrightarrow> s_ordinal s \<le> ord + i"
    and "\<And>s n. s \<in> set (steps d) \<Longrightarrow> s_runId s = rid \<Longrightarrow> n \<in> set names \<Longrightarrow> s_name s \<noteq> cleanup_step_name n"
  shows "schedule_names rid gen all byName ord i names d = Inr (d\<lparr>steps := steps d @ cleanup_rows rid gen byName ord i names\<rparr>)"
  using assms
proof (induction names arbitrary: i d)
  case Nil
  then show ?case by (simp add: cleanup_rows_def)
next
  case (Cons n ns)
  let ?row = "cleanup_row rid (gen i) (ord + 1 + i) n (byName n)"
  let ?d1 = "d\<lparr>steps := steps d @ [?row]\<rparr>"
  note row = cleanup_row_sel
  have "insert_step ?row d = Inr ?d1"
    using Cons.prems(4) [of i] Cons.prems(5) Cons.prems(6) [of _ n]
    unfolding insert_step_def row by (fastforce simp: image_iff)
  moreover have "schedule_names rid gen all byName ord (Suc i) ns ?d1 =
      Inr (?d1\<lparr>steps := steps ?d1 @ cleanup_rows rid gen byName ord (Suc i) ns\<rparr>)"
  proof (rule Cons.IH)
    show "gen j \<notin> s_id ` set (steps ?d1)" if "Suc i \<le> j" for j
      using that Cons.prems(4) [of j] injD [OF \<open>inj gen\<close>, of j i] by (auto simp: row)
    show "s_ordinal s \<le> ord + Suc i" if "s \<in> set (steps ?d1)" "s_runId s = rid" for s
    proof -
      from that(1) consider "s \<in> set (steps d)" | "s = ?row" by auto
      then show ?thesis using that(2) Cons.prems(5) [of s] by cases (simp_all add: row)
    qed
    show "s_name s \<noteq> cleanup_step_name m" if "s \<in> set (steps ?d1)" "s_runId s = rid" "m \<in> set ns" for s m
    proof -
      from that(1) consider "s \<in> set (steps d)" | "s = ?row" by auto
      then show ?thesis using that(2,3) Cons.prems(2) Cons.prems(6) [of s m] by cases (auto simp: row cleanup_step_name_def)
    qed
  qed (use Cons.prems in auto)
  ultimately show ?case using Cons.prems(1) [of n] by (simp add: cleanup_rows_Cons)
qed

text \<open>Rows and names of the scheduled cleanups.\<close>

lemma cleanup_rows_simps:
  "map s_name (cleanup_rows rid gen byName ord i names) = map cleanup_step_name names"
  "map s_ordinal (cleanup_rows rid gen byName ord i names) = map (\<lambda>j. ord + 1 + i + j) [0 ..< length names]"
  "\<forall>s \<in> set (cleanup_rows rid gen byName ord i names). s_runId s = rid \<and> \<not> is_done s \<and> ord < s_ordinal s"
  by (auto simp: cleanup_rows_def cleanup_row_def is_done_def split_beta comp_def intro!: nth_equalityI dest!: set_zip_rightD)

lemma filter_none: "(\<And>x. x \<in> set xs \<Longrightarrow> \<not> P x) \<Longrightarrow> filter P xs = []"
  by (induction xs) auto

lemma open_rows_appended:
  assumes mine: "\<And>s. s \<in> set mine \<Longrightarrow> is_done s \<and> s_ordinal s \<le> ord"
  shows "filter (\<lambda>s. \<not> is_done s) (sort_key s_ordinal (mine @ cleanup_rows rid gen byName ord i names)) =
    cleanup_rows rid gen byName ord i names"
proof -
  let ?new = "cleanup_rows rid gen byName ord i names"
  have "sort_key s_ordinal (mine @ ?new) = sort_key s_ordinal mine @ sort_key s_ordinal ?new"
    using mine cleanup_rows_simps(3) by (intro sort_key_append ballI) (metis le_trans less_imp_le_nat)
  moreover have "sort_key s_ordinal ?new = ?new"
    by (rule sort_key_sorted) (simp add: cleanup_rows_simps(2) sorted_iff_nth_mono)
  moreover have "filter (\<lambda>s. \<not> is_done s) (sort_key s_ordinal mine) = []" using mine by (intro filter_none) auto
  moreover have "filter (\<lambda>s. \<not> is_done s) ?new = ?new" using cleanup_rows_simps(3) by (simp add: filter_id_conv)
  ultimately show ?thesis by simp
qed


definition demo_registered :: "step_row list" where
  "demo_registered = [(demo_step ''a'' 0 SOk)\<lparr>s_checkpoint := Some \<lparr>cp_data = None, cp_cleanups = Some [''x'', ''y'']\<rparr>\<rparr>,
     (demo_step ''b'' 1 SFailed)\<lparr>s_checkpoint := Some \<lparr>cp_data = None, cp_cleanups = Some [''z'']\<rparr>\<rparr>]"


lemma schedule_step_present:
  assumes "\<And>m. m \<in> set names \<Longrightarrow> List.find (\<lambda>s. s_name s = cleanup_step_name m) all = None"
    and "n \<in> set names" and "\<exists>s \<in> set (steps d). s_runId s = rid \<and> s_name s = cleanup_step_name n"
  shows "\<exists>e. schedule_names rid gen all byName ord i names d = Inl e"
  using assms
proof (induction names arbitrary: i d)
  case (Cons m ms)
  let ?row = "cleanup_row rid (gen i) (ord + 1 + i) m (byName m)"
  show ?case
  proof (cases "insert_step ?row d")
    case (Inl e)
    then show ?thesis using Cons.prems(1) [of m] by simp
  next
    case (Inr d')
    then have d': "d' = d\<lparr>steps := steps d @ [?row]\<rparr>"
      and fresh: "(rid, cleanup_step_name m) \<notin> (\<lambda>t. (s_runId t, s_name t)) ` set (steps d)"
      by (auto simp: insert_step_def cleanup_row_sel split: if_splits)
    from fresh Cons.prems(3) have "n \<noteq> m" by (force simp: image_iff)
    then have "\<exists>e. schedule_names rid gen all byName ord (Suc i) ms d' = Inl e"
      using Cons.prems by (intro Cons.IH) (auto simp: d')
    with Inr show ?thesis using Cons.prems(1) [of m] by simp
  qed
qed simp

lemma schedule_duplicate:
  assumes "\<And>m. m \<in> set names \<Longrightarrow> List.find (\<lambda>s. s_name s = cleanup_step_name m) all = None" and "\<not> distinct names"
  shows "\<exists>e. schedule_names rid gen all byName ord i names d = Inl e"
  using assms
proof (induction names arbitrary: i d)
  case (Cons m ms)
  let ?row = "cleanup_row rid (gen i) (ord + 1 + i) m (byName m)"
  show ?case
  proof (cases "insert_step ?row d")
    case (Inl e)
    then show ?thesis using Cons.prems(1) [of m] by simp
  next
    case (Inr d')
    then have d': "d' = d\<lparr>steps := steps d @ [?row]\<rparr>" by (auto simp: insert_step_def split: if_splits)
    have "\<exists>e. schedule_names rid gen all byName ord (Suc i) ms d' = Inl e"
    proof (cases "m \<in> set ms")
      case True
      show ?thesis
        by (rule schedule_step_present [OF _ True]) (use Cons.prems(1) in \<open>auto simp: d' cleanup_row_sel\<close>)
    next
      case False
      then show ?thesis using Cons.prems by (intro Cons.IH) auto
    qed
    with Inr show ?thesis using Cons.prems(1) [of m] by simp
  qed
qed simp


definition demo_twice :: "step_row list" where
  "demo_twice = [(demo_step ''a'' 0 SOk)\<lparr>s_checkpoint := Some \<lparr>cp_data = None, cp_cleanups = Some [''x'']\<rparr>\<rparr>,
     (demo_step ''b'' 1 SFailed)\<lparr>s_checkpoint := Some \<lparr>cp_data = None, cp_cleanups = Some [''x'']\<rparr>\<rparr>]"


section \<open>Checkpoints and log lines\<close>

lemma stepCheckpoint_write:
  assumes "find_step d rid name = Some s"
  shows "stepCheckpoint (writeCheckpoint rid name cp d) r n = (if r = rid \<and> n = name then cp else stepCheckpoint d r n)"
proof -
  have *: "find_step (writeCheckpoint rid name cp d) r n =
      map_option (\<lambda>s. if s_runId s = rid \<and> s_name s = name then s\<lparr>s_checkpoint := Some cp\<rparr> else s) (find_step d r n)"
    unfolding find_step_def writeCheckpoint_def by (simp add: find_update_where_key)
  show ?thesis
  proof (cases "find_step d r n")
    case None
    with * assms show ?thesis by (auto simp: stepCheckpoint_def)
  next
    case (Some t)
    then have "s_runId t = r \<and> s_name t = n" by (auto simp: find_step_def dest: find_Some_in)
    with * Some show ?thesis by (auto simp: stepCheckpoint_def opt_default_def)
  qed
qed

text \<open>
  A checkpoint is read back as it was written, or it was refused. Data whose text contains a registered secret is refused and
  nothing is stored; any other data is what the step reads next, the cleanups the step registered stay registered, and
  no other step's checkpoint changes.
\<close>

lemma checkpoint_reads_back:
  assumes "find_step (x_db st) rid name = Some s"
  shows "(if redact (x_registry st) (json_stringify data) \<noteq> json_stringify data
          then checkpoint rid name data st = (Inl (App (Internal ''checkpoint contains a registered secret'')), st)
          else \<exists>d'. checkpoint rid name data st = (Inr (), st\<lparr>x_db := d'\<rparr>) \<and>
            readCheckpoint d' rid name = Some data \<and>
            cp_cleanups (stepCheckpoint d' rid name) = cp_cleanups (stepCheckpoint (x_db st) rid name) \<and>
            (\<forall>r n. (r, n) \<noteq> (rid, name) \<longrightarrow> stepCheckpoint d' r n = stepCheckpoint (x_db st) r n))"
proof (cases "redact (x_registry st) (json_stringify data) = json_stringify data")
  case True
  let ?d = "writeCheckpoint rid name ((stepCheckpoint (x_db st) rid name)\<lparr>cp_data := Some data\<rparr>) (x_db st)"
  have "checkpoint rid name data st = (Inr (), st\<lparr>x_db := ?d\<rparr>)" using True by (simp add: checkpoint_def Let_def setDb_def)
  then show ?thesis
    using True stepCheckpoint_write [OF assms] by (auto simp: readCheckpoint_def intro!: exI [of _ ?d])
qed (simp add: checkpoint_def Let_def)

lemma checkpoint_reads_back_instance:
  "\<exists>d'. checkpoint ''run_1'' ''a'' (JStr ''x'') (exec_on (demo_db [demo_step ''a'' 0 SRunning])) =
       (Inr (), (exec_on (demo_db [demo_step ''a'' 0 SRunning]))\<lparr>x_db := d'\<rparr>) \<and> readCheckpoint d' ''run_1'' ''a'' = Some (JStr ''x'')"
proof -
  have r: "redact (x_registry (exec_on (demo_db [demo_step ''a'' 0 SRunning]))) (json_stringify (JStr ''x'')) = json_stringify (JStr ''x'')"
    by code_simp
  have "find_step (x_db (exec_on (demo_db [demo_step ''a'' 0 SRunning]))) ''run_1'' ''a'' = Some (demo_step ''a'' 0 SRunning)"
    by (simp add: find_step_def exec_on_def demo_db_def demo_step_def)
  from checkpoint_reads_back [OF this, of "JStr ''x''"] r show ?thesis by auto
qed

text \<open>What writing to the log adds: events of this run, none of an ephemeral stream, and as many on the bus, all of them redacted.\<close>

definition log_grew :: "run_id \<Rightarrow> output_stream \<Rightarrow> string \<Rightarrow> exec \<Rightarrow> exec \<Rightarrow> bool" where
  "log_grew rid stream secret st st' \<longleftrightarrow> x_registry st' = x_registry st \<and>
     (\<exists>es bs. events (x_db st') = events (x_db st) @ es \<and> x_bus st' = x_bus st @ bs \<and>
       (\<forall>e \<in> set es. e_runId e = rid \<and> e_stream e \<noteq> Ephemeral \<and> \<not> sublist secret (e_text e)) \<and>
       (\<forall>b \<in> set bs. fst b = rid \<and> \<not> sublist secret (ev_text (snd b))) \<and> (stream = Ephemeral \<longrightarrow> es = []))"

lemma log_grew_refl: "log_grew rid stream secret st st"
  by (auto simp: log_grew_def)

lemma log_grew_trans:
  assumes "log_grew rid stream secret st1 st2" and "log_grew rid stream secret st2 st3"
  shows "log_grew rid stream secret st1 st3"
proof -
  from assms(1) obtain es bs where 1: "events (x_db st2) = events (x_db st1) @ es" "x_bus st2 = x_bus st1 @ bs"
    "\<forall>e \<in> set es. e_runId e = rid \<and> e_stream e \<noteq> Ephemeral \<and> \<not> sublist secret (e_text e)"
    "\<forall>b \<in> set bs. fst b = rid \<and> \<not> sublist secret (ev_text (snd b))" "stream = Ephemeral \<longrightarrow> es = []"
    "x_registry st2 = x_registry st1" by (auto simp: log_grew_def)
  from assms(2) obtain es' bs' where 2: "events (x_db st3) = events (x_db st2) @ es'" "x_bus st3 = x_bus st2 @ bs'"
    "\<forall>e \<in> set es'. e_runId e = rid \<and> e_stream e \<noteq> Ephemeral \<and> \<not> sublist secret (e_text e)"
    "\<forall>b \<in> set bs'. fst b = rid \<and> \<not> sublist secret (ev_text (snd b))" "stream = Ephemeral \<longrightarrow> es' = []"
    "x_registry st3 = x_registry st2" by (auto simp: log_grew_def)
  show ?thesis unfolding log_grew_def
    using 1 2 by (intro conjI exI [of _ "es @ es'"] exI [of _ "bs @ bs'"]) auto
qed

lemma emit_line_grew:
  assumes "secret \<in> set (concat (map snd (x_registry st)))" and "set secret \<inter> set mask3 = {}" and "secret \<noteq> []"
  shows "log_grew rid stream secret st (snd (emit_line fid rid sid stream raw st))"
  using redact_removes [OF assms, of raw]
  by (cases "stream = Ephemeral")
     (auto simp: log_grew_def emit_line_def Let_def bindM_def set_frame_def onDb_def insert_event_def publish_def
        split: if_splits sum.splits prod.splits)

lemma seq_grew:
  assumes "\<And>m st. m \<in> set ms \<Longrightarrow> P (x_registry st) \<Longrightarrow> log_grew rid stream secret st (snd (m st))" and "P (x_registry st)"
  shows "log_grew rid stream secret st (snd (seqM ms st))"
  using assms
proof (induction ms arbitrary: st)
  case Nil
  then show ?case by (simp add: log_grew_refl)
next
  case (Cons m ms)
  have m: "log_grew rid stream secret st (snd (m st))" using Cons.prems by simp
  show ?case
  proof (cases "m st")
    case (Pair r st')
    with m have g: "log_grew rid stream secret st st'" by simp
    then have "P (x_registry st')" using Cons.prems(2) by (simp add: log_grew_def)
    then have "log_grew rid stream secret st' (snd (seqM ms st'))" using Cons.prems(1) by (intro Cons.IH) auto
    with g show ?thesis using Pair by (cases r) (auto simp: bindM_def intro: log_grew_trans)
  qed
qed



section \<open>Approve and delete\<close>

text \<open>
  A run is approved once. When the approve's own check awaited and the run is no longer planned on its return (another approve
  or a discard came first), the approve is refused: the tables, the queue, the lock table and the typed secrets are as if
  it had never been asked.
\<close>

lemma approve_happens_once:
  assumes "snap_of (lr_plan run) = Inr p"
    and "\<And>r. r \<in> set (runs (x_db st)) \<Longrightarrow> r_id r = lr_id run \<Longrightarrow> r_status r \<noteq> RPlanned"
  shows "approve_commit D run secrets False st =
    (Inl (App (IllegalTransition (''run '' @ lr_id run @ '' was approved or discarded while this approve was checked''))), st)"
proof -
  have none: "filter (\<lambda>r. r_id r = lr_id run \<and> r_status r = RPlanned) (runs (x_db st)) = []"
    using assms(2) by (auto simp: filter_empty_conv)
  have "update_where (\<lambda>r. r_id r = lr_id run \<and> r_status r = RPlanned) g (runs (x_db st)) = runs (x_db st)" for g
    using assms(2) by (auto simp: update_where_def intro!: map_idI)
  then have "move_to_queued (x_clock st) (lr_id run) (x_db st) = (0, x_db st)"
    by (simp add: move_to_queued_def Let_def none)
  then show ?thesis by (simp add: approve_commit_def Let_def bindM_liftE assms(1) bindM_def setDb_def)
qed

definition demo_snap :: plan_snapshot where
  "demo_snap = \<lparr>p_kind = ''k'', p_targetKind = ''server'', p_targetId = ''srv_1'', p_summary = [], p_steps = [(''a'', ''a''), (''b'', ''b'')],
     p_targets = None, p_locks = None, p_warnings = [], p_estimateSeconds = None, p_requiredSecrets = [], p_secretHints = None,
     p_findings = None, p_optionalSecrets = None, p_requiredInputs = None, planHash = ''h'', plannedAt = 1\<rparr>"

definition demo_loaded :: loaded_run where
  "demo_loaded = \<lparr>lr_id = ''run_1'', lr_kind = ''k'', lr_targetKind = ''server'', lr_targetId = ''srv_1'', lr_params = JObj [],
     lr_plan = Some (PlanSnap demo_snap), lr_status = RPlanned, lr_startedAt = None\<rparr>"

text \<open>
  Only a settled run is deleted. Deleting a run that is being planned, queued, approved or running is refused and deleting a
  deleted one is a no-op; in both cases nothing changes, no hook is called and no lock is released.
\<close>

lemma only_settled_runs_are_deleted:
  assumes "get_run (x_db st) rid = Some r"
    and "r_deleted r \<noteq> None \<or> r_status r \<in> {RPlanning, RQueued, RApproved, RRunning}"
  shows "snd (deleteRun D rid st) = st \<and> (r_deleted r \<noteq> None \<longleftrightarrow> fst (deleteRun D rid st) = Inr ())"
  using assms by (auto simp: deleteRun_def isDeletableRun_def)

end
