(* ===== verification/Credential_Store.thy ===== *)
theory Credential_Store
  imports Run_Store "HOL-Library.Product_Lexorder"
begin

text \<open>
  The credential store (\<^verbatim>\<open>server/security/store.ts\<close>): sealing a value under one of three formats, opening it, rotating,
  revoking and purging a credential, and the readings that ask which credentials stand.

  AES-256-GCM, the random bytes, the mint of ids, Vault and the GitHub App are parameters (\<open>store_deps\<close>). A Buffer is its list of
  bytes; zeroing the caller's buffer is not modelled.
\<close>

section \<open>Base64\<close>

text \<open>
  \<^verbatim>\<open>Buffer.toString("base64")\<close> and \<^verbatim>\<open>Buffer.from(s, "base64")\<close>, which skips every character outside the alphabet and drops
  the bits that fill no byte.
\<close>

definition b64_alphabet :: string where
  "b64_alphabet = ''ABCDEFGHIJKLMNOPQRSTUVWXYZabcdefghijklmnopqrstuvwxyz0123456789+/''"

definition six_bits :: "bool list list" where
  "six_bits = map rev (List.n_lists 6 [False, True])"

definition b64_char :: "bool list \<Rightarrow> char" where
  "b64_char bs = (case map_of (zip six_bits b64_alphabet) bs of Some c \<Rightarrow> c | None \<Rightarrow> CHR ''='')"

definition b64_index :: "char \<Rightarrow> bool list option" where
  "b64_index c =
     map_of (zip b64_alphabet six_bits) (if c = CHR ''-'' then CHR ''+'' else if c = CHR ''_'' then CHR ''/'' else c)"

fun char_bits :: "char \<Rightarrow> bool list" where
  "char_bits (Char b0 b1 b2 b3 b4 b5 b6 b7) = [b7, b6, b5, b4, b3, b2, b1, b0]"

fun bytes_of_bits :: "bool list \<Rightarrow> string" where
  "bytes_of_bits (b7 # b6 # b5 # b4 # b3 # b2 # b1 # b0 # rest) = Char b0 b1 b2 b3 b4 b5 b6 b7 # bytes_of_bits rest"
| "bytes_of_bits _ = []"

fun sextets :: "bool list \<Rightarrow> bool list list" where
  "sextets (a # b # c # d # e # f # rest) = [a, b, c, d, e, f] # sextets rest"
| "sextets [] = []"
| "sextets bs = [bs @ replicate (6 - length bs) False]"

definition b64_encode :: "string \<Rightarrow> string" where
  "b64_encode s = map b64_char (sextets (concat (map char_bits s))) @ replicate ((3 - length s mod 3) mod 3) CHR ''=''"

definition b64_decode :: "string \<Rightarrow> string" where
  "b64_decode s = bytes_of_bits (concat (List.map_filter b64_index s))"

section \<open>Rows and dependencies\<close>

datatype keystore_mode = KPlaintext | KPassphrase | KKeyfile | KVault

record credential_subject =
  su_kind :: string
  su_id :: string

record credential_ref =
  cr_id :: string
  cr_kind :: string
  cr_label :: string
  cr_fingerprint :: string
  cr_subject :: credential_subject
  cr_purpose :: string
  cr_publicKey :: "string option"
  cr_recordedAt :: nat

record use_context =
  uc_purpose :: string
  uc_runId :: "string option"

record seal_input =
  se_kind :: string
  se_label :: string
  se_plaintext :: string
  se_fingerprint :: string
  se_subject :: credential_subject
  se_purpose :: string
  se_publicKey :: "string option"

record cred_row =
  cw_id :: string
  cw_kind :: string
  cw_label :: string
  cw_subjectKind :: string
  cw_subjectId :: string
  cw_purpose :: string
  cw_blob :: "string option"
  cw_fingerprint :: string
  cw_publicKey :: "string option"
  cw_creation :: nat
  cw_rotatedAt :: "nat option"
  cw_revokedAt :: "nat option"
  cw_lastUsedAt :: "nat option"
  cw_deleted :: "nat option"

text \<open>
  \<open>sd_vault\<close> says whether a Vault backend is configured and, where it is, whether its calls fail; \<open>sd_app\<close> is what the App's
  \<^verbatim>\<open>installationToken\<close> answers. \<open>gcm_seal\<close> answers the tag and the cipher text, \<open>gcm_open\<close> nothing where the tag does not fit.
\<close>

record store_deps =
  sd_dataKey :: "string option"
  sd_vault :: "thrown option option"
  sd_app :: "(thrown + string) option"
  gcm_seal :: "string \<Rightarrow> string \<Rightarrow> string \<Rightarrow> string \<times> string"
  gcm_open :: "string \<Rightarrow> string \<Rightarrow> string \<Rightarrow> string \<Rightarrow> string option"
  random12 :: "nat \<Rightarrow> string"
  cred_ulid :: "nat \<Rightarrow> string"

record store =
  st_creds :: "cred_row list"
  st_vault :: "(string \<times> string) list"
  st_audit :: "audit_row list"
  st_mode :: "keystore_mode option"
  st_clock :: nat
  st_minted :: nat

type_synonym 'a cact = "(store, 'a) comp"

definition PLAINTEXT_PREFIX :: string where "PLAINTEXT_PREFIX = ''plain:v0:''"
definition V1_PREFIX :: string where "V1_PREFIX = ''v1:''"
definition VAULT_REF_PREFIX :: string where "VAULT_REF_PREFIX = ''vault:v1:''"
definition GITHUB_APP_BLOB :: string where "GITHUB_APP_BLOB = ''github-app:v1:''"

definition toRef :: "cred_row \<Rightarrow> credential_ref" where
  "toRef r = \<lparr>cr_id = cw_id r, cr_kind = cw_kind r, cr_label = cw_label r, cr_fingerprint = cw_fingerprint r,
     cr_subject = \<lparr>su_kind = cw_subjectKind r, su_id = cw_subjectId r\<rparr>, cr_purpose = cw_purpose r,
     cr_publicKey = (case cw_publicKey r of Some k \<Rightarrow> if k \<noteq> [] then Some k else None | None \<Rightarrow> None),
     cr_recordedAt = cw_creation r\<rparr>"

section \<open>Which credentials stand\<close>

definition unrevoked :: "cred_row \<Rightarrow> bool" where
  "unrevoked r = (cw_revokedAt r = None \<and> cw_deleted r = None)"

definition holdsManagerKey :: "store \<Rightarrow> string \<Rightarrow> bool" where
  "holdsManagerKey s serverId = list_ex (\<lambda>r. cw_subjectKind r = ''server'' \<and> cw_subjectId r = serverId \<and>
     cw_purpose r = ''ssh-key'' \<and> unrevoked r \<and> cw_rotatedAt r = None) (st_creds s)"

definition by_age :: "cred_row list \<Rightarrow> cred_row list" where
  "by_age = sort_key (\<lambda>r. (cw_creation r, cw_id r))"

fun newest_of :: "cred_row list \<Rightarrow> string \<Rightarrow> string option" where
  "newest_of rows purpose = (case filter (\<lambda>r. cw_purpose r = purpose) rows of [] \<Rightarrow> None | rs \<Rightarrow> Some (cw_id (last rs)))"

text \<open>The packages reader and the repository PAT of an owner; \<open>None\<close> where the owner has no credential at all.\<close>

definition ownerIdentity :: "store \<Rightarrow> string \<Rightarrow> (string option \<times> string option) option" where
  "ownerIdentity s org =
     (let rows = by_age (filter (\<lambda>r. cw_subjectKind r = ''owner'' \<and> cw_subjectId r = org \<and> unrevoked r) (st_creds s))
      in if rows = [] then None else Some (newest_of rows ''packages-reader'', newest_of rows ''repository-pat''))"

definition ownersWithIdentity :: "store \<Rightarrow> string list" where
  "ownersWithIdentity s =
     sort (remdups (map cw_subjectId (filter (\<lambda>r. cw_subjectKind r = ''owner'' \<and> unrevoked r) (st_creds s))))"

section \<open>The store\<close>

definition keystore_mode_of :: "store_deps \<Rightarrow> keystore_mode" where
  "keystore_mode_of D = (if sd_vault D \<noteq> None then KVault else if sd_dataKey D \<noteq> None then KKeyfile else KPlaintext)"

definition open_store :: "store_deps \<Rightarrow> unit cact" where
  "open_store D = (case sd_dataKey D of
       Some k \<Rightarrow> if length k \<noteq> 32 then throwM (App (Internal ''credential-store data key must be 32 bytes''))
                 else modify (\<lambda>s. s\<lparr>st_mode := Some (keystore_mode_of D)\<rparr>)
     | None \<Rightarrow> modify (\<lambda>s. s\<lparr>st_mode := Some (keystore_mode_of D)\<rparr>))"

definition store_mode :: "store \<Rightarrow> keystore_mode" where
  "store_mode s = opt_default KPlaintext (st_mode s)"

definition mint_cred :: "nat cact" where
  "mint_cred = bindM (gets st_minted) (\<lambda>n. bindM (modify (\<lambda>s. s\<lparr>st_minted := Suc n\<rparr>)) (\<lambda>_. ret n))"

definition credId :: "store_deps \<Rightarrow> nat \<Rightarrow> string" where
  "credId D n = ''cred_'' @ cred_ulid D n"

definition encrypt :: "store_deps \<Rightarrow> string \<Rightarrow> string cact" where
  "encrypt D plain = (case sd_dataKey D of
       None \<Rightarrow> throwM (App (Internal ''encrypt called without a data key''))
     | Some k \<Rightarrow> bindM mint_cred (\<lambda>n.
         (let iv = random12 D n; (tag, ct) = gcm_seal D k iv plain in ret (V1_PREFIX @ b64_encode (iv @ tag @ ct)))))"

definition decrypt :: "store_deps \<Rightarrow> string \<Rightarrow> thrown + string" where
  "decrypt D blob = (case sd_dataKey D of
       None \<Rightarrow> Inl (App (Internal ''credential is keyfile-encrypted but no data key is loaded''))
     | Some k \<Rightarrow>
         (let raw = b64_decode (drop (length V1_PREFIX) blob)
          in case gcm_open D k (take 12 raw) (take 16 (drop 12 raw)) (drop 28 raw) of
               Some p \<Rightarrow> Inr p
             | None \<Rightarrow> Inl (JsError ''Error'' ''Unsupported state or unable to authenticate data'')))"

definition vault_put :: "store_deps \<Rightarrow> string \<Rightarrow> string \<Rightarrow> unit cact" where
  "vault_put D k v = (case sd_vault D of
       None \<Rightarrow> throwM type_error
     | Some (Some e) \<Rightarrow> throwM e
     | Some None \<Rightarrow> modify (\<lambda>s. s\<lparr>st_vault := (k, v) # filter (\<lambda>p. fst p \<noteq> k) (st_vault s)\<rparr>))"

definition vault_get :: "store_deps \<Rightarrow> string \<Rightarrow> string option cact" where
  "vault_get D k = (case sd_vault D of
       None \<Rightarrow> throwM type_error
     | Some (Some e) \<Rightarrow> throwM e
     | Some None \<Rightarrow> gets (\<lambda>s. map_of (st_vault s) k))"

definition vault_delete :: "store_deps \<Rightarrow> string \<Rightarrow> unit cact" where
  "vault_delete D k = (case sd_vault D of
       None \<Rightarrow> throwM type_error
     | Some (Some e) \<Rightarrow> throwM e
     | Some None \<Rightarrow> modify (\<lambda>s. s\<lparr>st_vault := filter (\<lambda>p. fst p \<noteq> k) (st_vault s)\<rparr>))"

definition audit_cred :: "string \<Rightarrow> string \<Rightarrow> string option \<Rightarrow> json \<Rightarrow> unit cact" where
  "audit_cred action target run detail = modify (\<lambda>s. s\<lparr>st_audit := st_audit s @
     [\<lparr>a_action = action, a_targetKind = Some ''credential'', a_targetId = Some target, a_runId = run, a_detail = Some detail\<rparr>]\<rparr>)"

definition subject_json :: "credential_subject \<Rightarrow> json" where
  "subject_json su = JObj [(''kind'', JStr (su_kind su)), (''id'', JStr (su_id su))]"

definition cred_row_of :: "string \<Rightarrow> seal_input \<Rightarrow> string \<Rightarrow> nat \<Rightarrow> cred_row" where
  "cred_row_of cid inp blob now = \<lparr>cw_id = cid, cw_kind = se_kind inp, cw_label = se_label inp,
     cw_subjectKind = su_kind (se_subject inp), cw_subjectId = su_id (se_subject inp), cw_purpose = se_purpose inp,
     cw_blob = Some blob, cw_fingerprint = se_fingerprint inp, cw_publicKey = se_publicKey inp, cw_creation = now,
     cw_rotatedAt = None, cw_revokedAt = None, cw_lastUsedAt = None, cw_deleted = None\<rparr>"

definition insert_cred :: "cred_row \<Rightarrow> unit cact" where
  "insert_cred r = bindM (gets st_creds) (\<lambda>rows.
     if cw_id r \<in> cw_id ` set rows then throwM (sqlite_constraint ''credentials.id'')
     else modify (\<lambda>s. s\<lparr>st_creds := st_creds s @ [r]\<rparr>))"

definition update_cred :: "string \<Rightarrow> (cred_row \<Rightarrow> cred_row) \<Rightarrow> unit cact" where
  "update_cred cid f = modify (\<lambda>s. s\<lparr>st_creds := update_where (\<lambda>r. cw_id r = cid) f (st_creds s)\<rparr>)"

text \<open>What the row stores: a marker, a reference into Vault, a cipher text or the plain value.\<close>

definition seal_blob :: "store_deps \<Rightarrow> string \<Rightarrow> seal_input \<Rightarrow> string cact" where
  "seal_blob D cid inp =
     (if se_kind inp = ''github-app'' then ret GITHUB_APP_BLOB
      else if sd_vault D \<noteq> None then bindM (vault_put D cid (b64_encode (se_plaintext inp))) (\<lambda>_. ret (VAULT_REF_PREFIX @ cid))
      else if sd_dataKey D \<noteq> None then encrypt D (se_plaintext inp)
      else ret (PLAINTEXT_PREFIX @ b64_encode (se_plaintext inp)))"

definition seal :: "store_deps \<Rightarrow> seal_input \<Rightarrow> credential_ref cact" where
  "seal D inp = bindM mint_cred (\<lambda>n. (let cid = credId D n in
     bindM (seal_blob D cid inp) (\<lambda>blob.
     bindM (gets st_clock) (\<lambda>now.
     bindM (insert_cred (cred_row_of cid inp blob now)) (\<lambda>_.
     bindM (audit_cred ''credential.created'' cid None (JObj [(''kind'', JStr (se_kind inp)),
              (''fingerprint'', JStr (se_fingerprint inp)), (''subject'', subject_json (se_subject inp)),
              (''purpose'', JStr (se_purpose inp))])) (\<lambda>_.
     ret (toRef (cred_row_of cid inp blob now))))))))"

definition liveRow :: "store \<Rightarrow> string \<Rightarrow> cred_row option" where
  "liveRow s cid = List.find (\<lambda>r. cw_id r = cid \<and> cw_deleted r = None) (st_creds s)"

definition no_app_text :: "string \<Rightarrow> string" where
  "no_app_text cid = ''credential '' @ cid @ '' is the platform's GitHub App, and this Manager holds no GitHub App identity: set GITHUB_APP_ID, GITHUB_APP_INSTALLATION_ID and GITHUB_APP_PRIVATE_KEY and restart it''"

definition open_value :: "store_deps \<Rightarrow> string \<Rightarrow> cred_row \<Rightarrow> string cact" where
  "open_value D cid r =
     (if cw_kind r = ''github-app'' then
        (case sd_app D of
           None \<Rightarrow> throwM (App (NotConfigured (no_app_text cid)))
         | Some token \<Rightarrow> liftE token)
      else (case cw_blob r of
         None \<Rightarrow> throwM (App (Internal (''credential '' @ cid @ '' has an unrecognized blob format'')))
       | Some blob \<Rightarrow>
           if startsWith blob VAULT_REF_PREFIX then
             (if sd_vault D = None then throwM (App (Internal (''credential '' @ cid @ '' lives in Vault but no Vault backend is configured'')))
              else bindM (vault_get D (drop (length VAULT_REF_PREFIX) blob)) (\<lambda>v.
                (case v of None \<Rightarrow> throwM (App (NotFound (''credential '' @ cid @ '' value missing from Vault'')))
                 | Some v \<Rightarrow> ret (b64_decode v))))
           else if startsWith blob V1_PREFIX then liftE (decrypt D blob)
           else if startsWith blob PLAINTEXT_PREFIX then ret (b64_decode (drop (length PLAINTEXT_PREFIX) blob))
           else throwM (App (Internal (''credential '' @ cid @ '' has an unrecognized blob format'')))))"

definition open_cred :: "store_deps \<Rightarrow> string \<Rightarrow> use_context \<Rightarrow> string cact" where
  "open_cred D cid use = bindM (gets (\<lambda>s. liveRow s cid)) (\<lambda>row.
     (case row of
        None \<Rightarrow> throwM (App (NotFound (''credential '' @ cid @ '' not found'')))
      | Some r \<Rightarrow>
          if cw_revokedAt r \<noteq> None then throwM (App (NotFound (''credential '' @ cid @ '' is revoked'')))
          else bindM (open_value D cid r) (\<lambda>plain.
               bindM (gets st_clock) (\<lambda>now.
               bindM (update_cred cid (\<lambda>r. r\<lparr>cw_lastUsedAt := Some now\<rparr>)) (\<lambda>_.
               bindM (audit_cred ''credential.used'' cid
                        (case uc_runId use of Some r \<Rightarrow> if r \<noteq> [] then Some r else None | None \<Rightarrow> None)
                        (JObj [(''purpose'', JStr (uc_purpose use)), (''fingerprint'', JStr (cw_fingerprint r))])) (\<lambda>_.
               ret plain))))))"

definition withOpened :: "store_deps \<Rightarrow> string \<Rightarrow> use_context \<Rightarrow> (string \<Rightarrow> 'a cact) \<Rightarrow> 'a cact" where
  "withOpened D cid use fn = bindM (open_cred D cid use) fn"

definition rotate_cred :: "store_deps \<Rightarrow> string \<Rightarrow> string \<Rightarrow> string \<Rightarrow> string option \<Rightarrow> credential_ref cact" where
  "rotate_cred D oldId plaintext fingerprint publicKey = bindM (gets (\<lambda>s. liveRow s oldId)) (\<lambda>row.
     (case row of
        None \<Rightarrow> throwM (App (NotFound (''credential '' @ oldId @ '' not found'')))
      | Some old \<Rightarrow>
          bindM (seal D \<lparr>se_kind = cw_kind old, se_label = cw_label old, se_plaintext = plaintext, se_fingerprint = fingerprint,
                   se_subject = \<lparr>su_kind = cw_subjectKind old, su_id = cw_subjectId old\<rparr>, se_purpose = cw_purpose old,
                   se_publicKey = (case publicKey of Some k \<Rightarrow> if k \<noteq> [] then Some k else None | None \<Rightarrow> None)\<rparr>) (\<lambda>ref.
          bindM (gets st_clock) (\<lambda>now.
          bindM (update_cred oldId (\<lambda>r. r\<lparr>cw_rotatedAt := Some now\<rparr>)) (\<lambda>_.
          bindM (audit_cred ''credential.rotated'' (cr_id ref) None
                   (JObj [(''supersedes'', JStr oldId), (''fingerprint'', JStr fingerprint)])) (\<lambda>_.
          ret ref))))))"

definition revoke_cred :: "string \<Rightarrow> string \<Rightarrow> unit cact" where
  "revoke_cred cid reason = bindM (gets (\<lambda>s. liveRow s cid)) (\<lambda>row.
     (case row of
        None \<Rightarrow> throwM (App (NotFound (''credential '' @ cid @ '' not found'')))
      | Some r \<Rightarrow> bindM (gets st_clock) (\<lambda>now.
          bindM (update_cred cid (\<lambda>r. r\<lparr>cw_revokedAt := Some now\<rparr>)) (\<lambda>_.
          audit_cred ''credential.revoked'' cid None (JObj [(''reason'', JStr reason)])))))"

definition purge_cred :: "store_deps \<Rightarrow> string \<Rightarrow> unit cact" where
  "purge_cred D cid = bindM (gets (\<lambda>s. liveRow s cid)) (\<lambda>row.
     (case row of
        None \<Rightarrow> ret ()
      | Some r \<Rightarrow>
          bindM (case cw_blob r of
                   Some blob \<Rightarrow> if startsWith blob VAULT_REF_PREFIX \<and> sd_vault D \<noteq> None
                     then vault_delete D (drop (length VAULT_REF_PREFIX) blob) else ret ()
                 | None \<Rightarrow> ret ()) (\<lambda>_.
          bindM (gets st_clock) (\<lambda>now.
          bindM (update_cred cid (\<lambda>r. r\<lparr>cw_blob := None, cw_deleted := Some now\<rparr>)) (\<lambda>_.
          audit_cred ''credential.purged'' cid None
            (JObj [(''kind'', JStr (cw_kind r)), (''fingerprint'', JStr (cw_fingerprint r))]))))))"

record cred_filter =
  cf_subject :: "credential_subject option"
  cf_purpose :: "string option"
  cf_kind :: "string option"
  cf_excludeRotated :: bool

definition filter_admits :: "cred_filter \<Rightarrow> cred_row \<Rightarrow> bool" where
  "filter_admits f r = (unrevoked r \<and>
     (case cf_subject f of None \<Rightarrow> True | Some su \<Rightarrow> cw_subjectKind r = su_kind su \<and> cw_subjectId r = su_id su) \<and>
     (case cf_purpose f of None \<Rightarrow> True | Some p \<Rightarrow> p = [] \<or> cw_purpose r = p) \<and>
     (case cf_kind f of None \<Rightarrow> True | Some k \<Rightarrow> k = [] \<or> cw_kind r = k) \<and>
     (cf_excludeRotated f \<longrightarrow> cw_rotatedAt r = None))"

definition list_creds :: "store \<Rightarrow> cred_filter \<Rightarrow> credential_ref list" where
  "list_creds s f = map toRef (by_age (filter (filter_admits f) (st_creds s)))"


section \<open>Base64 round trip\<close>

lemma b64_index_char: "length bs = 6 \<Longrightarrow> b64_index (b64_char bs) = Some bs"
proof -
  assume "length bs = 6"
  then have "bs \<in> set six_bits"
    by (auto simp: six_bits_def set_n_lists image_iff intro!: exI [of _ "rev bs"])
  moreover have "list_all (\<lambda>bs. b64_index (b64_char bs) = Some bs) six_bits" by code_simp
  ultimately show ?thesis by (simp add: list_all_iff)
qed

lemma b64_index_pad: "b64_index CHR ''='' = None"
  by code_simp

lemma char_bits_length [simp]: "length (char_bits c) = 8"
  by (cases c) simp

lemma bytes_of_char_bits: "bytes_of_bits (char_bits c @ bs) = c # bytes_of_bits bs"
  by (cases c) simp

lemma bytes_of_short: "length bs < 8 \<Longrightarrow> bytes_of_bits bs = []"
  by (cases bs rule: bytes_of_bits.cases) auto

lemma bytes_of_text: "length bs < 8 \<Longrightarrow> bytes_of_bits (concat (map char_bits s) @ bs) = s"
  by (induction s) (simp_all add: bytes_of_char_bits bytes_of_short)

lemma sextets_concat: "\<exists>k < 6. concat (sextets bs) = bs @ replicate k False"
proof (induction bs rule: sextets.induct [case_names six none one two three four five])
  case (one v)
  show ?case by (intro exI [of _ 5]) simp
next
  case (two v vb)
  show ?case by (intro exI [of _ 4]) simp
next
  case (three v vb vd)
  show ?case by (intro exI [of _ 3]) simp
next
  case (four v vb vd vf)
  show ?case by (intro exI [of _ 2]) simp
next
  case (five v vb vd vf vh)
  show ?case by (intro exI [of _ 1]) simp
qed auto

lemma sextets_six: "ss \<in> set (sextets bs) \<Longrightarrow> length ss = 6"
  by (induction bs rule: sextets.induct) auto

lemma map_filter_append: "List.map_filter f (xs @ ys) = List.map_filter f xs @ List.map_filter f ys"
  by (induction xs) (auto simp: List.map_filter_simps split: option.splits)

lemma map_filter_chars: "(\<And>s. s \<in> set ss \<Longrightarrow> length s = 6) \<Longrightarrow> List.map_filter b64_index (map b64_char ss) = ss"
  by (induction ss) (auto simp: List.map_filter_simps b64_index_char)

lemma map_filter_pad: "List.map_filter b64_index (replicate k CHR ''='') = []"
  by (induction k) (auto simp: List.map_filter_simps b64_index_pad)

lemma b64_round_trip: "b64_decode (b64_encode s) = s"
proof -
  obtain k where k: "k < 6" "concat (sextets (concat (map char_bits s))) = concat (map char_bits s) @ replicate k False"
    using sextets_concat by blast
  have "List.map_filter b64_index (b64_encode s) = sextets (concat (map char_bits s))"
    unfolding b64_encode_def map_filter_append map_filter_pad append_Nil2
    by (rule map_filter_chars) (rule sextets_six)
  then show ?thesis using k bytes_of_text [of "replicate k False" s] by (simp add: b64_decode_def)
qed

section \<open>What is sealed opens again\<close>

text \<open>What the store relies on: an authenticated cipher that opens what it sealed, with a tag of 16 bytes and nonces of 12.\<close>

definition aead_ok :: "store_deps \<Rightarrow> bool" where
  "aead_ok D \<longleftrightarrow> (\<forall>k iv p. length (fst (gcm_seal D k iv p)) = 16 \<and>
     gcm_open D k iv (fst (gcm_seal D k iv p)) (snd (gcm_seal D k iv p)) = Some p) \<and> (\<forall>n. length (random12 D n) = 12)"

lemma drop_prefix [simp]: "startsWith (p @ x) p" "drop (length p) (p @ x) = x"
  by (simp_all add: startsWith_def)

lemma decrypt_encrypt:
  assumes "aead_ok D" and "sd_dataKey D = Some k"
  shows "\<exists>x. encrypt D p s = (Inr (V1_PREFIX @ x), s\<lparr>st_minted := Suc (st_minted s)\<rparr>) \<and> decrypt D (V1_PREFIX @ x) = Inr p"
proof -
  let ?iv = "random12 D (st_minted s)" and ?e = "gcm_seal D k (random12 D (st_minted s)) p"
  have len: "length ?iv = 12" "length (fst ?e) = 16" and op: "gcm_open D k ?iv (fst ?e) (snd ?e) = Some p"
    using assms(1) by (simp_all add: aead_ok_def)
  have "take 16 (drop 12 (?iv @ fst ?e @ snd ?e)) = fst ?e" "drop 28 (?iv @ fst ?e @ snd ?e) = snd ?e"
    "take 12 (?iv @ fst ?e @ snd ?e) = ?iv"
    using len by simp_all
  then have "decrypt D (V1_PREFIX @ b64_encode (?iv @ fst ?e @ snd ?e)) = Inr p"
    using assms(2) op by (simp add: decrypt_def Let_def b64_round_trip)
  then show ?thesis
    using assms(2) by (simp add: encrypt_def mint_cred_def bindM_def Let_def split_beta)
qed

text \<open>Sealing answers a blob that opens to the value wherever the Vault entries are those it left.\<close>

lemma seal_blob_opens:
  assumes "aead_ok D" and "\<And>e. sd_vault D \<noteq> Some (Some e)" and kind: "se_kind inp \<noteq> ''github-app''"
  shows "\<exists>blob v n. seal_blob D cid inp s = (Inr blob, s\<lparr>st_vault := v, st_minted := n\<rparr>) \<and>
    (\<forall>r t. cw_kind r = se_kind inp \<longrightarrow> cw_blob r = Some blob \<longrightarrow> st_vault t = v \<longrightarrow> open_value D cid r t = (Inr (se_plaintext inp), t))"
proof -
  have pre: "\<not> startsWith (V1_PREFIX @ x) VAULT_REF_PREFIX" "\<not> startsWith (PLAINTEXT_PREFIX @ x) VAULT_REF_PREFIX"
    "\<not> startsWith (PLAINTEXT_PREFIX @ x) V1_PREFIX" for x
    by (simp_all add: startsWith_def V1_PREFIX_def VAULT_REF_PREFIX_def PLAINTEXT_PREFIX_def)
  consider "sd_vault D = Some None" | k where "sd_vault D = None" "sd_dataKey D = Some k" | "sd_vault D = None" "sd_dataKey D = None"
    using assms(2) by (metis option.exhaust)
  then show ?thesis
  proof cases
    case 1
    then show ?thesis using kind
      by (intro exI [of _ "VAULT_REF_PREFIX @ cid"] exI [of _ "(cid, b64_encode (se_plaintext inp)) # filter (\<lambda>p. fst p \<noteq> cid) (st_vault s)"]
          exI [of _ "st_minted s"])
        (auto simp: seal_blob_def vault_put_def vault_get_def open_value_def bindM_def b64_round_trip)
  next
    case 2
    from decrypt_encrypt [OF assms(1) 2(2)] obtain x where
      "encrypt D (se_plaintext inp) s = (Inr (V1_PREFIX @ x), s\<lparr>st_minted := Suc (st_minted s)\<rparr>)"
      "decrypt D (V1_PREFIX @ x) = Inr (se_plaintext inp)" by blast
    with 2 show ?thesis using kind pre
      by (intro exI [of _ "V1_PREFIX @ x"] exI [of _ "st_vault s"] exI [of _ "Suc (st_minted s)"])
        (auto simp: seal_blob_def open_value_def)
  next
    case 3
    then show ?thesis using kind pre
      by (intro exI [of _ "PLAINTEXT_PREFIX @ b64_encode (se_plaintext inp)"] exI [of _ "st_vault s"] exI [of _ "st_minted s"])
        (auto simp: seal_blob_def open_value_def b64_round_trip)
  qed
qed

lemma find_behind: "List.find P xs = None \<Longrightarrow> List.find P (xs @ ys) = List.find P ys"
  by (induction xs) (auto split: if_splits)

lemma insert_cred_run:
  "cw_id r \<notin> cw_id ` set (st_creds s) \<Longrightarrow> insert_cred r s = (Inr (), s\<lparr>st_creds := st_creds s @ [r]\<rparr>)"
  by (simp add: insert_cred_def)

text \<open>
  C24 What is sealed opens again, byte for byte, in every keystore mode: the value kept in Vault, encrypted under the data key, or
  written out. The hypotheses are that the cipher opens what it sealed, that Vault answers and that the minted id is new.
\<close>

theorem seal_then_open:
  assumes "aead_ok D" and "\<And>e. sd_vault D \<noteq> Some (Some e)" and "se_kind inp \<noteq> ''github-app''"
    and "credId D (st_minted s) \<notin> cw_id ` set (st_creds s)"
  shows "\<exists>ref s1 s2. seal D inp s = (Inr ref, s1) \<and> open_cred D (cr_id ref) use s1 = (Inr (se_plaintext inp), s2)"
proof -
  let ?cid = "credId D (st_minted s)" and ?s0 = "s\<lparr>st_minted := Suc (st_minted s)\<rparr>"
  from seal_blob_opens [OF assms(1-3), of ?cid ?s0] obtain blob v n where
    blob: "seal_blob D ?cid inp ?s0 = (Inr blob, ?s0\<lparr>st_vault := v, st_minted := n\<rparr>)" and
    opens: "\<And>r t. cw_kind r = se_kind inp \<Longrightarrow> cw_blob r = Some blob \<Longrightarrow> st_vault t = v \<Longrightarrow>
      open_value D ?cid r t = (Inr (se_plaintext inp), t)" by blast
  let ?row = "cred_row_of ?cid inp blob (st_clock s)"
  have row: "cw_id ?row = ?cid" "cw_kind ?row = se_kind inp" "cw_blob ?row = Some blob" "cw_deleted ?row = None"
    "cw_revokedAt ?row = None" "cr_id (toRef ?row) = ?cid"
    by (simp_all add: cred_row_of_def toRef_def)
  let ?s1 = "(?s0\<lparr>st_vault := v, st_minted := n\<rparr>)\<lparr>st_creds := st_creds s @ [?row]\<rparr>"
  have ins: "insert_cred ?row (?s0\<lparr>st_vault := v, st_minted := n\<rparr>) = (Inr (), ?s1)"
    using assms(4) by (subst insert_cred_run) (simp_all add: row)
  have "\<exists>a. seal D inp s = (Inr (toRef ?row), ?s1\<lparr>st_audit := a\<rparr>)"
    using blob ins by (simp add: seal_def mint_cred_def Let_def bindM_def audit_cred_def) (rule exI, rule refl)
  then obtain a where seal: "seal D inp s = (Inr (toRef ?row), ?s1\<lparr>st_audit := a\<rparr>)" by blast
  have "liveRow (?s1\<lparr>st_audit := a\<rparr>) ?cid = Some ?row"
  proof -
    have "List.find (\<lambda>r. cw_id r = ?cid \<and> cw_deleted r = None) (st_creds s) = None"
      using assms(4) by (auto simp: find_None_iff image_iff)
    then show ?thesis by (simp add: liveRow_def find_behind row)
  qed
  then have "\<exists>s2. open_cred D ?cid use (?s1\<lparr>st_audit := a\<rparr>) = (Inr (se_plaintext inp), s2)"
    using opens [of ?row] by (simp add: open_cred_def row bindM_def update_cred_def audit_cred_def)
  then show ?thesis using seal row(6) by (metis (no_types, lifting))
qed

definition toy_store :: store_deps where
  "toy_store = \<lparr>sd_dataKey = Some (replicate 32 CHR ''k''), sd_vault = None, sd_app = None,
     gcm_seal = (\<lambda>k iv p. (replicate 16 CHR ''t'', rev p)), gcm_open = (\<lambda>k iv tag c. Some (rev c)),
     random12 = (\<lambda>_. replicate 12 CHR ''r''), cred_ulid = show_nat\<rparr>"

definition toy_input :: seal_input where
  "toy_input = \<lparr>se_kind = ''ssh_key'', se_label = ''key'', se_plaintext = ''hunter22'', se_fingerprint = ''fp'',
     se_subject = \<lparr>su_kind = ''server'', su_id = ''srv_1''\<rparr>, se_purpose = ''ssh-key'', se_publicKey = None\<rparr>"

definition no_creds :: store where
  "no_creds = \<lparr>st_creds = [], st_vault = [], st_audit = [], st_mode = None, st_clock = 5, st_minted = 0\<rparr>"

theorem seal_then_open_witness:
  "\<exists>ref s1 s2. seal toy_store toy_input no_creds = (Inr ref, s1) \<and>
     open_cred toy_store (cr_id ref) \<lparr>uc_purpose = ''run:ssh'', uc_runId = None\<rparr> s1 = (Inr ''hunter22'', s2)"
  using seal_then_open [of toy_store toy_input no_creds "\<lparr>uc_purpose = ''run:ssh'', uc_runId = None\<rparr>"]
  by (simp add: aead_ok_def toy_store_def toy_input_def no_creds_def)

section \<open>What was taken back stays closed\<close>

lemma liveRow_in: "liveRow s cid = Some r \<Longrightarrow> r \<in> set (st_creds s) \<and> cw_id r = cid \<and> cw_deleted r = None"
  by (auto simp: liveRow_def dest: find_Some_in)

lemma listed_stands: "ref \<in> set (list_creds s f) \<Longrightarrow> \<exists>r \<in> set (st_creds s). cr_id ref = cw_id r \<and> unrevoked r"
  by (auto simp: list_creds_def by_age_def filter_admits_def toRef_def)

text \<open>
  A purged credential is gone: once a purge went through, no row of that id holds a value, its Vault entry is erased where a Vault is
  configured, every later open is refused as not found, and no list names it, whatever its filter.
\<close>

lemma purged_credential_is_gone:
  assumes "purge_cred D cid s = (Inr (), s')"
  shows "fst (open_cred D cid use s') = Inl (App (NotFound (''credential '' @ cid @ '' not found''))) \<and>
     (\<forall>ref \<in> set (list_creds s' f). cr_id ref \<noteq> cid) \<and>
     (\<forall>r. liveRow s cid = Some r \<longrightarrow> (\<forall>q \<in> set (st_creds s'). cw_id q = cid \<longrightarrow> cw_blob q = None) \<and>
        (\<forall>k. sd_vault D \<noteq> None \<longrightarrow> cw_blob r = Some (VAULT_REF_PREFIX @ k) \<longrightarrow> map_of (st_vault s') k = None))"
proof (cases "liveRow s cid")
  case None
  then have "s' = s" using assms by (simp add: purge_cred_def)
  moreover have "cw_deleted r \<noteq> None" if "r \<in> set (st_creds s)" "cw_id r = cid" for r
    using None that by (auto simp: liveRow_def find_None_iff)
  ultimately show ?thesis
    using None listed_stands [of _ s f] by (fastforce simp: open_cred_def unrevoked_def)
next
  case (Some r)
  let ?g = "\<lambda>r. r\<lparr>cw_blob := None, cw_deleted := Some (st_clock s)\<rparr>"
  have rows: "st_creds s' = update_where (\<lambda>r. cw_id r = cid) ?g (st_creds s)"
    and vault: "\<forall>k. sd_vault D \<noteq> None \<longrightarrow> cw_blob r = Some (VAULT_REF_PREFIX @ k) \<longrightarrow> map_of (st_vault s') k = None"
    using assms Some
    by (auto simp: purge_cred_def bindM_def vault_delete_def update_cred_def audit_cred_def map_of_eq_None_iff
        split: option.splits if_splits prod.splits sum.splits)
  have gone: "cw_blob q = None \<and> cw_deleted q \<noteq> None" if q: "q \<in> set (st_creds s')" "cw_id q = cid" for q
  proof -
    from q(1) obtain x where "q = (if cw_id x = cid then ?g x else x)" unfolding rows set_update_where by blast
    with q(2) show ?thesis by (cases "cw_id x = cid") simp_all
  qed
  then have "liveRow s' cid = None" by (auto simp: liveRow_def find_None_iff)
  moreover have "cr_id ref \<noteq> cid" if "ref \<in> set (list_creds s' f)" for ref
    using listed_stands [OF that] gone by (metis unrevoked_def)
  ultimately show ?thesis using gone vault Some by (auto simp: open_cred_def)
qed

definition toy_cred :: cred_row where
  "toy_cred = cred_row_of ''cred_1'' toy_input (PLAINTEXT_PREFIX @ ''aA=='') 4"

lemma purged_credential_is_gone_instance:
  "fst (open_cred toy_store ''cred_1'' \<lparr>uc_purpose = [], uc_runId = None\<rparr> (snd (purge_cred toy_store ''cred_1'' (no_creds\<lparr>st_creds := [toy_cred]\<rparr>)))) =
     Inl (App (NotFound ''credential cred_1 not found''))"
proof -
  obtain s' where s': "purge_cred toy_store ''cred_1'' (no_creds\<lparr>st_creds := [toy_cred]\<rparr>) = (Inr (), s')"
    by (auto simp: purge_cred_def toy_store_def liveRow_def toy_cred_def cred_row_of_def bindM_def update_cred_def audit_cred_def)
  from purged_credential_is_gone [OF s', of "\<lparr>uc_purpose = [], uc_runId = None\<rparr>"] show ?thesis by (simp add: s')
qed

lemma by_age_last:
  assumes "\<And>q. q \<in> set rows \<Longrightarrow> (cw_creation q, cw_id q) \<le> (cw_creation r, cw_id r)"
  shows "by_age (rows @ [r]) = by_age rows @ [r]"
proof -
  have "insort_key (\<lambda>r. (cw_creation r, cw_id r)) x (zs @ [r]) = insort_key (\<lambda>r. (cw_creation r, cw_id r)) x zs @ [r]"
    if "(cw_creation x, cw_id x) \<le> (cw_creation r, cw_id r)" for x zs
    using that by (induction zs) auto
  then show ?thesis using assms unfolding by_age_def by (induction rows) auto
qed

lemma rotate_run:
  assumes "rotate_cred D oldId plaintext fp pk s = (Inr ref, s')"
  shows "\<exists>old row. liveRow s oldId = Some old \<and> cw_id row = credId D (st_minted s) \<and> cw_creation row = st_clock s \<and> ref = toRef row \<and>
     unrevoked row \<and> cw_rotatedAt row = None \<and> cw_subjectKind row = cw_subjectKind old \<and> cw_subjectId row = cw_subjectId old \<and>
     cw_purpose row = cw_purpose old \<and> cw_kind row = cw_kind old \<and> cw_id row \<notin> cw_id ` set (st_creds s) \<and>
     st_creds s' = update_where (\<lambda>r. cw_id r = oldId) (\<lambda>r. r\<lparr>cw_rotatedAt := Some (st_clock s)\<rparr>) (st_creds s @ [row])"
proof -
  obtain old where old: "liveRow s oldId = Some old"
    using assms by (cases "liveRow s oldId") (auto simp: rotate_cred_def)
  define inp where "inp = \<lparr>se_kind = cw_kind old, se_label = cw_label old, se_plaintext = plaintext, se_fingerprint = fp,
     se_subject = \<lparr>su_kind = cw_subjectKind old, su_id = cw_subjectId old\<rparr>, se_purpose = cw_purpose old,
     se_publicKey = (case pk of Some k \<Rightarrow> if k \<noteq> [] then Some k else None | None \<Rightarrow> None)\<rparr>"
  from assms old obtain s1 where s1: "seal D inp s = (Inr ref, s1)"
    and s': "st_creds s' = update_where (\<lambda>r. cw_id r = oldId) (\<lambda>r. r\<lparr>cw_rotatedAt := Some (st_clock s1)\<rparr>) (st_creds s1)"
    by (auto simp: rotate_cred_def inp_def bindM_def update_cred_def audit_cred_def split: prod.splits sum.splits)
  from s1 obtain blob s0 where blob: "seal_blob D (credId D (st_minted s)) inp (s\<lparr>st_minted := Suc (st_minted s)\<rparr>) = (Inr blob, s0)"
    and row: "ref = toRef (cred_row_of (credId D (st_minted s)) inp blob (st_clock s0))"
      "credId D (st_minted s) \<notin> cw_id ` set (st_creds s0)"
      "st_creds s1 = st_creds s0 @ [cred_row_of (credId D (st_minted s)) inp blob (st_clock s0)]" "st_clock s1 = st_clock s0"
    by (auto simp: seal_def mint_cred_def Let_def bindM_def insert_cred_def audit_cred_def cred_row_of_def split: prod.splits sum.splits if_splits)
  have "st_creds s0 = st_creds s \<and> st_clock s0 = st_clock s"
    using blob by (auto simp: seal_blob_def vault_put_def encrypt_def mint_cred_def bindM_def Let_def split: if_splits option.splits prod.splits)
  then show ?thesis
    using old row s' by (intro exI [of _ old] exI [of _ "cred_row_of (credId D (st_minted s)) inp blob (st_clock s0)"])
      (simp add: cred_row_of_def inp_def unrevoked_def)
qed

text \<open>
  After a rotation the machine is reached with the new key. When the minted id and the clock are ahead of what the table holds, as
  monotonic ids and the database clock are, the last entry of the list \<^verbatim>\<open>ctx.ssh()\<close> picks from is the credential the rotation
  sealed, and the superseded one is not in that list at all.
\<close>


lemma rotation_hands_out_the_new_key:
  assumes "rotate_cred D oldId plaintext fp pk s = (Inr ref, s')"
    and "liveRow s oldId = Some old"
    and "\<And>r. r \<in> set (st_creds s) \<Longrightarrow> cw_creation r \<le> st_clock s \<and> cw_id r < credId D (st_minted s)"
    and "f = \<lparr>cf_subject = Some \<lparr>su_kind = cw_subjectKind old, su_id = cw_subjectId old\<rparr>, cf_purpose = Some (cw_purpose old),
              cf_kind = None, cf_excludeRotated = True\<rparr>"
  shows "list_creds s' f \<noteq> [] \<and> last (list_creds s' f) = ref \<and> cr_id ref = credId D (st_minted s) \<and>
     (\<forall>q \<in> set (list_creds s' f). cr_id q \<noteq> oldId)"
proof -
  let ?g = "\<lambda>r. r\<lparr>cw_rotatedAt := Some (st_clock s)\<rparr>"
  from rotate_run [OF assms(1)] assms(2) obtain row where row: "cw_id row = credId D (st_minted s)" "cw_creation row = st_clock s"
    "ref = toRef row" "unrevoked row" "cw_rotatedAt row = None" "cw_subjectKind row = cw_subjectKind old"
    "cw_subjectId row = cw_subjectId old" "cw_purpose row = cw_purpose old" "cw_id row \<notin> cw_id ` set (st_creds s)"
    "st_creds s' = update_where (\<lambda>r. cw_id r = oldId) ?g (st_creds s @ [row])" by auto
  have "oldId \<noteq> cw_id row" using liveRow_in [OF assms(2)] row(9) by (metis imageI)
  then have creds: "st_creds s' = update_where (\<lambda>r. cw_id r = oldId) ?g (st_creds s) @ [row]" by (simp add: row(10))
  have admits: "filter_admits f row" using row(4-8) by (simp add: filter_admits_def assms(4))
  let ?rest = "filter (filter_admits f) (update_where (\<lambda>r. cw_id r = oldId) ?g (st_creds s))"
  have old_out: "cw_id q \<noteq> oldId \<and> (cw_creation q, cw_id q) \<le> (cw_creation row, cw_id row)" if "q \<in> set ?rest" for q
  proof -
    from that obtain x where x: "x \<in> set (st_creds s)" "q = (if cw_id x = oldId then ?g x else x)" "filter_admits f q"
      unfolding set_filter set_update_where by blast
    have "cw_id x \<noteq> oldId"
    proof
      assume "cw_id x = oldId"
      then have "cw_rotatedAt q \<noteq> None" using x(2) by simp
      then show False using x(3) by (simp add: filter_admits_def assms(4))
    qed
    then have "q = x" using x(2) by simp
    then show ?thesis using \<open>cw_id x \<noteq> oldId\<close> assms(3) [OF x(1)] row(1,2) by auto
  qed
  have "by_age (?rest @ [row]) = by_age ?rest @ [row]" using old_out by (intro by_age_last) auto
  then have "list_creds s' f = map toRef (by_age ?rest) @ [ref]" by (simp add: list_creds_def creds admits row(3))
  moreover have "cr_id q \<noteq> oldId" if "q \<in> set (map toRef (by_age ?rest))" for q
  proof -
    from that obtain r where r: "r \<in> set ?rest" "q = toRef r" unfolding by_age_def set_map set_sort by blast
    from old_out [OF r(1)] show ?thesis by (simp add: r(2) toRef_def)
  qed
  ultimately show ?thesis using row(1,3) \<open>oldId \<noteq> cw_id row\<close> by (auto simp: toRef_def)
qed

lemma rotation_hands_out_the_new_key_instance:
  "\<exists>ref s'. rotate_cred (toy_store\<lparr>sd_dataKey := None\<rparr>) ''cred_1'' ''pw'' ''fp2'' None (no_creds\<lparr>st_creds := [toy_cred], st_minted := 2\<rparr>) = (Inr ref, s') \<and>
     cr_id ref = ''cred_2'' \<and>
     last (list_creds s' \<lparr>cf_subject = Some \<lparr>su_kind = ''server'', su_id = ''srv_1''\<rparr>, cf_purpose = Some ''ssh-key'', cf_kind = None, cf_excludeRotated = True\<rparr>) = ref"
proof -
  let ?D = "toy_store\<lparr>sd_dataKey := None\<rparr>" and ?s = "no_creds\<lparr>st_creds := [toy_cred], st_minted := 2\<rparr>"
  have n: "show_nat 2 = ''2''" by code_simp
  have "\<exists>ref s'. rotate_cred ?D ''cred_1'' ''pw'' ''fp2'' None ?s = (Inr ref, s')"
    by (simp add: rotate_cred_def liveRow_def toy_cred_def cred_row_of_def toy_input_def toy_store_def no_creds_def seal_def seal_blob_def
        mint_cred_def Let_def bindM_def insert_cred_def audit_cred_def update_cred_def credId_def n)
  then obtain ref s' where r: "rotate_cred ?D ''cred_1'' ''pw'' ''fp2'' None ?s = (Inr ref, s')" by blast
  have l: "liveRow ?s ''cred_1'' = Some toy_cred" by (simp add: liveRow_def toy_cred_def cred_row_of_def)
  have i: "credId ?D 2 = ''cred_2''" by (simp add: credId_def toy_store_def n)
  have o: "cw_creation q \<le> st_clock ?s \<and> cw_id q < credId ?D (st_minted ?s)" if "q \<in> set (st_creds ?s)" for q
    using that by (simp add: i toy_cred_def cred_row_of_def no_creds_def less_char_def)
  from rotation_hands_out_the_new_key [OF r l o refl] r show ?thesis
    by (simp add: i) (simp add: toy_cred_def cred_row_of_def toy_input_def)
qed
end
