(* ===== verification/Texts.thy ===== *)
theory Texts
  imports Manager_Prelude "HOL-Library.Char_ord" "HOL-Library.List_Lexorder" "HOL-Library.Multiset"
begin

text \<open>
  Texts and lists the way JavaScript handles them, beyond what the executor needs: decimal digits, lower case, substrings, replacement of
  characters and \<^verbatim>\<open>Array.prototype.sort\<close> with a comparator. Texts are compared by their characters' codes.
\<close>

section \<open>Characters and substrings\<close>

definition lower_char :: "char \<Rightarrow> char" where
  "lower_char c = (if CHR ''A'' \<le> c \<and> c \<le> CHR ''Z'' then char_of (of_char c + 32 :: nat) else c)"

definition toLowerCase :: "string \<Rightarrow> string" where
  "toLowerCase = map lower_char"

definition is_digit :: "char \<Rightarrow> bool" where
  "is_digit c \<longleftrightarrow> CHR ''0'' \<le> c \<and> c \<le> CHR ''9''"

definition digits :: "nat \<Rightarrow> string \<Rightarrow> bool" where
  "digits n s \<longleftrightarrow> length s = n \<and> list_all is_digit s"

definition digit_value :: "char \<Rightarrow> nat" where
  "digit_value c = of_char c - 48"

definition number_of :: "string \<Rightarrow> nat" where
  "number_of s = foldl (\<lambda>n c. 10 * n + digit_value c) 0 s"

definition padStart :: "nat \<Rightarrow> char \<Rightarrow> string \<Rightarrow> string" where
  "padStart n c s = replicate (n - length s) c @ s"

definition endsWith :: "string \<Rightarrow> string \<Rightarrow> bool" where
  "endsWith s p = (take (length p) (rev s) = rev p)"

fun has_substring :: "string \<Rightarrow> string \<Rightarrow> bool" where
  "has_substring [] p = (p = [])"
| "has_substring (c # cs) p = (startsWith (c # cs) p \<or> has_substring cs p)"

text \<open>\<^verbatim>\<open>xs.slice(0, -n)\<close>\<close>

definition drop_last :: "nat \<Rightarrow> 'a list \<Rightarrow> 'a list" where
  "drop_last n xs = take (length xs - n) xs"

lemma endsWith_append [simp]: "endsWith (a @ b) b"
  by (simp add: endsWith_def)

lemma endsWith_split: "endsWith s p \<longleftrightarrow> (\<exists>a. s = a @ p)"
proof
  assume "endsWith s p"
  then have "rev s = rev p @ drop (length p) (rev s)" unfolding endsWith_def by (metis append_take_drop_id)
  then have "s = rev (drop (length p) (rev s)) @ p" by (metis rev_append rev_rev_ident)
  then show "\<exists>a. s = a @ p" by blast
qed auto

lemma drop_last_append [simp]: "drop_last (length b) (a @ b) = a"
  by (simp add: drop_last_def)

section \<open>Sorting with a comparator\<close>

text \<open>\<^verbatim>\<open>Array.prototype.sort\<close> with a comparator: stable, so insertion from the right.\<close>

fun insert_by :: "('a \<Rightarrow> 'a \<Rightarrow> int) \<Rightarrow> 'a \<Rightarrow> 'a list \<Rightarrow> 'a list" where
  "insert_by cmp x [] = [x]"
| "insert_by cmp x (y # ys) = (if cmp x y \<le> 0 then x # y # ys else y # insert_by cmp x ys)"

definition sort_by :: "('a \<Rightarrow> 'a \<Rightarrow> int) \<Rightarrow> 'a list \<Rightarrow> 'a list" where
  "sort_by cmp xs = foldr (insert_by cmp) xs []"

section \<open>Lemmas\<close>

lemma split_char_whole: "c \<notin> set s \<Longrightarrow> split_char c s = [s]"
  by (induction s) auto

lemma split_char_at: "c \<notin> set s \<Longrightarrow> split_char c (s @ c # rest) = s # split_char c rest"
  by (induction s) auto

lemma number_of_snoc: "number_of (s @ [c]) = 10 * number_of s + digit_value c"
  by (simp add: number_of_def)

lemma digit_char: "n < 10 \<Longrightarrow> digit_value (char_of (48 + n :: nat)) = n \<and> is_digit (char_of (48 + n :: nat))"
  by (auto simp: digit_value_def is_digit_def less_eq_char_def)

lemma show_nat_small: "n < 10 \<Longrightarrow> show_nat n = [char_of (48 + n)]"
  by (subst show_nat.simps) simp

lemma show_nat_large: "\<not> n < 10 \<Longrightarrow> show_nat n = show_nat (n div 10) @ [char_of (48 + n mod 10)]"
  by (subst show_nat.simps) simp

lemma number_of_show: "number_of (show_nat n) = n"
proof (induction n rule: show_nat.induct)
  case (1 n)
  show ?case
  proof (cases "n < 10")
    case True
    then show ?thesis using digit_char [of n] by (simp add: show_nat_small number_of_def)
  next
    case False
    then show ?thesis using 1 digit_char [of "n mod 10"] by (simp add: show_nat_large number_of_snoc)
  qed
qed

lemma digits_no_sign: "list_all is_digit s \<Longrightarrow> CHR ''.'' \<notin> set s \<and> CHR ''-'' \<notin> set s"
  by (induction s) (auto simp: is_digit_def less_eq_char_def)

lemma number_of_zeros: "number_of (replicate k CHR ''0'' @ s) = number_of s"
  by (induction k) (simp_all add: number_of_def digit_value_def)

lemma show_nat_length: "n < 10 ^ k \<Longrightarrow> 0 < k \<Longrightarrow> length (show_nat n) \<le> k"
proof (induction n arbitrary: k rule: show_nat.induct)
  case (1 n)
  show ?case
  proof (cases "n < 10")
    case True
    then show ?thesis using 1(3) by (simp add: show_nat_small)
  next
    case False
    with 1(2) have "k \<noteq> 1" by auto
    with 1(3) obtain j where k: "k = Suc j" "0 < j" by (cases k) auto
    have "n div 10 < 10 ^ j" using 1(2) k by (simp add: div_less_iff_less_mult mult.commute)
    then show ?thesis using 1(1) [OF False, of j] False k by (simp add: show_nat_large)
  qed
qed

lemma insert_by_mset: "mset (insert_by cmp x xs) = add_mset x (mset xs)"
  by (induction xs) auto

lemma sort_by_mset: "mset (sort_by cmp xs) = mset xs"
  by (induction xs) (auto simp: sort_by_def insert_by_mset)

lemma insert_by_sorted:
  assumes "\<And>a b. cmp a b \<le> 0 \<longleftrightarrow> key b \<le> (key a :: 'k :: linorder)"
  shows "sorted_wrt (\<lambda>a b. key b \<le> key a) xs \<Longrightarrow> sorted_wrt (\<lambda>a b. key b \<le> key a) (insert_by cmp x xs)"
proof (induction xs)
  case (Cons y ys)
  have "set (insert_by cmp x ys) = insert x (set ys)" using insert_by_mset [of cmp x ys] by (metis set_mset_add_mset_insert set_mset_mset)
  with Cons show ?case by (auto simp: assms) 
qed simp

lemma sort_by_sorted:
  assumes "\<And>a b. cmp a b \<le> 0 \<longleftrightarrow> key b \<le> (key a :: 'k :: linorder)"
  shows "sorted_wrt (\<lambda>a b. key b \<le> key a) (sort_by cmp xs)"
  by (induction xs) (simp_all add: sort_by_def insert_by_sorted [OF assms])

end
