(* ===== verification/Ssh_Context.thy ===== *)
theory Ssh_Context
  imports Credential_Store Texts
begin

text \<open>
  The SSH sessions of a run (\<^verbatim>\<open>executor/context.ts\<close>: \<^verbatim>\<open>getSsh\<close>, \<^verbatim>\<open>openPasswordSession\<close>, \<^verbatim>\<open>close\<close>) and the identity of the
  machine behind an address (\<^verbatim>\<open>executor/attest.ts\<close>).

  The SSH client is a parameter: \<open>dial\<close> answers a target with the host key the machine presents, with the client's own refusal of a
  pinned key that differs, or with any other error. A session is a number; which sessions are still open is part of the state,
  since a transport may die at any time. The credentials are those of the theory \<^verbatim>\<open>Credential_Store\<close>.
\<close>

section \<open>Targets and sessions\<close>

datatype ssh_auth = AuthKey string | AuthPassword string

record ssh_target =
  tg_host :: string
  tg_port :: nat
  tg_username :: string
  tg_auth :: ssh_auth
  tg_hostKey :: "string option"

datatype dial_answer = Presented string | HostKeyMismatch string string | DialFailed thrown

record ssh_deps =
  sh_store :: store_deps
  sh_runId :: string
  sh_targetServerId :: "string option"
  sh_declared :: "run_target_ref list"
  sh_secrets :: run_secrets
  sh_dial :: "nat \<Rightarrow> ssh_target \<Rightarrow> dial_answer"

record ssh_state =
  sh_servers :: "server_row list"
  sh_creds :: store
  sh_sessions :: "(string \<times> nat) list"
  sh_password :: "nat option"
  sh_open :: "nat list"
  sh_keys :: "(nat \<times> string) list"
  sh_dialed :: "ssh_target list"
  sh_log :: "string list"

text \<open>Sessions are numbered by the dial that opened them: \<open>sh_open\<close> are those whose transport lives, \<open>sh_keys\<close> the keys they presented.\<close>

type_synonym 'a sact = "(ssh_state, 'a) comp"

definition live_server :: "ssh_state \<Rightarrow> string \<Rightarrow> server_row option" where
  "live_server s sid = List.find (\<lambda>r. sv_id r = sid \<and> sv_deleted r = None) (sh_servers s)"

text \<open>The transport the plan declared for a host; of two entries for one host the later one counts, as in a JavaScript map.\<close>

definition transportOf :: "ssh_deps \<Rightarrow> string \<Rightarrow> ssh_transport" where
  "transportOf D sid =
     (case map_of (rev (map (\<lambda>t. (t_serverId t, opt_default TDefault (t_transport t))) (sh_declared D))) sid of
        Some t \<Rightarrow> t | None \<Rightarrow> TDefault)"

definition is_declared :: "ssh_deps \<Rightarrow> string \<Rightarrow> bool" where
  "is_declared D sid = list_ex (\<lambda>t. t_serverId t = sid) (sh_declared D)"

definition say :: "string \<Rightarrow> unit sact" where
  "say line = modify (\<lambda>s. s\<lparr>sh_log := sh_log s @ [line]\<rparr>)"

definition closeSession :: "nat \<Rightarrow> unit sact" where
  "closeSession n = modify (\<lambda>s. s\<lparr>sh_open := filter (\<lambda>m. m \<noteq> n) (sh_open s)\<rparr>)"

definition emitConnecting :: "server_row \<Rightarrow> string \<times> ssh_via \<Rightarrow> unit sact" where
  "emitConnecting sv resolved = say (''Connecting to '' @ sv_name sv @ '' over its '' @ via_label (snd resolved) @ '': '' @
     sv_sshUser sv @ ''@'' @ fst resolved @ '':'' @ show_nat (sv_sshPort sv))"

text \<open>One connect: the target is recorded as dialed, a session that opens is a new number with the key it presented.\<close>

definition connect :: "ssh_deps \<Rightarrow> ssh_target \<Rightarrow> (dial_answer + nat) sact" where
  "connect D t = bindM (gets (\<lambda>s. length (sh_dialed s))) (\<lambda>n.
     bindM (modify (\<lambda>s. s\<lparr>sh_dialed := sh_dialed s @ [t]\<rparr>)) (\<lambda>_.
     (case sh_dial D n t of
        Presented fp \<Rightarrow> bindM (modify (\<lambda>s. s\<lparr>sh_open := n # sh_open s, sh_keys := (n, fp) # sh_keys s\<rparr>)) (\<lambda>_. ret (Inr n))
      | refused \<Rightarrow> ret (Inl refused))))"

definition mismatch_text :: "string \<Rightarrow> string \<Rightarrow> string" where
  "mismatch_text expected found = ''host key mismatch: expected '' @ expected @ '', got '' @ found @ '' (possible MITM)''"

text \<open>\<^verbatim>\<open>server.preflightJson?.hostKey\<close>; an empty key is falsy and counts as none.\<close>

definition pinned_key :: "server_row \<Rightarrow> string option" where
  "pinned_key sv = (case sv_hostKey sv of Some k \<Rightarrow> if k \<noteq> [] then Some k else None | None \<Rightarrow> None)"

section \<open>The key door\<close>

definition on_store :: "'a cact \<Rightarrow> 'a sact" where
  "on_store m s = (case m (sh_creds s) of (r, c) \<Rightarrow> (r, s\<lparr>sh_creds := c\<rparr>))"

definition ssh_keys_of :: "string \<Rightarrow> ssh_state \<Rightarrow> credential_ref list" where
  "ssh_keys_of sid s = list_creds (sh_creds s) \<lparr>cf_subject = Some \<lparr>su_kind = ''server'', su_id = sid\<rparr>,
     cf_purpose = Some ''ssh-key'', cf_kind = None, cf_excludeRotated = True\<rparr>"

definition no_pin_text :: "string \<Rightarrow> string" where
  "no_pin_text name = ''refusing to connect to the master '' @ [CHR 0x22] @ name @ [CHR 0x22] @ '' without a pinned host key '' @ em_dash @
     '' provision the host-key pin first (MASTER_SSH_HOST_KEY_FP '' @ g_arrow @ '' preflightJson.hostKey)''"

fun via_name :: "ssh_via \<Rightarrow> string" where
  "via_name ViaLan = ''lan''"
| "via_name ViaPublic = ''public''"

definition session_key :: "string \<Rightarrow> ssh_via \<Rightarrow> string" where
  "session_key sid via = sid @ ''@'' @ via_name via"

definition dial_with_key :: "ssh_deps \<Rightarrow> server_row \<Rightarrow> string \<times> ssh_via \<Rightarrow> string \<Rightarrow> string \<Rightarrow> nat sact" where
  "dial_with_key D sv resolved key privateKey =
     bindM (emitConnecting sv resolved) (\<lambda>_.
     bindM (connect D \<lparr>tg_host = fst resolved, tg_port = sv_sshPort sv, tg_username = sv_sshUser sv,
              tg_auth = AuthKey privateKey, tg_hostKey = pinned_key sv\<rparr>) (\<lambda>answer.
     (case answer of
        Inr n \<Rightarrow> bindM (modify (\<lambda>s. s\<lparr>sh_sessions := map_set key n (sh_sessions s)\<rparr>)) (\<lambda>_. ret n)
      | Inl (HostKeyMismatch e f) \<Rightarrow> throwM (JsError ''HostKeyMismatchError'' (mismatch_text e f))
      | Inl (DialFailed e) \<Rightarrow> throwM e
      | Inl (Presented _) \<Rightarrow> throwM type_error)))"

definition ssh_open_new :: "ssh_deps \<Rightarrow> server_row \<Rightarrow> string \<times> ssh_via \<Rightarrow> string \<Rightarrow> nat sact" where
  "ssh_open_new D sv resolved key = bindM (gets (ssh_keys_of (sv_id sv))) (\<lambda>creds.
     (if creds = [] then throwM (App (Internal (''no ssh_key credential for server '' @ sv_id sv)))
      else if sv_master sv \<and> pinned_key sv = None then throwM (App (Validation (no_pin_text (sv_name sv))))
      else bindM (on_store (open_cred (sh_store D) (cr_id (last creds)) \<lparr>uc_purpose = ''run:ssh'', uc_runId = Some (sh_runId D)\<rparr>))
             (dial_with_key D sv resolved key)))"

definition getSsh :: "ssh_deps \<Rightarrow> string option \<Rightarrow> nat sact" where
  "getSsh D serverId =
     (case (case serverId of None \<Rightarrow> sh_targetServerId D | Some i \<Rightarrow> Some i) of
        None \<Rightarrow> throwM (App (UndeclaredTarget ''(no target server)''))
      | Some sid \<Rightarrow>
          if sid = [] then throwM (App (UndeclaredTarget ''(no target server)''))
          else if Some sid \<noteq> sh_targetServerId D \<and> \<not> is_declared D sid then throwM (App (UndeclaredTarget sid))
          else bindM (gets (\<lambda>s. live_server s sid)) (\<lambda>row.
            (case row of
               None \<Rightarrow> throwM (App (UndeclaredTarget sid))
             | Some sv \<Rightarrow>
                 (let resolved = resolveTransport (sv_host sv) (sv_lanHost sv) (transportOf D sid);
                      key = session_key sid (snd resolved)
                  in bindM (gets (\<lambda>s. (map_of (sh_sessions s) key, sh_open s))) (\<lambda>(cached, opened).
                     (case cached of
                        None \<Rightarrow> ssh_open_new D sv resolved key
                      | Some n \<Rightarrow>
                          if n \<in> set opened then ret n
                          else bindM (modify (\<lambda>s. s\<lparr>sh_sessions := map_delete key (sh_sessions s)\<rparr>)) (\<lambda>_.
                               bindM (closeSession n) (\<lambda>_.
                               bindM (say (''The session to '' @ sv_name sv @ '' over its '' @ via_label (snd resolved) @
                                        '' is gone '' @ em_dash @ '' opening a new one.'')) (\<lambda>_.
                               ssh_open_new D sv resolved key)))))))))"

section \<open>The password door\<close>

definition hostKeyRefusal :: "string \<Rightarrow> string \<Rightarrow> string \<Rightarrow> string \<Rightarrow> thrown" where
  "hostKeyRefusal name address expected got = App (Validation (
     ''refusing the password door to '' @ name @ '': this manager has '' @ expected @ '' pinned as its host key and the machine at '' @
     address @ '' presented '' @ got @ ''. '' @
     ''A rebuilt machine presents a key this manager never recorded, and so does a different machine answering at the address; '' @
     ''the two read the same here and only somebody at the machine can tell them apart. '' @
     ''Read the fingerprint off '' @ name @ '' itself and state it on this server'' @ [CHR 0x27] @
     ''s card under Servers, and the next run opens the door on it.''))"

definition recordHostKey :: "string \<Rightarrow> string \<Rightarrow> unit sact" where
  "recordHostKey sid fp = modify (\<lambda>s. s\<lparr>sh_servers := update_where (\<lambda>r. sv_id r = sid) (\<lambda>r. r\<lparr>sv_hostKey := Some fp\<rparr>) (sh_servers s)\<rparr>)"

definition door_opened :: "string \<Rightarrow> server_row \<Rightarrow> string \<Rightarrow> nat \<Rightarrow> nat sact" where
  "door_opened sid sv host n = bindM (gets (\<lambda>s. opt_default [] (map_of (sh_keys s) n))) (\<lambda>observed.
     bindM (case pinned_key sv of
        None \<Rightarrow> bindM (recordHostKey sid observed) (\<lambda>_.
                say (''No host key is recorded for '' @ sv_name sv @ '', so the one this machine presented is recorded: '' @ observed @
                     ''. Every later session to it is pinned on this.''))
      | Some pinned \<Rightarrow>
          if observed \<noteq> pinned then
            bindM (closeSession n) (\<lambda>_. throwM (hostKeyRefusal (sv_name sv) (host @ '':'' @ show_nat (sv_sshPort sv)) pinned observed))
          else say (''The host key '' @ observed @ '' is the one recorded for '' @ sv_name sv @ '', so the pin is verified and nothing is written.''))
     (\<lambda>_. bindM (modify (\<lambda>s. s\<lparr>sh_password := Some n\<rparr>)) (\<lambda>_. ret n)))"

definition door_answer :: "string \<Rightarrow> server_row \<Rightarrow> string \<Rightarrow> dial_answer + nat \<Rightarrow> nat sact" where
  "door_answer sid sv host reply =
     (case reply of
        Inr n \<Rightarrow> door_opened sid sv host n
      | Inl (HostKeyMismatch e f) \<Rightarrow> throwM (hostKeyRefusal (sv_name sv) (host @ '':'' @ show_nat (sv_sshPort sv)) e f)
      | Inl (DialFailed e) \<Rightarrow> throwM e
      | Inl (Presented _) \<Rightarrow> throwM type_error)"

definition openPasswordSession :: "ssh_deps \<Rightarrow> string \<Rightarrow> nat sact" where
  "openPasswordSession D secretName = bindM (gets sh_password) (\<lambda>cached.
     (case cached of
        Some n \<Rightarrow> ret n
      | None \<Rightarrow>
        (case sh_targetServerId D of
           None \<Rightarrow> throwM (App (UndeclaredTarget ''(no target server)''))
         | Some sid \<Rightarrow>
             if sid = [] then throwM (App (UndeclaredTarget ''(no target server)''))
             else bindM (gets (\<lambda>s. live_server s sid)) (\<lambda>row.
               (case row of
                  None \<Rightarrow> throwM (App (UndeclaredTarget sid))
                | Some sv \<Rightarrow>
                    (case secrets_get (sh_secrets D) secretName of
                       None \<Rightarrow> throwM (App (MissingRunSecret secretName))
                     | Some password \<Rightarrow>
                           (let resolved = resolveTransport (sv_host sv) (sv_lanHost sv) (transportOf D sid)
                            in bindM (emitConnecting sv resolved) (\<lambda>_.
                               bindM (connect D \<lparr>tg_host = fst resolved, tg_port = sv_sshPort sv, tg_username = sv_sshUser sv,
                                        tg_auth = AuthPassword password, tg_hostKey = pinned_key sv\<rparr>) (door_answer sid sv (fst resolved))))))))))"

definition closePasswordSession :: "unit sact" where
  "closePasswordSession = bindM (gets sh_password) (\<lambda>cached.
     bindM (case cached of Some n \<Rightarrow> closeSession n | None \<Rightarrow> ret ()) (\<lambda>_.
     modify (\<lambda>s. s\<lparr>sh_password := None\<rparr>)))"

definition close_ctx :: "unit sact" where
  "close_ctx = bindM (gets sh_sessions) (\<lambda>cached.
     bindM (forM cached (\<lambda>(key, n). closeSession n)) (\<lambda>_.
     bindM (modify (\<lambda>s. s\<lparr>sh_sessions := []\<rparr>)) (\<lambda>_.
     closePasswordSession)))"

definition ctx_attest :: "unit sact" where
  "ctx_attest = throwM (App (Internal ''ctx.attest() is not implemented''))"

section \<open>The machine behind the address\<close>

text \<open>A session answers \<^verbatim>\<open>cat /etc/machine-id\<close> with lines and an exit code; \<open>exec\<close> is that answer, or what the transport throws.\<close>

datatype attest_outcome = Recorded string | Verified string

definition readMachineId :: "thrown + (string list \<times> int) \<Rightarrow> thrown + string" where
  "readMachineId exec =
     (case exec of
        Inl e \<Rightarrow> Inl e
      | Inr (out, code) \<Rightarrow>
          (let mid = toLowerCase (trim (concat out))
           in if code \<noteq> 0 \<or> mid = [] then Inl (App (Validation ''could not read /etc/machine-id on the target'')) else Inr mid))"

definition not_the_machine :: "string \<Rightarrow> string \<Rightarrow> string \<Rightarrow> thrown" where
  "not_the_machine recorded name observed = App (Validation (
     ''this is not the machine recorded here: /etc/machine-id is '' @ recorded @ '' on '' @ name @ [CHR 0x27] @ ''s row and the machine '' @
     ''answering at its address reports '' @ observed @ ''. A rebuilt machine reports a new one, and only a person can say that '' @
     ''is what happened: state the host key it presents now on this server'' @ [CHR 0x27] @ ''s card under Servers, which is the statement '' @
     ''that drops this recorded id so the next run records the rebuilt machine'' @ [CHR 0x27] @ ''s own.''))"

definition attestMachineId :: "string \<Rightarrow> thrown + (string list \<times> int) \<Rightarrow> attest_outcome sact" where
  "attestMachineId sid exec = bindM (gets (\<lambda>s. live_server s sid)) (\<lambda>row.
     (case row of
        None \<Rightarrow> throwM (App (NotFound (''server '' @ sid @ '' not found'')))
      | Some sv \<Rightarrow>
          bindM (liftE (readMachineId exec)) (\<lambda>observed.
          (case sv_machineId sv of
             None \<Rightarrow>
               bindM (modify (\<lambda>s. s\<lparr>sh_servers := update_where (\<lambda>r. sv_id r = sid) (\<lambda>r. r\<lparr>sv_machineId := Some observed\<rparr>) (sh_servers s)\<rparr>)) (\<lambda>_.
               bindM (say (''recorded machine-id '' @ observed @ '' for '' @ sv_name sv)) (\<lambda>_.
               ret (Recorded observed)))
           | Some recorded \<Rightarrow>
               if recorded = observed then bindM (say (''machine-id verified ('' @ observed @ '')'')) (\<lambda>_. ret (Verified observed))
               else throwM (not_the_machine recorded (sv_name sv) observed)))))"


section \<open>What is dialed\<close>

lemma say_frame [simp]: "say line s = (Inr (), s\<lparr>sh_log := sh_log s @ [line]\<rparr>)"
  by (simp add: say_def)

lemma closeSession_frame [simp]: "closeSession n s = (Inr (), s\<lparr>sh_open := filter (\<lambda>m. m \<noteq> n) (sh_open s)\<rparr>)"
  by (simp add: closeSession_def)

lemma emitConnecting_frame:
  "\<exists>line. emitConnecting sv resolved s = (Inr (), s\<lparr>sh_log := sh_log s @ [line]\<rparr>)"
  unfolding emitConnecting_def say_frame by blast

lemma on_store_dialed: "sh_dialed (snd (on_store m s)) = sh_dialed s"
  by (simp add: on_store_def split: prod.split)

lemma connect_dialed: "sh_dialed (snd (connect D t s)) = sh_dialed s @ [t]"
  by (simp add: connect_def comp_defs split: dial_answer.split)

text \<open>What a new key session dials: nothing, or the one target of its server row, pinned on what the row holds.\<close>

definition key_target :: "server_row \<Rightarrow> string \<Rightarrow> ssh_target \<Rightarrow> bool" where
  "key_target sv host t \<longleftrightarrow> tg_host t = host \<and> tg_port t = sv_sshPort sv \<and> tg_username t = sv_sshUser sv \<and>
     tg_hostKey t = pinned_key sv \<and> (sv_master sv \<longrightarrow> pinned_key sv \<noteq> None)"

lemma dial_with_key_dials:
  "\<exists>t. sh_dialed (snd (dial_with_key D sv resolved key pk s)) = sh_dialed s @ [t] \<and>
     tg_host t = fst resolved \<and> tg_port t = sv_sshPort sv \<and> tg_username t = sv_sshUser sv \<and> tg_hostKey t = pinned_key sv"
proof -
  define t where "t = \<lparr>tg_host = fst resolved, tg_port = sv_sshPort sv, tg_username = sv_sshUser sv, tg_auth = AuthKey pk, tg_hostKey = pinned_key sv\<rparr>"
  obtain line where line: "emitConnecting sv resolved s = (Inr (), s\<lparr>sh_log := sh_log s @ [line]\<rparr>)"
    using emitConnecting_frame by blast
  obtain a s2 where c: "connect D t (s\<lparr>sh_log := sh_log s @ [line]\<rparr>) = (a, s2)" by fastforce
  have "sh_dialed s2 = sh_dialed s @ [t]" using connect_dialed [of D t "s\<lparr>sh_log := sh_log s @ [line]\<rparr>"] c by simp
  moreover have "sh_dialed (snd (dial_with_key D sv resolved key pk s)) = sh_dialed s2"
    using line c by (simp add: dial_with_key_def t_def [symmetric] bindM_def split: sum.split dial_answer.split)
  ultimately show ?thesis by (simp add: t_def)
qed

lemma ssh_open_new_dials:
  assumes "ssh_open_new D sv resolved key s = (r, s')"
  shows "sh_dialed s' = sh_dialed s \<or> (\<exists>t. sh_dialed s' = sh_dialed s @ [t] \<and> key_target sv (fst resolved) t)"
proof (cases "ssh_keys_of (sv_id sv) s = [] \<or> (sv_master sv \<and> pinned_key sv = None)")
  case True
  then show ?thesis using assms by (auto simp: ssh_open_new_def split: if_splits)
next
  case False
  define m where "m = on_store (open_cred (sh_store D) (cr_id (last (ssh_keys_of (sv_id sv) s))) \<lparr>uc_purpose = ''run:ssh'', uc_runId = Some (sh_runId D)\<rparr>)"
  obtain q s1 where m: "m s = (q, s1)" by (cases "m s")
  have d1: "sh_dialed s1 = sh_dialed s" using on_store_dialed [of _ s] m by (metis m_def snd_conv)
  have run: "(r, s') = bindM m (dial_with_key D sv resolved key) s"
    unfolding assms [symmetric] ssh_open_new_def m_def bindM_gets using False by (simp only: if_False de_Morgan_disj)
  show ?thesis
  proof (cases q)
    case (Inl e)
    then show ?thesis using run m d1 by (simp add: bindM_Inl)
  next
    case (Inr pk)
    then have "s' = snd (dial_with_key D sv resolved key pk s1)" using run m by (simp add: bindM_Inr) (metis snd_conv)
    then show ?thesis using dial_with_key_dials [of D sv resolved key pk s1] d1 False by (auto simp: key_target_def)
  qed
qed

text \<open>
  C28 A step reaches only the hosts its plan declared. Asking for a session dials nothing, or it dials once: the address the plan's
  transport picks from a live server row that is the run's own target or a declared one, with the row's host key as the pin
  the client has to verify, and never a master without one.
\<close>

theorem sessions_reach_declared_hosts_only:
  assumes "getSsh D serverId s = (r, s')"
  shows "sh_dialed s' = sh_dialed s \<or>
    (\<exists>sid sv t. (Some sid = sh_targetServerId D \<or> is_declared D sid) \<and> live_server s sid = Some sv \<and>
       sh_dialed s' = sh_dialed s @ [t] \<and>
       key_target sv (fst (resolveTransport (sv_host sv) (sv_lanHost sv) (transportOf D sid))) t)"
proof -
  define want where "want = (case serverId of None \<Rightarrow> sh_targetServerId D | Some i \<Rightarrow> Some i)"
  show ?thesis
  proof (cases want)
    case None
    then show ?thesis using assms by (simp add: getSsh_def want_def [symmetric])
  next
    case (Some sid)
    show ?thesis
    proof (cases "sid = [] \<or> (Some sid \<noteq> sh_targetServerId D \<and> \<not> is_declared D sid) \<or> live_server s sid = None")
      case True
      then show ?thesis using assms Some by (auto simp: getSsh_def want_def [symmetric] split: if_splits)
    next
      case False
      then obtain sv where sv: "live_server s sid = Some sv" by auto
      define rs where "rs = resolveTransport (sv_host sv) (sv_lanHost sv) (transportOf D sid)"
      define key where "key = session_key sid (snd rs)"
      have opens: "sh_dialed s' = sh_dialed s \<or> (\<exists>t. sh_dialed s' = sh_dialed s @ [t] \<and> key_target sv (fst rs) t)"
      proof (cases "map_of (sh_sessions s) key")
        case None
        then have "ssh_open_new D sv rs key s = (r, s')"
          using assms Some False sv by (auto simp: getSsh_def want_def [symmetric] Let_def rs_def key_def)
        then show ?thesis by (rule ssh_open_new_dials)
      next
        case cached: (Some n)
        show ?thesis
        proof (cases "n \<in> set (sh_open s)")
          case True
          then show ?thesis using assms Some False sv cached
            by (auto simp: getSsh_def want_def [symmetric] Let_def rs_def key_def)
        next
          case closed: False
          obtain s1 where "ssh_open_new D sv rs key s1 = (r, s')" "sh_dialed s1 = sh_dialed s"
            using assms Some False sv cached closed
            by (auto simp: getSsh_def want_def [symmetric] Let_def rs_def key_def bindM_def)
          then show ?thesis using ssh_open_new_dials by metis
        qed
      qed
      then show ?thesis using False sv by (auto simp: rs_def)
    qed
  qed
qed


section \<open>Record or verify\<close>

text \<open>Where a door session stands after its dial: the connect's own effect on the state, by what the machine answered.\<close>

lemma connect_run:
  "connect D t s = (let n = length (sh_dialed s); s1 = s\<lparr>sh_dialed := sh_dialed s @ [t]\<rparr> in
     (case sh_dial D n t of
        Presented fp \<Rightarrow> (Inr (Inr n), s1\<lparr>sh_open := n # sh_open s, sh_keys := (n, fp) # sh_keys s\<rparr>)
      | refused \<Rightarrow> (Inr (Inl refused), s1)))"
  by (simp add: connect_def Let_def comp_defs split: dial_answer.split)

lemma door_opened_pinned:
  assumes "pinned_key sv = Some k" "map_of (sh_keys s) n = Some fp" "door_opened sid sv host n s = (r, s')"
  shows "sh_servers s' = sh_servers s \<and> sh_dialed s' = sh_dialed s \<and>
    (if fp = k then r = Inr n \<and> sh_password s' = Some n \<and> sh_open s' = sh_open s \<and> sh_keys s' = sh_keys s
     else (\<exists>e. r = Inl e) \<and> sh_password s' = sh_password s \<and> sh_open s' = filter (\<lambda>m. m \<noteq> n) (sh_open s))"
  using assms by (auto simp: door_opened_def bindM_def split: if_splits)

lemma door_opened_first:
  assumes "pinned_key sv = None" "map_of (sh_keys s) n = Some fp" "door_opened sid sv host n s = (r, s')"
  shows "r = Inr n \<and> sh_password s' = Some n \<and> sh_keys s' = sh_keys s \<and> sh_dialed s' = sh_dialed s \<and>
    sh_servers s' = update_where (\<lambda>x. sv_id x = sid) (\<lambda>x. x\<lparr>sv_hostKey := Some fp\<rparr>) (sh_servers s)"
  using assms by (auto simp: door_opened_def bindM_def recordHostKey_def)

text \<open>
  C27 The password door records a machine once and verifies it ever after. A row that holds a host key is never written: the target
  carries that key into the dial, a session is handed out only when the machine presented exactly it, and a session that
  presented another one is closed and not kept. A row that holds none records the key of the session handed out,
  on that server's row alone.
\<close>

theorem password_door_records_or_verifies:
  assumes "sh_password s = None" "sh_targetServerId D = Some sid" "live_server s sid = Some sv"
    and run: "openPasswordSession D secretName s = (r, s')"
  shows "(\<forall>t \<in> set (drop (length (sh_dialed s)) (sh_dialed s')). tg_hostKey t = pinned_key sv) \<and>
    (case r of
       Inr n \<Rightarrow> (\<exists>fp. map_of (sh_keys s') n = Some fp \<and> sh_password s' = Some n \<and>
         (case pinned_key sv of
            Some k \<Rightarrow> fp = k \<and> sh_servers s' = sh_servers s
          | None \<Rightarrow> sh_servers s' = update_where (\<lambda>x. sv_id x = sid) (\<lambda>x. x\<lparr>sv_hostKey := Some fp\<rparr>) (sh_servers s)))
     | Inl e \<Rightarrow> sh_servers s' = sh_servers s \<and> sh_password s' = None \<and> set (sh_open s') \<subseteq> set (sh_open s))"
proof (cases "sid = [] \<or> secrets_get (sh_secrets D) secretName = None")
  case True
  then show ?thesis using assms by (auto simp: openPasswordSession_def split: if_splits)
next
  case False
  then obtain pw where pw: "secrets_get (sh_secrets D) secretName = Some pw" by (cases "secrets_get (sh_secrets D) secretName") auto
  define rs where "rs = resolveTransport (sv_host sv) (sv_lanHost sv) (transportOf D sid)"
  define t where "t = \<lparr>tg_host = fst rs, tg_port = sv_sshPort sv, tg_username = sv_sshUser sv, tg_auth = AuthPassword pw, tg_hostKey = pinned_key sv\<rparr>"
  obtain line where line: "emitConnecting sv rs s = (Inr (), s\<lparr>sh_log := sh_log s @ [line]\<rparr>)"
    using emitConnecting_frame by blast
  define s1 where "s1 = s\<lparr>sh_log := sh_log s @ [line]\<rparr>"
  define n where "n = length (sh_dialed s)"
  have go: "(r, s') = bindM (connect D t) (door_answer sid sv (fst rs)) s1"
    unfolding run [symmetric] openPasswordSession_def t_def
    using assms(1,2,3) False pw line by (simp add: Let_def rs_def [symmetric] s1_def bindM_Inr [of "emitConnecting sv rs" s "()"])
  show ?thesis
  proof (cases "sh_dial D n t")
    case (Presented fp)
    define s2 where "s2 = s1\<lparr>sh_dialed := sh_dialed s @ [t], sh_open := n # sh_open s, sh_keys := (n, fp) # sh_keys s\<rparr>"
    have "connect D t s1 = (Inr (Inr n), s2)"
      using Presented by (simp add: connect_run Let_def s1_def s2_def n_def)
    then have door: "door_opened sid sv (fst rs) n s2 = (r, s')" using go by (simp add: bindM_Inr door_answer_def)
    have key: "map_of (sh_keys s2) n = Some fp" by (simp add: s2_def)
    show ?thesis
    proof (cases "pinned_key sv")
      case None
      then show ?thesis using door_opened_first [OF None key door] by (simp add: s2_def s1_def t_def)
    next
      case (Some k)
      then show ?thesis using door_opened_pinned [OF Some key door] assms(1)
        by (cases "fp = k") (auto simp: s2_def s1_def t_def)
    qed
  next
    case (HostKeyMismatch e f)
    then show ?thesis using go assms(1) by (simp add: bindM_def door_answer_def connect_run Let_def s1_def n_def t_def)
  next
    case (DialFailed e)
    then show ?thesis using go assms(1) by (simp add: bindM_def door_answer_def connect_run Let_def s1_def n_def t_def)
  qed
qed

lemma find_update_where_id:
  assumes "\<And>r. sv_id (f r) = sv_id r" "\<And>r. sv_deleted (f r) = sv_deleted r"
  shows "List.find (\<lambda>r. sv_id r = sid \<and> sv_deleted r = None) (update_where (\<lambda>r. sv_id r = sid) f rows) =
    map_option f (List.find (\<lambda>r. sv_id r = sid \<and> sv_deleted r = None) rows)"
  by (induction rows) (auto simp: assms)

lemma attest_recorded:
  assumes "live_server s sid = Some sv" "readMachineId exec = Inr m" "sv_machineId sv = None"
  shows "fst (attestMachineId sid exec s) = Inr (Recorded m)"
    and "live_server (snd (attestMachineId sid exec s)) sid = Some (sv\<lparr>sv_machineId := Some m\<rparr>)"
  using assms by (simp_all add: attestMachineId_def bindM_def live_server_def find_update_where_id)

lemma attest_known:
  assumes "live_server s sid = Some sv" "sv_machineId sv = Some k"
  shows "fst (attestMachineId sid exec s) =
      (case readMachineId exec of Inl e \<Rightarrow> Inl e | Inr m \<Rightarrow> if m = k then Inr (Verified m) else Inl (not_the_machine k (sv_name sv) m))"
    and "sh_servers (snd (attestMachineId sid exec s)) = sh_servers s"
  using assms by (simp_all add: attestMachineId_def bindM_def split: sum.split)

lemma attest_passed:
  assumes "fst (attestMachineId sid exec s) = Inr out"
  obtains sv m where "live_server (snd (attestMachineId sid exec s)) sid = Some sv" "sv_machineId sv = Some m" "readMachineId exec = Inr m"
proof -
  obtain sv where sv: "live_server s sid = Some sv"
    using assms by (cases "live_server s sid") (auto simp: attestMachineId_def)
  obtain m where m: "readMachineId exec = Inr m"
    using assms sv by (cases "readMachineId exec") (auto simp: attestMachineId_def bindM_def)
  show thesis
  proof (cases "sv_machineId sv")
    case None
    show ?thesis by (rule that [OF attest_recorded(2) [OF sv m None]]) (simp_all add: m)
  next
    case (Some k)
    have "m = k" using assms attest_known(1) [OF sv Some, of exec] m by (simp split: if_splits)
    then show ?thesis using that sv Some m attest_known(2) [OF sv Some, of exec] by (simp add: live_server_def)
  qed
qed

text \<open>
  A machine that was attested once stays the machine of its row. After an attest that passed, a later one on the same server passes
  exactly when the machine reports the same id, and then it is a verification; a refusal writes no row at all.
\<close>

lemma attested_machine_stays:
  assumes "fst (attestMachineId sid exec s) = Inr out"
  shows "(let s1 = snd (attestMachineId sid exec s); again = attestMachineId sid exec' s1
    in ((\<exists>o'. fst again = Inr o') \<longleftrightarrow> readMachineId exec' = readMachineId exec) \<and>
       (\<forall>o'. fst again = Inr o' \<longrightarrow> (\<exists>m. o' = Verified m)) \<and>
       sh_servers (snd again) = sh_servers s1)"
proof -
  obtain sv m where sv: "live_server (snd (attestMachineId sid exec s)) sid = Some sv" and k: "sv_machineId sv = Some m"
    and m: "readMachineId exec = Inr m"
    using attest_passed [OF assms] by blast
  show ?thesis
    using attest_known [OF sv k, of exec'] m by (auto simp: Let_def split: sum.splits if_splits)
qed

section \<open>A machine to dial\<close>

definition toy_server :: server_row where
  "toy_server = \<lparr>sv_id = ''s1'', sv_name = ''box'', sv_host = ''10.0.0.1'', sv_lanHost = None, sv_sshPort = 22, sv_sshUser = ''ops'',
     sv_master = False, sv_hostKey = Some ''SHA256:a'', sv_machineId = None, sv_deleted = None\<rparr>"

definition toy_ssh :: ssh_deps where
  "toy_ssh = \<lparr>sh_store = toy_store, sh_runId = ''run_1'', sh_targetServerId = Some ''s1'', sh_declared = [],
     sh_secrets = \<lparr>rs_scope = ''run_1'', rs_map = [(''rootPassword'', ''hunter2'')]\<rparr>, sh_dial = (\<lambda>n t. Presented ''SHA256:b'')\<rparr>"

definition toy_ssh_state :: ssh_state where
  "toy_ssh_state = \<lparr>sh_servers = [toy_server], sh_creds = no_creds, sh_sessions = [], sh_password = None, sh_open = [], sh_keys = [],
     sh_dialed = [], sh_log = []\<rparr>"

lemmas toy_ssh_defs = toy_server_def toy_ssh_def toy_ssh_state_def live_server_def secrets_get_def

theorem sessions_reach_declared_hosts_only_witness:
  "sh_dialed (snd (getSsh toy_ssh (Some ''s2'') toy_ssh_state)) = []"
proof -
  have "live_server toy_ssh_state sid = Some sv \<Longrightarrow> sid = ''s1''" for sid sv
    by (simp add: toy_ssh_defs split: if_splits)
  moreover have "getSsh toy_ssh (Some ''s2'') toy_ssh_state = (Inl (App (UndeclaredTarget ''s2'')), toy_ssh_state)"
    by (simp add: getSsh_def toy_ssh_defs is_declared_def)
  ultimately show ?thesis
    using sessions_reach_declared_hosts_only [of toy_ssh "Some ''s2''" toy_ssh_state] by (simp add: toy_ssh_state_def)
qed

theorem password_door_records_or_verifies_witness:
  "sh_servers (snd (openPasswordSession toy_ssh ''rootPassword'' toy_ssh_state)) = [toy_server] \<and>
   sh_open (snd (openPasswordSession toy_ssh ''rootPassword'' toy_ssh_state)) = []"
proof -
  obtain r s' where run: "openPasswordSession toy_ssh ''rootPassword'' toy_ssh_state = (r, s')" by fastforce
  have pin: "pinned_key toy_server = Some ''SHA256:a''" by (simp add: pinned_key_def toy_server_def)
  have refused: "\<exists>e. r = Inl e" using run
    by (auto simp: openPasswordSession_def toy_ssh_defs door_answer_def door_opened_def pinned_key_def connect_def emitConnecting_def bindM_def Let_def)
  have "live_server toy_ssh_state ''s1'' = Some toy_server" by (simp add: toy_ssh_defs)
  from password_door_records_or_verifies [OF _ _ this run] refused show ?thesis
    using run by (auto simp: toy_ssh_state_def toy_ssh_def)
qed

lemma attested_machine_stays_instance:
  "fst (attestMachineId ''s1'' (Inr ([''AB1''], 0)) toy_ssh_state) = Inr (Recorded ''ab1'') \<and>
   \<not> (\<exists>o'. fst (attestMachineId ''s1'' (Inr ([''cd2''], 0)) (snd (attestMachineId ''s1'' (Inr ([''AB1''], 0)) toy_ssh_state))) = Inr o')"
proof -
  have read: "readMachineId (Inr ([''AB1''], 0)) = Inr ''ab1''" "readMachineId (Inr ([''cd2''], 0)) = Inr ''cd2''"
    by code_simp+
  have "live_server toy_ssh_state ''s1'' = Some toy_server" "sv_machineId toy_server = None" by (simp_all add: toy_ssh_defs)
  then have "fst (attestMachineId ''s1'' (Inr ([''AB1''], 0)) toy_ssh_state) = Inr (Recorded ''ab1'')"
    using attest_recorded(1) read(1) by blast
  then show ?thesis
    using attested_machine_stays [of "''s1''" "Inr ([''AB1''], 0)" toy_ssh_state "Recorded ''ab1''" "Inr ([''cd2''], 0)"] read
    by (simp add: Let_def)
qed

end
