(* ===== verification/Release_Tags.thy ===== *)
theory Release_Tags
  imports Texts "HOL-Library.Product_Lexorder"
begin

text \<open>
  The release grammar (\<^verbatim>\<open>shared/release.ts\<close>) and the retention of image tags (\<^verbatim>\<open>shared/registry-retention.ts\<close>).

  A tag is \<^verbatim>\<open>major.minor.patch-channel-ts14\<close>. The regular expressions of the source are written as predicates over the pieces of a
  split: no group of theirs can match a dot or a dash. A point in time is a number of milliseconds, computed from the fourteen
  digits the way \<^verbatim>\<open>Date.UTC\<close> does, months and days beyond their range carrying over.
\<close>

section \<open>Release tags\<close>

datatype release_channel = Alpha | Beta | Stable

record parsed_release =
  pr_version :: string
  pr_channel :: release_channel
  pr_ts14 :: string

text \<open>\<^verbatim>\<open>0|[1-9][0-9]*\<close>\<close>

definition plain_number :: "string \<Rightarrow> bool" where
  "plain_number s \<longleftrightarrow> s \<noteq> [] \<and> list_all is_digit s \<and> (s = ''0'' \<or> hd s \<noteq> CHR ''0'')"

definition patch_number :: "string \<Rightarrow> bool" where
  "patch_number s \<longleftrightarrow> digits 3 s \<or> plain_number s"

fun channel_of :: "string \<Rightarrow> release_channel option" where
  "channel_of s = (if s = ''alpha'' then Some Alpha else if s = ''beta'' then Some Beta
     else if s = ''stable'' then Some Stable else None)"

fun show_channel :: "release_channel \<Rightarrow> string" where
  "show_channel Alpha = ''alpha''"
| "show_channel Beta = ''beta''"
| "show_channel Stable = ''stable''"

definition RELEASE_VERSION_RE :: "string \<Rightarrow> bool" where
  "RELEASE_VERSION_RE s =
     (case split_char (CHR ''.'') s of
        [major, minor, patch] \<Rightarrow> plain_number major \<and> plain_number minor \<and> patch_number patch
      | _ \<Rightarrow> False)"

definition parseReleaseTag :: "string \<Rightarrow> parsed_release option" where
  "parseReleaseTag tag =
     (case split_char (CHR ''-'') tag of
        [version, channel, ts14] \<Rightarrow>
          (case channel_of channel of
             Some ch \<Rightarrow> if RELEASE_VERSION_RE version \<and> digits 14 ts14 then Some \<lparr>pr_version = version, pr_channel = ch, pr_ts14 = ts14\<rparr> else None
           | None \<Rightarrow> None)
      | _ \<Rightarrow> None)"

definition version_parts :: "string \<Rightarrow> nat \<times> nat \<times> nat" where
  "version_parts v =
     (case map number_of (split_char (CHR ''.'') v) of
        [a, b, c] \<Rightarrow> (a, b, c) | _ \<Rightarrow> (0, 0, 0))"

fun newer_version :: "nat \<times> nat \<times> nat \<Rightarrow> nat \<times> nat \<times> nat \<Rightarrow> bool" where
  "newer_version (v0, v1, v2) (b0, b1, b2) = (v0 > b0 \<or> (v0 = b0 \<and> (v1 > b1 \<or> (v1 = b1 \<and> v2 > b2))))"

fun best_version :: "string list \<Rightarrow> (nat \<times> nat \<times> nat) option \<Rightarrow> (nat \<times> nat \<times> nat) option" where
  "best_version [] best = best"
| "best_version (tag # tags) best =
     (case parseReleaseTag tag of
        None \<Rightarrow> best_version tags best
      | Some parsed \<Rightarrow>
          (let v = version_parts (pr_version parsed)
           in (case best of
                 None \<Rightarrow> best_version tags (Some v)
               | Some b \<Rightarrow>
                   if newer_version v b then best_version tags (Some v) else best_version tags best)))"

definition nextReleaseVersion :: "string list \<Rightarrow> string \<Rightarrow> thrown + string" where
  "nextReleaseVersion tags first =
     (case best_version tags None of
        None \<Rightarrow> Inr first
      | Some (a, b, c) \<Rightarrow>
          if c \<ge> 999 then Inl (JsError ''Error'' ''the next patch exceeds three digits; choose another version'')
          else Inr (show_nat a @ ''.'' @ show_nat b @ ''.'' @ padStart 3 (CHR ''0'') (show_nat (c + 1))))"

text \<open>The instant is given as its ISO text, \<^verbatim>\<open>at.toISOString()\<close>.\<close>

definition composeReleaseTag :: "string \<Rightarrow> release_channel \<Rightarrow> string \<Rightarrow> thrown + string" where
  "composeReleaseTag version channel stamp =
     (let ts14 = take 14 (filter (\<lambda>c. c \<noteq> CHR ''-'' \<and> c \<noteq> CHR '':'' \<and> c \<noteq> CHR ''T'') stamp);
          tag = version @ ''-'' @ show_channel channel @ ''-'' @ ts14
      in if parseReleaseTag tag = None
         then Inl (JsError ''Error'' (''composed tag does not match the release grammar: '' @ [CHR 0x22] @ tag @ [CHR 0x22]))
         else Inr tag)"

section \<open>Retention classes\<close>

datatype retention_class = KStable | KNonStable

record classified_tag =
  ct_klass :: retention_class
  ct_ts14 :: "string option"

definition is_hex :: "char \<Rightarrow> bool" where
  "is_hex c \<longleftrightarrow> is_digit c \<or> (CHR ''a'' \<le> c \<and> c \<le> CHR ''f'')"

text \<open>\<^verbatim>\<open>tag.replace(/-[0-9a-f]{7}$/, "")\<close>\<close>

definition drop_sha7 :: "string \<Rightarrow> string" where
  "drop_sha7 tag =
     (let cut = length tag - 8
      in if length tag \<ge> 8 \<and> tag ! cut = CHR ''-'' \<and> list_all is_hex (drop (cut + 1) tag) then take cut tag else tag)"

definition classifyImageTag :: "string \<Rightarrow> classified_tag" where
  "classifyImageTag tag =
     (case parseReleaseTag (drop_sha7 tag) of
        None \<Rightarrow> \<lparr>ct_klass = KNonStable, ct_ts14 = None\<rparr>
      | Some parsed \<Rightarrow>
          if pr_channel parsed = Stable then \<lparr>ct_klass = KStable, ct_ts14 = Some (pr_ts14 parsed)\<rparr>
          else \<lparr>ct_klass = KNonStable, ct_ts14 = Some (pr_ts14 parsed)\<rparr>)"

record repo_tag =
  rt_tag :: string
  rt_ts14 :: "string option"
  rt_pushedAt :: "string option"

section \<open>When a tag was built\<close>

text \<open>\<^verbatim>\<open>Date.UTC\<close>: a two-digit year is one of the twentieth century, a month counts from 0 and carries into the year.\<close>

definition day_from_year :: "int \<Rightarrow> int" where
  "day_from_year y = 365 * (y - 1970) + (y - 1969) div 4 - (y - 1901) div 100 + (y - 1601) div 400"

definition leap_year :: "int \<Rightarrow> bool" where
  "leap_year y \<longleftrightarrow> (y mod 4 = 0 \<and> y mod 100 \<noteq> 0) \<or> y mod 400 = 0"

definition month_days :: "int \<Rightarrow> int list" where
  "month_days y = [31, if leap_year y then 29 else 28, 31, 30, 31, 30, 31, 31, 30, 31, 30, 31]"

definition date_utc :: "int \<Rightarrow> int \<Rightarrow> int \<Rightarrow> int \<Rightarrow> int \<Rightarrow> int \<Rightarrow> int" where
  "date_utc year month day hour minute second =
     (let y = (if 0 \<le> year \<and> year \<le> 99 then 1900 + year else year) + month div 12;
          days = day_from_year y + sum_list (take (nat (month mod 12)) (month_days y)) + day - 1
      in (((days * 24 + hour) * 60 + minute) * 60 + second) * 1000)"

definition ts14ToEpochMs :: "string \<Rightarrow> int option" where
  "ts14ToEpochMs ts14 =
     (if \<not> digits 14 ts14 then None
      else let num = (\<lambda>from len. int (number_of (take len (drop from ts14))))
           in Some (date_utc (num 0 4) (num 4 2 - 1) (num 6 2) (num 8 2) (num 10 2) (num 12 2)))"

text \<open>
  The time of a tag: its own fourteen digits, else what the registry says of the push. \<^verbatim>\<open>Date.parse\<close> is the parameter \<open>parse_date\<close>,
  since what it makes of a text that is not an ISO date is left to the engine.
\<close>

definition effectiveEpochMs :: "(string \<Rightarrow> int option) \<Rightarrow> repo_tag \<Rightarrow> int option" where
  "effectiveEpochMs parse_date t =
     (let pushed = (case rt_pushedAt t of None \<Rightarrow> None | Some p \<Rightarrow> if p = [] then None else parse_date p)
      in (case rt_ts14 t of
            None \<Rightarrow> pushed
          | Some ts \<Rightarrow> if ts = [] then pushed else (case ts14ToEpochMs ts of Some e \<Rightarrow> Some e | None \<Rightarrow> pushed)))"

definition byNewestFirst :: "(string \<Rightarrow> int option) \<Rightarrow> repo_tag \<Rightarrow> repo_tag \<Rightarrow> int" where
  "byNewestFirst parse_date a b =
     (let by_tag = (if rt_tag a < rt_tag b then 1 else if rt_tag a > rt_tag b then -1 else 0)
      in (case (effectiveEpochMs parse_date a, effectiveEpochMs parse_date b) of
            (Some ea, Some eb) \<Rightarrow> if ea \<noteq> eb then eb - ea else by_tag
          | (Some ea, None) \<Rightarrow> -1
          | (None, Some eb) \<Rightarrow> 1
          | (None, None) \<Rightarrow> by_tag))"

section \<open>The retention plan\<close>

record retention_input =
  ri_repoTags :: "repo_tag list"
  ri_referenced :: "string list"
  ri_keepStable :: "nat option"
  ri_keepNonStable :: "nat option"

record retention_plan =
  rp_keep :: "string list"
  rp_delete :: "string list"

definition enrich :: "repo_tag \<Rightarrow> repo_tag" where
  "enrich rt =
     (case ct_ts14 (classifyImageTag (rt_tag rt)) of
        Some ts \<Rightarrow> rt\<lparr>rt_ts14 := Some ts\<rparr>
      | None \<Rightarrow> rt)"

definition klass_of :: "repo_tag \<Rightarrow> retention_class" where
  "klass_of rt = ct_klass (classifyImageTag (rt_tag rt))"

definition pot :: "retention_class \<Rightarrow> repo_tag list \<Rightarrow> repo_tag list" where
  "pot k rts = map enrich (filter (\<lambda>rt. klass_of rt = k) rts)"

definition planRetention :: "(string \<Rightarrow> int option) \<Rightarrow> retention_input \<Rightarrow> retention_plan" where
  "planRetention parse_date inp =
     (let keepStable = opt_default 10 (ri_keepStable inp);
          keepNonStable = opt_default 10 (ri_keepNonStable inp);
          stable = sort_by (byNewestFirst parse_date) (pot KStable (ri_repoTags inp));
          nonStable = sort_by (byNewestFirst parse_date) (pot KNonStable (ri_repoTags inp));
          keptByCount = map rt_tag (take keepStable stable @ take keepNonStable nonStable);
          tags = map rt_tag (ri_repoTags inp);
          kept = (\<lambda>tag. tag \<in> set (ri_referenced inp) \<or> tag \<in> set keptByCount)
      in \<lparr>rp_keep = filter kept tags, rp_delete = filter (\<lambda>tag. \<not> kept tag) tags\<rparr>)"


section \<open>Numbers in a tag\<close>

lemma show_nat_plain: "plain_number (show_nat n)"
proof (induction n rule: show_nat.induct)
  case (1 n)
  show ?case
  proof (cases "n < 10")
    case True
    have "n = 0" if "char_of (48 + n) = CHR ''0''"
    proof -
      have "(of_char (char_of (48 + n) :: char) :: nat) = of_char CHR ''0''" by (simp only: that)
      then show ?thesis using True by simp
    qed
    moreover have "(char_of (48 :: nat) :: char) = CHR ''0''" by (simp add: char_of_def bit_iff_odd)
    ultimately show ?thesis using True digit_char [of n] by (auto simp: show_nat_small plain_number_def)
  next
    case False
    then have "n div 10 \<noteq> 0" by auto
    then have "show_nat (n div 10) \<noteq> ''0''" using number_of_show [of "n div 10"] by (auto simp: number_of_def digit_value_def)
    then show ?thesis using 1 False digit_char [of "n mod 10"] by (auto simp: show_nat_large plain_number_def)
  qed
qed

section \<open>The next version\<close>

lemma newer_version_less: "newer_version v b \<longleftrightarrow> b < v"
  by (cases v; cases b) (auto simp: less_prod_simp)

lemma best_version_max:
  assumes "best_version tags best = Some m"
  shows "(\<forall>b. best = Some b \<longrightarrow> b \<le> m) \<and> (\<forall>tag \<in> set tags. \<forall>p. parseReleaseTag tag = Some p \<longrightarrow> version_parts (pr_version p) \<le> m)"
  using assms
proof (induction tags best rule: best_version.induct)
  case (2 tag tags best)
  show ?case
  proof (cases "parseReleaseTag tag")
    case None
    then show ?thesis using 2(1) [OF None] 2(5) by simp
  next
    case p: (Some p)
    define v where "v = version_parts (pr_version p)"
    show ?thesis
    proof (cases best)
      case None
      then show ?thesis using 2(2) [OF p v_def None] 2(5) p by (auto simp: v_def Let_def)
    next
      case (Some b)
      show ?thesis
      proof (cases "newer_version v b")
        case True
        then have "b < v" by (simp add: newer_version_less)
        then show ?thesis using 2(3) [OF p v_def Some True] 2(5) Some p True by (auto simp: v_def [symmetric] Let_def)
      next
        case False
        then have "v \<le> b" by (simp add: newer_version_less not_less)
        then show ?thesis using 2(4) [OF p v_def Some False] 2(5) Some p False by (auto simp: v_def [symmetric] Let_def)
      qed
    qed
  qed
qed simp

lemma version_text_parts:
  assumes "patch_number pa"
  shows "RELEASE_VERSION_RE (show_nat a @ ''.'' @ show_nat b @ ''.'' @ pa)"
    and "version_parts (show_nat a @ ''.'' @ show_nat b @ ''.'' @ pa) = (a, b, number_of pa)"
proof -
  have pa: "CHR ''.'' \<notin> set pa" using assms digits_no_sign by (auto simp: patch_number_def digits_def plain_number_def)
  have sh: "CHR ''.'' \<notin> set (show_nat n)" for n using show_nat_plain digits_no_sign by (auto simp: plain_number_def)
  have split: "split_char (CHR ''.'') (show_nat a @ ''.'' @ show_nat b @ ''.'' @ pa) = [show_nat a, show_nat b, pa]"
    using split_char_at [OF sh] split_char_whole [OF pa] by simp
  show "RELEASE_VERSION_RE (show_nat a @ ''.'' @ show_nat b @ ''.'' @ pa)"
    unfolding RELEASE_VERSION_RE_def split using assms show_nat_plain by simp
  show "version_parts (show_nat a @ ''.'' @ show_nat b @ ''.'' @ pa) = (a, b, number_of pa)"
    unfolding version_parts_def split by (simp add: number_of_show)
qed

text \<open>
  A proposed release version is new. When the tags of a repository leave room for another patch, the version proposed is well formed
  and strictly above the version of every release tag there is, whatever else is tagged.
\<close>

lemma next_version_is_newer:
  assumes "nextReleaseVersion tags first = Inr v" "tag \<in> set tags" "parseReleaseTag tag = Some p"
  shows "RELEASE_VERSION_RE v \<and> version_parts (pr_version p) < version_parts v"
proof (cases "best_version tags None")
  case None
  have "best_version ts b \<noteq> None" if "tag \<in> set ts \<or> b \<noteq> None" for ts b
    using that assms(3) by (induction ts b rule: best_version.induct) (auto simp: Let_def split: option.splits)
  with None assms(2) show ?thesis by blast
next
  case (Some m)
  obtain a b c where m: "m = (a, b, c)" by (cases m) auto
  define pa where "pa = padStart 3 (CHR ''0'') (show_nat (c + 1))"
  have c: "c < 999" and v: "v = show_nat a @ ''.'' @ show_nat b @ ''.'' @ pa"
    using assms(1) Some m by (auto simp: nextReleaseVersion_def pa_def split: if_splits)
  have "length (show_nat (c + 1)) \<le> 3" using show_nat_length [of "c + 1" 3] c by simp
  then have "digits 3 pa" using show_nat_plain [of "c + 1"]
    by (auto simp: pa_def padStart_def digits_def plain_number_def list_all_iff is_digit_def less_eq_char_def)
  then have "patch_number pa" by (simp add: patch_number_def)
  moreover have "number_of pa = c + 1" by (simp add: pa_def padStart_def number_of_zeros number_of_show)
  moreover have "version_parts (pr_version p) \<le> (a, b, c)" using best_version_max [OF Some] assms(2,3) m by blast
  moreover have "(a, b, c) < (a, b, c + 1)" by (simp add: less_prod_simp)
  ultimately have "version_parts (pr_version p) < (a, b, number_of pa)" by (metis le_less_trans)
  then show ?thesis using version_text_parts [OF \<open>patch_number pa\<close>] v by metis
qed

lemma next_version_is_newer_instance:
  "nextReleaseVersion [''0.1.007-beta-20250101120000'', ''latest''] ''0.1.000'' = Inr ''0.1.008'' \<and>
   version_parts ''0.1.007'' < version_parts ''0.1.008''"
proof -
  have "nextReleaseVersion [''0.1.007-beta-20250101120000'', ''latest''] ''0.1.000'' = Inr ''0.1.008''" by code_simp
  moreover have "parseReleaseTag ''0.1.007-beta-20250101120000'' = Some \<lparr>pr_version = ''0.1.007'', pr_channel = Beta, pr_ts14 = ''20250101120000''\<rparr>"
    by code_simp
  ultimately show ?thesis using next_version_is_newer by fastforce
qed


section \<open>Sorting and keeping\<close>

definition age_key :: "(string \<Rightarrow> int option) \<Rightarrow> repo_tag \<Rightarrow> (nat \<times> int) \<times> string" where
  "age_key pd t = (case effectiveEpochMs pd t of None \<Rightarrow> (0, 0) | Some e \<Rightarrow> (1, e), rt_tag t)"

lemma byNewestFirst_key: "byNewestFirst pd a b \<le> 0 \<longleftrightarrow> age_key pd b \<le> age_key pd a"
  by (auto simp: byNewestFirst_def age_key_def Let_def less_eq_prod_simp split: option.split)

definition keep_limit :: "retention_input \<Rightarrow> retention_class \<Rightarrow> nat" where
  "keep_limit inp k = (case k of KStable \<Rightarrow> opt_default 10 (ri_keepStable inp) | KNonStable \<Rightarrow> opt_default 10 (ri_keepNonStable inp))"

lemma enrich_tag [simp]: "rt_tag (enrich rt) = rt_tag rt"
  by (simp add: enrich_def split: option.split)

lemma kept_by_count:
  assumes "e \<in> set (take (keep_limit inp k) (sort_by (byNewestFirst pd) (pot k (ri_repoTags inp))))"
  shows "rt_tag e \<in> set (rp_keep (planRetention pd inp))"
proof -
  have "e \<in> set (sort_by (byNewestFirst pd) (pot k (ri_repoTags inp)))" using assms in_set_takeD by fast
  then have "e \<in> set (pot k (ri_repoTags inp))" by (metis set_mset_mset sort_by_mset)
  then have "rt_tag e \<in> rt_tag ` set (ri_repoTags inp)" by (auto simp: pot_def)
  then show ?thesis using assms by (cases k) (auto simp: planRetention_def Let_def keep_limit_def)
qed

text \<open>
  C33 A tag is pruned only when its class has enough newer ones. No tag that something references is on the delete plan, nothing is on both
  plans, and for a tag on the delete plan at least as many tags of its own class as the limit allows are kept that are
  no older than it.
\<close>

theorem pruned_tags_are_outnumbered:
  assumes "tag \<in> set (rp_delete (planRetention pd inp))"
  shows "tag \<notin> set (ri_referenced inp) \<and> tag \<notin> set (rp_keep (planRetention pd inp)) \<and>
    (\<exists>rt \<in> set (ri_repoTags inp). rt_tag rt = tag \<and>
      keep_limit inp (klass_of rt) \<le> length (filter (\<lambda>u. klass_of u = klass_of rt \<and>
        rt_tag u \<in> set (rp_keep (planRetention pd inp)) \<and> byNewestFirst pd (enrich u) (enrich rt) \<le> 0) (ri_repoTags inp)))"
proof -
  have no: "tag \<notin> set (ri_referenced inp) \<and> tag \<notin> set (rp_keep (planRetention pd inp))"
    using assms by (auto simp: planRetention_def Let_def)
  obtain rt where rt: "rt \<in> set (ri_repoTags inp)" "rt_tag rt = tag"
    using assms by (auto simp: planRetention_def Let_def)
  define k where "k = klass_of rt"
  define n where "n = keep_limit inp k"
  define S where "S = sort_by (byNewestFirst pd) (pot k (ri_repoTags inp))"
  define Q where "Q = (\<lambda>e. rt_tag e \<in> set (rp_keep (planRetention pd inp)) \<and> byNewestFirst pd e (enrich rt) \<le> 0)"
  have "enrich rt \<in> set (pot k (ri_repoTags inp))" using rt by (auto simp: pot_def k_def)
  then have inS: "enrich rt \<in> set S" unfolding S_def by (metis set_mset_mset sort_by_mset)
  have notin: "enrich rt \<notin> set (take n S)"
    using kept_by_count [of "enrich rt" inp k pd] no rt by (auto simp: n_def S_def)
  then have later: "enrich rt \<in> set (drop n S)" using inS by (metis UnE append_take_drop_id set_append)
  then have len: "length (take n S) = n" by (cases "n < length S") auto
  have sorted: "sorted_wrt (\<lambda>a b. age_key pd b \<le> age_key pd a) (take n S @ drop n S)"
    unfolding append_take_drop_id S_def by (rule sort_by_sorted [OF byNewestFirst_key])
  have "\<forall>e \<in> set (take n S). Q e"
  proof
    fix e assume e: "e \<in> set (take n S)"
    have "age_key pd (enrich rt) \<le> age_key pd e" using sorted e later unfolding sorted_wrt_append by blast
    then show "Q e" using kept_by_count [of e inp k pd] e by (simp add: byNewestFirst_key Q_def n_def S_def)
  qed
  then have "n = length (filter Q (take n S))" using len by simp
  also have "\<dots> \<le> length (filter Q S)" by (metis append_take_drop_id filter_append le_add1 length_append)
  also have "\<dots> = length (filter Q (pot k (ri_repoTags inp)))"
    unfolding S_def by (metis mset_filter size_mset sort_by_mset)
  also have "\<dots> = length (filter (\<lambda>u. klass_of u = k \<and> Q (enrich u)) (ri_repoTags inp))"
    by (simp add: pot_def filter_map comp_def conj_commute)
  finally have "n \<le> length (filter (\<lambda>u. klass_of u = k \<and> rt_tag u \<in> set (rp_keep (planRetention pd inp)) \<and> byNewestFirst pd (enrich u) (enrich rt) \<le> 0) (ri_repoTags inp))"
    by (simp add: Q_def)
  then show ?thesis using no rt unfolding n_def k_def by blast
qed

definition bare_tag :: "string \<Rightarrow> repo_tag" where
  "bare_tag t = \<lparr>rt_tag = t, rt_ts14 = None, rt_pushedAt = None\<rparr>"

definition toy_retention :: retention_input where
  "toy_retention = \<lparr>ri_repoTags = map bare_tag [''1.0.000-stable-20250101000000'', ''1.0.001-stable-20250201000000''],
     ri_referenced = [], ri_keepStable = Some 1, ri_keepNonStable = None\<rparr>"

theorem pruned_tags_are_outnumbered_witness:
  "rp_delete (planRetention (\<lambda>_. None) toy_retention) = [''1.0.000-stable-20250101000000''] \<and>
   ''1.0.000-stable-20250101000000'' \<notin> set (rp_keep (planRetention (\<lambda>_. None) toy_retention))"
proof -
  have "rp_delete (planRetention (\<lambda>_. None) toy_retention) = [''1.0.000-stable-20250101000000'']" by code_simp
  then show ?thesis using pruned_tags_are_outnumbered [of "''1.0.000-stable-20250101000000''" "\<lambda>_. None" toy_retention] by simp
qed

end
