(* ===== verification/Results.thy ===== *)
theory Results
  imports Manager_Prelude
begin

text \<open>
  Reads that may throw, in order: the error sum as a monad. \<open>mapE\<close> is a loop that awaits one read per element and stops at the first
  that throws, as \<^verbatim>\<open>for ... await\<close> does.
\<close>

definition bindE :: "thrown + 'a \<Rightarrow> ('a \<Rightarrow> thrown + 'b) \<Rightarrow> thrown + 'b" where
  "bindE r k = (case r of Inl e \<Rightarrow> Inl e | Inr x \<Rightarrow> k x)"

fun mapE :: "('a \<Rightarrow> thrown + 'b) \<Rightarrow> 'a list \<Rightarrow> thrown + 'b list" where
  "mapE f [] = Inr []"
| "mapE f (x # xs) = bindE (f x) (\<lambda>y. bindE (mapE f xs) (\<lambda>ys. Inr (y # ys)))"

definition flatMapE :: "('a \<Rightarrow> thrown + 'b list) \<Rightarrow> 'a list \<Rightarrow> thrown + 'b list" where
  "flatMapE f xs = bindE (mapE f xs) (\<lambda>yss. Inr (concat yss))"

lemma bindE_simps [simp]: "bindE (Inl e) k = Inl e" "bindE (Inr x) k = k x"
  by (simp_all add: bindE_def)

lemma bindE_Inr: "bindE r k = Inr y \<longleftrightarrow> (\<exists>x. r = Inr x \<and> k x = Inr y)"
  by (cases r) auto

lemma mapE_Inr: "mapE f xs = Inr ys \<longleftrightarrow> list_all2 (\<lambda>x y. f x = Inr y) xs ys"
  by (induction xs arbitrary: ys) (auto simp: bindE_Inr list_all2_Cons1)

lemma mapE_pure: "(\<And>x. x \<in> set xs \<Longrightarrow> f x = Inr (g x)) \<Longrightarrow> mapE f xs = Inr (map g xs)"
  by (induction xs) auto

lemma mapE_result: "mapE f xs = Inr ys \<Longrightarrow> y \<in> set ys \<Longrightarrow> \<exists>x \<in> set xs. f x = Inr y"
  unfolding mapE_Inr by (induction rule: list_all2_induct) auto

lemma mapE_covers: "mapE f xs = Inr ys \<Longrightarrow> x \<in> set xs \<Longrightarrow> \<exists>y \<in> set ys. f x = Inr y"
  unfolding mapE_Inr by (induction rule: list_all2_induct) auto

lemma flatMapE_result:
  assumes "flatMapE f xs = Inr ys" "y \<in> set ys"
  obtains x zs where "x \<in> set xs" "f x = Inr zs" "y \<in> set zs"
proof -
  obtain yss where "mapE f xs = Inr yss" "ys = concat yss" using assms(1) by (auto simp: flatMapE_def bindE_Inr)
  then show thesis using assms(2) mapE_result that by fastforce
qed

lemma flatMapE_covers: "flatMapE f xs = Inr ys \<Longrightarrow> x \<in> set xs \<Longrightarrow> \<exists>zs. f x = Inr zs \<and> set zs \<subseteq> set ys"
  by (auto simp: flatMapE_def bindE_Inr dest!: mapE_covers)

end
