(* ===== verification/Registry_Reap.thy ===== *)
theory Registry_Reap
  imports Release_Tags Results Effects
begin

text \<open>
  The registry reaper: the build pins (\<^verbatim>\<open>shared/pin.ts\<close>), the search for every pinned image (\<^verbatim>\<open>registry-cleanup/search.ts\<close>) and
  the prune itself (\<^verbatim>\<open>registry-cleanup/reap.ts\<close>).

  The git repositories and the registry are parameters: a read answers or throws. The YAML parser and the texts of the schema library
  are parameters too, and so are the two registration schemas, of which the search reads two fields each. What changes
  in a reap is the registry: the state is the list of manifests it was asked to delete. Log lines are left out.
\<close>

section \<open>Pins\<close>

datatype stage = Dev | Test | Prod

fun show_stage :: "stage \<Rightarrow> string" where
  "show_stage Dev = ''dev''"
| "show_stage Test = ''test''"
| "show_stage Prod = ''prod''"

definition STAGE :: "stage list" where
  "STAGE = [Dev, Test, Prod]"

record build_pin =
  bp_name :: string
  bp_image :: string
  bp_tag :: string

record pin_hit =
  ph_carrier :: string
  ph_pin :: build_pin

record glob_pin_hit = pin_hit +
  gh_branch :: string
  gh_chart :: string
  gh_stage :: "stage option"

record glob_search =
  gs_branches :: "string list"
  gs_hits :: "glob_pin_hit list"

record pin_file =
  pf_file :: string
  pf_stage :: "stage option"

definition pinKey :: "build_pin \<Rightarrow> string" where
  "pinKey pin = bp_image pin @ '':'' @ bp_tag pin"

definition stagePinFile :: "stage \<Rightarrow> string" where
  "stagePinFile stage = ''values-'' @ show_stage stage @ ''.yaml''"

definition stagePinFiles :: "pin_file list" where
  "stagePinFiles = map (\<lambda>stage. \<lparr>pf_file = stagePinFile stage, pf_stage = Some stage\<rparr>) STAGE"

definition deployPinFile :: "stage \<Rightarrow> string" where
  "deployPinFile stage = ''pins-'' @ show_stage stage @ ''.yaml''"

definition deployPinFiles :: "pin_file list" where
  "deployPinFiles = \<lparr>pf_file = ''values.yaml'', pf_stage = None\<rparr> # map (\<lambda>stage. \<lparr>pf_file = deployPinFile stage, pf_stage = Some stage\<rparr>) STAGE"

definition lower_or_digit :: "char \<Rightarrow> bool" where
  "lower_or_digit c \<longleftrightarrow> is_digit c \<or> (CHR ''a'' \<le> c \<and> c \<le> CHR ''z'')"

text \<open>\<^verbatim>\<open>/^[a-z0-9-]+$/\<close> and \<^verbatim>\<open>/^[a-z0-9][a-z0-9._-]*$/\<close>\<close>

definition pin_name_ok :: "string \<Rightarrow> bool" where
  "pin_name_ok s \<longleftrightarrow> s \<noteq> [] \<and> list_all (\<lambda>c. lower_or_digit c \<or> c = CHR ''-'') s"

definition pin_image_ok :: "string \<Rightarrow> bool" where
  "pin_image_ok s \<longleftrightarrow> s \<noteq> [] \<and> lower_or_digit (hd s) \<and> list_all (\<lambda>c. lower_or_digit c \<or> c \<in> {CHR ''.'', CHR ''_'', CHR ''-''}) s"

fun string_field :: "json \<Rightarrow> string \<Rightarrow> string option" where
  "string_field (JObj kvs) k = (case map_of kvs k of Some (JStr s) \<Rightarrow> Some s | _ \<Rightarrow> None)"
| "string_field _ k = None"

definition buildPinSchema :: "json \<Rightarrow> build_pin option" where
  "buildPinSchema raw =
     (case (string_field raw ''name'', string_field raw ''image'', string_field raw ''tag'') of
        (Some name, Some img, Some tag) \<Rightarrow>
          if pin_name_ok name \<and> pin_image_ok img \<and> tag \<noteq> [] then Some \<lparr>bp_name = name, bp_image = img, bp_tag = tag\<rparr> else None
      | _ \<Rightarrow> None)"

record yaml_deps =
  ym_parse :: "string \<Rightarrow> thrown + json"
  ym_why :: "json \<Rightarrow> string"

definition pin_error :: "yaml_deps \<Rightarrow> string \<Rightarrow> nat \<Rightarrow> json \<Rightarrow> thrown" where
  "pin_error Y source i raw = JsError ''Error'' (source @ '' builds['' @ show_nat i @
     ''] does not match the pin grammar {name, image, tag} with a flat image: '' @ ym_why Y raw)"

definition parseBuildPins :: "yaml_deps \<Rightarrow> string \<Rightarrow> string \<Rightarrow> thrown + build_pin list" where
  "parseBuildPins Y source doc_text =
     (case ym_parse Y doc_text of
        Inl e \<Rightarrow> Inl (JsError ''Error'' (source @ '' is not parseable YAML: '' @ thrown_message e))
      | Inr doc \<Rightarrow>
          (case (case doc of JObj kvs \<Rightarrow> map_of kvs ''builds'' | _ \<Rightarrow> None) of
             None \<Rightarrow> Inr []
           | Some JNull \<Rightarrow> Inr []
           | Some (JArr builds) \<Rightarrow>
               mapE (\<lambda>(i, raw). case buildPinSchema raw of Some p \<Rightarrow> Inr p | None \<Rightarrow> Inl (pin_error Y source i raw)) (enumerate 0 builds)
           | Some _ \<Rightarrow> Inl (JsError ''Error'' (source @ '' states a builds key that is not a list '' @ em_dash @
                              '' the pin grammar is a list of {name, image, tag}''))))"

section \<open>The search for pinned images\<close>

record branch_scope =
  bs_listDir :: "string \<Rightarrow> thrown + string list"
  bs_readFile :: "string \<Rightarrow> thrown + string option"

record carrier_repo =
  cr_booksBranch :: string
  cr_listBranches :: "thrown + string list"
  cr_withBranch :: "string \<Rightarrow> thrown + branch_scope"

record unit_reader =
  ur_cloneAtRef :: "string \<Rightarrow> string \<Rightarrow> string \<Rightarrow> thrown + string"
  ur_readFile :: "string \<Rightarrow> string \<Rightarrow> thrown + string option"
  ur_dispose :: "string \<Rightarrow> thrown + unit"

record consumer_entry =
  ce_name :: string
  ce_repoURL :: string
  ce_chartPath :: "string option"

record search_deps =
  sd_cloud :: carrier_repo
  sd_deploy :: carrier_repo
  sd_unit :: unit_reader
  sd_unitCredential :: "string \<Rightarrow> thrown + string"
  sd_yaml :: yaml_deps
  sd_tenantEntry :: "json \<Rightarrow> thrown + (string \<times> string)"
  sd_consumerEntry :: "json \<Rightarrow> thrown + consumer_entry"

definition pin_at :: "string \<Rightarrow> string \<Rightarrow> string \<Rightarrow> string" where
  "pin_at repo branch path = repo @ ''@'' @ branch @ '':'' @ path"

definition deliveryBranch :: "stage \<Rightarrow> string" where
  "deliveryBranch stage = ''deploy/'' @ show_stage stage"

definition registration_path :: "string \<Rightarrow> stage \<Rightarrow> string" where
  "registration_path unit stage = ''registrations/'' @ unit @ ''/'' @ show_stage stage @ ''.yaml''"

text \<open>Every pair of an entry and a file or stage, in the order of the two nested loops.\<close>

definition pairs :: "'a list \<Rightarrow> 'b list \<Rightarrow> ('a \<times> 'b) list" where
  "pairs xs ys = concat (map (\<lambda>x. map (Pair x) ys) xs)"

definition globPins :: "yaml_deps \<Rightarrow> branch_scope \<Rightarrow> string \<Rightarrow> string \<Rightarrow> string \<Rightarrow> pin_file list \<Rightarrow> thrown + bool \<times> glob_pin_hit list" where
  "globPins Y scope label branch dir files = bindE (bs_listDir scope dir) (\<lambda>charts.
     bindE (flatMapE (\<lambda>(chart, f).
       (let path = dir @ ''/'' @ chart @ ''/'' @ pf_file f; carrier = pin_at label branch path
        in bindE (bs_readFile scope path) (\<lambda>raw.
           (case raw of
              None \<Rightarrow> Inr []
            | Some doc_text \<Rightarrow> bindE (parseBuildPins Y carrier doc_text) (\<lambda>pins.
                Inr (map (\<lambda>pin. \<lparr>ph_carrier = carrier, ph_pin = pin, gh_branch = branch, gh_chart = chart, gh_stage = pf_stage f\<rparr>) pins))))))
       (pairs charts files)) (\<lambda>hits.
     Inr (charts \<noteq> [], hits)))"

definition carries_nothing :: "string \<Rightarrow> string \<Rightarrow> string list \<Rightarrow> thrown" where
  "carries_nothing label dir branches = JsError ''Error'' (''not one of '' @ label @ [CHR 0x27] @ ''s '' @ show_nat (length branches) @
     '' branch(es) carries anything under '' @ [CHR 0x22] @ dir @ [CHR 0x22] @ '' '' @ em_dash @
     '' that directory is where this platform'' @ [CHR 0x27] @ ''s own charts and their image pins stand, '' @
     ''so the search is looking at a path the repository does not have. Refusing to answer, because an empty answer here reads as '' @
     [CHR 0x22] @ ''this platform pins no images'' @ [CHR 0x22] @ '': '' @
     ''the release surface would report no app versions at all, and the registry reaper'' @ [CHR 0x27] @
     ''s keep floor would lose the class that protects the platform'' @ [CHR 0x27] @ ''s own images. '' @
     ''Branches read: '' @ (let joined = join '', '' branches in if joined = [] then ''(none)'' else joined) @ ''.'')"

definition searchGlob :: "yaml_deps \<Rightarrow> carrier_repo \<Rightarrow> string \<Rightarrow> string \<Rightarrow> pin_file list \<Rightarrow> bool \<Rightarrow> thrown + glob_search" where
  "searchGlob Y repo label dir files mustCarry = bindE (cr_listBranches repo) (\<lambda>branches.
     bindE (mapE (\<lambda>branch. bindE (cr_withBranch repo branch) (\<lambda>scope. globPins Y scope label branch dir files)) branches) (\<lambda>reads.
     if mustCarry \<and> \<not> list_ex fst reads then Inl (carries_nothing label dir branches)
     else Inr \<lparr>gs_branches = branches, gs_hits = concat (map snd reads)\<rparr>))"

definition searchPlatformApps :: "yaml_deps \<Rightarrow> carrier_repo \<Rightarrow> thrown + glob_search" where
  "searchPlatformApps Y cloud = searchGlob Y cloud ''hostyour-cloud'' ''clusters/inventories'' stagePinFiles True"

definition tenantBundles :: "search_deps \<Rightarrow> branch_scope \<Rightarrow> string \<Rightarrow> thrown + pin_hit list" where
  "tenantBundles D scope branch = bindE (bs_listDir scope ''registrations'') (\<lambda>guids.
     flatMapE (\<lambda>(guid, stage).
       (let path = registration_path guid stage
        in bindE (bs_readFile scope path) (\<lambda>raw.
           (case raw of
              None \<Rightarrow> Inr []
            | Some doc_text \<Rightarrow>
                bindE (ym_parse (sd_yaml D) doc_text) (\<lambda>doc.
                bindE (sd_tenantEntry D doc) (\<lambda>(appsImage, appsImageTag).
                if appsImage = [] \<or> appsImageTag = [] then Inr []
                else Inr [\<lparr>ph_carrier = pin_at ''deploy'' branch path,
                           ph_pin = \<lparr>bp_name = appsImage, bp_image = appsImage, bp_tag = appsImageTag\<rparr>\<rparr>]))))))
       (pairs guids STAGE))"

definition as_hit :: "glob_pin_hit \<Rightarrow> pin_hit" where
  "as_hit h = \<lparr>ph_carrier = ph_carrier h, ph_pin = ph_pin h\<rparr>"

definition searchDeploy :: "search_deps \<Rightarrow> thrown + pin_hit list" where
  "searchDeploy D = bindE (cr_listBranches (sd_deploy D)) (\<lambda>branches.
     flatMapE (\<lambda>branch. bindE (cr_withBranch (sd_deploy D) branch) (\<lambda>scope.
       bindE (globPins (sd_yaml D) scope ''deploy'' branch ''charts'' deployPinFiles) (\<lambda>(_, hits).
       bindE (tenantBundles D scope branch) (\<lambda>bundles.
       Inr (map as_hit hits @ bundles))))) branches)"

definition delivery_unreadable :: "string \<Rightarrow> stage \<Rightarrow> string \<Rightarrow> string \<Rightarrow> thrown \<Rightarrow> thrown" where
  "delivery_unreadable name stage branch repoURL e = JsError ''Error'' (''unit '' @ [CHR 0x22] @ name @ [CHR 0x22] @ '' is registered at '' @
     show_stage stage @ '' but its delivery branch '' @ branch @ '' of '' @ repoURL @ '' could not be read ('' @ thrown_message e @ '') '' @
     em_dash @ '' refusing to prune with a floor that cannot see this unit'' @ [CHR 0x27] @ ''s images'')"

definition pins_missing :: "string \<Rightarrow> stage \<Rightarrow> string \<Rightarrow> thrown" where
  "pins_missing name stage place = JsError ''Error'' (''unit '' @ [CHR 0x22] @ name @ [CHR 0x22] @ '' is registered at '' @
     show_stage stage @ '' but '' @ place @ '' does not exist '' @ em_dash @
     '' that file is where its image pins stand, so the floor cannot see them'')"

definition readUnitChart :: "search_deps \<Rightarrow> string \<Rightarrow> string \<Rightarrow> string \<Rightarrow> string \<Rightarrow> stage \<Rightarrow> thrown + pin_hit list" where
  "readUnitChart D name repoURL credentialId chartPath stage =
     (let branch = deliveryBranch stage; path = chartPath @ ''/'' @ stagePinFile stage; place = pin_at repoURL branch path
      in (case ur_cloneAtRef (sd_unit D) repoURL branch credentialId of
            Inl e \<Rightarrow> Inl (delivery_unreadable name stage branch repoURL e)
          | Inr workdir \<Rightarrow>
              (let result = bindE (ur_readFile (sd_unit D) workdir path) (\<lambda>raw.
                     (case raw of
                        None \<Rightarrow> Inl (pins_missing name stage place)
                      | Some doc_text \<Rightarrow> bindE (parseBuildPins (sd_yaml D) place doc_text) (\<lambda>pins.
                          Inr (map (\<lambda>pin. \<lparr>ph_carrier = place, ph_pin = pin\<rparr>) pins))))
               in bindE (ur_dispose (sd_unit D) workdir) (\<lambda>_. result))))"

definition searchUnitCharts :: "search_deps \<Rightarrow> thrown + pin_hit list" where
  "searchUnitCharts D = bindE (cr_withBranch (sd_cloud D) (cr_booksBranch (sd_cloud D))) (\<lambda>books.
     bindE (bs_listDir books ''registrations'') (\<lambda>units.
     flatMapE (\<lambda>(unit, stage).
       bindE (bs_readFile books (registration_path unit stage)) (\<lambda>raw.
         (case raw of
            None \<Rightarrow> Inr []
          | Some doc_text \<Rightarrow>
              bindE (ym_parse (sd_yaml D) doc_text) (\<lambda>doc.
              bindE (sd_consumerEntry D doc) (\<lambda>entry.
              (case ce_chartPath entry of
                 None \<Rightarrow> Inr []
               | Some chartPath \<Rightarrow>
                   bindE (sd_unitCredential D (ce_repoURL entry)) (\<lambda>cred.
                   readUnitChart D (ce_name entry) (ce_repoURL entry) cred chartPath stage)))))))
       (pairs units STAGE)))"

definition searchCarriers :: "search_deps \<Rightarrow> thrown + pin_hit list" where
  "searchCarriers D =
     bindE (searchUnitCharts D) (\<lambda>units.
     bindE (searchDeploy D) (\<lambda>deploys.
     bindE (searchPlatformApps (sd_yaml D) (sd_cloud D)) (\<lambda>apps.
     Inr (units @ deploys @ map as_hit (gs_hits apps)))))"

section \<open>The reap\<close>

record registry_port =
  rg_listRepos :: "thrown + string list"
  rg_listTags :: "string \<Rightarrow> thrown + string list"
  rg_resolveDigest :: "string \<Rightarrow> string \<Rightarrow> thrown + string"
  rg_deleteManifest :: "string \<Rightarrow> string \<Rightarrow> nat \<Rightarrow> thrown + unit"

record reap_deps =
  rd_search :: search_deps
  rd_pluginPins :: "(thrown + pin_hit list) option"
  rd_registry :: registry_port
  rd_dryRun :: bool
  rd_keepStable :: "nat option"
  rd_keepNonStable :: "nat option"

record repo_plan =
  pl_repo :: string
  pl_keep :: "string list"
  pl_delete :: "string list"

record doomed =
  dm_repo :: string
  dm_digest :: string
  dm_tags :: "string list"

record reap_result =
  rr_dryRun :: bool
  rr_referencedCount :: nat
  rr_repos :: "repo_plan list"
  rr_deleted :: "doomed list"

text \<open>The state of a reap: the delete requests the registry got, in order.\<close>

type_synonym 'a ract = "((string \<times> string) list, 'a) comp"

definition isOurs :: "string \<Rightarrow> bool" where
  "isOurs repo \<longleftrightarrow> CHR ''/'' \<notin> set repo"

definition empty_floor :: thrown where
  "empty_floor = JsError ''Error'' (''registry-reaper: the referenced floor is EMPTY '' @ em_dash @
     '' the pin search over the unit charts, the deploy repository and the hostyour-cloud platform apps found nothing. '' @
     ''Anything deployed pins an image, so an empty floor means the search did not see what it should have, and every aged tag would be on the delete plan. '' @
     ''Refusing to prune; nothing deleted.'')"

definition reap_floor :: "reap_deps \<Rightarrow> thrown + string list" where
  "reap_floor D =
     bindE (searchCarriers (rd_search D)) (\<lambda>hits.
     bindE (case rd_pluginPins D of None \<Rightarrow> Inr [] | Some pins \<Rightarrow> pins) (\<lambda>plugin.
     (let referenced = remdups (map (\<lambda>h. pinKey (ph_pin h)) (hits @ plugin))
      in if referenced = [] then Inl empty_floor else Inr referenced)))"

definition plan_repo :: "reap_deps \<Rightarrow> string list \<Rightarrow> string \<Rightarrow> thrown + repo_plan" where
  "plan_repo D referenced repo =
     bindE (rg_listTags (rd_registry D) repo) (\<lambda>tags.
     (let referencedForRepo = filter (\<lambda>tag. repo @ '':'' @ tag \<in> set referenced) tags;
          plan = planRetention (\<lambda>_. None) \<lparr>ri_repoTags = map (\<lambda>tag. \<lparr>rt_tag = tag, rt_ts14 = None, rt_pushedAt = None\<rparr>) tags,
                   ri_referenced = referencedForRepo, ri_keepStable = rd_keepStable D, ri_keepNonStable = rd_keepNonStable D\<rparr>
      in Inr \<lparr>pl_repo = repo, pl_keep = rp_keep plan, pl_delete = rp_delete plan\<rparr>))"

text \<open>A digest map is an association list in insertion order, as a JavaScript map iterates.\<close>

fun add_digest :: "string \<Rightarrow> string \<Rightarrow> (string \<times> string list) list \<Rightarrow> (string \<times> string list) list" where
  "add_digest d tag [] = [(d, [tag])]"
| "add_digest d tag ((d', tags) # rest) = (if d = d' then (d', tags @ [tag]) # rest else (d', tags) # add_digest d tag rest)"

definition doom_repo :: "reap_deps \<Rightarrow> repo_plan \<Rightarrow> thrown + doomed list" where
  "doom_repo D p =
     (if pl_delete p = [] then Inr []
      else bindE (mapE (rg_resolveDigest (rd_registry D) (pl_repo p)) (pl_keep p)) (\<lambda>keepDigests.
           bindE (mapE (\<lambda>tag. bindE (rg_resolveDigest (rd_registry D) (pl_repo p) tag) (\<lambda>digest. Inr (digest, tag))) (pl_delete p)) (\<lambda>resolved.
           (let byDigest = fold (\<lambda>(digest, tag) m. if digest \<in> set keepDigests then m else add_digest digest tag m) resolved []
            in Inr (map (\<lambda>(digest, tags). \<lparr>dm_repo = pl_repo p, dm_digest = digest, dm_tags = tags\<rparr>) byDigest)))))"

definition delete_doomed :: "reap_deps \<Rightarrow> doomed \<Rightarrow> unit ract" where
  "delete_doomed D d = bindM (gets length) (\<lambda>n.
     bindM (modify (\<lambda>sent. sent @ [(dm_repo d, dm_digest d)])) (\<lambda>_.
     liftE (rg_deleteManifest (rd_registry D) (dm_repo d) (dm_digest d) n)))"

definition reap_reads :: "reap_deps \<Rightarrow> thrown + (nat \<times> repo_plan list \<times> doomed list)" where
  "reap_reads D =
     bindE (reap_floor D) (\<lambda>referenced.
     bindE (rg_listRepos (rd_registry D)) (\<lambda>allRepos.
     bindE (mapE (plan_repo D referenced) (filter isOurs allRepos)) (\<lambda>repoPlans.
     bindE (flatMapE (doom_repo D) repoPlans) (\<lambda>deletePlan.
     Inr (length referenced, repoPlans, deletePlan)))))"

definition reap :: "reap_deps \<Rightarrow> reap_result ract" where
  "reap D =
     bindM (liftE (reap_reads D)) (\<lambda>(n, repoPlans, deletePlan).
     bindM (whenM (\<not> rd_dryRun D) (forM deletePlan (delete_doomed D))) (\<lambda>_.
     ret \<lparr>rr_dryRun = rd_dryRun D, rr_referencedCount = n, rr_repos = repoPlans,
          rr_deleted = (if rd_dryRun D then [] else deletePlan)\<rparr>))"


section \<open>What a reap deletes\<close>

lemma deletes_sent:
  "\<exists>k. snd (forM ds (delete_doomed D) sent) = sent @ take k (map (\<lambda>d. (dm_repo d, dm_digest d)) ds)"
proof (induction ds arbitrary: sent)
  case Nil
  show ?case by (simp add: forM_def)
next
  case (Cons d ds)
  define s1 where "s1 = sent @ [(dm_repo d, dm_digest d)]"
  define r where "r = rg_deleteManifest (rd_registry D) (dm_repo d) (dm_digest d) (length sent)"
  have one: "delete_doomed D d sent = (r, s1)" by (simp add: delete_doomed_def s1_def r_def)
  show ?case
  proof (cases r)
    case (Inl e)
    have "snd (forM (d # ds) (delete_doomed D) sent) = s1" using one Inl by (simp add: forM_def bindM_def)
    then show ?thesis by (intro exI [of _ 1]) (simp add: s1_def)
  next
    case (Inr u)
    obtain k where "snd (forM ds (delete_doomed D) s1) = s1 @ take k (map (\<lambda>d. (dm_repo d, dm_digest d)) ds)" using Cons by blast
    then have "snd (forM (d # ds) (delete_doomed D) sent) = sent @ take (Suc k) (map (\<lambda>d. (dm_repo d, dm_digest d)) (d # ds))"
      using one Inr by (simp add: forM_def bindM_def s1_def)
    then show ?thesis by blast
  qed
qed

lemma add_digest_keys: "set (map fst (add_digest d tag m)) = insert d (set (map fst m))"
  by (induction d tag m rule: add_digest.induct) auto

lemma doomed_digests:
  "set (map fst (fold (\<lambda>(digest, tag) m. if digest \<in> K then m else add_digest digest tag m) resolved m)) =
     set (map fst m) \<union> {d \<in> set (map fst resolved). d \<notin> K}"
proof (induction resolved arbitrary: m)
  case (Cons dt rest)
  then show ?case by (cases dt) (auto simp del: set_map simp: add_digest_keys)
qed simp

lemma doom_repo_spares:
  assumes "doom_repo D p = Inr ds" "d \<in> set ds" "tag \<in> set (pl_keep p)"
  shows "dm_repo d = pl_repo p \<and> rg_resolveDigest (rd_registry D) (pl_repo p) tag \<noteq> Inr (dm_digest d)"
proof -
  obtain keeps resolved where k: "mapE (rg_resolveDigest (rd_registry D) (pl_repo p)) (pl_keep p) = Inr keeps"
    and ds: "ds = map (\<lambda>(digest, tags). \<lparr>dm_repo = pl_repo p, dm_digest = digest, dm_tags = tags\<rparr>)
      (fold (\<lambda>(digest, tag) m. if digest \<in> set keeps then m else add_digest digest tag m) resolved [])"
    using assms(1,2) by (auto simp: doom_repo_def bindE_Inr Let_def split: if_splits)
  have "dm_digest d \<in> set (map fst (fold (\<lambda>(digest, tag) m. if digest \<in> set keeps then m else add_digest digest tag m) resolved []))"
    using assms(2) unfolding ds by force
  then have "dm_digest d \<notin> set keeps" unfolding doomed_digests by simp
  moreover have "dm_repo d = pl_repo p" using assms(2) unfolding ds by auto
  ultimately show ?thesis using mapE_covers [OF k assms(3)] by auto
qed

lemma plan_repo_keeps:
  assumes "plan_repo D referenced repo = Inr p"
  obtains tags where "rg_listTags (rd_registry D) repo = Inr tags" "pl_repo p = repo"
    "\<And>tag. tag \<in> set tags \<Longrightarrow> repo @ '':'' @ tag \<in> set referenced \<Longrightarrow> tag \<in> set (pl_keep p)"
  using assms by (auto simp: plan_repo_def bindE_Inr Let_def planRetention_def comp_def intro!: that)



section \<open>A registry to reap\<close>

definition empty_repo :: carrier_repo where
  "empty_repo = \<lparr>cr_booksBranch = ''main'', cr_listBranches = Inr [], cr_withBranch = (\<lambda>_. Inr \<lparr>bs_listDir = (\<lambda>_. Inr []), bs_readFile = (\<lambda>_. Inr None)\<rparr>)\<rparr>"

text \<open>The cloud repository pins one image, \<^verbatim>\<open>web:b\<close>, in a platform app; the registry holds it and an older tag of another digest.\<close>

definition toy_cloud :: carrier_repo where
  "toy_cloud = \<lparr>cr_booksBranch = ''main'', cr_listBranches = Inr [''main''], cr_withBranch = (\<lambda>_. Inr
     \<lparr>bs_listDir = (\<lambda>dir. Inr (if dir = ''clusters/inventories'' then [''web''] else [])),
      bs_readFile = (\<lambda>path. Inr (if path = ''clusters/inventories/web/values-prod.yaml'' then Some ''pins'' else None))\<rparr>)\<rparr>"

definition toy_search :: search_deps where
  "toy_search = \<lparr>sd_cloud = toy_cloud, sd_deploy = empty_repo,
     sd_unit = \<lparr>ur_cloneAtRef = (\<lambda>_ _ _. Inr ''/tmp''), ur_readFile = (\<lambda>_ _. Inr None), ur_dispose = (\<lambda>_. Inr ())\<rparr>,
     sd_unitCredential = (\<lambda>_. Inr ''cred_1''),
     sd_yaml = \<lparr>ym_parse = (\<lambda>_. Inr (JObj [(''builds'', JArr [JObj [(''name'', JStr ''web''), (''image'', JStr ''web''), (''tag'', JStr ''b'')]])])), ym_why = (\<lambda>_. [])\<rparr>,
     sd_tenantEntry = (\<lambda>_. Inr ([], [])), sd_consumerEntry = (\<lambda>_. Inl type_error)\<rparr>"

definition toy_reap :: reap_deps where
  "toy_reap = \<lparr>rd_search = toy_search, rd_pluginPins = None,
     rd_registry = \<lparr>rg_listRepos = Inr [''web'', ''library/redis''], rg_listTags = (\<lambda>_. Inr [''a'', ''b'']),
       rg_resolveDigest = (\<lambda>_ tag. Inr (''sha256:'' @ tag)), rg_deleteManifest = (\<lambda>_ _ _. Inr ())\<rparr>,
     rd_dryRun = False, rd_keepStable = None, rd_keepNonStable = Some 0\<rparr>"


end
