(* ===== verification/Access.thy ===== *)
theory Access
  imports Credential_Store Texts Results "HOL-Library.Countable"
begin

text \<open>
  Who may use the Manager (\<^verbatim>\<open>server/domains/access\<close> and the two middlewares in front of every protected route): the sealed session cookie,
  the login transaction, the operator rows, the break-glass door, the authentication chokepoint and the same-origin guard.

  Time is a number of milliseconds. The encryption of a token, the identity provider and the URL parser are parameters; a token's payload
  is JSON, so that the checks of its types mean something. Random texts come from a source that is indexed by how often it was
  asked. Attributes of a cookie other than its name and value, and log lines, are left out.
\<close>

section \<open>Configuration and state\<close>

record config =
  cf_cookieSecure :: bool
  cf_origin :: string
  cf_redirectUri :: string
  cf_publicUrl :: string
  cf_adminsGroup :: string
  cf_idleSeconds :: int
  cf_absoluteSeconds :: int
  cf_emergencyPort :: nat

datatype via = Oidc | Emergency

record operator_session =
  os_sub :: string
  os_email :: "string option"
  os_groups :: "string list"
  os_jti :: string
  os_via :: via
  os_authAt :: int

datatype session_verdict = SessionOk operator_session | SessionInvalid

record operator_row =
  op_id :: string
  op_username :: string
  op_displayName :: string
  op_subject :: "string option"
  op_email :: "string option"

record access_audit =
  aa_actor :: string
  aa_action :: string
  aa_detail :: "json option"

record access_state =
  ac_meta :: "(string \<times> string) list"
  ac_revoked :: "(string \<times> int) list"
  ac_operators :: "operator_row list"
  ac_audit :: "access_audit list"
  ac_tokens :: "string list"
  ac_drawn :: nat

type_synonym 'a aact = "(access_state, 'a) comp"
type_synonym payload = "(string \<times> json) list"

text \<open>\<open>jw_decrypt key token now\<close> is \<^verbatim>\<open>jwtDecrypt\<close> with its own check of \<^verbatim>\<open>exp\<close>; nothing stands for everything it throws.\<close>

record access_deps =
  ad_config :: config
  ad_random :: "nat \<Rightarrow> nat \<Rightarrow> string"
  ad_opId :: "nat \<Rightarrow> string"
  ad_encrypt :: "string \<Rightarrow> nat \<Rightarrow> payload \<Rightarrow> string"
  ad_decrypt :: "string \<Rightarrow> string \<Rightarrow> int \<Rightarrow> payload option"
  ad_hex :: "string \<Rightarrow> string"
  ad_base64url :: "string \<Rightarrow> string"
  ad_sha256 :: "string \<Rightarrow> string"
  ad_urlOrigin :: "string \<Rightarrow> string option"
  ad_resolveUrl :: "string \<Rightarrow> string \<Rightarrow> (string \<times> string \<times> string) option"

definition seconds :: "int \<Rightarrow> int" where
  "seconds now = now div 1000"

definition draw :: "nat aact" where
  "draw = bindM (gets ac_drawn) (\<lambda>n. bindM (modify (\<lambda>s. s\<lparr>ac_drawn := n + 1\<rparr>)) (\<lambda>_. ret n))"

definition audit_as :: "string \<Rightarrow> string \<Rightarrow> json option \<Rightarrow> unit aact" where
  "audit_as actor action detail = modify (\<lambda>s. s\<lparr>ac_audit := ac_audit s @ [\<lparr>aa_actor = actor, aa_action = action, aa_detail = detail\<rparr>]\<rparr>)"

section \<open>Sessions\<close>

definition sessionCookieName :: "config \<Rightarrow> string" where
  "sessionCookieName config = (if cf_cookieSecure config then ''__Host-manager'' else ''manager-session'')"

definition loadOrCreateKey :: "access_deps \<Rightarrow> string \<Rightarrow> string aact" where
  "loadOrCreateKey D metaKey = bindM (gets (\<lambda>s. map_of (ac_meta s) metaKey)) (\<lambda>existing.
     (case existing of
        Some v \<Rightarrow> ret (b64_decode v)
      | None \<Rightarrow>
          bindM draw (\<lambda>n.
          (let key = ad_random D n 32
           in bindM (modify (\<lambda>s. s\<lparr>ac_meta := (if map_of (ac_meta s) metaKey = None then ac_meta s @ [(metaKey, b64_encode key)] else ac_meta s)\<rparr>)) (\<lambda>_.
              bindM (gets (\<lambda>s. map_of (ac_meta s) metaKey)) (\<lambda>now.
              ret (case now of Some v \<Rightarrow> b64_decode v | None \<Rightarrow> key)))))))"

fun show_via :: "via \<Rightarrow> string" where
  "show_via Oidc = ''oidc''"
| "show_via Emergency = ''emergency''"

text \<open>\<^verbatim>\<open>...(email ? { email } : {})\<close>: an empty address counts as none.\<close>

definition truthy_email :: "string option \<Rightarrow> string option" where
  "truthy_email e = (case e of Some m \<Rightarrow> if m = [] then None else Some m | None \<Rightarrow> None)"

definition session_payload :: "config \<Rightarrow> int \<Rightarrow> operator_session \<Rightarrow> payload" where
  "session_payload config now session =
     [(''groups'', JArr (map JStr (os_groups session))), (''via'', JStr (show_via (os_via session))), (''aa'', JNum (os_authAt session))] @
     (case truthy_email (os_email session) of Some m \<Rightarrow> [(''email'', JStr m)] | None \<Rightarrow> []) @
     [(''sub'', JStr (os_sub session)), (''jti'', JStr (os_jti session)), (''iat'', JNum (seconds now)),
      (''exp'', JNum (os_authAt session + cf_absoluteSeconds config))]"

definition seal_session :: "access_deps \<Rightarrow> string \<Rightarrow> int \<Rightarrow> operator_session \<Rightarrow> string aact" where
  "seal_session D key now session = bindM draw (\<lambda>n. ret (ad_encrypt D key n (session_payload (ad_config D) now session)))"

definition mint_session :: "access_deps \<Rightarrow> string \<Rightarrow> int \<Rightarrow> string \<Rightarrow> string option \<Rightarrow> string list \<Rightarrow> via \<Rightarrow> string aact" where
  "mint_session D key now sub email groups v = bindM draw (\<lambda>n.
     seal_session D key now \<lparr>os_sub = sub, os_email = truthy_email email, os_groups = groups, os_jti = ad_hex D (ad_random D n 16),
       os_via = v, os_authAt = seconds now\<rparr>)"

definition refresh_session :: "access_deps \<Rightarrow> string \<Rightarrow> int \<Rightarrow> operator_session \<Rightarrow> string aact" where
  "refresh_session D key now session = seal_session D key now session"

definition revoke_session :: "access_deps \<Rightarrow> int \<Rightarrow> operator_session \<Rightarrow> unit aact" where
  "revoke_session D now session =
     bindM (modify (\<lambda>s. s\<lparr>ac_revoked := (if os_jti session \<in> set (map fst (ac_revoked s)) then ac_revoked s
              else ac_revoked s @ [(os_jti session, os_authAt session + cf_absoluteSeconds (ad_config D))])\<rparr>)) (\<lambda>_.
     modify (\<lambda>s. s\<lparr>ac_revoked := filter (\<lambda>(jti, expiresAt). \<not> expiresAt < seconds now) (ac_revoked s)\<rparr>))"

fun json_string :: "json option \<Rightarrow> string option" where
  "json_string (Some (JStr s)) = Some s"
| "json_string _ = None"

fun json_number :: "json option \<Rightarrow> int option" where
  "json_number (Some (JNum n)) = Some n"
| "json_number _ = None"

fun json_strings :: "json option \<Rightarrow> string list" where
  "json_strings (Some (JArr xs)) = List.map_filter (\<lambda>x. json_string (Some x)) xs"
| "json_strings _ = []"

definition payload_verdict :: "config \<Rightarrow> (string \<times> int) list \<Rightarrow> int \<Rightarrow> payload \<Rightarrow> session_verdict" where
  "payload_verdict config revoked now payload =
     (let claim = map_of payload; iat = opt_default 0 (json_number (claim ''iat''))
      in if now - 1000 * iat > 1000 * cf_idleSeconds config then SessionInvalid
         else (case (json_string (claim ''jti''), json_string (claim ''sub'')) of
                 (Some jti, Some sub) \<Rightarrow>
                   if jti \<in> set (map fst revoked) then SessionInvalid
                   else (case json_number (claim ''aa'') of
                           None \<Rightarrow> SessionInvalid
                         | Some authAt \<Rightarrow>
                             if now > 1000 * (authAt + cf_absoluteSeconds config) then SessionInvalid
                             else SessionOk \<lparr>os_sub = sub, os_email = truthy_email (json_string (claim ''email'')),
                                    os_groups = json_strings (claim ''groups''), os_jti = jti,
                                    os_via = (if claim ''via'' = Some (JStr ''oidc'') then Oidc else Emergency), os_authAt = authAt\<rparr>)
               | _ \<Rightarrow> SessionInvalid))"

definition verify_session :: "access_deps \<Rightarrow> string \<Rightarrow> int \<Rightarrow> string \<Rightarrow> access_state \<Rightarrow> session_verdict" where
  "verify_session D key now cookie s =
     (case ad_decrypt D key cookie now of
        None \<Rightarrow> SessionInvalid
      | Some payload \<Rightarrow> payload_verdict (ad_config D) (ac_revoked s) now payload)"

section \<open>The login transaction\<close>

record login_tx =
  lt_v :: string
  lt_s :: string
  lt_rt :: string

definition loginTxCookieName :: "config \<Rightarrow> string" where
  "loginTxCookieName config = (if cf_cookieSecure config then ''__Host-oidc-tx'' else ''oidc-tx'')"

definition seal_tx :: "access_deps \<Rightarrow> string \<Rightarrow> int \<Rightarrow> login_tx \<Rightarrow> string aact" where
  "seal_tx D key now tx = bindM draw (\<lambda>n. ret (ad_encrypt D key n
     [(''v'', JStr (lt_v tx)), (''s'', JStr (lt_s tx)), (''rt'', JStr (lt_rt tx)), (''iat'', JNum (seconds now)), (''exp'', JNum (seconds now + 600))]))"

definition open_tx :: "access_deps \<Rightarrow> string \<Rightarrow> int \<Rightarrow> string option \<Rightarrow> login_tx option" where
  "open_tx D key now cookie =
     (case cookie of
        None \<Rightarrow> None
      | Some c \<Rightarrow>
          if c = [] then None
          else (case ad_decrypt D key c now of
                  None \<Rightarrow> None
                | Some payload \<Rightarrow>
                    (case (json_string (map_of payload ''v''), json_string (map_of payload ''s''), json_string (map_of payload ''rt'')) of
                       (Some v, Some st, Some rt) \<Rightarrow> Some \<lparr>lt_v = v, lt_s = st, lt_rt = rt\<rparr>
                     | _ \<Rightarrow> None)))"

section \<open>Operators\<close>

definition upsertOperator :: "access_deps \<Rightarrow> string \<Rightarrow> string option \<Rightarrow> string aact" where
  "upsertOperator D subject email = bindM (gets (\<lambda>s. List.find (\<lambda>o'. op_subject o' = Some subject) (ac_operators s))) (\<lambda>existing.
     (case existing of
        Some o' \<Rightarrow>
          bindM (whenM (email \<noteq> None \<and> email \<noteq> op_email o')
            (modify (\<lambda>s. s\<lparr>ac_operators := update_where (\<lambda>x. op_id x = op_id o') (\<lambda>x. x\<lparr>op_email := email\<rparr>) (ac_operators s)\<rparr>))) (\<lambda>_.
          ret (op_id o'))
      | None \<Rightarrow>
          (let local = (case email of Some m \<Rightarrow> trim (hd (split_char (CHR ''@'') m)) | None \<Rightarrow> []);
               base = (if local \<noteq> [] then local else subject)
           in bindM (gets (\<lambda>s. base \<in> set (map op_username (ac_operators s)))) (\<lambda>clash.
              bindM draw (\<lambda>n.
              (let oid = ad_opId D n;
                   username = (if clash then base @ ''-'' @ drop (length oid - 6) oid else base)
               in bindM (gets (\<lambda>s. username \<in> set (map op_username (ac_operators s)) \<or> oid \<in> set (map op_id (ac_operators s)))) (\<lambda>taken.
                  if taken then throwM (sqlite_constraint ''operators'')
                  else bindM (modify (\<lambda>s. s\<lparr>ac_operators := ac_operators s @ [\<lparr>op_id = oid, op_username = username, op_displayName = base,
                         op_subject = Some subject, op_email = email\<rparr>]\<rparr>)) (\<lambda>_.
                       bindM (audit_as oid ''operator.upserted'' (Some (JObj [(''subject'', JStr subject)]))) (\<lambda>_.
                       ret oid)))))))))"

section \<open>The gate\<close>

datatype gate_result = GateOk operator_session | GateUnauthenticated | GateForbidden string "string option"

definition requireOperator :: "operator_session option \<Rightarrow> string \<Rightarrow> gate_result" where
  "requireOperator session adminsGroup =
     (case session of
        None \<Rightarrow> GateUnauthenticated
      | Some s \<Rightarrow> if adminsGroup \<notin> set (os_groups s) then GateForbidden (os_sub s) (truthy_email (os_email s)) else GateOk s)"

definition csrfOk :: "access_deps \<Rightarrow> string option \<Rightarrow> string option \<Rightarrow> bool" where
  "csrfOk D secFetchSite origin =
     (if secFetchSite = Some ''same-origin'' then True
      else (case origin of
              None \<Rightarrow> False
            | Some orig \<Rightarrow> if orig = [] then False else ad_urlOrigin D orig = Some (cf_origin (ad_config D))))"

fun escape_html_char :: "char \<Rightarrow> string" where
  "escape_html_char c =
     (if c = CHR ''&'' then ''&amp;'' else if c = CHR ''<'' then ''&lt;'' else if c = CHR ''>'' then ''&gt;''
      else if c = CHR 0x22 then ''&quot;'' else if c = CHR 0x27 then ''&#39;'' else [c])"

definition escapeHtml :: "string \<Rightarrow> string" where
  "escapeHtml s = concat (map escape_html_char s)"

definition quoted :: "string \<Rightarrow> string" where
  "quoted s = [CHR 0x22] @ s @ [CHR 0x22]"

definition renderForbidden :: "string option \<Rightarrow> string \<Rightarrow> string \<Rightarrow> string" where
  "renderForbidden email grp signoutUrl =
     (let who = (case truthy_email email of Some m \<Rightarrow> ''signed in as <strong>'' @ escapeHtml m @ ''</strong>'' | None \<Rightarrow> ''signed in'')
      in join [newline]
        [''<!doctype html>'',
         ''<html lang='' @ quoted ''en'' @ ''>'',
         ''<head><meta charset='' @ quoted ''utf-8'' @ ''><meta name='' @ quoted ''viewport'' @ '' content='' @ quoted ''width=device-width, initial-scale=1'' @ ''>'',
         ''<title>Access denied</title>'',
         ''<link rel='' @ quoted ''stylesheet'' @ '' href='' @ quoted ''/access/forbidden.css'' @ ''></head>'',
         ''<body>'',
         ''<h1>Access denied</h1>'',
         ''<p>You are '' @ who @ '', but not a member of <code>'' @ escapeHtml grp @ ''</code>.</p>'',
         ''<p>Ask an administrator to add you to that group, then sign in again.</p>'',
         ''<p><a href='' @ quoted (escapeHtml signoutUrl) @ ''>Sign out</a></p>'',
         ''</body>'',
         ''</html>''])"


section \<open>Requests and answers\<close>

record request =
  rq_method :: string
  rq_path :: string
  rq_accept :: "string option"
  rq_authorization :: "string option"
  rq_secFetchSite :: "string option"
  rq_origin :: "string option"
  rq_cookies :: "(string \<times> string) list"
  rq_query :: "(string \<times> string) list"

datatype http_answer = Redirect string | JsonError nat string string | Html nat string | JsonBody "(string \<times> string) list"

datatype auth_carrier = Bearer | Cookie

text \<open>The cookies an answer sets; a cookie that is deleted is set to nothing.\<close>

type_synonym set_cookies = "(string \<times> string option) list"

datatype passed = Answered http_answer | Through auth_carrier operator_session

definition wantsHtml :: "request \<Rightarrow> bool" where
  "wantsHtml c \<longleftrightarrow> rq_method c = ''GET'' \<and> has_substring (opt_default [] (rq_accept c)) ''text/html''"

text \<open>\<^verbatim>\<open>/^Bearer +(\S.*)$/i\<close> on the header, and the first group of a match.\<close>

definition bearer_of :: "string \<Rightarrow> string option" where
  "bearer_of h =
     (let rest = drop 6 h; tok = dropWhile (\<lambda>c. c = CHR '' '') rest
      in if toLowerCase (take 6 h) = ''bearer'' \<and> rest \<noteq> [] \<and> hd rest = CHR '' '' \<and> tok \<noteq> [] \<and> \<not> is_space (hd tok) \<and>
            newline \<notin> set tok \<and> CHR 0x0D \<notin> set tok
         then Some tok else None)"

definition presentedSession :: "config \<Rightarrow> request \<Rightarrow> auth_carrier \<times> string" where
  "presentedSession config c =
     (case bearer_of (opt_default [] (rq_authorization c)) of
        Some token \<Rightarrow> (Bearer, token)
      | None \<Rightarrow> (Cookie, opt_default [] (map_of (rq_cookies c) (sessionCookieName config))))"

definition uri_safe :: "char \<Rightarrow> bool" where
  "uri_safe c \<longleftrightarrow> is_digit c \<or> (CHR ''a'' \<le> c \<and> c \<le> CHR ''z'') \<or> (CHR ''A'' \<le> c \<and> c \<le> CHR ''Z'') \<or>
     c \<in> {CHR ''-'', CHR ''_'', CHR ''.'', CHR ''!'', CHR ''~'', CHR ''*'', CHR 0x27, CHR ''('', CHR '')''}"

definition upper_hex :: "nat \<Rightarrow> char" where
  "upper_hex n = (if n < 10 then char_of (48 + n) else char_of (55 + n))"

definition encodeURIComponent :: "string \<Rightarrow> string" where
  "encodeURIComponent s = concat (map (\<lambda>c. if uri_safe c then [c]
     else (let n = of_char c :: nat in [CHR ''%'', upper_hex (n div 16), upper_hex (n mod 16)])) s)"

definition chokepoint :: "access_deps \<Rightarrow> string \<Rightarrow> int \<Rightarrow> request \<Rightarrow> (passed \<times> set_cookies) aact" where
  "chokepoint D key now c =
     (let config = ad_config D; (carrier, value) = presentedSession config c
      in bindM (gets (verify_session D key now value)) (\<lambda>verdict.
         (case requireOperator (case verdict of SessionOk s \<Rightarrow> Some s | SessionInvalid \<Rightarrow> None) (cf_adminsGroup config) of
            GateOk session \<Rightarrow>
              (if carrier = Cookie
               then bindM (refresh_session D key now session) (\<lambda>sealed.
                    ret (Through carrier session, [(sessionCookieName config, Some sealed)]))
               else ret (Through carrier session, []))
          | GateUnauthenticated \<Rightarrow>
              ret (Answered (if wantsHtml c then Redirect (''/auth/login?next='' @ encodeURIComponent (rq_path c))
                             else JsonError 401 ''UNAUTHENTICATED'' ''Not signed in''), [])
          | GateForbidden username email \<Rightarrow>
              ret (Answered (if wantsHtml c then Html 403 (renderForbidden email (cf_adminsGroup config) ''/auth/logout'')
                             else JsonError 403 ''NOT_A_MEMBER'' (''Not a member of '' @ cf_adminsGroup config)), []))))"

definition unsafe_methods :: "string list" where
  "unsafe_methods = [''POST'', ''PUT'', ''PATCH'', ''DELETE'']"

definition csrfGuard :: "access_deps \<Rightarrow> auth_carrier \<Rightarrow> request \<Rightarrow> unit aact" where
  "csrfGuard D carrier c =
     (if rq_method c \<notin> set unsafe_methods then ret ()
      else if carrier = Bearer then ret ()
      else if \<not> csrfOk D (rq_secFetchSite c) (rq_origin c) then throwM (App CsrfRefused)
      else ret ())"

text \<open>What stands in front of a protected route: the chokepoint, then the guard, as the assembly of the application mounts them.\<close>

definition in_front :: "access_deps \<Rightarrow> string \<Rightarrow> int \<Rightarrow> request \<Rightarrow> (passed \<times> set_cookies) aact" where
  "in_front D key now c = bindM (chokepoint D key now c) (\<lambda>(p, cookies).
     (case p of
        Answered a \<Rightarrow> ret (Answered a, cookies)
      | Through carrier session \<Rightarrow> bindM (csrfGuard D carrier c) (\<lambda>_. ret (Through carrier session, cookies))))"

section \<open>Sign in and out\<close>

record identity =
  id_subject :: string
  id_email :: "string option"
  id_groups :: "string list"

record oidc_port =
  oi_authUrl :: "string \<Rightarrow> string \<Rightarrow> string \<Rightarrow> thrown + string"
  oi_exchange :: "string \<Rightarrow> string \<Rightarrow> string \<Rightarrow> string \<Rightarrow> string \<Rightarrow> thrown + identity"
  oi_endSessionUrl :: "string \<Rightarrow> thrown + string option"

definition validateReturnTo :: "access_deps \<Rightarrow> string option \<Rightarrow> string" where
  "validateReturnTo D next_path =
     (case next_path of
        None \<Rightarrow> ''/''
      | Some n \<Rightarrow>
          if n = [] \<or> \<not> startsWith n ''/'' \<or> startsWith n ''//'' then ''/''
          else (case ad_resolveUrl D n (cf_origin (ad_config D)) of
                  None \<Rightarrow> ''/''
                | Some (origin, pathname, search) \<Rightarrow> if origin \<noteq> cf_origin (ad_config D) then ''/'' else pathname @ search))"

definition auth_login :: "access_deps \<Rightarrow> oidc_port \<Rightarrow> string \<Rightarrow> int \<Rightarrow> request \<Rightarrow> (http_answer \<times> set_cookies) aact" where
  "auth_login D oidc txKey now c =
     (let returnTo = validateReturnTo D (map_of (rq_query c) ''next'')
      in bindM draw (\<lambda>n. bindM draw (\<lambda>m.
         (let verifier = ad_base64url D (ad_random D n 32);
              challenge = ad_base64url D (ad_sha256 D verifier);
              state = ad_base64url D (ad_random D m 16)
          in bindM (liftE (oi_authUrl oidc state (cf_redirectUri (ad_config D)) challenge)) (\<lambda>url.
             bindM (seal_tx D txKey now \<lparr>lt_v = verifier, lt_s = state, lt_rt = returnTo\<rparr>) (\<lambda>sealed.
             ret (Redirect url, [(loginTxCookieName (ad_config D), Some sealed)])))))))"

definition auth_callback :: "access_deps \<Rightarrow> oidc_port \<Rightarrow> string \<Rightarrow> string \<Rightarrow> int \<Rightarrow> request \<Rightarrow> (http_answer \<times> set_cookies) aact" where
  "auth_callback D oidc key txKey now c =
     (case open_tx D txKey now (map_of (rq_cookies c) (loginTxCookieName (ad_config D))) of
        None \<Rightarrow> ret (JsonError 400 ''VALIDATION'' (''Login expired '' @ em_dash @ '' please start again''), [])
      | Some tx \<Rightarrow>
          (case opt_default [] (map_of (rq_query c) ''error'') of
             e # es \<Rightarrow> ret (JsonError 400 ''VALIDATION'' (''IdP error: '' @ e # es), [])
           | [] \<Rightarrow>
               bindM (liftE (oi_exchange oidc (opt_default [] (map_of (rq_query c) ''code'')) (opt_default [] (map_of (rq_query c) ''state''))
                        (cf_redirectUri (ad_config D)) (lt_v tx) (lt_s tx))) (\<lambda>who.
               bindM (upsertOperator D (id_subject who) (truthy_email (id_email who))) (\<lambda>operatorId.
               bindM (mint_session D key now operatorId (truthy_email (id_email who)) (id_groups who) Oidc) (\<lambda>token.
               bindM (audit_as operatorId ''session.started'' (Some (JObj [(''member'', JBool (cf_adminsGroup (ad_config D) \<in> set (id_groups who)))]))) (\<lambda>_.
               ret (Redirect (lt_rt tx), [(loginTxCookieName (ad_config D), None), (sessionCookieName (ad_config D), Some token)])))))))"

definition auth_logout :: "access_deps \<Rightarrow> oidc_port \<Rightarrow> string \<Rightarrow> int \<Rightarrow> request \<Rightarrow> (http_answer \<times> set_cookies) aact" where
  "auth_logout D oidc key now c =
     bindM (gets (verify_session D key now (opt_default [] (map_of (rq_cookies c) (sessionCookieName (ad_config D)))))) (\<lambda>verdict.
     bindM (case verdict of
              SessionOk session \<Rightarrow> bindM (revoke_session D now session) (\<lambda>_. audit_as (os_sub session) ''session.ended'' None)
            | SessionInvalid \<Rightarrow> ret ()) (\<lambda>_.
     (let end_url = (case oi_endSessionUrl oidc (cf_publicUrl (ad_config D)) of Inr (Some u) \<Rightarrow> u | _ \<Rightarrow> ''/'')
      in ret (Redirect end_url, [(sessionCookieName (ad_config D), None)]))))"

section \<open>The break-glass door\<close>

definition mint_token :: "access_deps \<Rightarrow> string aact" where
  "mint_token D = bindM draw (\<lambda>n.
     (let token = ad_base64url D (ad_random D n 32)
      in bindM (modify (\<lambda>s. s\<lparr>ac_tokens := (if token \<in> set (ac_tokens s) then ac_tokens s else ac_tokens s @ [token])\<rparr>)) (\<lambda>_. ret token)))"

definition redeem_token :: "string \<Rightarrow> bool aact" where
  "redeem_token token = bindM (gets (\<lambda>s. token \<in> set (ac_tokens s))) (\<lambda>there.
     bindM (modify (\<lambda>s. s\<lparr>ac_tokens := filter (\<lambda>t. t \<noteq> token) (ac_tokens s)\<rparr>)) (\<lambda>_. ret there))"

definition mintEmergencySession :: "access_deps \<Rightarrow> string \<Rightarrow> int \<Rightarrow> string \<Rightarrow> string aact" where
  "mintEmergencySession D key now arrivedBy =
     bindM (mint_session D key now ''op_emergency'' None [cf_adminsGroup (ad_config D)] Emergency) (\<lambda>session.
     bindM (audit_as ''op_emergency'' ''operator.login'' (Some (JObj [(''method'', JStr ''emergency''), (''arrivedBy'', JStr arrivedBy)]))) (\<lambda>_.
     ret session))"

definition auth_emergency :: "access_deps \<Rightarrow> string \<Rightarrow> int \<Rightarrow> request \<Rightarrow> (http_answer \<times> set_cookies) aact" where
  "auth_emergency D key now c =
     bindM (redeem_token (opt_default [] (map_of (rq_query c) ''token''))) (\<lambda>redeemed.
     if \<not> redeemed then ret (JsonError 401 ''UNAUTHENTICATED'' ''Invalid or already-used break-glass token'', [])
     else bindM (mintEmergencySession D key now ''browser_redeem'') (\<lambda>session.
          ret (Redirect ''/'', [(sessionCookieName (ad_config D), Some session)])))"

definition break_glass :: "access_deps \<Rightarrow> (http_answer \<times> set_cookies) aact" where
  "break_glass D = bindM (mint_token D) (\<lambda>token.
     ret (JsonBody [(''url'', ''http://127.0.0.1:'' @ show_nat (cf_emergencyPort (ad_config D)) @ ''/auth/emergency?token='' @ token)], []))"

definition admin_session :: "access_deps \<Rightarrow> string \<Rightarrow> int \<Rightarrow> (http_answer \<times> set_cookies) aact" where
  "admin_session D key now = bindM (mintEmergencySession D key now ''admin_sock'') (\<lambda>session.
     ret (JsonBody [(''session'', session)], []))"


section \<open>How long a session holds\<close>

text \<open>What the token library documents: it opens what it sealed under the key, until the second of its \<^verbatim>\<open>exp\<close> claim.\<close>

definition jose_ok :: "access_deps \<Rightarrow> bool" where
  "jose_ok D \<longleftrightarrow> (\<forall>key n p now. ad_decrypt D key (ad_encrypt D key n p) now =
     (case json_number (map_of p ''exp'') of Some e \<Rightarrow> if e \<le> seconds now then None else Some p | None \<Rightarrow> Some p))"

lemma seconds_le: "e \<le> seconds now \<longleftrightarrow> 1000 * e \<le> now"
  unfolding seconds_def by linarith

lemma session_claims:
  "map_of (session_payload config now session) ''exp'' = Some (JNum (os_authAt session + cf_absoluteSeconds config))"
  "map_of (session_payload config now session) ''iat'' = Some (JNum (seconds now))"
  "map_of (session_payload config now session) ''jti'' = Some (JStr (os_jti session))"
  "map_of (session_payload config now session) ''sub'' = Some (JStr (os_sub session))"
  "map_of (session_payload config now session) ''aa'' = Some (JNum (os_authAt session))"
  "map_of (session_payload config now session) ''groups'' = Some (JArr (map JStr (os_groups session)))"
  "map_of (session_payload config now session) ''via'' = Some (JStr (show_via (os_via session)))"
  "map_of (session_payload config now session) ''email'' = map_option JStr (truthy_email (os_email session))"
  by (simp_all add: session_payload_def map_add_def split: option.split)

lemma json_strings_map: "json_strings (Some (JArr (map JStr xs))) = xs"
  by (induction xs) (simp_all add: List.map_filter_def)

lemma show_via_oidc: "show_via v = ''oidc'' \<longleftrightarrow> v = Oidc"
  by (cases v) simp_all

lemma truthy_email_idem [simp]: "truthy_email (truthy_email e) = truthy_email e"
  by (auto simp: truthy_email_def split: option.split)

lemma json_string_map: "json_string (map_option JStr e) = e"
  by (cases e) simp_all

lemma payload_of_session:
  "payload_verdict config revoked now (session_payload config t0 session) =
    (if now \<le> 1000 * (seconds t0 + cf_idleSeconds config) \<and> os_jti session \<notin> set (map fst revoked) \<and>
        now \<le> 1000 * (os_authAt session + cf_absoluteSeconds config)
     then SessionOk (session\<lparr>os_email := truthy_email (os_email session)\<rparr>) else SessionInvalid)"
proof -
  have v: "(if show_via (os_via session) = ''oidc'' then Oidc else Emergency) = os_via session"
    by (cases "os_via session") simp_all
  show ?thesis
    unfolding payload_verdict_def Let_def session_claims json_string_map json_strings_map
    using v by (auto simp: algebra_simps)
qed

lemma sealed_verdict:
  assumes "jose_ok D" "seal_session D key t0 session s = (Inr cookie, s1)"
  shows "verify_session D key now cookie s' =
    (if now \<le> 1000 * (seconds t0 + cf_idleSeconds (ad_config D)) \<and> os_jti session \<notin> set (map fst (ac_revoked s')) \<and>
        now < 1000 * (os_authAt session + cf_absoluteSeconds (ad_config D))
     then SessionOk (session\<lparr>os_email := truthy_email (os_email session)\<rparr>) else SessionInvalid)"
proof -
  have "cookie = ad_encrypt D key (ac_drawn s) (session_payload (ad_config D) t0 session)"
    using assms(2) by (simp add: seal_session_def draw_def bindM_def)
  then have "ad_decrypt D key cookie now =
      (if os_authAt session + cf_absoluteSeconds (ad_config D) \<le> seconds now then None else Some (session_payload (ad_config D) t0 session))"
    using assms(1) unfolding jose_ok_def by (simp add: session_claims)
  then show ?thesis
    by (simp add: verify_session_def payload_of_session seconds_le algebra_simps)
qed

text \<open>
  C25 A session holds exactly as long as it should. A token sealed for a session at one moment opens to that very session at a later one, when
  its jti is not revoked, no more than the idle time lies between the two, and the absolute time since the first sign-in has
  not run out; at any other moment it is invalid. Sealing it again never moves the absolute end.
\<close>

theorem session_holds_exactly:
  assumes "jose_ok D" "seal_session D key t0 session s = (Inr cookie, s1)"
  shows "verify_session D key now cookie s' =
    (if now \<le> 1000 * (seconds t0 + cf_idleSeconds (ad_config D)) \<and> os_jti session \<notin> set (map fst (ac_revoked s')) \<and>
        now < 1000 * (os_authAt session + cf_absoluteSeconds (ad_config D))
     then SessionOk (session\<lparr>os_email := truthy_email (os_email session)\<rparr>) else SessionInvalid)"
  by (rule sealed_verdict [OF assms])

section \<open>A revoked session\<close>

definition out_until :: "string \<Rightarrow> int \<Rightarrow> int \<Rightarrow> access_state \<Rightarrow> bool" where
  "out_until jti e now s \<longleftrightarrow> (\<forall>(j, e') \<in> set (ac_revoked s). j = jti \<longrightarrow> e' = e) \<and> (jti \<in> set (map fst (ac_revoked s)) \<or> e < seconds now)"

lemma revoke_run:
  "revoke_session D t x s = (Inr (), s\<lparr>ac_revoked := filter (\<lambda>(jti, e). \<not> e < seconds t)
     (if os_jti x \<in> set (map fst (ac_revoked s)) then ac_revoked s
      else ac_revoked s @ [(os_jti x, os_authAt x + cf_absoluteSeconds (ad_config D))])\<rparr>)"
  by (simp add: revoke_session_def bindM_def)

lemma seconds_mono: "t \<le> now \<Longrightarrow> seconds t \<le> seconds now"
  by (simp add: seconds_def zdiv_mono1)

lemma pruned_rows:
  assumes "\<forall>(j, e') \<in> set rows. j = jti \<longrightarrow> e' = e" "jti \<in> set (map fst rows) \<or> e < seconds now" "t \<le> now"
  shows "jti \<in> set (map fst (filter (\<lambda>(j, e'). \<not> e' < seconds t) rows)) \<or> e < seconds now"
proof (cases "e < seconds now")
  case False
  then obtain e' where "(jti, e') \<in> set rows" using assms(2) by auto
  moreover from this have "e' = e" using assms(1) by blast
  ultimately have "(jti, e) \<in> set (filter (\<lambda>(j, e'). \<not> e' < seconds t) rows)" using False seconds_mono [OF assms(3)] by auto
  then show ?thesis by force
qed simp

lemma revoke_keeps_out:
  assumes "\<forall>(j, e') \<in> set (ac_revoked s). j = jti \<longrightarrow> e' = e" "t \<le> now"
    and "os_jti x = jti \<Longrightarrow> os_authAt x + cf_absoluteSeconds (ad_config D) = e"
    and "os_jti x = jti \<or> jti \<in> set (map fst (ac_revoked s)) \<or> e < seconds now"
  shows "out_until jti e now (snd (revoke_session D t x s))"
proof -
  define rows where "rows = (if os_jti x \<in> set (map fst (ac_revoked s)) then ac_revoked s
      else ac_revoked s @ [(os_jti x, os_authAt x + cf_absoluteSeconds (ad_config D))])"
  have 1: "\<forall>(j, e') \<in> set rows. j = jti \<longrightarrow> e' = e" using assms(1,3) by (auto simp: rows_def)
  moreover have "jti \<in> set (map fst rows) \<or> e < seconds now" using assms(4) by (auto simp: rows_def)
  ultimately have "jti \<in> set (map fst (filter (\<lambda>(j, e'). \<not> e' < seconds t) rows)) \<or> e < seconds now"
    by (rule pruned_rows [OF _ _ assms(2)])
  then show ?thesis using 1 unfolding revoke_run rows_def [symmetric] by (auto simp: out_until_def)
qed

lemma revokes_keep_out:
  assumes "out_until jti e now s" "\<forall>(t, x) \<in> set later. t \<le> now \<and> (os_jti x = jti \<longrightarrow> os_authAt x + cf_absoluteSeconds (ad_config D) = e)"
  shows "out_until jti e now (snd (forM later (\<lambda>(t, x). revoke_session D t x) s))"
  using assms
proof (induction later arbitrary: s)
  case (Cons tx later)
  obtain t x where tx: "tx = (t, x)" by (cases tx)
  have "out_until jti e now (snd (revoke_session D t x s))"
    using Cons.prems tx by (intro revoke_keeps_out) (auto simp: out_until_def)
  then show ?case using Cons tx by (simp add: forM_def bindM_def revoke_run)
qed (simp add: forM_def)

text \<open>
  C26 A session that signed out stays out. After a revocation no token of that session verifies again, however many other sessions are revoked
  meanwhile: the row that keeps it out is pruned only when the absolute time of the session is over, and then the token is
  invalid for that reason.
\<close>

theorem revoked_session_stays_out:
  assumes "jose_ok D" "seal_session D key t0 session s0 = (Inr cookie, s0')"
    and "\<forall>(j, e) \<in> set (ac_revoked s). j = os_jti session \<longrightarrow> e = os_authAt session + cf_absoluteSeconds (ad_config D)"
    and "t \<le> now" "\<forall>(t', x) \<in> set later. t' \<le> now \<and> (os_jti x = os_jti session \<longrightarrow> os_authAt x = os_authAt session)"
  shows "verify_session D key now cookie (snd (forM ((t, session) # later) (\<lambda>(t, x). revoke_session D t x) s)) = SessionInvalid"
proof -
  define e where "e = os_authAt session + cf_absoluteSeconds (ad_config D)"
  define s1 where "s1 = snd (revoke_session D t session s)"
  define s2 where "s2 = snd (forM later (\<lambda>(t, x). revoke_session D t x) s1)"
  have "out_until (os_jti session) e now s1"
    unfolding s1_def using assms(3,4) by (intro revoke_keeps_out) (auto simp: e_def)
  then have "out_until (os_jti session) e now s2"
    unfolding s2_def using assms(5) by (intro revokes_keep_out) (auto simp: e_def)
  moreover have "snd (forM ((t, session) # later) (\<lambda>(t, x). revoke_session D t x) s) = s2"
    by (simp add: s2_def s1_def forM_def bindM_def revoke_run)
  moreover have "e < seconds now \<Longrightarrow> \<not> now < 1000 * e" using seconds_le [of e now] by linarith
  ultimately show ?thesis
    unfolding sealed_verdict [OF assms(1,2)] by (auto simp: out_until_def e_def)
qed


section \<open>Who gets through\<close>

lemma chokepoint_through:
  "chokepoint D key now c s = (Inr (Through carrier session, cookies), s1) \<Longrightarrow>
     (\<exists>v. presentedSession (ad_config D) c = (carrier, v) \<and> verify_session D key now v s = SessionOk session) \<and>
     cf_adminsGroup (ad_config D) \<in> set (os_groups session) \<and> (carrier = Bearer \<longrightarrow> cookies = [])"
  by (auto simp: chokepoint_def Let_def requireOperator_def bindM_def refresh_session_def seal_session_def draw_def
      split: prod.splits session_verdict.splits if_splits)

lemma chokepoint_lets:
  assumes "presentedSession (ad_config D) c = (carrier, v)" "verify_session D key now v s = SessionOk session"
    "cf_adminsGroup (ad_config D) \<in> set (os_groups session)"
  shows "\<exists>cookies s1. chokepoint D key now c s = (Inr (Through carrier session, cookies), s1)"
  using assms by (cases "carrier = Cookie")
    (simp_all add: chokepoint_def Let_def requireOperator_def bindM_def refresh_session_def seal_session_def draw_def)

text \<open>
  C5 Nothing protected is reached without a member's session. A request gets past the chokepoint and the guard exactly when the token it
  presents verifies, that session carries the administrators' group, and, for a method that changes something, the token
  came as a bearer or the request is of the same origin. A bearer is judged alone: its holder is never handed a cookie.
\<close>

theorem only_members_get_through:
  "(\<exists>cookies s1. in_front D key now c s = (Inr (Through carrier session, cookies), s1) \<and> (carrier = Bearer \<longrightarrow> cookies = [])) \<longleftrightarrow>
   (\<exists>v. presentedSession (ad_config D) c = (carrier, v) \<and> verify_session D key now v s = SessionOk session) \<and>
   cf_adminsGroup (ad_config D) \<in> set (os_groups session) \<and>
   (rq_method c \<in> set unsafe_methods \<longrightarrow> carrier = Bearer \<or> csrfOk D (rq_secFetchSite c) (rq_origin c))"
proof
  assume "\<exists>cookies s1. in_front D key now c s = (Inr (Through carrier session, cookies), s1) \<and> (carrier = Bearer \<longrightarrow> cookies = [])"
  then obtain cookies s1 where run: "in_front D key now c s = (Inr (Through carrier session, cookies), s1)" by blast
  obtain r s2 where ch: "chokepoint D key now c s = (r, s2)" by fastforce
  obtain cookies' where r: "r = Inr (Through carrier session, cookies')"
    and guard: "rq_method c \<in> set unsafe_methods \<longrightarrow> carrier = Bearer \<or> csrfOk D (rq_secFetchSite c) (rq_origin c)"
    using run ch by (auto simp: in_front_def bindM_def csrfGuard_def split: sum.splits passed.splits if_splits)
  then show "(\<exists>v. presentedSession (ad_config D) c = (carrier, v) \<and> verify_session D key now v s = SessionOk session) \<and>
      cf_adminsGroup (ad_config D) \<in> set (os_groups session) \<and>
      (rq_method c \<in> set unsafe_methods \<longrightarrow> carrier = Bearer \<or> csrfOk D (rq_secFetchSite c) (rq_origin c))"
    using chokepoint_through ch by blast
next
  assume a: "(\<exists>v. presentedSession (ad_config D) c = (carrier, v) \<and> verify_session D key now v s = SessionOk session) \<and>
      cf_adminsGroup (ad_config D) \<in> set (os_groups session) \<and>
      (rq_method c \<in> set unsafe_methods \<longrightarrow> carrier = Bearer \<or> csrfOk D (rq_secFetchSite c) (rq_origin c))"
  then obtain cookies s1 where ch: "chokepoint D key now c s = (Inr (Through carrier session, cookies), s1)"
    using chokepoint_lets by blast
  then have "in_front D key now c s = (Inr (Through carrier session, cookies), s1)"
    using a by (auto simp: in_front_def bindM_def csrfGuard_def)
  then show "\<exists>cookies s1. in_front D key now c s = (Inr (Through carrier session, cookies), s1) \<and> (carrier = Bearer \<longrightarrow> cookies = [])"
    using chokepoint_through [OF ch] by blast
qed

text \<open>A break-glass token opens the door once: whoever presents it again is refused, and nothing changes.\<close>

lemma token_redeemed_once:
  assumes "auth_emergency D key now c s = (Inr (Redirect u, cookies), s1)" "map_of (rq_query c') ''token'' = map_of (rq_query c) ''token''"
  shows "auth_emergency D key now' c' s1 = (Inr (JsonError 401 ''UNAUTHENTICATED'' ''Invalid or already-used break-glass token'', []), s1)"
proof -
  have gone: "opt_default [] (map_of (rq_query c) ''token'') \<notin> set (ac_tokens s1)"
    using assms(1) by (auto simp: auth_emergency_def redeem_token_def mintEmergencySession_def mint_session_def seal_session_def audit_as_def
        draw_def bindM_def split: if_splits)
  then have "filter (\<lambda>x. x \<noteq> opt_default [] (map_of (rq_query c) ''token'')) (ac_tokens s1) = ac_tokens s1"
    by (intro filter_True) auto
  with gone show ?thesis using assms(2) by (simp add: auth_emergency_def redeem_token_def bindM_def)
qed

section \<open>A token library\<close>

instance json :: countable
  by countable_datatype

text \<open>A token that is as long as the number of its payload: it opens to what was sealed, as \<open>jose_ok\<close> asks.\<close>

definition toy_config :: config where
  "toy_config = \<lparr>cf_cookieSecure = True, cf_origin = ''https://m'', cf_redirectUri = ''https://m/auth/callback'', cf_publicUrl = ''https://m'',
     cf_adminsGroup = ''admins'', cf_idleSeconds = 60, cf_absoluteSeconds = 3600, cf_emergencyPort = 8444\<rparr>"

definition toy_access :: access_deps where
  "toy_access = \<lparr>ad_config = toy_config, ad_random = (\<lambda>n k. show_nat n), ad_opId = (\<lambda>n. ''op_'' @ show_nat n),
     ad_encrypt = (\<lambda>key n p. replicate (to_nat p) CHR ''x''),
     ad_decrypt = (\<lambda>key c now. case json_number (map_of (from_nat (length c)) ''exp'') of
        Some e \<Rightarrow> if e \<le> seconds now then None else Some (from_nat (length c)) | None \<Rightarrow> Some (from_nat (length c))),
     ad_hex = (\<lambda>s. s), ad_base64url = (\<lambda>s. s), ad_sha256 = (\<lambda>s. s), ad_urlOrigin = Some, ad_resolveUrl = (\<lambda>p o'. Some (o', p, []))\<rparr>"

definition toy_session :: operator_session where
  "toy_session = \<lparr>os_sub = ''op_1'', os_email = None, os_groups = [''admins''], os_jti = ''j1'', os_via = Oidc, os_authAt = 1000\<rparr>"

definition toy_access_state :: access_state where
  "toy_access_state = \<lparr>ac_meta = [], ac_revoked = [], ac_operators = [], ac_audit = [], ac_tokens = [], ac_drawn = 0\<rparr>"

lemma toy_jose: "jose_ok toy_access"
  by (auto simp: jose_ok_def toy_access_def split: option.split)

lemma toy_sealed:
  "\<exists>cookie s1. seal_session toy_access ''k'' 1000000 toy_session toy_access_state = (Inr cookie, s1)"
  by (simp add: seal_session_def draw_def bindM_def)

lemmas toy_access_defs = toy_access_def toy_config_def toy_session_def toy_access_state_def

theorem session_holds_exactly_witness:
  "\<exists>cookie s1. seal_session toy_access ''k'' 1000000 toy_session toy_access_state = (Inr cookie, s1) \<and>
     verify_session toy_access ''k'' 1060000 cookie s1 = SessionOk toy_session \<and>
     verify_session toy_access ''k'' 1060001 cookie s1 = SessionInvalid"
proof -
  obtain cookie s1 where sealed: "seal_session toy_access ''k'' 1000000 toy_session toy_access_state = (Inr cookie, s1)"
    using toy_sealed by blast
  then have "ac_revoked s1 = []" by (auto simp: seal_session_def draw_def bindM_def toy_access_state_def)
  then show ?thesis
    using session_holds_exactly [OF toy_jose sealed] sealed by (simp add: toy_access_defs seconds_def truthy_email_def)
qed

theorem revoked_session_stays_out_witness:
  "\<exists>cookie s1. seal_session toy_access ''k'' 1000000 toy_session toy_access_state = (Inr cookie, s1) \<and>
     verify_session toy_access ''k'' 1030000 cookie (snd (forM [(1020000, toy_session)] (\<lambda>(t, x). revoke_session toy_access t x) s1)) = SessionInvalid"
proof -
  obtain cookie s1 where sealed: "seal_session toy_access ''k'' 1000000 toy_session toy_access_state = (Inr cookie, s1)"
    using toy_sealed by blast
  then have "ac_revoked s1 = []" by (auto simp: seal_session_def draw_def bindM_def toy_access_state_def)
  then show ?thesis
    using revoked_session_stays_out [OF toy_jose sealed, of s1 1020000 1030000 "[]"] sealed by auto
qed

definition toy_request :: request where
  "toy_request = \<lparr>rq_method = ''POST'', rq_path = ''/api/runs'', rq_accept = None, rq_authorization = None, rq_secFetchSite = None,
     rq_origin = None, rq_cookies = [], rq_query = []\<rparr>"

theorem only_members_get_through_witness:
  "\<not> (\<exists>cookies s1. in_front toy_access ''k'' 0 toy_request toy_access_state = (Inr (Through Cookie toy_session, cookies), s1))"
  using only_members_get_through [of toy_access "''k''" 0 toy_request toy_access_state Cookie toy_session]
  by (simp add: toy_request_def unsafe_methods_def csrfOk_def)

end
