(* ===== verification/Sync_Order.thy ===== *)
theory Sync_Order
  imports Texts
begin

text \<open>
  The order in which a deployment's objects are applied (\<^verbatim>\<open>shared/secret-sync-order.ts\<close>): a workload that reads a Secret has to stand in a later
  sync wave than the object that has the Secret written, and no PreSync hook may read one. Rendered documents are JSON objects.
\<close>

section \<open>Reading a document\<close>

record sync_doc =
  so_kind :: string
  so_name :: string
  so_raw :: "(string \<times> json) list"
  so_docIndex :: "nat option"

text \<open>\<^verbatim>\<open>record\<close>, \<^verbatim>\<open>list\<close> and \<^verbatim>\<open>text\<close> of the source, on a value that may be missing.\<close>

fun as_record :: "json option \<Rightarrow> (string \<times> json) list option" where
  "as_record (Some (JObj kvs)) = Some kvs"
| "as_record _ = None"

fun as_list :: "json option \<Rightarrow> (string \<times> json) list list" where
  "as_list (Some (JArr xs)) = List.map_filter (\<lambda>x. as_record (Some x)) xs"
| "as_list _ = []"

fun as_text :: "json option \<Rightarrow> string option" where
  "as_text (Some (JStr s)) = (if s \<noteq> [] then Some s else None)"
| "as_text _ = None"

text \<open>\<^verbatim>\<open>r?.field\<close>\<close>

definition field_of :: "(string \<times> json) list option \<Rightarrow> string \<Rightarrow> json option" where
  "field_of r k = (case r of Some kvs \<Rightarrow> map_of kvs k | None \<Rightarrow> None)"

definition annotationsOf :: "sync_doc \<Rightarrow> (string \<times> json) list" where
  "annotationsOf doc = opt_default [] (as_record (field_of (as_record (map_of (so_raw doc) ''metadata'')) ''annotations''))"

definition signed_digits :: "string \<Rightarrow> bool" where
  "signed_digits s \<longleftrightarrow> (let d = (if s \<noteq> [] \<and> hd s \<in> {CHR ''+'', CHR ''-''} then tl s else s) in d \<noteq> [] \<and> list_all is_digit d)"

definition signed_value :: "string \<Rightarrow> int" where
  "signed_value s =
     (if startsWith s ''-'' then - int (number_of (tl s)) else if startsWith s ''+'' then int (number_of (tl s)) else int (number_of s))"

definition waveOf :: "sync_doc \<Rightarrow> int" where
  "waveOf doc =
     (case map_of (annotationsOf doc) ''argocd.argoproj.io/sync-wave'' of
        Some (JNum n) \<Rightarrow> n
      | Some (JStr s) \<Rightarrow> if signed_digits s then signed_value s else 0
      | _ \<Rightarrow> 0)"

definition hookPhases :: "sync_doc \<Rightarrow> string list" where
  "hookPhases doc =
     (case map_of (annotationsOf doc) ''argocd.argoproj.io/hook'' of
        Some (JStr s) \<Rightarrow> map trim (split_char (CHR '','') s)
      | _ \<Rightarrow> [])"

definition writtenSecret :: "sync_doc \<Rightarrow> string option" where
  "writtenSecret doc =
     (let spec = as_record (map_of (so_raw doc) ''spec'')
      in if so_kind doc = ''ServiceClaim'' then
           (case as_text (field_of spec ''secretName'') of
              Some n \<Rightarrow> Some n
            | None \<Rightarrow> (case as_text (field_of spec ''service'') of
                         Some service \<Rightarrow> if so_name doc \<noteq> [] then Some (so_name doc @ ''-'' @ service) else None
                       | None \<Rightarrow> None))
         else if so_kind doc = ''ExternalSecret'' then
           (case as_text (field_of (as_record (field_of spec ''target'')) ''name'') of
              Some n \<Rightarrow> Some n
            | None \<Rightarrow> if so_name doc \<noteq> [] then Some (so_name doc) else None)
         else None)"

definition podOf :: "sync_doc \<Rightarrow> (string \<times> json) list option" where
  "podOf doc =
     (let spec = as_record (map_of (so_raw doc) ''spec'')
      in if so_kind doc = ''Pod'' then spec
         else if so_kind doc = ''CronJob'' then
           as_record (field_of (as_record (field_of (as_record (field_of (as_record (field_of spec ''jobTemplate'')) ''spec'')) ''template'')) ''spec'')
         else if so_kind doc \<in> {''Deployment'', ''StatefulSet'', ''DaemonSet'', ''ReplicaSet'', ''Job''} then
           as_record (field_of (as_record (field_of spec ''template'')) ''spec'')
         else None)"

section \<open>The Secrets a pod reads\<close>

type_synonym secret_use = "string \<times> string"

definition use_of :: "json option \<Rightarrow> string \<Rightarrow> secret_use list" where
  "use_of name fieldPath = (case as_text name of Some n \<Rightarrow> [(n, fieldPath)] | None \<Rightarrow> [])"

definition at_index :: "string \<Rightarrow> nat \<Rightarrow> string" where
  "at_index s i = s @ ''['' @ show_nat i @ '']''"

text \<open>\<^verbatim>\<open>list(v).forEach((e, i) => ...)\<close>, collecting what each call adds.\<close>

definition each :: "json option \<Rightarrow> (nat \<Rightarrow> (string \<times> json) list \<Rightarrow> 'b list) \<Rightarrow> 'b list" where
  "each v f = concat (map (\<lambda>(i, e). f i e) (enumerate 0 (as_list v)))"

definition container_uses :: "string \<Rightarrow> nat \<Rightarrow> (string \<times> json) list \<Rightarrow> secret_use list" where
  "container_uses grp ci c =
     each (map_of c ''env'') (\<lambda>ei e.
       use_of (field_of (as_record (field_of (as_record (map_of e ''valueFrom'')) ''secretKeyRef'')) ''name'')
         (at_index grp ci @ at_index ''.env'' ei @ ''.valueFrom.secretKeyRef.name'')) @
     each (map_of c ''envFrom'') (\<lambda>ei e.
       use_of (field_of (as_record (map_of e ''secretRef'')) ''name'') (at_index grp ci @ at_index ''.envFrom'' ei @ ''.secretRef.name''))"

definition secretsOf :: "(string \<times> json) list \<Rightarrow> secret_use list" where
  "secretsOf pod =
     each (map_of pod ''imagePullSecrets'') (\<lambda>i s. use_of (map_of s ''name'') (at_index ''imagePullSecrets'' i @ ''.name'')) @
     concat (map (\<lambda>grp. each (map_of pod grp) (container_uses grp)) [''initContainers'', ''containers'']) @
     each (map_of pod ''volumes'') (\<lambda>vi v.
       use_of (field_of (as_record (map_of v ''secret'')) ''secretName'') (at_index ''volumes'' vi @ ''.secret.secretName'') @
       each (field_of (as_record (map_of v ''projected'')) ''sources'') (\<lambda>si s.
         use_of (field_of (as_record (map_of s ''secret'')) ''name'')
           (at_index ''volumes'' vi @ at_index ''.projected.sources'' si @ ''.secret.name'')))"

section \<open>The reading\<close>

record sync_breach =
  br_doc :: sync_doc
  br_owner :: sync_doc
  br_secret :: string
  br_fieldPath :: string
  br_isPreSync :: bool

record sync_reading =
  sr_writtenSecrets :: nat
  sr_uses :: nat
  sr_breach :: "sync_breach option"

text \<open>The map from a Secret to its writer: of two writers the later one counts.\<close>

fun writers_of :: "sync_doc list \<Rightarrow> (string \<times> sync_doc) list \<Rightarrow> (string \<times> sync_doc) list" where
  "writers_of [] m = m"
| "writers_of (doc # docs) m =
     (case writtenSecret doc of
        Some secret \<Rightarrow> writers_of docs (if secret \<noteq> [] then (secret, doc) # filter (\<lambda>(k, _). k \<noteq> secret) m else m)
      | None \<Rightarrow> writers_of docs m)"

definition after_every_wave :: "string list" where
  "after_every_wave = [''PostSync'', ''SyncFail'', ''PostDelete'']"

text \<open>The documents the check skips: no pod, a hook that is skipped, a hook that runs after every wave.\<close>

definition passed_over :: "sync_doc \<Rightarrow> bool" where
  "passed_over doc \<longleftrightarrow> podOf doc = None \<or> ''Skip'' \<in> set (hookPhases doc) \<or>
     (hookPhases doc \<noteq> [] \<and> list_all (\<lambda>p. p \<in> set after_every_wave) (hookPhases doc))"

fun scan_uses :: "(string \<times> sync_doc) list \<Rightarrow> sync_doc \<Rightarrow> secret_use list \<Rightarrow> nat \<Rightarrow> nat \<times> sync_breach option" where
  "scan_uses writers doc [] uses = (uses, None)"
| "scan_uses writers doc ((name, fieldPath) # rest) uses =
     (case map_of writers name of
        None \<Rightarrow> scan_uses writers doc rest uses
      | Some owner \<Rightarrow>
          (let isPreSync = (''PreSync'' \<in> set (hookPhases doc))
           in if \<not> isPreSync \<and> waveOf doc > waveOf owner then scan_uses writers doc rest (uses + 1)
              else (uses + 1, Some \<lparr>br_doc = doc, br_owner = owner, br_secret = name, br_fieldPath = fieldPath, br_isPreSync = isPreSync\<rparr>)))"

fun scan_docs :: "(string \<times> sync_doc) list \<Rightarrow> sync_doc list \<Rightarrow> nat \<Rightarrow> nat \<times> sync_breach option" where
  "scan_docs writers [] uses = (uses, None)"
| "scan_docs writers (doc # docs) uses =
     (if passed_over doc then scan_docs writers docs uses
      else (case scan_uses writers doc (secretsOf (opt_default [] (podOf doc))) uses of
              (uses', None) \<Rightarrow> scan_docs writers docs uses'
            | (uses', Some b) \<Rightarrow> (uses', Some b)))"

definition readSyncOrder :: "sync_doc list \<Rightarrow> sync_reading" where
  "readSyncOrder docs =
     (let writers = writers_of docs []
      in if writers = [] then \<lparr>sr_writtenSecrets = 0, sr_uses = 0, sr_breach = None\<rparr>
         else (case scan_docs writers docs 0 of
                 (uses, breach) \<Rightarrow> \<lparr>sr_writtenSecrets = length writers, sr_uses = uses, sr_breach = breach\<rparr>))"

definition doc_label :: "sync_doc \<Rightarrow> string" where
  "doc_label doc = so_kind doc @ ''/'' @
     (if so_name doc \<noteq> [] then so_name doc else ''#'' @ (case so_docIndex doc of Some i \<Rightarrow> show_nat i | None \<Rightarrow> ''?''))"

definition doc_writer :: "sync_doc \<Rightarrow> string" where
  "doc_writer doc = (if so_kind doc = ''ExternalSecret'' then ''ESO'' else ''the service-provisioner'')"

definition in_quotes :: "string \<Rightarrow> string" where
  "in_quotes s = [CHR 0x22] @ s @ [CHR 0x22]"

definition syncOrderBreachFound :: "sync_breach \<Rightarrow> string" where
  "syncOrderBreachFound b =
     (if br_isPreSync b
      then doc_label (br_doc b) @ '' is a PreSync hook and uses Secret '' @ in_quotes (br_secret b) @ '' of '' @ doc_label (br_owner b) @
           '' (wave '' @ show_int (waveOf (br_owner b)) @ '').''
      else doc_label (br_doc b) @ '' (wave '' @ show_int (waveOf (br_doc b)) @ '') uses Secret '' @ in_quotes (br_secret b) @ '' of '' @
           doc_label (br_owner b) @ '' (wave '' @ show_int (waveOf (br_owner b)) @ '').'')"

definition syncOrderBreachReason :: "sync_breach \<Rightarrow> string" where
  "syncOrderBreachReason b =
     (if br_isPreSync b
      then doc_label (br_doc b) @ '' runs before every sync wave, so the Secret '' @ in_quotes (br_secret b) @ '' of '' @ doc_label (br_owner b) @
           '' does not exist yet; take the hook off PreSync or stop it using that Secret.''
      else doc_label (br_doc b) @ '' stands in the same or an earlier sync wave than '' @ doc_label (br_owner b) @
           '', so its pod starts before '' @ doc_writer (br_owner b) @ '' has written '' @ in_quotes (br_secret b) @ ''; '' @
           ''put '' @ doc_label (br_owner b) @ '' in a wave below '' @ show_int (waveOf (br_doc b)) @ '' (argocd.argoproj.io/sync-wave).'')"

section \<open>What the reading means\<close>

text \<open>The rule itself: the last document that has a Secret written is its owner, and a use of it is late enough.\<close>

definition owner_of :: "sync_doc list \<Rightarrow> string \<Rightarrow> sync_doc option" where
  "owner_of docs secret = List.find (\<lambda>d. writtenSecret d = Some secret) (rev docs)"

definition late_enough :: "sync_doc \<Rightarrow> sync_doc \<Rightarrow> bool" where
  "late_enough doc owner \<longleftrightarrow> ''PreSync'' \<notin> set (hookPhases doc) \<and> waveOf owner < waveOf doc"

definition in_order :: "sync_doc list \<Rightarrow> bool" where
  "in_order docs \<longleftrightarrow> (\<forall>doc \<in> set docs. \<not> passed_over doc \<longrightarrow>
     (\<forall>(secret, path) \<in> set (secretsOf (opt_default [] (podOf doc))). \<forall>owner. owner_of docs secret = Some owner \<longrightarrow> late_enough doc owner))"

lemma written_nonempty: "writtenSecret doc = Some s \<Longrightarrow> s \<noteq> []"
  by (auto simp: writtenSecret_def Let_def split: if_splits option.splits elim!: as_text.elims)

lemma find_append: "List.find P (xs @ ys) = (case List.find P xs of Some x \<Rightarrow> Some x | None \<Rightarrow> List.find P ys)"
  by (induction xs) auto

lemma map_of_filter_key: "map_of (filter (\<lambda>(k, _). k \<noteq> a) m) b = (if b = a then None else map_of m b)"
  by (induction m) auto

lemma writers_of_owner:
  "map_of (writers_of docs m) secret = (case owner_of docs secret of Some d \<Rightarrow> Some d | None \<Rightarrow> map_of m secret)"
proof (induction docs m rule: writers_of.induct)
  case (2 doc docs m)
  show ?case
  proof (cases "writtenSecret doc")
    case None
    then show ?thesis using 2(1) [OF None] by (simp add: owner_of_def find_append split: option.split)
  next
    case (Some s)
    then have "s \<noteq> []" by (rule written_nonempty)
    then show ?thesis using 2(2) [OF Some] Some
      by (auto simp: owner_of_def find_append map_of_filter_key split: option.split)
  qed
qed (simp add: owner_of_def)

lemma scan_uses_clean:
  "snd (scan_uses writers doc us n) = None \<longleftrightarrow> (\<forall>(secret, path) \<in> set us. \<forall>owner. map_of writers secret = Some owner \<longrightarrow> late_enough doc owner)"
proof (induction us arbitrary: n)
  case (Cons u us)
  obtain secret path where u: "u = (secret, path)" by (cases u)
  show ?case
  proof (cases "map_of writers secret")
    case None
    then show ?thesis using Cons [of n] by (simp add: u)
  next
    case (Some owner)
    then show ?thesis using Cons [of "Suc n"] by (auto simp: u Let_def late_enough_def)
  qed
qed simp

lemma scan_docs_clean:
  "snd (scan_docs writers docs n) = None \<longleftrightarrow> (\<forall>doc \<in> set docs. \<not> passed_over doc \<longrightarrow>
     snd (scan_uses writers doc (secretsOf (opt_default [] (podOf doc))) 0) = None)"
proof (induction docs arbitrary: n)
  case (Cons doc docs)
  have "snd (scan_uses writers doc (secretsOf (opt_default [] (podOf doc))) n) = None \<longleftrightarrow>
      snd (scan_uses writers doc (secretsOf (opt_default [] (podOf doc))) 0) = None"
    by (simp only: scan_uses_clean)
  then show ?case using Cons by (auto split: prod.split option.split)
qed simp

lemma scan_uses_breach:
  assumes "scan_uses writers doc us n = (m, Some b)"
  shows "br_doc b = doc \<and> (br_secret b, br_fieldPath b) \<in> set us \<and>
     map_of writers (br_secret b) = Some (br_owner b) \<and> \<not> late_enough doc (br_owner b)"
  using assms
proof (induction us arbitrary: n)
  case (Cons u us)
  obtain secret path where u: "u = (secret, path)" by (cases u)
  show ?case
  proof (cases "map_of writers secret")
    case None
    then show ?thesis using Cons(1) [of n] Cons(2) by (simp add: u)
  next
    case (Some owner)
    then show ?thesis using Cons(1) [of "Suc n"] Cons(2) by (auto simp: u Let_def late_enough_def split: if_splits)
  qed
qed simp

lemma scan_docs_breach:
  assumes "scan_docs writers docs n = (m, Some b)"
  shows "br_doc b \<in> set docs \<and> \<not> passed_over (br_doc b) \<and>
     (br_secret b, br_fieldPath b) \<in> set (secretsOf (opt_default [] (podOf (br_doc b)))) \<and>
     map_of writers (br_secret b) = Some (br_owner b) \<and> \<not> late_enough (br_doc b) (br_owner b)"
  using assms
proof (induction docs arbitrary: n)
  case (Cons doc docs)
  obtain k r where scan: "scan_uses writers doc (secretsOf (opt_default [] (podOf doc))) n = (k, r)" by fastforce
  show ?case
  proof (cases "passed_over doc \<or> r = None")
    case True
    then have "scan_docs writers docs (if passed_over doc then n else k) = (m, Some b)" using Cons(2) scan by (auto split: if_splits)
    then show ?thesis using Cons(1) by simp
  next
    case False
    then have "r = Some b" using Cons(2) scan by auto
    then show ?thesis using scan_uses_breach [of writers doc _ n k b] scan False by auto
  qed
qed simp

lemma no_writers: "writers_of docs [] = [] \<Longrightarrow> owner_of docs secret = None"
  using writers_of_owner [of docs "[]" secret] by (simp split: option.splits)

text \<open>
  C30 The sync-order check finds a violation exactly when there is one. It reports none if and only if every workload that is not passed over stands in a
  later wave than the owner of each Secret it reads and is no PreSync hook; and what it reports is a document of the
  deployment, a Secret that document reads at the path named, and the owner it is too early for.
\<close>

theorem sync_order_reading_is_right:
  "(sr_breach (readSyncOrder docs) = None \<longleftrightarrow> in_order docs) \<and>
   (\<forall>b. sr_breach (readSyncOrder docs) = Some b \<longrightarrow>
      br_doc b \<in> set docs \<and> \<not> passed_over (br_doc b) \<and>
      (br_secret b, br_fieldPath b) \<in> set (secretsOf (opt_default [] (podOf (br_doc b)))) \<and>
      owner_of docs (br_secret b) = Some (br_owner b) \<and> \<not> late_enough (br_doc b) (br_owner b))"
proof (cases "writers_of docs [] = []")
  case True
  then show ?thesis using no_writers [OF True] by (simp add: readSyncOrder_def in_order_def)
next
  case False
  define w where "w = writers_of docs []"
  obtain n r where scan: "scan_docs w docs 0 = (n, r)" by fastforce
  have breach: "sr_breach (readSyncOrder docs) = r" using False scan by (simp add: readSyncOrder_def w_def)
  have owner: "map_of w secret = owner_of docs secret" for secret
    using writers_of_owner [of docs "[]" secret] by (simp add: w_def split: option.splits)
  have "r = None \<longleftrightarrow> in_order docs"
    using scan_docs_clean [of w docs 0] scan by (simp add: scan_uses_clean owner in_order_def)
  moreover have "\<forall>b. r = Some b \<longrightarrow> br_doc b \<in> set docs \<and> \<not> passed_over (br_doc b) \<and>
      (br_secret b, br_fieldPath b) \<in> set (secretsOf (opt_default [] (podOf (br_doc b)))) \<and>
      owner_of docs (br_secret b) = Some (br_owner b) \<and> \<not> late_enough (br_doc b) (br_owner b)"
    using scan_docs_breach [of w docs 0 n] scan owner by auto
  ultimately show ?thesis unfolding breach by (rule conjI)
qed

definition toy_docs :: "sync_doc list" where
  "toy_docs =
    [\<lparr>so_kind = ''ExternalSecret'', so_name = ''db'', so_raw = [(''metadata'', JObj [(''annotations'', JObj [(''argocd.argoproj.io/sync-wave'', JStr ''1'')])])],
      so_docIndex = None\<rparr>,
     \<lparr>so_kind = ''Pod'', so_name = ''web'', so_raw = [(''spec'', JObj [(''volumes'', JArr [JObj [(''secret'', JObj [(''secretName'', JStr ''db'')])]])])],
      so_docIndex = None\<rparr>]"

theorem sync_order_reading_is_right_witness:
  "map_option br_secret (sr_breach (readSyncOrder toy_docs)) = Some ''db'' \<and> \<not> in_order toy_docs"
proof -
  have "map_option br_secret (sr_breach (readSyncOrder toy_docs)) = Some ''db''" by code_simp
  then show ?thesis using sync_order_reading_is_right [of toy_docs] by auto
qed

end
