(* ===== verification/JS_Number.thy ===== *)
theory JS_Number
  imports Texts Complex_Main "HOL-Library.Log_Nat"
begin

text \<open>
  Non-negative JavaScript numbers: a double is the rational it stands for, infinity, or not a number. Every operation computes exactly and
  rounds to 53 bits, to even in the middle; whole numbers below \<open>2 ^ 53\<close> are their own rounding. The sign of zero is left out.
\<close>

section \<open>Doubles\<close>

datatype jsnum = JFin rat | JInf | JNaN

text \<open>The exponent of the leading bit of a positive rational.\<close>

definition leading_bit :: "rat \<Rightarrow> int" where
  "leading_bit x =
     (let (p, q) = quotient_of x; e = int (floorlog 2 (nat p)) - int (floorlog 2 (nat q))
      in if 2 powi e \<le> x then e else e - 1)"

definition round_even :: "rat \<Rightarrow> int" where
  "round_even y =
     (let f = \<lfloor>y\<rfloor>; d = y - of_int f
      in if d < 1 / 2 then f else if d > 1 / 2 then f + 1 else if even f then f else f + 1)"

definition round53 :: "rat \<Rightarrow> rat" where
  "round53 x = (if x = 0 then 0 else let u = 2 powi (max (leading_bit x - 52) (- 1074)) in u * of_int (round_even (x / u)))"

definition js_round :: "rat \<Rightarrow> jsnum" where
  "js_round x = (let r = round53 x in if 2 ^ 1024 \<le> r then JInf else JFin r)"

fun js_add :: "jsnum \<Rightarrow> jsnum \<Rightarrow> jsnum" where
  "js_add (JFin a) (JFin b) = js_round (a + b)"
| "js_add JNaN b = JNaN"
| "js_add a JNaN = JNaN"
| "js_add a b = JInf"

fun js_mul :: "jsnum \<Rightarrow> jsnum \<Rightarrow> jsnum" where
  "js_mul (JFin a) (JFin b) = js_round (a * b)"
| "js_mul JNaN b = JNaN"
| "js_mul a JNaN = JNaN"
| "js_mul (JFin a) JInf = (if a = 0 then JNaN else JInf)"
| "js_mul JInf (JFin b) = (if b = 0 then JNaN else JInf)"
| "js_mul JInf JInf = JInf"

section \<open>The text of a number\<close>

text \<open>
  \<^verbatim>\<open>Number::toString\<close> in base ten: the shortest digits that read back as the number, placed by their exponent. A whole number below \<open>2 ^ 53\<close> has
  its decimal digits. Seventeen digits always suffice, and no double has its first digit more than 324 places behind the point.
\<close>

definition decimal_point :: "rat \<Rightarrow> int" where
  "decimal_point x =
     (if 1 \<le> x then int (length (show_nat (nat \<lfloor>x\<rfloor>)))
      else (case List.find (\<lambda>k. 1 \<le> x * 10 ^ k) [1..<400] of Some k \<Rightarrow> 1 - int k | None \<Rightarrow> 0))"

definition nearest :: "rat \<Rightarrow> int" where
  "nearest y = \<lfloor>y + 1 / 2\<rfloor>"

definition shortest_digits :: "rat \<Rightarrow> int \<Rightarrow> string" where
  "shortest_digits x n =
     (case List.find (\<lambda>k. round53 (of_int (nearest (x * 10 powi (int k - n))) * 10 powi (n - int k)) = x) [1..<18] of
        Some k \<Rightarrow> show_nat (nat (nearest (x * 10 powi (int k - n))))
      | None \<Rightarrow> [])"

definition place_digits :: "string \<Rightarrow> int \<Rightarrow> string" where
  "place_digits ds n =
     (let k = int (length ds)
      in if k \<le> n \<and> n \<le> 21 then ds @ replicate (nat (n - k)) (CHR ''0'')
         else if 0 < n \<and> n \<le> 21 then take (nat n) ds @ ''.'' @ drop (nat n) ds
         else if - 6 < n \<and> n \<le> 0 then ''0.'' @ replicate (nat (- n)) (CHR ''0'') @ ds
         else take 1 ds @ (if k = 1 then [] else ''.'' @ drop 1 ds) @ ''e'' @ (if n - 1 < 0 then ''-'' else ''+'') @ show_nat (nat \<bar>n - 1\<bar>))"

definition show_rat :: "rat \<Rightarrow> string" where
  "show_rat x =
     (if x = of_int \<lfloor>x\<rfloor> \<and> x < 2 ^ 53 then show_nat (nat \<lfloor>x\<rfloor>)
      else let n = decimal_point x in place_digits (shortest_digits x n) n)"

fun show_js :: "jsnum \<Rightarrow> string" where
  "show_js (JFin x) = show_rat x"
| "show_js JInf = ''Infinity''"
| "show_js JNaN = ''NaN''"

section \<open>Whole numbers\<close>

lemma leading_bit_small:
  assumes "0 < n" "n < 2 ^ 53"
  shows "leading_bit (of_nat n) \<le> 52"
proof -
  have "quotient_of (of_nat n) = (int n, 1)" using quotient_of_int [of "int n"] by simp
  moreover have "floorlog 2 n \<le> 53" using assms by (simp add: floorlog_le_iff)
  moreover have "floorlog 2 (1 :: nat) = 1" by (simp add: floorlog_def)
  ultimately show ?thesis unfolding leading_bit_def Let_def by simp
qed

lemma round_even_int: "round_even (of_int z) = z"
  by (simp add: round_even_def)

lemma round53_nat:
  assumes "n < 2 ^ 53"
  shows "round53 (of_nat n) = of_nat n"
proof (cases "n = 0")
  case False
  define m where "m = max (leading_bit (of_nat n) - 52) (- 1074 :: int)"
  have "m \<le> 0" using leading_bit_small [of n] assms False by (simp add: m_def)
  then obtain k where k: "m = - int k" by (metis minus_equation_iff nonpos_int_cases)
  have u: "(2 :: rat) powi m = 1 / 2 ^ k" by (simp add: k power_int_minus divide_inverse)
  have "of_nat n / ((2 :: rat) powi m) = of_int (int n * 2 ^ k)" by (simp add: u)
  then have "round_even (of_nat n / ((2 :: rat) powi m)) = int n * 2 ^ k" by (simp only: round_even_int)
  then show ?thesis using False by (simp add: round53_def Let_def m_def [symmetric] u)
qed (simp add: round53_def)

lemma small_finite: "n < 2 ^ 53 \<Longrightarrow> \<not> (2 :: rat) ^ 1024 \<le> of_nat n"
proof -
  assume n: "n < 2 ^ 53"
  have "(of_nat n :: rat) < of_nat (2 ^ 53)" using n by (simp only: of_nat_less_iff)
  also have "\<dots> \<le> 2 ^ 1024" by (simp add: power_increasing)
  finally show ?thesis by simp
qed

lemma js_round_nat: "n < 2 ^ 53 \<Longrightarrow> js_round (of_nat n) = JFin (of_nat n)"
  using round53_nat [of n] small_finite [of n] by (simp add: js_round_def Let_def)

lemma js_add_nat: "a + b < 2 ^ 53 \<Longrightarrow> js_add (JFin (of_nat a)) (JFin (of_nat b)) = JFin (of_nat (a + b))"
  using js_round_nat [of "a + b"] by simp

lemma js_mul_nat: "a * b < 2 ^ 53 \<Longrightarrow> js_mul (JFin (of_nat a)) (JFin (of_nat b)) = JFin (of_nat (a * b))"
  using js_round_nat [of "a * b"] by simp

lemma show_rat_nat: "n < 2 ^ 53 \<Longrightarrow> show_rat (of_nat n) = show_nat n"
proof -
  assume n: "n < 2 ^ 53"
  have "(of_nat n :: rat) < of_nat (2 ^ 53)" using n by (simp only: of_nat_less_iff)
  then show ?thesis by (simp add: show_rat_def)
qed

section \<open>Reading a number\<close>

text \<open>
  \<^verbatim>\<open>Number(text)\<close>: white space around it is ignored, nothing is zero, \<^verbatim>\<open>0x\<close>, \<^verbatim>\<open>0o\<close> and \<^verbatim>\<open>0b\<close> start a whole number without sign, a decimal may have a sign,
  a point and an exponent, and everything else is not a number. The sign is kept apart.
\<close>

definition digit_in :: "nat \<Rightarrow> char \<Rightarrow> nat option" where
  "digit_in b c =
     (let n = of_char c :: nat;
          v = (if 48 \<le> n \<and> n \<le> 57 then n - 48 else if 97 \<le> n \<and> n \<le> 102 then n - 87 else if 65 \<le> n \<and> n \<le> 70 then n - 55 else 99)
      in if v < b then Some v else None)"

definition radix_number :: "nat \<Rightarrow> string \<Rightarrow> jsnum" where
  "radix_number b s =
     (case those (map (digit_in b) s) of
        Some (v # vs) \<Rightarrow> js_round (of_nat (foldl (\<lambda>n d. b * n + d) 0 (v # vs)))
      | _ \<Rightarrow> JNaN)"

definition exponent_of :: "string \<Rightarrow> int option" where
  "exponent_of s =
     (case s of
        [] \<Rightarrow> Some 0
      | c # r \<Rightarrow>
          if c \<noteq> CHR ''e'' \<and> c \<noteq> CHR ''E'' then None
          else let neg = (r \<noteq> [] \<and> hd r = CHR ''-''); ds = (if r \<noteq> [] \<and> (hd r = CHR ''-'' \<or> hd r = CHR ''+'') then tl r else r)
               in if ds = [] \<or> \<not> list_all is_digit ds then None else Some (if neg then - int (number_of ds) else int (number_of ds)))"

definition decimal_number :: "string \<Rightarrow> jsnum" where
  "decimal_number s =
     (if s = ''Infinity'' then JInf
      else let whole = takeWhile is_digit s; rest = dropWhile is_digit s;
               point = (rest \<noteq> [] \<and> hd rest = CHR ''.'');
               behind = (if point then takeWhile is_digit (tl rest) else []);
               ex = (if point then dropWhile is_digit (tl rest) else rest)
           in if whole = [] \<and> behind = [] then JNaN
              else (case exponent_of ex of
                      None \<Rightarrow> JNaN
                    | Some e \<Rightarrow> js_round (of_nat (number_of (whole @ behind)) * 10 powi (e - int (length behind)))))"

definition to_number :: "string \<Rightarrow> bool \<times> jsnum" where
  "to_number text0 =
     (let s = trim text0; p = take 2 s
      in if s = [] then (False, JFin 0)
         else if p = ''0x'' \<or> p = ''0X'' then (False, radix_number 16 (drop 2 s))
         else if p = ''0o'' \<or> p = ''0O'' then (False, radix_number 8 (drop 2 s))
         else if p = ''0b'' \<or> p = ''0B'' then (False, radix_number 2 (drop 2 s))
         else if hd s = CHR ''-'' then (True, decimal_number (tl s))
         else if hd s = CHR ''+'' then (False, decimal_number (tl s))
         else (False, decimal_number s))"

lemma decimal_digits:
  assumes "s \<noteq> []" "list_all is_digit s" "number_of s < 2 ^ 53"
  shows "decimal_number s = JFin (of_nat (number_of s))"
proof -
  have t: "takeWhile is_digit s = s" and d: "dropWhile is_digit s = []" using assms(2) by (simp_all add: list_all_iff)
  have n: "(s = ''Infinity'') = False" using assms(2) by (auto simp: is_digit_def less_eq_char_def)
  show ?thesis unfolding decimal_number_def t d n Let_def using assms(1) js_round_nat [OF assms(3)] by (simp add: exponent_of_def)
qed

end
