(* ===== verification/Unit_Quota.thy ===== *)
theory Unit_Quota
  imports JS_Number Results
begin

text \<open>
  The size of a unit: Kubernetes quantities and their arithmetic (\<^verbatim>\<open>plugins/unit/shared/quantity.ts\<close>) and the composition of a unit's quota from
  the rows of the size table (\<^verbatim>\<open>plugins/unit/shared/unit-size.ts\<close>). Amounts are JavaScript numbers.
\<close>

section \<open>Quantities\<close>

text \<open>
  A suffix table is a JavaScript object: a suffix it does not hold may still name a property every object inherits, and then the
  factor is not undefined but no number either.
\<close>

type_synonym suffix_table = "(string \<times> nat) list"

definition inherited :: "string list" where
  "inherited = [''constructor'', ''hasOwnProperty'', ''isPrototypeOf'', ''propertyIsEnumerable'', ''toLocaleString'', ''toString'', ''valueOf'']"

definition CPU_SUFFIX :: suffix_table where
  "CPU_SUFFIX = [(''m'', 1), ([], 1000)]"

definition MEM_SUFFIX :: suffix_table where
  "MEM_SUFFIX = [(''Ki'', 1024), (''Mi'', 1024 ^ 2), (''Gi'', 1024 ^ 3), (''Ti'', 1024 ^ 4), (''Pi'', 1024 ^ 5), (''Ei'', 1024 ^ 6),
     (''k'', 1000), (''M'', 1000 ^ 2), (''G'', 1000 ^ 3), (''T'', 1000 ^ 4), (''P'', 1000 ^ 5), (''E'', 1000 ^ 6), ([], 1)]"

definition is_letter :: "char \<Rightarrow> bool" where
  "is_letter c \<longleftrightarrow> (CHR ''a'' \<le> c \<and> c \<le> CHR ''z'') \<or> (CHR ''A'' \<le> c \<and> c \<le> CHR ''Z'')"

text \<open>\<^verbatim>\<open>/^(\d+(?:\.\d+)?)([A-Za-z]*)$/\<close>: the digits before and behind the point, and the suffix.\<close>

definition match_quantity :: "string \<Rightarrow> (string \<times> string \<times> string) option" where
  "match_quantity s =
     (let whole = takeWhile is_digit s; rest = dropWhile is_digit s;
          point = (rest \<noteq> [] \<and> hd rest = CHR ''.'');
          behind = (if point then takeWhile is_digit (tl rest) else []);
          sfx = (if point then dropWhile is_digit (tl rest) else rest)
      in if whole = [] \<or> (point \<and> behind = []) \<or> \<not> list_all is_letter sfx then None else Some (whole, behind, sfx))"

definition js_number :: "string \<Rightarrow> string \<Rightarrow> jsnum" where
  "js_number whole behind = js_round (of_nat (number_of (whole @ behind)) / 10 ^ length behind)"

definition factor_of :: "suffix_table \<Rightarrow> string \<Rightarrow> jsnum option" where
  "factor_of table sfx =
     (case map_of table sfx of
        Some f \<Rightarrow> Some (JFin (of_nat f))
      | None \<Rightarrow> if sfx \<in> set inherited then Some JNaN else None)"

definition not_a_quantity :: "string \<Rightarrow> string \<Rightarrow> thrown" where
  "not_a_quantity kind value = JsError ''Error'' (''not a '' @ kind @ '' quantity: '' @ [CHR 0x22] @ value @ [CHR 0x22] @
     '' (want a number with an optional unit, e.g. '' @
     (if kind = ''cpu'' then [CHR 0x22] @ ''500m'' @ [CHR 0x22] @ '' or '' @ [CHR 0x22] @ ''2'' @ [CHR 0x22]
      else [CHR 0x22] @ ''512Mi'' @ [CHR 0x22] @ '' or '' @ [CHR 0x22] @ ''2Gi'' @ [CHR 0x22]) @ '')'')"

definition parse_quantity :: "suffix_table \<Rightarrow> string \<Rightarrow> string \<Rightarrow> thrown + jsnum" where
  "parse_quantity table kind value =
     (case match_quantity (trim value) of
        None \<Rightarrow> Inl (not_a_quantity kind value)
      | Some (whole, behind, sfx) \<Rightarrow>
          (case factor_of table sfx of
             None \<Rightarrow> Inl (not_a_quantity kind value)
           | Some factor \<Rightarrow> Inr (js_mul (js_number whole behind) factor)))"

definition CPU_ORDER :: suffix_table where
  "CPU_ORDER = [([], 1000), (''m'', 1)]"

definition MEM_ORDER :: suffix_table where
  "MEM_ORDER = [(''Ei'', 1024 ^ 6), (''Pi'', 1024 ^ 5), (''Ti'', 1024 ^ 4), (''Gi'', 1024 ^ 3), (''Mi'', 1024 ^ 2), (''Ki'', 1024), ([], 1)]"

text \<open>\<^verbatim>\<open>amount % factor === 0\<close>, then \<^verbatim>\<open>amount / factor\<close>\<close>

definition divides :: "nat \<Rightarrow> rat \<Rightarrow> bool" where
  "divides f a \<longleftrightarrow> (let q = a / of_nat f in q = of_int \<lfloor>q\<rfloor>)"

fun format_quantity :: "jsnum \<Rightarrow> suffix_table \<Rightarrow> thrown + string" where
  "format_quantity (JFin a) order =
     (if a = 0 then Inr ''0''
      else (case List.find (\<lambda>(sfx, f). divides f a) order of
              Some (sfx, f) \<Rightarrow> Inr (show_js (js_round (a / of_nat f)) @ sfx)
            | None \<Rightarrow> Inr (show_rat a)))"
| "format_quantity a order = Inl (JsError ''Error'' (''cannot format quantity '' @ show_js a))"

definition sum_quantities :: "suffix_table \<Rightarrow> string \<Rightarrow> string list \<Rightarrow> thrown + jsnum" where
  "sum_quantities table kind values = bindE (mapE (parse_quantity table kind) values) (\<lambda>amounts. Inr (foldl js_add (JFin 0) amounts))"

definition addCpu :: "string list \<Rightarrow> thrown + string" where
  "addCpu values = bindE (sum_quantities CPU_SUFFIX ''cpu'' values) (\<lambda>a. format_quantity a CPU_ORDER)"

definition addMemory :: "string list \<Rightarrow> thrown + string" where
  "addMemory values = bindE (sum_quantities MEM_SUFFIX ''memory'' values) (\<lambda>a. format_quantity a MEM_ORDER)"

definition timesCpu :: "string \<Rightarrow> nat \<Rightarrow> thrown + string" where
  "timesCpu value n = bindE (parse_quantity CPU_SUFFIX ''cpu'' value) (\<lambda>a. format_quantity (js_mul a (JFin (of_nat n))) CPU_ORDER)"

definition timesMemory :: "string \<Rightarrow> nat \<Rightarrow> thrown + string" where
  "timesMemory value n = bindE (parse_quantity MEM_SUFFIX ''memory'' value) (\<lambda>a. format_quantity (js_mul a (JFin (of_nat n))) MEM_ORDER)"

definition cpuMillis :: "string \<Rightarrow> thrown + jsnum" where
  "cpuMillis value = parse_quantity CPU_SUFFIX ''cpu'' value"

definition memoryBytes :: "string \<Rightarrow> thrown + jsnum" where
  "memoryBytes value = parse_quantity MEM_SUFFIX ''memory'' value"

section \<open>Sizes\<close>

datatype unit_size = XSmall | Small | Medium | Large | XLarge | XXLarge

definition UNIT_SIZE :: "unit_size list" where
  "UNIT_SIZE = [XSmall, Small, Medium, Large, XLarge, XXLarge]"

fun show_size :: "unit_size \<Rightarrow> string" where
  "show_size XSmall = ''xsmall''" | "show_size Small = ''small''" | "show_size Medium = ''medium''"
| "show_size Large = ''large''" | "show_size XLarge = ''xlarge''" | "show_size XXLarge = ''xxlarge''"

fun UNIT_SIZE_LETTER :: "unit_size \<Rightarrow> string" where
  "UNIT_SIZE_LETTER XSmall = ''XS''" | "UNIT_SIZE_LETTER Small = ''S''" | "UNIT_SIZE_LETTER Medium = ''M''"
| "UNIT_SIZE_LETTER Large = ''L''" | "UNIT_SIZE_LETTER XLarge = ''XL''" | "UNIT_SIZE_LETTER XXLarge = ''XXL''"

datatype size_component = CBase | CPostgresql | CMongodb | CRedis | CMariadb | CMember

fun show_component :: "size_component \<Rightarrow> string" where
  "show_component CBase = ''base''" | "show_component CPostgresql = ''postgresql''" | "show_component CMongodb = ''mongodb''"
| "show_component CRedis = ''redis''" | "show_component CMariadb = ''mariadb''" | "show_component CMember = ''member''"

datatype mongodb_mode = MShared | MStandalone | MReplicaset

fun MONGODB_MEMBERS :: "mongodb_mode \<Rightarrow> nat" where
  "MONGODB_MEMBERS MShared = 0" | "MONGODB_MEMBERS MStandalone = 1" | "MONGODB_MEMBERS MReplicaset = 3"

datatype redis_mode = RShared | RStandalone

record unit_quota =
  uq_requestsCpu :: string
  uq_requestsMemory :: string
  uq_limitsCpu :: string
  uq_limitsMemory :: string
  uq_pods :: nat
  uq_persistentVolumeClaims :: nat

record unit_composition =
  uc_app :: "size_component option"
  uc_postgresql :: bool
  uc_mongodb :: mongodb_mode
  uc_redis :: "redis_mode option"
  uc_mariadb :: "bool option"

definition TENANT_BRINGS :: unit_composition where
  "TENANT_BRINGS = \<lparr>uc_app = Some CMember, uc_postgresql = False, uc_mongodb = MShared, uc_redis = None, uc_mariadb = None\<rparr>"

type_synonym size_table = "size_component \<Rightarrow> unit_size \<Rightarrow> unit_quota option"

definition quota :: "string \<Rightarrow> string \<Rightarrow> string \<Rightarrow> string \<Rightarrow> nat \<Rightarrow> nat \<Rightarrow> unit_quota" where
  "quota rc rm lc lm pods pvcs = \<lparr>uq_requestsCpu = rc, uq_requestsMemory = rm, uq_limitsCpu = lc, uq_limitsMemory = lm, uq_pods = pods,
     uq_persistentVolumeClaims = pvcs\<rparr>"

definition CERT_SOLVER :: unit_quota where
  "CERT_SOLVER = quota ''10m'' ''64Mi'' ''100m'' ''64Mi'' 1 0"

definition withSolver :: "unit_quota \<Rightarrow> thrown + unit_quota" where
  "withSolver q =
     bindE (addCpu [uq_requestsCpu q, uq_requestsCpu CERT_SOLVER]) (\<lambda>rc.
     bindE (addMemory [uq_requestsMemory q, uq_requestsMemory CERT_SOLVER]) (\<lambda>rm.
     bindE (addCpu [uq_limitsCpu q, uq_limitsCpu CERT_SOLVER]) (\<lambda>lc.
     bindE (addMemory [uq_limitsMemory q, uq_limitsMemory CERT_SOLVER]) (\<lambda>lm.
     Inr (quota rc rm lc lm (uq_pods q + uq_pods CERT_SOLVER) (uq_persistentVolumeClaims q))))))"

fun DATABASE_ROWS :: "unit_size \<Rightarrow> unit_quota" where
  "DATABASE_ROWS XSmall = quota ''25m'' ''256Mi'' ''400m'' ''512Mi'' 2 1"
| "DATABASE_ROWS Small = quota ''50m'' ''512Mi'' ''600m'' ''1Gi'' 2 1"
| "DATABASE_ROWS Medium = quota ''150m'' ''1536Mi'' ''1200m'' ''2560Mi'' 2 1"
| "DATABASE_ROWS Large = quota ''300m'' ''2560Mi'' ''2200m'' ''4608Mi'' 2 1"
| "DATABASE_ROWS XLarge = quota ''450m'' ''3584Mi'' ''3200m'' ''6656Mi'' 2 1"
| "DATABASE_ROWS XXLarge = quota ''600m'' ''4608Mi'' ''4200m'' ''8704Mi'' 2 1"

fun base_rows :: "unit_size \<Rightarrow> unit_quota" where
  "base_rows XSmall = quota ''200m'' ''512Mi'' ''750m'' ''1Gi'' 8 1"
| "base_rows Small = quota ''400m'' ''1Gi'' ''1500m'' ''2Gi'' 8 1"
| "base_rows Medium = quota ''800m'' ''2Gi'' ''3'' ''4Gi'' 16 2"
| "base_rows Large = quota ''1600m'' ''4Gi'' ''6'' ''8Gi'' 32 4"
| "base_rows XLarge = quota ''2400m'' ''6Gi'' ''9'' ''12Gi'' 48 6"
| "base_rows XXLarge = quota ''3200m'' ''8Gi'' ''12'' ''16Gi'' 64 8"

fun mongodb_rows :: "unit_size \<Rightarrow> unit_quota" where
  "mongodb_rows XSmall = quota ''50m'' ''256Mi'' ''500m'' ''1Gi'' 1 1"
| "mongodb_rows Small = quota ''100m'' ''512Mi'' ''1'' ''2Gi'' 1 1"
| "mongodb_rows Medium = quota ''250m'' ''1Gi'' ''2'' ''4Gi'' 1 1"
| "mongodb_rows Large = quota ''500m'' ''2Gi'' ''4'' ''8Gi'' 1 1"
| "mongodb_rows XLarge = quota ''750m'' ''3Gi'' ''6'' ''12Gi'' 1 1"
| "mongodb_rows XXLarge = quota ''1'' ''4Gi'' ''8'' ''16Gi'' 1 1"

fun redis_rows :: "unit_size \<Rightarrow> unit_quota" where
  "redis_rows XSmall = quota ''25m'' ''128Mi'' ''250m'' ''512Mi'' 2 1"
| "redis_rows Small = quota ''50m'' ''256Mi'' ''500m'' ''1Gi'' 2 1"
| "redis_rows Medium = quota ''100m'' ''512Mi'' ''1'' ''2Gi'' 2 1"
| "redis_rows Large = quota ''200m'' ''1Gi'' ''2'' ''4Gi'' 2 1"
| "redis_rows XLarge = quota ''300m'' ''2Gi'' ''2'' ''8Gi'' 2 1"
| "redis_rows XXLarge = quota ''400m'' ''3Gi'' ''2'' ''12Gi'' 2 1"

fun member_rows :: "unit_size \<Rightarrow> thrown + unit_quota" where
  "member_rows XSmall = withSolver (quota ''100m'' ''576Mi'' ''2'' ''2Gi'' 8 1)"
| "member_rows Small = withSolver (quota ''200m'' ''1152Mi'' ''4'' ''4Gi'' 8 1)"
| "member_rows Medium = withSolver (quota ''400m'' ''2304Mi'' ''6'' ''6Gi'' 8 1)"
| "member_rows Large = withSolver (quota ''800m'' ''4608Mi'' ''8'' ''10Gi'' 8 1)"
| "member_rows XLarge = withSolver (quota ''1200m'' ''6912Mi'' ''8'' ''15Gi'' 8 1)"
| "member_rows XXLarge = withSolver (quota ''1600m'' ''9216Mi'' ''8'' ''20Gi'' 8 1)"

fun UNIT_SIZE_SEED :: size_table where
  "UNIT_SIZE_SEED CBase s = Some (base_rows s)"
| "UNIT_SIZE_SEED CPostgresql s = Some (DATABASE_ROWS s)"
| "UNIT_SIZE_SEED CMongodb s = Some (mongodb_rows s)"
| "UNIT_SIZE_SEED CRedis s = Some (redis_rows s)"
| "UNIT_SIZE_SEED CMariadb s = Some (DATABASE_ROWS s)"
| "UNIT_SIZE_SEED CMember s = (case member_rows s of Inr q \<Rightarrow> Some q | Inl _ \<Rightarrow> None)"

definition seededSizes :: "size_component \<Rightarrow> unit_size list" where
  "seededSizes component = filter (\<lambda>s. UNIT_SIZE_SEED component s \<noteq> None) UNIT_SIZE"

definition quotaParts :: "unit_composition \<Rightarrow> (size_component \<times> nat) list" where
  "quotaParts brings =
     (let members = MONGODB_MEMBERS (uc_mongodb brings)
      in [(opt_default CBase (uc_app brings), 1)] @
         (if uc_postgresql brings then [(CPostgresql, 1)] else []) @
         (if members > 0 then [(CMongodb, members)] else []) @
         (if uc_redis brings = Some RStandalone then [(CRedis, 1)] else []) @
         (if uc_mariadb brings = Some True then [(CMariadb, 1)] else []))"

definition missingRow :: "size_component \<Rightarrow> unit_size \<Rightarrow> string" where
  "missingRow component sz = ''the size table holds no '' @ [CHR 0x22] @ show_component component @ [CHR 0x22] @ '' row for size '' @
     [CHR 0x22] @ show_size sz @ [CHR 0x22] @ '' '' @ em_dash @ '' that size is not offered for what this unit brings''"

text \<open>The sizes of the data parts a unit states for itself; the application part has the unit's own size.\<close>

datatype data_part = DPostgresql | DMongodb | DRedis | DMariadb

definition DATA_PART :: "data_part list" where
  "DATA_PART = [DPostgresql, DMongodb, DRedis, DMariadb]"

fun data_part_of :: "size_component \<Rightarrow> data_part option" where
  "data_part_of CPostgresql = Some DPostgresql" | "data_part_of CMongodb = Some DMongodb"
| "data_part_of CRedis = Some DRedis" | "data_part_of CMariadb = Some DMariadb" | "data_part_of _ = None"

type_synonym part_sizes = "(data_part \<times> unit_size) list"

definition sizeOf :: "size_component \<Rightarrow> unit_size \<Rightarrow> part_sizes \<Rightarrow> unit_size" where
  "sizeOf component sz sizes =
     (case data_part_of component of
        Some p \<Rightarrow> opt_default sz (map_of sizes p)
      | None \<Rightarrow> sz)"

fun brings_part :: "unit_composition \<Rightarrow> data_part \<Rightarrow> bool" where
  "brings_part b DPostgresql = uc_postgresql b"
| "brings_part b DMongodb = (MONGODB_MEMBERS (uc_mongodb b) > 0)"
| "brings_part b DRedis = (uc_redis b = Some RStandalone)"
| "brings_part b DMariadb = (uc_mariadb b = Some True)"

definition dataParts :: "unit_composition \<Rightarrow> data_part list" where
  "dataParts brings = filter (brings_part brings) DATA_PART"

fun ONBOARDING_VOLUME :: "data_part \<Rightarrow> unit_size \<Rightarrow> string" where
  "ONBOARDING_VOLUME DPostgresql s = (case s of XSmall \<Rightarrow> ''2Gi'' | Small \<Rightarrow> ''5Gi'' | Medium \<Rightarrow> ''20Gi'' | Large \<Rightarrow> ''50Gi'' | XLarge \<Rightarrow> ''100Gi'' | XXLarge \<Rightarrow> ''200Gi'')"
| "ONBOARDING_VOLUME DMongodb s = (case s of XSmall \<Rightarrow> ''5Gi'' | Small \<Rightarrow> ''10Gi'' | Medium \<Rightarrow> ''40Gi'' | Large \<Rightarrow> ''100Gi'' | XLarge \<Rightarrow> ''200Gi'' | XXLarge \<Rightarrow> ''400Gi'')"
| "ONBOARDING_VOLUME DRedis s = (case s of XSmall \<Rightarrow> ''1Gi'' | Small \<Rightarrow> ''2Gi'' | Medium \<Rightarrow> ''4Gi'' | Large \<Rightarrow> ''8Gi'' | XLarge \<Rightarrow> ''16Gi'' | XXLarge \<Rightarrow> ''24Gi'')"
| "ONBOARDING_VOLUME DMariadb s = (case s of XSmall \<Rightarrow> ''2Gi'' | Small \<Rightarrow> ''5Gi'' | Medium \<Rightarrow> ''20Gi'' | Large \<Rightarrow> ''50Gi'' | XLarge \<Rightarrow> ''100Gi'' | XXLarge \<Rightarrow> ''200Gi'')"

definition partSizing :: "unit_size \<Rightarrow> unit_composition \<Rightarrow> (part_sizes \<times> (data_part \<times> string) list) option" where
  "partSizing sz brings =
     (let parts = dataParts brings
      in if parts = [] then None
         else Some (map (\<lambda>p. (p, sz)) parts, map (\<lambda>p. (p, ONBOARDING_VOLUME p sz)) parts))"

definition MONGODB_EXPORTER :: unit_quota where
  "MONGODB_EXPORTER = quota ''15m'' ''48Mi'' ''100m'' ''128Mi'' 1 0"

record quota_part =
  qp_component :: string
  qp_members :: nat
  qp_each :: unit_quota

definition sized_part :: "size_table \<Rightarrow> unit_size \<Rightarrow> part_sizes \<Rightarrow> size_component \<times> nat \<Rightarrow> thrown + quota_part" where
  "sized_part table sz sizes p =
     (let row_size = sizeOf (fst p) sz sizes
      in (case table (fst p) row_size of
            None \<Rightarrow> Inl (JsError ''Error'' (missingRow (fst p) row_size))
          | Some each \<Rightarrow> Inr \<lparr>qp_component = show_component (fst p), qp_members = snd p, qp_each = each\<rparr>))"

definition sum_cpu :: "(unit_quota \<Rightarrow> string) \<Rightarrow> quota_part list \<Rightarrow> thrown + string" where
  "sum_cpu column parts = bindE (mapE (\<lambda>p. timesCpu (column (qp_each p)) (qp_members p)) parts) addCpu"

definition sum_memory :: "(unit_quota \<Rightarrow> string) \<Rightarrow> quota_part list \<Rightarrow> thrown + string" where
  "sum_memory column parts = bindE (mapE (\<lambda>p. timesMemory (column (qp_each p)) (qp_members p)) parts) addMemory"

definition composeQuota :: "size_table \<Rightarrow> unit_size \<Rightarrow> unit_composition \<Rightarrow> part_sizes \<Rightarrow> thrown + unit_quota \<times> quota_part list" where
  "composeQuota table sz brings sizes =
     bindE (mapE (sized_part table sz sizes) (quotaParts brings)) (\<lambda>rows.
     (let parts = rows @ (if MONGODB_MEMBERS (uc_mongodb brings) > 0
                          then [\<lparr>qp_component = ''mongodb-exporter'', qp_members = 1, qp_each = MONGODB_EXPORTER\<rparr>] else [])
      in bindE (sum_cpu uq_requestsCpu parts) (\<lambda>rc.
         bindE (sum_memory uq_requestsMemory parts) (\<lambda>rm.
         bindE (sum_cpu uq_limitsCpu parts) (\<lambda>lc.
         bindE (sum_memory uq_limitsMemory parts) (\<lambda>lm.
         Inr (quota rc rm lc lm (foldl (\<lambda>n p. n + uq_pods (qp_each p) * qp_members p) 0 parts)
                (foldl (\<lambda>n p. n + uq_persistentVolumeClaims (qp_each p) * qp_members p) 0 parts), parts)))))))"

definition seedQuota :: "unit_size \<Rightarrow> unit_composition \<Rightarrow> part_sizes \<Rightarrow> thrown + unit_quota" where
  "seedQuota sz brings sizes = bindE (composeQuota UNIT_SIZE_SEED sz brings sizes) (\<lambda>(q, parts). Inr q)"


section \<open>Exact arithmetic\<close>

lemma show_nat_digits: "list_all is_digit (show_nat n) \<and> show_nat n \<noteq> []"
proof (induction n rule: show_nat.induct)
  case (1 n)
  then show ?case using digit_char [of n] digit_char [of "n mod 10"]
    by (cases "n < 10") (simp_all add: show_nat_small show_nat_large)
qed

text \<open>
  A kind of quantity: the suffixes it writes are suffixes it reads, with the same factor, and one of them has the factor 1, so that a whole
  amount is always written as a whole number of something.
\<close>

locale quantity_kind =
  fixes table order :: suffix_table and kind :: string
  assumes order_in_table: "(sfx, f) \<in> set order \<Longrightarrow> map_of table sfx = Some f \<and> 0 < f \<and> list_all is_letter sfx"
    and order_has_one: "\<exists>sfx. (sfx, 1) \<in> set order"
    and empty_in_table: "\<exists>f. map_of table [] = Some f"
begin

definition amount :: "string \<Rightarrow> nat \<Rightarrow> bool" where
  "amount v k \<longleftrightarrow> parse_quantity table kind v = Inr (JFin (of_nat k))"

lemma letter_alone: "is_letter c \<Longrightarrow> \<not> is_digit c \<and> c \<noteq> CHR ''.'' \<and> \<not> is_space c"
  by (auto simp: is_letter_def is_digit_def is_space_def less_eq_char_def)

lemma digit_no_space: "is_digit c \<Longrightarrow> \<not> is_space c"
  by (auto simp: is_digit_def is_space_def less_eq_char_def)

lemma dropWhile_none: "\<forall>c \<in> set s. \<not> P c \<Longrightarrow> dropWhile P s = s"
  by (cases s) auto

lemma trim_id: "\<forall>c \<in> set s. \<not> is_space c \<Longrightarrow> trim s = s"
  by (simp add: trim_def dropWhile_none)

lemma match_written:
  assumes "list_all is_digit ds" "ds \<noteq> []" "list_all is_letter sfx"
  shows "match_quantity (trim (ds @ sfx)) = Some (ds, [], sfx)"
proof -
  have "trim (ds @ sfx) = ds @ sfx"
    by (rule trim_id) (use assms letter_alone digit_no_space in \<open>auto simp: list_all_iff\<close>)
  moreover have "takeWhile is_digit (ds @ sfx) = ds \<and> dropWhile is_digit (ds @ sfx) = sfx"
    using assms(1,3) by (cases sfx) (auto simp: list_all_iff takeWhile_append dropWhile_append takeWhile_eq_all_conv dropWhile_eq_Nil_conv
        dest: letter_alone)
  moreover have "sfx \<noteq> [] \<Longrightarrow> hd sfx \<noteq> CHR ''.''" using assms(3) letter_alone by (cases sfx) auto
  ultimately show ?thesis using assms by (auto simp: match_quantity_def Let_def)
qed

lemma parse_written:
  assumes "(sfx, f) \<in> set order" "q * f < 2 ^ 53"
  shows "amount (show_nat q @ sfx) (q * f)"
proof -
  have t: "map_of table sfx = Some f" "0 < f" "list_all is_letter sfx" using order_in_table [OF assms(1)] by auto
  have q: "q < 2 ^ 53" using assms(2) t(2) by (cases f) auto
  have "match_quantity (trim (show_nat q @ sfx)) = Some (show_nat q, [], sfx)"
    using show_nat_digits t(3) by (intro match_written) auto
  then show ?thesis
    using js_round_nat [OF q] js_mul_nat [OF assms(2)] t(1)
    by (simp add: amount_def parse_quantity_def factor_of_def js_number_def number_of_show)
qed

lemma parse_zero: "amount ''0'' 0"
proof -
  obtain f where f: "map_of table [] = Some f" using empty_in_table by blast
  have "match_quantity (trim (''0'' @ [])) = Some (''0'', [], [])" by (rule match_written) (simp_all add: is_digit_def)
  then show ?thesis using js_round_nat [of 0] f
    by (simp add: amount_def parse_quantity_def factor_of_def js_number_def number_of_def digit_value_def)
qed

text \<open>A whole amount is written as a text that reads back as that amount.\<close>

lemma written_reads_back:
  assumes "k < 2 ^ 53"
  shows "\<exists>v. format_quantity (JFin (of_nat k)) order = Inr v \<and> amount v k"
proof (cases "k = 0")
  case True
  then show ?thesis using parse_zero by simp
next
  case False
  have "\<exists>sf. List.find (\<lambda>(sfx, f). divides f (of_nat k)) order = Some sf"
  proof -
    obtain sfx where "(sfx, 1) \<in> set order" using order_has_one by blast
    moreover have "divides 1 (of_nat k)" by (simp add: divides_def)
    ultimately show ?thesis by (cases "List.find (\<lambda>(sfx, f). divides f (of_nat k)) order") (auto simp: find_None_all)
  qed
  then obtain sfx f where find: "List.find (\<lambda>(sfx, f). divides f (of_nat k)) order = Some (sfx, f)" by auto
  then have sf: "(sfx, f) \<in> set order" "divides f (of_nat k)" using find_Some_in [OF find] by auto
  have f: "0 < f" using order_in_table [OF sf(1)] by simp
  obtain z where z: "(of_nat k :: rat) / of_nat f = of_int z" using sf(2) unfolding divides_def Let_def by blast
  then have "(of_nat k :: rat) = of_int z * of_nat f" using f by (simp add: field_simps)
  then have "(of_int (int k) :: rat) = of_int (z * int f)" by simp
  then have k: "int k = z * int f" by (simp only: of_int_eq_iff)
  then have "0 \<le> z" using f by (metis of_nat_0_le_iff of_nat_0_less_iff zero_le_mult_iff not_less)
  then obtain q where q: "z = int q" by (metis nonneg_int_cases)
  have kq: "k = q * f" using k q by (metis of_nat_eq_iff of_nat_mult)
  have "q < 2 ^ 53" using assms kq f by (cases f) auto
  then have "show_js (js_round ((of_nat k :: rat) / of_nat f)) = show_nat q"
    using js_round_nat [of q] show_rat_nat [of q] z q by simp
  then show ?thesis using False find parse_written [OF sf(1), of q] assms kq by simp
qed

lemma sum_exact:
  assumes "list_all2 amount vs ks" "a + sum_list ks < 2 ^ 53"
  shows "\<exists>ams. mapE (parse_quantity table kind) vs = Inr ams \<and> foldl js_add (JFin (of_nat a)) ams = JFin (of_nat (a + sum_list ks))"
  using assms
proof (induction vs ks arbitrary: a rule: list_all2_induct)
  case (Cons v vs k ks)
  obtain ams where "mapE (parse_quantity table kind) vs = Inr ams" "foldl js_add (JFin (of_nat (a + k))) ams = JFin (of_nat (a + k + sum_list ks))"
    using Cons(3) [of "a + k"] Cons(4) by (auto simp: add.assoc)
  moreover have "js_add (JFin (of_nat a)) (JFin (of_nat k)) = JFin (of_nat (a + k))" using js_add_nat [of a k] Cons(4) by simp
  ultimately show ?case using Cons(1) by (auto simp: amount_def add.assoc)
qed simp

lemma add_exact:
  assumes "list_all2 amount vs ks" "sum_list ks < 2 ^ 53"
  shows "\<exists>v. bindE (sum_quantities table kind vs) (\<lambda>a. format_quantity a order) = Inr v \<and> amount v (sum_list ks)"
proof -
  obtain ams where "mapE (parse_quantity table kind) vs = Inr ams" "foldl js_add (JFin 0) ams = JFin (of_nat (sum_list ks))"
    using sum_exact [OF assms(1), of 0] assms(2) by auto
  then show ?thesis using written_reads_back [OF assms(2)] by (simp add: sum_quantities_def)
qed

lemma times_exact:
  assumes "amount v k" "k * n < 2 ^ 53"
  shows "\<exists>w. bindE (parse_quantity table kind v) (\<lambda>a. format_quantity (js_mul a (JFin (of_nat n))) order) = Inr w \<and> amount w (k * n)"
  using assms js_mul_nat [OF assms(2)] written_reads_back [OF assms(2)] by (simp add: amount_def)

end

definition order_fits :: "suffix_table \<Rightarrow> suffix_table \<Rightarrow> bool" where
  "order_fits table order \<longleftrightarrow> list_all (\<lambda>(sfx, f). map_of table sfx = Some f \<and> 0 < f \<and> list_all is_letter sfx) order \<and>
     list_ex (\<lambda>(sfx, f). f = 1) order \<and> map_of table [] \<noteq> None"

lemma order_fits_kind: "order_fits table order \<Longrightarrow> quantity_kind table order"
  unfolding order_fits_def by unfold_locales (auto simp: list_all_iff list_ex_iff)

lemma suffixes_fit: "order_fits CPU_SUFFIX CPU_ORDER" "order_fits MEM_SUFFIX MEM_ORDER"
  by (simp_all add: order_fits_def CPU_SUFFIX_def CPU_ORDER_def MEM_SUFFIX_def MEM_ORDER_def is_letter_def less_eq_char_def)

interpretation cpu: quantity_kind CPU_SUFFIX CPU_ORDER "''cpu''"
  by (rule order_fits_kind) (rule suffixes_fit)

interpretation memory: quantity_kind MEM_SUFFIX MEM_ORDER "''memory''"
  by (rule order_fits_kind) (rule suffixes_fit)


section \<open>What a composed quota is\<close>

text \<open>The columns of a row that hold a whole number of millicores, or of bytes.\<close>

definition whole_cpu :: "(unit_quota \<Rightarrow> string) \<Rightarrow> (unit_quota \<Rightarrow> nat) \<Rightarrow> quota_part list \<Rightarrow> bool" where
  "whole_cpu column amt parts \<longleftrightarrow> (\<forall>p \<in> set parts. cpuMillis (column (qp_each p)) = Inr (JFin (of_nat (amt (qp_each p)))))"

definition whole_memory :: "(unit_quota \<Rightarrow> string) \<Rightarrow> (unit_quota \<Rightarrow> nat) \<Rightarrow> quota_part list \<Rightarrow> bool" where
  "whole_memory column amt parts \<longleftrightarrow> (\<forall>p \<in> set parts. memoryBytes (column (qp_each p)) = Inr (JFin (of_nat (amt (qp_each p)))))"

definition total :: "(unit_quota \<Rightarrow> nat) \<Rightarrow> quota_part list \<Rightarrow> nat" where
  "total amt parts = (\<Sum>p \<leftarrow> parts. amt (qp_each p) * qp_members p)"

lemma scaled_parts:
  assumes scale: "\<And>v k n. A v k \<Longrightarrow> k * n < 2 ^ 53 \<Longrightarrow> \<exists>w. scale_by v n = Inr w \<and> A w (k * n)"
    and "\<forall>p \<in> set parts. A (column (qp_each p)) (amt (qp_each p))" "total amt parts < 2 ^ 53"
  shows "\<exists>vs. mapE (\<lambda>p. scale_by (column (qp_each p)) (qp_members p)) parts = Inr vs \<and>
    list_all2 A vs (map (\<lambda>p. amt (qp_each p) * qp_members p) parts)"
  using assms(2,3)
proof (induction parts)
  case (Cons p parts)
  obtain w where "scale_by (column (qp_each p)) (qp_members p) = Inr w" "A w (amt (qp_each p) * qp_members p)"
    using scale [of "column (qp_each p)" "amt (qp_each p)" "qp_members p"] Cons(2,3) by (auto simp: total_def)
  moreover obtain vs where "mapE (\<lambda>p. scale_by (column (qp_each p)) (qp_members p)) parts = Inr vs"
    "list_all2 A vs (map (\<lambda>p. amt (qp_each p) * qp_members p) parts)"
    using Cons by (auto simp: total_def)
  ultimately show ?case by simp
qed simp

lemma sum_cpu_exact:
  assumes "whole_cpu column amt parts" "total amt parts < 2 ^ 53"
  shows "\<exists>v. sum_cpu column parts = Inr v \<and> cpuMillis v = Inr (JFin (of_nat (total amt parts)))"
proof -
  have scale: "cpu.amount v k \<Longrightarrow> k * n < 2 ^ 53 \<Longrightarrow> \<exists>w. timesCpu v n = Inr w \<and> cpu.amount w (k * n)" for v k n
    unfolding timesCpu_def by (rule cpu.times_exact)
  obtain vs where vs: "mapE (\<lambda>p. timesCpu (column (qp_each p)) (qp_members p)) parts = Inr vs"
    "list_all2 cpu.amount vs (map (\<lambda>p. amt (qp_each p) * qp_members p) parts)"
    using scaled_parts [of cpu.amount timesCpu parts column amt, OF scale] assms by (auto simp: whole_cpu_def cpu.amount_def cpuMillis_def)
  show ?thesis using cpu.add_exact [OF vs(2)] assms(2) vs(1)
    by (simp add: sum_cpu_def addCpu_def total_def cpu.amount_def cpuMillis_def)
qed

lemma sum_memory_exact:
  assumes "whole_memory column amt parts" "total amt parts < 2 ^ 53"
  shows "\<exists>v. sum_memory column parts = Inr v \<and> memoryBytes v = Inr (JFin (of_nat (total amt parts)))"
proof -
  have scale: "memory.amount v k \<Longrightarrow> k * n < 2 ^ 53 \<Longrightarrow> \<exists>w. timesMemory v n = Inr w \<and> memory.amount w (k * n)" for v k n
    unfolding timesMemory_def by (rule memory.times_exact)
  obtain vs where vs: "mapE (\<lambda>p. timesMemory (column (qp_each p)) (qp_members p)) parts = Inr vs"
    "list_all2 memory.amount vs (map (\<lambda>p. amt (qp_each p) * qp_members p) parts)"
    using scaled_parts [of memory.amount timesMemory parts column amt, OF scale] assms
    by (auto simp: whole_memory_def memory.amount_def memoryBytes_def)
  show ?thesis using memory.add_exact [OF vs(2)] assms(2) vs(1)
    by (simp add: sum_memory_def addMemory_def total_def memory.amount_def memoryBytes_def)
qed

lemma pods_total: "foldl (\<lambda>n p. n + f (qp_each p) * qp_members p) a parts = a + total f parts"
  by (induction parts arbitrary: a) (simp_all add: total_def)

text \<open>The parts of a composition: the rows of the table, and the exporter where the unit brings its own MongoDB.\<close>

definition parts_of :: "unit_composition \<Rightarrow> quota_part list \<Rightarrow> quota_part list" where
  "parts_of brings rows = rows @ (if MONGODB_MEMBERS (uc_mongodb brings) > 0
     then [\<lparr>qp_component = ''mongodb-exporter'', qp_members = 1, qp_each = MONGODB_EXPORTER\<rparr>] else [])"


lemma cpu_reads: "cpuMillis ''400m'' = Inr (JFin (of_nat 400))" "cpuMillis ''1500m'' = Inr (JFin (of_nat 1500))"
proof -
  have s: "show_nat 400 = ''400''" "show_nat 1500 = ''1500''" by (simp_all add: show_nat_large show_nat_small char_of_def bit_iff_odd)
  show "cpuMillis ''400m'' = Inr (JFin (of_nat 400))" "cpuMillis ''1500m'' = Inr (JFin (of_nat 1500))"
    using cpu.parse_written [of "''m''" 1 400] cpu.parse_written [of "''m''" 1 1500] s
    by (simp_all add: cpuMillis_def cpu.amount_def CPU_ORDER_def)
qed

lemma memory_reads: "memoryBytes ''1Gi'' = Inr (JFin (of_nat (1024 ^ 3)))" "memoryBytes ''2Gi'' = Inr (JFin (of_nat (2 * 1024 ^ 3)))"
proof -
  have s: "show_nat 1 = ''1''" "show_nat 2 = ''2''" by (simp_all add: show_nat_small char_of_def bit_iff_odd)
  show "memoryBytes ''1Gi'' = Inr (JFin (of_nat (1024 ^ 3)))" "memoryBytes ''2Gi'' = Inr (JFin (of_nat (2 * 1024 ^ 3)))"
    using memory.parse_written [of "''Gi''" "1024 ^ 3" 1] memory.parse_written [of "''Gi''" "1024 ^ 3" 2] s
    by (simp_all add: memoryBytes_def memory.amount_def MEM_ORDER_def)
qed

definition bare_unit :: unit_composition where
  "bare_unit = \<lparr>uc_app = None, uc_postgresql = False, uc_mongodb = MShared, uc_redis = None, uc_mariadb = None\<rparr>"


end
