(* ===== verification/Read_Model.thy ===== *)
theory Read_Model
  imports Run_Store Results "HOL-Library.Multiset"
begin

text \<open>
  What the Manager shows of its runs (\<^verbatim>\<open>executor/read.ts\<close>) and the live bus between a run and its watchers (\<^verbatim>\<open>executor/bus.ts\<close>).

  The readings are functions of the tables. Rows with the same time come in the order of the table, which is one of the orders the
  database may answer in. A plan that is a validation report carries none of a plan's lists. The display names of the operators are an
  argument.
\<close>

section \<open>One run\<close>

record step_view =
  sw_name :: string
  sw_title :: string
  sw_status :: step_status
  sw_startedAt :: "nat option"
  sw_endedAt :: "nat option"

record run_view =
  rv_id :: run_id
  rv_kind :: string
  rv_targetKind :: string
  rv_targetId :: string
  rv_status :: run_status
  rv_summary :: string
  rv_owner :: string
  rv_steps :: "step_view list"
  rv_requiredSecrets :: "string list"
  rv_secretHints :: "(string \<times> string) list"
  rv_optionalSecrets :: "string list"
  rv_findings :: "preflight_check list"
  rv_requiredInputs :: "(string \<times> string) list"
  rv_creation :: nat
  rv_startedAt :: "nat option"
  rv_endedAt :: "nat option"
  rv_deleted :: "nat option"
  rv_cleanupsRegistered :: bool
  rv_aborted :: bool

fun plan_summary :: "plan_json option \<Rightarrow> string option" where
  "plan_summary (Some (PlanSnap p)) = Some (p_summary p)"
| "plan_summary (Some (PlanReport (JObj kvs))) = (case map_of kvs ''summary'' of Some (JStr s) \<Rightarrow> Some s | _ \<Rightarrow> None)"
| "plan_summary _ = None"

definition summaryOf :: "run_row \<Rightarrow> string" where
  "summaryOf r = opt_default (r_kind r @ '' '' @ r_targetId r) (plan_summary (r_plan r))"

definition from_plan :: "(plan_snapshot \<Rightarrow> 'a option) \<Rightarrow> 'a \<Rightarrow> run_row \<Rightarrow> 'a" where
  "from_plan get d r = (case r_plan r of Some (PlanSnap p) \<Rightarrow> opt_default d (get p) | _ \<Rightarrow> d)"

definition getOperatorDisplayName :: "(string \<times> string) list \<Rightarrow> string \<Rightarrow> thrown + string" where
  "getOperatorDisplayName ops oid =
     (case map_of ops oid of Some n \<Rightarrow> Inr n | None \<Rightarrow> Inl (JsError ''Error'' (''no operator '' @ oid)))"

definition registers_cleanup :: "step_row \<Rightarrow> bool" where
  "registers_cleanup s = (case s_checkpoint s of Some cp \<Rightarrow> length (opt_default [] (cp_cleanups cp)) > 0 | None \<Rightarrow> False)"

definition toRunView :: "(string \<times> string) list \<Rightarrow> db \<Rightarrow> run_row \<Rightarrow> thrown + run_view" where
  "toRunView ops d r =
     (let rows = allStepRows d (r_id r)
      in bindE (getOperatorDisplayName ops (r_owner r)) (\<lambda>owner. Inr
         \<lparr>rv_id = r_id r, rv_kind = r_kind r, rv_targetKind = r_targetKind r, rv_targetId = r_targetId r, rv_status = r_status r,
          rv_summary = summaryOf r, rv_owner = owner,
          rv_steps = map (\<lambda>s. \<lparr>sw_name = s_name s, sw_title = s_title s, sw_status = s_status s, sw_startedAt = s_startedAt s, sw_endedAt = s_finishedAt s\<rparr>) rows,
          rv_requiredSecrets = from_plan (\<lambda>p. Some (p_requiredSecrets p)) [] r, rv_secretHints = from_plan p_secretHints [] r,
          rv_optionalSecrets = from_plan p_optionalSecrets [] r, rv_findings = from_plan p_findings [] r,
          rv_requiredInputs = from_plan p_requiredInputs [] r,
          rv_creation = r_creation r, rv_startedAt = r_startedAt r, rv_endedAt = r_finishedAt r, rv_deleted = r_deleted r,
          rv_cleanupsRegistered = list_ex registers_cleanup rows,
          rv_aborted = (r_status r = RCancelled \<and> r_startedAt r \<noteq> None \<and> list_all (\<lambda>s. s_status s = SOk \<or> s_status s = SSkipped) rows)\<rparr>))"

section \<open>The list of runs\<close>

definition OPEN_RUN_STATUSES :: "run_status list" where
  "OPEN_RUN_STATUSES = [RPlanning, RPlanned, RQueued, RApproved, RRunning]"

definition newest_first :: "run_row list \<Rightarrow> run_row list" where
  "newest_first rows = sort_key (\<lambda>r. - int (r_creation r)) rows"

definition lock_holders :: "db \<Rightarrow> run_id list" where
  "lock_holders d = map l_runId (filter (\<lambda>l. l_deleted l = None) (run_locks d))"

text \<open>\<^verbatim>\<open>new Map(rows.map((r) => [r.id, r])).values()\<close>: one row per id, at the place of the first.\<close>

fun unique_runs :: "run_row list \<Rightarrow> run_row list" where
  "unique_runs [] = []"
| "unique_runs (r # rs) = (case filter (\<lambda>q. r_id q = r_id r) rs of [] \<Rightarrow> r | qs \<Rightarrow> last qs) # unique_runs (filter (\<lambda>q. r_id q \<noteq> r_id r) rs)"

definition listed_rows :: "db \<Rightarrow> nat \<Rightarrow> run_row list" where
  "listed_rows d limit =
     (let standing = filter (\<lambda>r. r_deleted r = None) (runs d)
      in newest_first (unique_runs (take limit (newest_first standing) @
           filter (\<lambda>r. r_status r \<in> set OPEN_RUN_STATUSES \<or> r_id r \<in> set (lock_holders d)) standing)))"

definition listRuns :: "(string \<times> string) list \<Rightarrow> db \<Rightarrow> nat \<Rightarrow> thrown + run_view list" where
  "listRuns ops d limit = mapE (toRunView ops d) (listed_rows d limit)"

section \<open>How long a kind takes\<close>

record run_duration_view =
  rd_kind :: string
  rd_typicalMs :: int
  rd_sampleSize :: nat

definition median :: "int list \<Rightarrow> int" where
  "median values =
     (let sorted = sort values; mid = length sorted div 2
      in if length sorted mod 2 = 1 then sorted ! mid else (sorted ! (mid - 1) + sorted ! mid + 1) div 2)"

fun by_kind :: "nat \<Rightarrow> run_row list \<Rightarrow> (string \<times> int list) list \<Rightarrow> (string \<times> int list) list" where
  "by_kind window [] m = m"
| "by_kind window (r # rs) m =
     (case (r_startedAt r, r_finishedAt r) of
        (Some s, Some f) \<Rightarrow>
          (let taken = opt_default [] (map_of m (r_kind r));
               taken' = (if length taken < window then taken @ [int f - int s] else taken)
           in by_kind window rs (if map_of m (r_kind r) = None then m @ [(r_kind r, taken')]
                                 else map (\<lambda>(k, v). if k = r_kind r then (k, taken') else (k, v)) m))
      | _ \<Rightarrow> by_kind window rs m)"

definition listRunDurations :: "db \<Rightarrow> nat \<Rightarrow> run_duration_view list" where
  "listRunDurations d window =
     (let rows = sort_key (\<lambda>r. - int (opt_default 0 (r_finishedAt r))) (filter (\<lambda>r. r_status r = RSucceeded \<and> r_deleted r = None) (runs d))
      in map (\<lambda>(kind, taken). \<lparr>rd_kind = kind, rd_typicalMs = median taken, rd_sampleSize = length taken\<rparr>) (by_kind window rows []))"

section \<open>Single readings\<close>

definition getRun :: "(string \<times> string) list \<Rightarrow> db \<Rightarrow> run_id \<Rightarrow> thrown + run_view option" where
  "getRun ops d rid = (case get_run d rid of Some r \<Rightarrow> bindE (toRunView ops d r) (\<lambda>v. Inr (Some v)) | None \<Rightarrow> Inr None)"

definition getRunParams :: "db \<Rightarrow> run_id \<Rightarrow> (string \<times> json) option" where
  "getRunParams d rid = (case get_run d rid of Some r \<Rightarrow> Some (r_kind r, if r_params r = JNull then JObj [] else r_params r) | None \<Rightarrow> None)"

definition getRunEnding :: "db \<Rightarrow> run_id \<Rightarrow> (run_status \<times> string option) option" where
  "getRunEnding d rid = map_option (\<lambda>r. (r_status r, r_error r)) (get_run d rid)"

definition getRunStepStatus :: "db \<Rightarrow> run_id \<Rightarrow> string \<Rightarrow> step_status option" where
  "getRunStepStatus d rid name = map_option s_status (find_step d rid name)"

definition getRunStepCheckpoint :: "db \<Rightarrow> run_id \<Rightarrow> string \<Rightarrow> json option" where
  "getRunStepCheckpoint d rid name =
     (case find_step d rid name of
        Some s \<Rightarrow> (case s_checkpoint s of Some cp \<Rightarrow> cp_data cp | None \<Rightarrow> None)
      | None \<Rightarrow> None)"

definition findActiveRunOn :: "db \<Rightarrow> string \<Rightarrow> string \<Rightarrow> (run_id \<times> string \<times> run_status) option" where
  "findActiveRunOn d kind tid = map_option (\<lambda>r. (r_id r, r_kind r, r_status r))
     (List.find (\<lambda>r. r_targetKind r = kind \<and> r_targetId r = tid \<and> r_status r \<in> {RApproved, RRunning, RFailed} \<and> r_deleted r = None) (runs d))"

text \<open>The events of a run behind a cursor; no cursor is \<open>-1\<close> in the source, everything.\<close>

definition readEvents :: "db \<Rightarrow> run_id \<Rightarrow> int \<Rightarrow> event_view list" where
  "readEvents d rid afterSeq = map (\<lambda>e. \<lparr>ev_seq = e_seq e, ev_stream = e_stream e, ev_text = e_text e, ev_at = e_creation e\<rparr>)
     (sort_key e_seq (filter (\<lambda>e. e_runId e = rid \<and> int (e_seq e) > afterSeq) (events d)))"

section \<open>The live bus\<close>

text \<open>A listener is a number. The state is the map from a run to its listeners, in the order they subscribed.\<close>

type_synonym bus = "(run_id \<times> nat list) list"

definition subscribe :: "run_id \<Rightarrow> nat \<Rightarrow> bus \<Rightarrow> bus" where
  "subscribe rid fn subs =
     (let fns = opt_default [] (map_of subs rid) in map_set rid (if fn \<in> set fns then fns else fns @ [fn]) subs)"

definition unsubscribe :: "run_id \<Rightarrow> nat \<Rightarrow> bus \<Rightarrow> bus" where
  "unsubscribe rid fn subs =
     (case map_of subs rid of
        None \<Rightarrow> subs
      | Some s \<Rightarrow> (let s' = filter (\<lambda>g. g \<noteq> fn) s in if s' = [] then map_delete rid subs else map_set rid s' subs))"

text \<open>Who is called with the event, in order.\<close>

definition publish_to :: "run_id \<Rightarrow> bus \<Rightarrow> nat list" where
  "publish_to rid subs = opt_default [] (map_of subs rid)"

definition subscriberCount :: "bus \<Rightarrow> run_id \<Rightarrow> nat" where
  "subscriberCount subs rid = length (opt_default [] (map_of subs rid))"

section \<open>What the list shows\<close>

lemma unique_runs_ids: "set (map r_id (unique_runs rs)) = set (map r_id rs) \<and> distinct (map r_id (unique_runs rs)) \<and> set (unique_runs rs) \<subseteq> set rs"
proof (induction rs rule: unique_runs.induct)
  case (2 r rs)
  define q where "q = (case filter (\<lambda>q. r_id q = r_id r) rs of [] \<Rightarrow> r | qs \<Rightarrow> last qs)"
  have q: "r_id q = r_id r \<and> q \<in> set (r # rs)"
  proof (cases "filter (\<lambda>q. r_id q = r_id r) rs")
    case (Cons a as)
    have "last (filter (\<lambda>q. r_id q = r_id r) rs) \<in> set (filter (\<lambda>q. r_id q = r_id r) rs)" by (rule last_in_set) (simp add: Cons)
    moreover have "q = last (filter (\<lambda>q. r_id q = r_id r) rs)" by (simp add: q_def Cons)
    ultimately have "q \<in> set (filter (\<lambda>q. r_id q = r_id r) rs)" by simp
    then show ?thesis by auto
  qed (simp add: q_def)
  define fs where "fs = filter (\<lambda>q. r_id q \<noteq> r_id r) rs"
  have u: "unique_runs (r # rs) = q # unique_runs fs" by (simp add: q_def fs_def)
  have ih: "set (map r_id (unique_runs fs)) = set (map r_id fs)" "distinct (map r_id (unique_runs fs))" "set (unique_runs fs) \<subseteq> set fs"
    using 2 unfolding fs_def by blast+
  have "set (map r_id fs) = set (map r_id rs) - {r_id r}" by (auto simp: fs_def)
  then have "set (map r_id (unique_runs (r # rs))) = set (map r_id (r # rs))" using u ih(1) q by auto
  moreover have "distinct (map r_id (unique_runs (r # rs)))" using u ih(1,2) q by (simp add: fs_def del: set_map) auto
  moreover have "set (unique_runs (r # rs)) \<subseteq> set (r # rs)" using u ih(3) q by (auto simp: fs_def)
  ultimately show ?case by blast
qed simp

lemma newest_first_set [simp]: "set (newest_first rs) = set rs"
  by (simp add: newest_first_def)

lemma newest_first_sorted: "sorted_wrt (\<lambda>a b. r_creation b \<le> r_creation a) (newest_first rs)"
proof -
  have "sorted (map (\<lambda>r. - int (r_creation r)) (newest_first rs))" by (simp add: newest_first_def)
  then show ?thesis by (simp add: sorted_map)
qed

lemma newest_first_distinct: "distinct (map r_id (newest_first rs)) = distinct (map r_id rs)"
proof -
  have "mset (map r_id (newest_first rs)) = mset (map r_id rs)" by (simp add: newest_first_def)
  then show ?thesis by (metis mset_eq_imp_distinct_iff)
qed

text \<open>
  C34 The list of runs hides no work. It holds, newest first and each once, the newest runs up to the limit, and beyond the limit every run
  that is not over and every run that holds a lock; a deleted run is never in it.
\<close>

theorem run_list_hides_no_work:
  assumes "distinct (map r_id (runs d))"
  shows "set (listed_rows d limit) = {r \<in> set (runs d). r_deleted r = None \<and>
      (r \<in> set (take limit (newest_first (filter (\<lambda>r. r_deleted r = None) (runs d)))) \<or>
       r_status r \<in> set OPEN_RUN_STATUSES \<or> r_id r \<in> set (lock_holders d))} \<and>
    distinct (map r_id (listed_rows d limit)) \<and> sorted_wrt (\<lambda>a b. r_creation b \<le> r_creation a) (listed_rows d limit)"
proof -
  define standing where "standing = filter (\<lambda>r. r_deleted r = None) (runs d)"
  define rows where "rows = take limit (newest_first standing) @ filter (\<lambda>r. r_status r \<in> set OPEN_RUN_STATUSES \<or> r_id r \<in> set (lock_holders d)) standing"
  have listed: "listed_rows d limit = newest_first (unique_runs rows)" by (simp add: listed_rows_def Let_def standing_def rows_def)
  have rows_in: "set rows \<subseteq> set (runs d)"
    using set_take_subset [of limit "newest_first standing"] by (auto simp: rows_def standing_def)
  have "set (unique_runs rows) = set rows"
  proof
    show "set (unique_runs rows) \<subseteq> set rows" using unique_runs_ids by blast
    show "set rows \<subseteq> set (unique_runs rows)"
    proof
      fix r assume r: "r \<in> set rows"
      then obtain q where q: "q \<in> set (unique_runs rows)" "r_id q = r_id r"
        using unique_runs_ids [of rows] by (metis imageE image_eqI list.set_map)
      then have "q \<in> set rows" using unique_runs_ids by blast
      then have "q = r" using q(2) r rows_in assms by (metis distinct_map inj_onD subsetD)
      then show "r \<in> set (unique_runs rows)" using q(1) by simp
    qed
  qed
  moreover have "set rows = {r \<in> set (runs d). r_deleted r = None \<and> (r \<in> set (take limit (newest_first standing)) \<or>
       r_status r \<in> set OPEN_RUN_STATUSES \<or> r_id r \<in> set (lock_holders d))}"
    using set_take_subset [of limit "newest_first standing"] by (auto simp: rows_def standing_def)
  ultimately show ?thesis
    using unique_runs_ids [of rows] newest_first_sorted unfolding listed standing_def [symmetric] by (simp add: newest_first_distinct)
qed

text \<open>A watcher is called from its subscription to its end, and no watcher of another run is touched.\<close>

lemma bus_subscription:
  "fn \<in> set (publish_to rid (subscribe rid fn subs))"
  "rid' \<noteq> rid \<Longrightarrow> publish_to rid' (subscribe rid fn subs) = publish_to rid' subs"
  "fn \<notin> set (publish_to rid (unsubscribe rid fn subs))"
  "rid' \<noteq> rid \<Longrightarrow> publish_to rid' (unsubscribe rid fn subs) = publish_to rid' subs"
  by (auto simp: publish_to_def subscribe_def unsubscribe_def Let_def map_of_map_set map_of_map_delete split: option.split)

definition toy_run :: "string \<Rightarrow> run_status \<Rightarrow> nat \<Rightarrow> run_row" where
  "toy_run rid st t = \<lparr>r_id = rid, r_kind = ''noop'', r_targetKind = ''server'', r_targetId = ''s1'', r_params = JNull, r_plan = None, r_status = st,
     r_approvedAt = None, r_startedAt = None, r_finishedAt = None, r_error = None, r_owner = ''op_1'', r_creation = t, r_deleted = None\<rparr>"

definition toy_runs :: db where
  "toy_runs = \<lparr>runs = [toy_run ''run_1'' RRunning 1, toy_run ''run_2'' RSucceeded 2, toy_run ''run_3'' RSucceeded 3], steps = [], events = [], run_locks = [],
     audit = [], inventory = \<lparr>servers = [], inv_rest = JNull\<rparr>\<rparr>"

theorem run_list_hides_no_work_witness:
  "map r_id (listed_rows toy_runs 1) = [''run_3'', ''run_1''] \<and> distinct (map r_id (listed_rows toy_runs 1))"
proof -
  have "distinct (map r_id (runs toy_runs))" by (simp add: toy_runs_def toy_run_def)
  from run_list_hides_no_work [OF this, of 1] have "distinct (map r_id (listed_rows toy_runs 1))" by blast
  moreover have "map r_id (listed_rows toy_runs 1) = [''run_3'', ''run_1'']" by code_simp
  ultimately show ?thesis by blast
qed

end
