(* ===== verification/Json_Text.thy ===== *)
theory Json_Text
  imports Texts
begin

text \<open>
  JSON texts: \<^verbatim>\<open>JSON.stringify\<close> writes different values differently, and the canonical text of \<^verbatim>\<open>shared/gates.ts\<close> (\<^verbatim>\<open>canonicalize\<close>,
  \<^verbatim>\<open>reportHashPayload\<close>) is the same for two values exactly when they hold the same content, whatever order their keys were written in.

  An object is the list of its own properties in the order they were made. Keys are compared by their bytes, which is the order of
  the UTF-16 units for every key without a character beyond the basic plane.
\<close>

section \<open>Canonical texts\<close>

text \<open>
  The order in which JavaScript lists the properties of an object: the keys that are array indices by their number, then the others as they
  were made. Assigning the key \<^verbatim>\<open>__proto__\<close> makes no property.
\<close>

definition index_key :: "string \<Rightarrow> bool" where
  "index_key k \<longleftrightarrow> k \<noteq> [] \<and> list_all is_digit k \<and> (k = ''0'' \<or> hd k \<noteq> CHR ''0'') \<and> number_of k < 2 ^ 32 - 1"

definition own_order :: "(string \<times> 'a) list \<Rightarrow> (string \<times> 'a) list" where
  "own_order kvs = sort_key (\<lambda>kv. number_of (fst kv)) (filter (\<lambda>kv. index_key (fst kv)) kvs) @ filter (\<lambda>kv. \<not> index_key (fst kv)) kvs"

definition settable :: "string \<Rightarrow> bool" where
  "settable k \<longleftrightarrow> k \<noteq> ''__proto__''"

fun canonicalize :: "json \<Rightarrow> json" where
  "canonicalize (JArr xs) = JArr (map canonicalize xs)"
| "canonicalize (JObj kvs) =
     JObj (own_order (filter (\<lambda>kv. settable (fst kv)) (sort_key fst (map (\<lambda>(k, v). (k, canonicalize v)) kvs))))"
| "canonicalize j = j"

definition reportHashPayload :: "json \<Rightarrow> string" where
  "reportHashPayload body = json_stringify (canonicalize body)"

section \<open>Content\<close>

text \<open>Objects have each key once. Two values hold the same content when their arrays agree element by element and their objects key by key.\<close>

fun unique_keys :: "json \<Rightarrow> bool" where
  "unique_keys (JArr xs) = list_all unique_keys xs"
| "unique_keys (JObj kvs) = (distinct (map fst kvs) \<and> list_all (\<lambda>(k, v). unique_keys v) kvs)"
| "unique_keys j = True"

inductive same_content :: "json \<Rightarrow> json \<Rightarrow> bool" where
  same_null: "same_content JNull JNull"
| same_bool: "same_content (JBool b) (JBool b)"
| same_num: "same_content (JNum i) (JNum i)"
| same_str: "same_content (JStr s) (JStr s)"
| same_arr: "list_all2 same_content xs ys \<Longrightarrow> same_content (JArr xs) (JArr ys)"
| same_obj: "(\<And>k. settable k \<Longrightarrow> rel_option same_content (map_of kvs k) (map_of kvs' k)) \<Longrightarrow> same_content (JObj kvs) (JObj kvs')"
  monos list.rel_mono_strong option.rel_mono_strong

inductive_simps same_atom_simps: "same_content JNull j" "same_content (JBool b) j" "same_content (JNum i) j" "same_content (JStr s) j"
inductive_simps same_arr_simp: "same_content (JArr xs) j"
inductive_simps same_obj_simp: "same_content (JObj kvs) j"

section \<open>Texts differ where values do\<close>

text \<open>What may follow a value inside a text.\<close>

definition stops :: "string \<Rightarrow> bool" where
  "stops r \<longleftrightarrow> r = [] \<or> hd r = CHR '','' \<or> hd r = CHR '']'' \<or> hd r = CHR ''}''"

lemma hex_digit_code: "n < 16 \<Longrightarrow> (of_char (hex_digit n) :: nat) = (if n < 10 then 48 + n else 87 + n)"
  by (cases "n < 10") (simp_all add: hex_digit_def of_char_of)

lemma hex_digit_inject:
  assumes "a < 16" "b < 16" "hex_digit a = hex_digit b"
  shows "a = b"
proof -
  have "(if a < 10 then 48 + a else 87 + a) = (if b < 10 then 48 + b else 87 + b)"
    using assms hex_digit_code [of a] hex_digit_code [of b] by simp
  then show ?thesis using assms(1,2) by (simp split: if_splits)
qed

lemma escape_control:
  assumes "(of_char c :: nat) < 32" "(of_char d :: nat) < 32"
    and "hex_digit (of_char c div 16) = hex_digit (of_char d div 16)" "hex_digit (of_char c mod 16) = hex_digit (of_char d mod 16)"
  shows "c = d"
proof -
  have "(of_char c :: nat) div 16 = of_char d div 16" "(of_char c :: nat) mod 16 = of_char d mod 16"
    using assms hex_digit_inject by (simp_all add: div_less_iff_less_mult)
  then have "(of_char c :: nat) = of_char d" by (metis div_mod_decomp)
  then show ?thesis by simp
qed

definition short_escapes :: "(char \<times> char) list" where
  "short_escapes = [(CHR 0x22, CHR 0x22), (CHR 0x5C, CHR 0x5C), (CHR 0x0A, CHR ''n''), (CHR 0x0D, CHR ''r''), (CHR 0x09, CHR ''t''),
     (CHR 0x08, CHR ''b''), (CHR 0x0C, CHR ''f'')]"

lemma escape_cases:
  obtains (short) e where "(c, e) \<in> set short_escapes" "json_escape_char c = [CHR 0x5C, e]"
  | (control) "(of_char c :: nat) < 32" "json_escape_char c = CHR 0x5C # ''u00'' @ [hex_digit (of_char c div 16), hex_digit (of_char c mod 16)]"
  | (plain) "c \<noteq> CHR 0x22" "c \<noteq> CHR 0x5C" "json_escape_char c = [c]"
proof (cases "c \<in> fst ` set short_escapes")
  case True
  then have "c = CHR 0x22 \<or> c = CHR 0x5C \<or> c = CHR 0x0A \<or> c = CHR 0x0D \<or> c = CHR 0x09 \<or> c = CHR 0x08 \<or> c = CHR 0x0C"
    by (simp add: short_escapes_def)
  then show thesis by (elim disjE) (rule short, simp_all add: short_escapes_def json_escape_char_def)+
next
  case False
  then have "json_escape_char c = (if (of_char c :: nat) < 32 then CHR 0x5C # ''u00'' @ [hex_digit (of_char c div 16), hex_digit (of_char c mod 16)] else [c])"
    by (simp add: short_escapes_def json_escape_char_def)
  then show thesis using control plain False by (cases "(of_char c :: nat) < 32") (simp_all add: short_escapes_def)
qed

lemma short_escapes_inject: "(c, e) \<in> set short_escapes \<Longrightarrow> (d, e) \<in> set short_escapes \<Longrightarrow> c = d"
  by (auto simp: short_escapes_def)

lemma short_escapes_no_u: "(c, CHR ''u'') \<notin> set short_escapes"
  by (simp add: short_escapes_def)

lemma escape_no_quote: "hd (json_escape_char c) \<noteq> CHR 0x22 \<and> json_escape_char c \<noteq> []"
  by (cases rule: escape_cases [of c]) auto

lemma escape_prefix_free: "json_escape_char c @ x = json_escape_char d @ y \<Longrightarrow> c = d \<and> x = y"
  by (cases rule: escape_cases [of c]; cases rule: escape_cases [of d])
     (auto simp: short_escapes_no_u intro: short_escapes_inject escape_control)

lemma quote_prefix_free: "json_quote s @ x = json_quote t @ y \<Longrightarrow> s = t \<and> x = y"
proof -
  have no_quote: "json_escape_char c @ u \<noteq> CHR 0x22 # v" "CHR 0x22 # v \<noteq> json_escape_char c @ u" for c u v
    using escape_no_quote [of c] by (metis hd_append2 list.sel(1))+
  have "concat (map json_escape_char s) @ CHR 0x22 # x = concat (map json_escape_char t) @ CHR 0x22 # y \<Longrightarrow> s = t \<and> x = y"
  proof (induction s arbitrary: t)
    case Nil
    then show ?case using no_quote by (cases t) auto
  next
    case (Cons c s)
    show ?case
    proof (cases t)
      case t: Nil
      show ?thesis using Cons.prems no_quote by (simp add: t)
    next
      case t: (Cons d t')
      have "json_escape_char c @ concat (map json_escape_char s) @ CHR 0x22 # x = json_escape_char d @ concat (map json_escape_char t') @ CHR 0x22 # y"
        using Cons.prems by (simp add: t)
      then show ?thesis using escape_prefix_free Cons.IH [of t'] t by blast
    qed
  qed
  then show "json_quote s @ x = json_quote t @ y \<Longrightarrow> s = t \<and> x = y" by (simp add: json_quote_def)
qed

lemma show_nat_digit_list: "list_all is_digit (show_nat n) \<and> show_nat n \<noteq> []"
proof (induction n rule: show_nat.induct)
  case (1 n)
  show ?case
  proof (cases "n < 10")
    case True
    then show ?thesis using digit_char [of n] by (simp add: show_nat_small)
  next
    case False
    then show ?thesis using 1 digit_char [of "n mod 10"] by (simp add: show_nat_large)
  qed
qed

lemma stops_no_digit: "stops r \<Longrightarrow> takeWhile is_digit r = []"
  by (cases r) (auto simp: stops_def is_digit_def less_eq_char_def)

lemma digits_prefix_free:
  assumes "list_all is_digit a" "list_all is_digit b" "stops r" "stops s" "a @ r = b @ s"
  shows "a = b \<and> r = s"
proof -
  have taken: "takeWhile is_digit (xs @ t) = xs" if "list_all is_digit xs" "stops t" for xs t
    using that stops_no_digit [of t] by (induction xs) simp_all
  have "a = b" using taken [OF assms(1,3)] taken [OF assms(2,4)] assms(5) by simp
  then show ?thesis using assms(5) by simp
qed

lemma show_nat_prefix_free:
  assumes "stops r" "stops s" "show_nat a @ r = show_nat b @ s"
  shows "a = b \<and> r = s"
proof -
  have "show_nat a = show_nat b \<and> r = s" using digits_prefix_free [OF _ _ assms] show_nat_digit_list by blast
  then show ?thesis by (metis number_of_show)
qed

lemma show_nat_head: "is_digit (hd (show_nat n @ r))"
  using show_nat_digit_list [of n] by (cases "show_nat n") auto

lemma minus_no_digit: "\<not> is_digit CHR ''-''"
  by (simp add: is_digit_def less_eq_char_def)

lemma show_int_prefix_free:
  assumes "stops r" "stops s" "show_int i @ r = show_int j @ s"
  shows "i = j \<and> r = s"
proof -
  have "i < 0 \<longleftrightarrow> j < 0"
    using assms(3) show_nat_head [of "nat i" r] show_nat_head [of "nat j" s] minus_no_digit
    by (metis append_Cons list.sel(1) show_int_def)
  then show ?thesis
    using assms(3) show_nat_prefix_free [OF assms(1,2), of "nat (- i)" "nat (- j)"] show_nat_prefix_free [OF assms(1,2), of "nat i" "nat j"]
    by (cases "i < 0") (auto simp: show_int_def)
qed

text \<open>The first character tells what kind of value a text is.\<close>

fun kind_of :: "json \<Rightarrow> nat" where
  "kind_of JNull = 0"
| "kind_of (JBool b) = (if b then 1 else 2)"
| "kind_of (JNum i) = 3"
| "kind_of (JStr s) = 4"
| "kind_of (JArr xs) = 5"
| "kind_of (JObj kvs) = 6"

definition first_kind :: "string \<Rightarrow> nat" where
  "first_kind s = (let c = hd s in if c = CHR ''n'' then 0 else if c = CHR ''t'' then 1 else if c = CHR ''f'' then 2
     else if c = CHR 0x22 then 4 else if c = CHR ''['' then 5 else if c = CHR ''{'' then 6 else 3)"

lemma first_kind_digit: "is_digit c \<or> c = CHR ''-'' \<Longrightarrow> first_kind (c # r) = 3"
  by (auto simp: first_kind_def is_digit_def less_eq_char_def)

lemma stringify_kind: "first_kind (json_stringify j @ r) = kind_of j"
proof (cases j)
  case (JNum i)
  have "is_digit (hd (show_int i)) \<or> hd (show_int i) = CHR ''-''" "show_int i \<noteq> []"
    using show_nat_head [of "nat i" "[]"] show_nat_digit_list by (simp_all add: show_int_def)
  then show ?thesis using first_kind_digit [of "hd (show_int i)" "tl (show_int i) @ r"] by (simp add: JNum) (metis append_Cons list.collapse)
qed (simp_all add: first_kind_def json_quote_def Let_def)

text \<open>A list of items, each followed by a comma or by the closing bracket.\<close>

lemma join_tail:
  "join '','' (map f (x # xs)) @ c # r = f x @ (if xs = [] then c # r else CHR '','' # join '','' (map f xs) @ c # r)"
  by (cases xs) simp_all

lemma joined_prefix_free:
  assumes item: "\<And>x y r s. x \<in> set xs \<Longrightarrow> stops r \<Longrightarrow> stops s \<Longrightarrow> f x @ r = f y @ s \<Longrightarrow> x = y \<and> r = s"
    and opens: "\<And>x r. \<not> stops (f x @ r)"
    and close: "c = CHR '']'' \<or> c = CHR ''}''"
    and eq: "join '','' (map f xs) @ c # r = join '','' (map f ys) @ c # s"
  shows "xs = ys \<and> r = s"
  using item eq
proof (induction xs arbitrary: ys)
  case Nil
  have "ys = []"
  proof (rule ccontr)
    assume "ys \<noteq> []"
    then obtain y ys' where "ys = y # ys'" by (cases ys) auto
    then have "c # r = f y @ (if ys' = [] then c # s else CHR '','' # join '','' (map f ys') @ c # s)" using Nil(2) join_tail [of f y ys' c s] by simp
    then show False using opens close by (metis list.sel(1) stops_def)
  qed
  then show ?case using Nil by simp
next
  case (Cons x xs)
  let ?t = "if xs = [] then c # r else CHR '','' # join '','' (map f xs) @ c # r"
  have eq: "f x @ ?t = join '','' (map f ys) @ c # s" using Cons(3) join_tail [of f x xs c r] by simp
  have "ys \<noteq> []" using eq opens close by (metis append_Nil join.simps(1) list.sel(1) list.simps(8) stops_def)
  then obtain y ys' where ys: "ys = y # ys'" by (cases ys) auto
  let ?u = "if ys' = [] then c # s else CHR '','' # join '','' (map f ys') @ c # s"
  have "f x @ ?t = f y @ ?u" using eq join_tail [of f y ys' c s] by (simp add: ys)
  moreover have "stops ?t" "stops ?u" using close by (auto simp: stops_def)
  ultimately have "x = y \<and> ?t = ?u" by (intro Cons(2)) simp_all
  then have xy: "x = y" and tu: "?t = ?u" by blast+
  show ?case
  proof (cases "xs = [] \<or> ys' = []")
    case True
    then show ?thesis using tu xy ys close by (auto split: if_splits)
  next
    case False
    then have "join '','' (map f xs) @ c # r = join '','' (map f ys') @ c # s" using tu by simp
    then show ?thesis using Cons.IH [of ys'] Cons(2) xy ys by (metis list.set_intros(2))
  qed
qed

lemma stringify_opens: "\<not> stops (json_stringify j @ r)"
proof
  assume st: "stops (json_stringify j @ r)"
  have "json_stringify j \<noteq> []" using show_nat_digit_list by (cases j) (simp_all add: json_quote_def show_int_def)
  then have "first_kind (json_stringify j @ r) = 3" using st by (auto simp: stops_def first_kind_def)
  then obtain i where "j = JNum i" using stringify_kind [of j r] by (cases j) (auto split: if_splits)
  then show False using st show_nat_digit_list [of "nat i"]
    by (cases "i < 0"; cases "show_nat (nat i)") (auto simp: stops_def show_int_def is_digit_def less_eq_char_def)
qed

lemma same_kind: "json_stringify a @ r = json_stringify b @ s \<Longrightarrow> kind_of b = kind_of a"
  using stringify_kind [of a r] stringify_kind [of b s] by simp

lemma stringify_prefix_free: "stops r \<Longrightarrow> stops s \<Longrightarrow> json_stringify a @ r = json_stringify b @ s \<Longrightarrow> a = b \<and> r = s"
proof (induction a arbitrary: b r s)
  case JNull
  have "b = JNull" using same_kind [OF JNull(3)] by (cases b) (simp_all split: if_splits)
  then show ?case using JNull by simp
next
  case (JBool x)
  have "b = JBool x" using same_kind [OF JBool(3)] by (cases b; cases x) (simp_all split: if_splits)
  then show ?case using JBool by simp
next
  case (JNum i)
  obtain j where "b = JNum j" using same_kind [OF JNum(3)] by (cases b) (simp_all split: if_splits)
  then show ?case using JNum(3) show_int_prefix_free [OF JNum(1,2), of i j] by simp
next
  case (JStr x)
  obtain y where "b = JStr y" using same_kind [OF JStr(3)] by (cases b) (simp_all split: if_splits)
  then show ?case using JStr(3) quote_prefix_free [of x r y s] by simp
next
  case (JArr xs)
  obtain ys where b: "b = JArr ys" using same_kind [OF JArr(4)] by (cases b) (simp_all split: if_splits)
  have "xs = ys \<and> r = s"
    by (rule joined_prefix_free [of xs json_stringify "CHR '']''"]) (use JArr b stringify_opens in auto)
  then show ?case by (simp add: b)
next
  case (JObj kvs)
  let ?f = "\<lambda>(k, v). json_quote k @ '':'' @ json_stringify v"
  obtain kvs' where b: "b = JObj kvs'" using same_kind [OF JObj(4)] by (cases b) (simp_all split: if_splits)
  have "kvs = kvs' \<and> r = s"
  proof (rule joined_prefix_free [of kvs ?f "CHR ''}''"])
    fix x y :: "string \<times> json" and r s
    assume x: "x \<in> set kvs" "stops r" "stops s" "?f x @ r = ?f y @ s"
    obtain k v k' v' where xy: "x = (k, v)" "y = (k', v')" by (cases x, cases y)
    have "json_quote k @ '':'' @ json_stringify v @ r = json_quote k' @ '':'' @ json_stringify v' @ s" using x(4) xy by simp
    from quote_prefix_free [OF this] have "k = k'" "json_stringify v @ r = json_stringify v' @ s" by simp_all
    then show "x = y \<and> r = s" using JObj(1) [of x v r s v'] x xy by auto
  next
    show "\<not> stops (?f x @ r)" for x r by (cases x) (simp add: json_quote_def stops_def)
  next
    show "join '','' (map ?f kvs) @ CHR ''}'' # r = join '','' (map ?f kvs') @ CHR ''}'' # s" using JObj(4) by (simp add: b)
  qed simp
  then show ?case by (simp add: b)
qed

lemma json_stringify_inject: "json_stringify a = json_stringify b \<longleftrightarrow> a = b"
  using stringify_prefix_free [of "[]" "[]" a b] by (auto simp: stops_def)

section \<open>The canonical text\<close>

lemma own_order_set: "set (own_order kvs) = set kvs"
  by (auto simp: own_order_def)

lemma map_of_set: "distinct (map fst xs) \<Longrightarrow> distinct (map fst ys) \<Longrightarrow> map_of xs = map_of ys \<longleftrightarrow> set xs = set ys"
  by (metis map_of_eqI map_of_inject_set set_map_of_compr)

lemma sorted_by_content:
  assumes "distinct (map fst xs)" "distinct (map fst ys)" "set xs = set ys"
  shows "sort_key fst xs = sort_key fst ys"
proof (rule sort_key_inj_key_eq)
  show "mset xs = mset (sort_key fst ys)" using assms by (simp add: set_eq_iff_mset_eq_distinct [symmetric] distinct_map)
  show "inj_on fst (set xs)" using assms(1) by (simp add: distinct_map)
qed simp

definition canon_object :: "(string \<times> json) list \<Rightarrow> (string \<times> json) list" where
  "canon_object kvs = own_order (filter (\<lambda>kv. settable (fst kv)) (sort_key fst kvs))"

lemma map_of_filter_fst: "map_of (filter (\<lambda>kv. P (fst kv)) xs) k = (if P k then map_of xs k else None)"
  by (induction xs) auto

lemma canon_object_eq:
  assumes "distinct (map fst xs)" "distinct (map fst ys)"
  shows "canon_object xs = canon_object ys \<longleftrightarrow> (\<forall>k. settable k \<longrightarrow> map_of xs k = map_of ys k)"
proof -
  let ?s = "filter (\<lambda>kv :: string \<times> json. settable (fst kv))"
  have ind: "canon_object zs = own_order (sort_key fst (?s zs))" for zs by (simp add: canon_object_def filter_sort)
  have d: "distinct (map fst (?s xs))" "distinct (map fst (?s ys))" using assms by (simp_all add: distinct_map_filter)
  have "canon_object xs = canon_object ys \<longleftrightarrow> set (?s xs) = set (?s ys)"
    using sorted_by_content [OF d] own_order_set by (metis ind set_sort)
  also have "\<dots> \<longleftrightarrow> map_of (?s xs) = map_of (?s ys)" using map_of_set [OF d] by simp
  also have "\<dots> \<longleftrightarrow> (\<forall>k. settable k \<longrightarrow> map_of xs k = map_of ys k)"
    by (auto simp: fun_eq_iff map_of_filter_fst)
  finally show ?thesis .
qed

lemma canonicalize_same: "unique_keys a \<Longrightarrow> unique_keys b \<Longrightarrow> canonicalize a = canonicalize b \<longleftrightarrow> same_content a b"
proof (induction a arbitrary: b)
  case (JArr xs)
  show ?case
  proof (cases b)
    case b: (JArr ys)
    have "map canonicalize xs = map canonicalize ys \<longleftrightarrow> list_all2 same_content xs ys"
      unfolding list.rel_eq [symmetric] list.rel_map by (rule list.rel_cong) (use JArr b in \<open>auto simp: list_all_iff\<close>)
    then show ?thesis by (simp add: b same_arr_simp)
  qed (auto simp: same_arr_simp)
next
  case (JObj kvs)
  show ?case
  proof (cases b)
    case b: (JObj kvs')
    let ?m = "map (\<lambda>(k, v). (k, canonicalize v))"
    have keys: "map fst (?m xs) = map fst xs" for xs by (induction xs) auto
    have "distinct (map fst (?m kvs))" "distinct (map fst (?m kvs'))" unfolding keys using JObj.prems b by simp_all
    from canon_object_eq [OF this] have "canon_object (?m kvs) = canon_object (?m kvs') \<longleftrightarrow>
        (\<forall>k. settable k \<longrightarrow> map_option canonicalize (map_of kvs k) = map_option canonicalize (map_of kvs' k))"
      by (simp add: map_of_map)
    also have "\<dots> \<longleftrightarrow> (\<forall>k. settable k \<longrightarrow> rel_option same_content (map_of kvs k) (map_of kvs' k))"
    proof (intro all_cong1 imp_cong refl)
      fix k
      have "canonicalize u = canonicalize v \<longleftrightarrow> same_content u v" if "map_of kvs k = Some u" "map_of kvs' k = Some v" for u v
        using JObj.IH [of "(k, u)" u v] JObj.prems b map_of_SomeD [OF that(1)] map_of_SomeD [OF that(2)] by (auto simp: list_all_iff)
      then show "map_option canonicalize (map_of kvs k) = map_option canonicalize (map_of kvs' k) \<longleftrightarrow> rel_option same_content (map_of kvs k) (map_of kvs' k)"
        by (cases "map_of kvs k"; cases "map_of kvs' k") auto
    qed
    finally show ?thesis by (simp add: b same_obj_simp canon_object_def)
  qed (auto simp: same_obj_simp)
next
  case JNull
  show ?case by (cases b) (simp_all add: same_atom_simps)
next
  case (JBool x)
  show ?case by (cases b) (auto simp: same_atom_simps)
next
  case (JNum i)
  show ?case by (cases b) (auto simp: same_atom_simps)
next
  case (JStr x)
  show ?case by (cases b) (auto simp: same_atom_simps)
qed



end
