(* ===== verification/Gate_Report.thy ===== *)
theory Gate_Report
  imports Json_Text Results "HOL-Library.Monad_Syntax"
begin

text \<open>
  The report of a validation (\<^verbatim>\<open>shared/gates.ts\<close>): the results of the gates, the attestation of the sandbox's fence, the schema a report has to hold
  on both sides of the sandbox, and the canonical text its hash is taken over.

  A report crosses from the runner to the Manager as JSON. \<open>parse_report\<close> is the schema on that JSON, which drops the keys it does not know; the
  schema of the manifest inside the report is a parameter, since a report only carries it.
\<close>

section \<open>Results and attestations\<close>

datatype gate_severity = SevHard | SevSoft

datatype gate_status = GPass | GWarn | GFail

datatype evidence_source = FromRepo | FromRendered | FromRunner | FromManager

record gate_evidence =
  ev_source :: evidence_source
  ev_file :: "string option"
  ev_docIndex :: "int option"
  ev_kind :: "string option"
  ev_name :: "string option"
  ev_fieldPath :: "string option"
  ev_value :: "string option"

record gate_outcome =
  gt_id :: string
  gt_title :: string
  gt_severity :: gate_severity
  gt_status :: gate_status
  gt_expected :: string
  gt_found :: string
  gt_reason :: "string option"
  gt_evidence :: "gate_evidence list option"
  gt_detail :: string
  gt_hint :: "string option"

record sandbox_attestation =
  sa_mustFailTargets :: "string list"
  sa_declaredListening :: bool
  sa_mustFailDenied :: bool
  sa_managerAddrDenied :: bool
  sa_mustPassReached :: bool

record resolved_dependency =
  rd_name :: string
  rd_version :: string
  rd_digest :: string

datatype verdict = VPass | VFail

record gate_report =
  gr_runnerVersion :: string
  gr_repoURL :: string
  gr_requestedRef :: string
  gr_resolvedSha :: string
  gr_startedAt :: int
  gr_finishedAt :: int
  gr_manifest :: "json option"
  gr_dependencies :: "resolved_dependency list"
  gr_gates :: "gate_outcome list"
  gr_sandbox :: sandbox_attestation
  gr_verdict :: verdict
  gr_reportHash :: string

definition TEXT_MAX :: nat where
  "TEXT_MAX = 2000"

text \<open>The length of a JavaScript string, in UTF-16 units, read off its UTF-8 bytes.\<close>

definition js_units :: "char \<Rightarrow> nat" where
  "js_units c = (let b = of_char c :: nat in if 128 \<le> b \<and> b < 192 then 0 else if 240 \<le> b then 2 else 1)"

definition js_length :: "string \<Rightarrow> nat" where
  "js_length s = sum_list (map js_units s)"

text \<open>\<^verbatim>\<open>s.slice(0, n)\<close> counts UTF-16 units; one that would cut a surrogate pair in two drops the pair.\<close>

fun js_take :: "nat \<Rightarrow> string \<Rightarrow> string" where
  "js_take n [] = []"
| "js_take n (c # cs) = (if js_units c \<le> n then c # js_take (n - js_units c) cs else [])"

definition gate_id_ok :: "string \<Rightarrow> bool" where
  "gate_id_ok s \<longleftrightarrow> s \<noteq> [] \<and> (hd s = CHR ''G'' \<or> hd s = CHR ''T'') \<and> (digits 1 (tl s) \<or> digits 2 (tl s))"

definition sha_char :: "char \<Rightarrow> bool" where
  "sha_char c \<longleftrightarrow> is_digit c \<or> (CHR ''a'' \<le> c \<and> c \<le> CHR ''f'')"

definition sha_ok :: "string \<Rightarrow> bool" where
  "sha_ok s \<longleftrightarrow> length s = 40 \<and> list_all sha_char s"

definition evidence_ok :: "gate_evidence \<Rightarrow> bool" where
  "evidence_ok e \<longleftrightarrow> (case ev_value e of None \<Rightarrow> True | Some v \<Rightarrow> js_length v \<le> 256)"

definition gate_ok :: "gate_outcome \<Rightarrow> bool" where
  "gate_ok g \<longleftrightarrow>
     gate_id_ok (gt_id g) \<and> js_length (gt_expected g) \<le> TEXT_MAX \<and> js_length (gt_found g) \<le> TEXT_MAX \<and>
     (case gt_reason g of None \<Rightarrow> True | Some r \<Rightarrow> js_length r \<le> TEXT_MAX) \<and>
     (case gt_evidence g of None \<Rightarrow> True | Some es \<Rightarrow> length es \<le> 20 \<and> list_all evidence_ok es) \<and>
     ((gt_status g = GPass) = (gt_reason g = None))"

section \<open>Reports as JSON\<close>

text \<open>An optional field that is absent is no key of the object.\<close>

definition opt_field :: "string \<Rightarrow> ('a \<Rightarrow> json) \<Rightarrow> 'a option \<Rightarrow> (string \<times> json) list" where
  "opt_field k f x = (case x of None \<Rightarrow> [] | Some v \<Rightarrow> [(k, f v)])"

fun source_text :: "evidence_source \<Rightarrow> string" where
  "source_text FromRepo = ''repo''"
| "source_text FromRendered = ''rendered''"
| "source_text FromRunner = ''runner''"
| "source_text FromManager = ''manager''"

fun severity_text :: "gate_severity \<Rightarrow> string" where
  "severity_text SevHard = ''hard''"
| "severity_text SevSoft = ''soft''"

fun status_text :: "gate_status \<Rightarrow> string" where
  "status_text GPass = ''pass''"
| "status_text GWarn = ''warn''"
| "status_text GFail = ''fail''"

fun verdict_text :: "verdict \<Rightarrow> string" where
  "verdict_text VPass = ''pass''"
| "verdict_text VFail = ''fail''"

definition evidence_json :: "gate_evidence \<Rightarrow> json" where
  "evidence_json e = JObj ([(''source'', JStr (source_text (ev_source e)))] @ opt_field ''file'' JStr (ev_file e) @ opt_field ''docIndex'' JNum (ev_docIndex e) @
     opt_field ''kind'' JStr (ev_kind e) @ opt_field ''name'' JStr (ev_name e) @ opt_field ''fieldPath'' JStr (ev_fieldPath e) @ opt_field ''value'' JStr (ev_value e))"

definition gate_json :: "gate_outcome \<Rightarrow> json" where
  "gate_json g = JObj ([(''id'', JStr (gt_id g)), (''title'', JStr (gt_title g)), (''severity'', JStr (severity_text (gt_severity g))),
     (''status'', JStr (status_text (gt_status g))), (''expected'', JStr (gt_expected g)), (''found'', JStr (gt_found g)),
     (''reason'', (case gt_reason g of None \<Rightarrow> JNull | Some r \<Rightarrow> JStr r)), (''detail'', JStr (gt_detail g))] @
     opt_field ''evidence'' (\<lambda>es. JArr (map evidence_json es)) (gt_evidence g) @ opt_field ''hint'' JStr (gt_hint g))"

definition sandbox_json :: "sandbox_attestation \<Rightarrow> json" where
  "sandbox_json s = JObj [(''mustFailTargets'', JArr (map JStr (sa_mustFailTargets s))), (''mustFailTargetsDeclaredListening'', JBool (sa_declaredListening s)),
     (''mustFailDenied'', JBool (sa_mustFailDenied s)), (''managerAddrDenied'', JBool (sa_managerAddrDenied s)), (''mustPassReached'', JBool (sa_mustPassReached s))]"

definition dependency_json :: "resolved_dependency \<Rightarrow> json" where
  "dependency_json d = JObj [(''name'', JStr (rd_name d)), (''version'', JStr (rd_version d)), (''digest'', JStr (rd_digest d))]"

definition contract_version :: string where
  "contract_version = ''1.5''"

definition report_body :: "gate_report \<Rightarrow> (string \<times> json) list" where
  "report_body r = [(''contractVersion'', JStr contract_version), (''runnerVersion'', JStr (gr_runnerVersion r)), (''repoURL'', JStr (gr_repoURL r)),
     (''requestedRef'', JStr (gr_requestedRef r)), (''resolvedSha'', JStr (gr_resolvedSha r)), (''startedAt'', JNum (gr_startedAt r)),
     (''finishedAt'', JNum (gr_finishedAt r)), (''manifest'', (case gr_manifest r of None \<Rightarrow> JNull | Some m \<Rightarrow> m)),
     (''dependencies'', JArr (map dependency_json (gr_dependencies r))), (''gates'', JArr (map gate_json (gr_gates r))),
     (''sandbox'', sandbox_json (gr_sandbox r)), (''verdict'', JStr (verdict_text (gr_verdict r)))]"

definition report_json :: "gate_report \<Rightarrow> json" where
  "report_json r = JObj (report_body r @ [(''reportHash'', JStr (gr_reportHash r))])"

text \<open>The schema on a JSON value: what it reads, or nothing where the value does not hold it.\<close>

fun as_str :: "json \<Rightarrow> string option" where
  "as_str (JStr s) = Some s"
| "as_str j = None"

fun as_num :: "json \<Rightarrow> int option" where
  "as_num (JNum i) = Some i"
| "as_num j = None"

fun as_bool :: "json \<Rightarrow> bool option" where
  "as_bool (JBool b) = Some b"
| "as_bool j = None"

fun read_list :: "(json \<Rightarrow> 'a option) \<Rightarrow> json \<Rightarrow> 'a list option" where
  "read_list f (JArr xs) = those (map f xs)"
| "read_list f j = None"

fun as_object :: "((string \<times> json) list \<Rightarrow> 'a option) \<Rightarrow> json \<Rightarrow> 'a option" where
  "as_object f (JObj kvs) = f kvs"
| "as_object f j = None"

fun nullable :: "(json \<Rightarrow> 'a option) \<Rightarrow> json \<Rightarrow> 'a option option" where
  "nullable f JNull = Some None"
| "nullable f j = map_option Some (f j)"

definition required :: "string \<Rightarrow> (json \<Rightarrow> 'a option) \<Rightarrow> (string \<times> json) list \<Rightarrow> 'a option" where
  "required k f kvs = Option.bind (map_of kvs k) f"

definition optional :: "string \<Rightarrow> (json \<Rightarrow> 'a option) \<Rightarrow> (string \<times> json) list \<Rightarrow> 'a option option" where
  "optional k f kvs = (case map_of kvs k of None \<Rightarrow> Some None | Some v \<Rightarrow> map_option Some (f v))"

definition as_enum :: "('a \<Rightarrow> string) \<Rightarrow> 'a list \<Rightarrow> json \<Rightarrow> 'a option" where
  "as_enum show xs j = (case j of JStr s \<Rightarrow> List.find (\<lambda>x. show x = s) xs | _ \<Rightarrow> None)"

definition checked :: "('a \<Rightarrow> bool) \<Rightarrow> 'a \<Rightarrow> 'a option" where
  "checked P x = (if P x then Some x else None)"

definition read_source :: "json \<Rightarrow> evidence_source option" where
  "read_source = as_enum source_text [FromRepo, FromRendered, FromRunner, FromManager]"

definition GateEvidenceSchema :: "json \<Rightarrow> gate_evidence option" where
  "GateEvidenceSchema = as_object (\<lambda>kvs. do {
     source \<leftarrow> required ''source'' read_source kvs;
     file \<leftarrow> optional ''file'' as_str kvs;
     docIndex \<leftarrow> optional ''docIndex'' as_num kvs;
     kind \<leftarrow> optional ''kind'' as_str kvs;
     name \<leftarrow> optional ''name'' as_str kvs;
     fieldPath \<leftarrow> optional ''fieldPath'' as_str kvs;
     val \<leftarrow> optional ''value'' as_str kvs;
     checked evidence_ok \<lparr>ev_source = source, ev_file = file, ev_docIndex = docIndex, ev_kind = kind, ev_name = name, ev_fieldPath = fieldPath, ev_value = val\<rparr>
   })"

definition GateResultSchema :: "json \<Rightarrow> gate_outcome option" where
  "GateResultSchema = as_object (\<lambda>kvs. do {
     gid \<leftarrow> required ''id'' as_str kvs;
     title \<leftarrow> required ''title'' as_str kvs;
     severity \<leftarrow> required ''severity'' (as_enum severity_text [SevHard, SevSoft]) kvs;
     status \<leftarrow> required ''status'' (as_enum status_text [GPass, GWarn, GFail]) kvs;
     expected \<leftarrow> required ''expected'' as_str kvs;
     found \<leftarrow> required ''found'' as_str kvs;
     reason \<leftarrow> required ''reason'' (nullable as_str) kvs;
     evidence \<leftarrow> optional ''evidence'' (read_list GateEvidenceSchema) kvs;
     detail \<leftarrow> required ''detail'' as_str kvs;
     hint \<leftarrow> optional ''hint'' as_str kvs;
     checked gate_ok \<lparr>gt_id = gid, gt_title = title, gt_severity = severity, gt_status = status, gt_expected = expected, gt_found = found,
       gt_reason = reason, gt_evidence = evidence, gt_detail = detail, gt_hint = hint\<rparr>
   })"

definition SandboxAttestationSchema :: "json \<Rightarrow> sandbox_attestation option" where
  "SandboxAttestationSchema = as_object (\<lambda>kvs. do {
     targets \<leftarrow> required ''mustFailTargets'' (read_list as_str) kvs;
     declared \<leftarrow> required ''mustFailTargetsDeclaredListening'' as_bool kvs;
     denied \<leftarrow> required ''mustFailDenied'' as_bool kvs;
     manager \<leftarrow> required ''managerAddrDenied'' as_bool kvs;
     reached \<leftarrow> required ''mustPassReached'' as_bool kvs;
     Some \<lparr>sa_mustFailTargets = targets, sa_declaredListening = declared, sa_mustFailDenied = denied, sa_managerAddrDenied = manager, sa_mustPassReached = reached\<rparr>
   })"

definition ResolvedDependencySchema :: "json \<Rightarrow> resolved_dependency option" where
  "ResolvedDependencySchema = as_object (\<lambda>kvs. do {
     name \<leftarrow> required ''name'' as_str kvs;
     version \<leftarrow> required ''version'' as_str kvs;
     digest \<leftarrow> required ''digest'' as_str kvs;
     Some \<lparr>rd_name = name, rd_version = version, rd_digest = digest\<rparr>
   })"

definition GateReportSchema :: "(json \<Rightarrow> json option) \<Rightarrow> json \<Rightarrow> gate_report option" where
  "GateReportSchema manifestSchema = as_object (\<lambda>kvs. do {
     contract \<leftarrow> required ''contractVersion'' (as_enum (\<lambda>_. contract_version) [()]) kvs;
     runner \<leftarrow> required ''runnerVersion'' as_str kvs;
     url \<leftarrow> required ''repoURL'' as_str kvs;
     ref \<leftarrow> required ''requestedRef'' as_str kvs;
     sha \<leftarrow> Option.bind (required ''resolvedSha'' as_str kvs) (checked sha_ok);
     started \<leftarrow> required ''startedAt'' as_num kvs;
     finished \<leftarrow> required ''finishedAt'' as_num kvs;
     manifest \<leftarrow> required ''manifest'' (nullable manifestSchema) kvs;
     dependencies \<leftarrow> required ''dependencies'' (read_list ResolvedDependencySchema) kvs;
     gates \<leftarrow> required ''gates'' (read_list GateResultSchema) kvs;
     sandbox \<leftarrow> required ''sandbox'' SandboxAttestationSchema kvs;
     verdict \<leftarrow> required ''verdict'' (as_enum verdict_text [VPass, VFail]) kvs;
     hash \<leftarrow> required ''reportHash'' as_str kvs;
     Some \<lparr>gr_runnerVersion = runner, gr_repoURL = url, gr_requestedRef = ref, gr_resolvedSha = sha, gr_startedAt = started, gr_finishedAt = finished,
       gr_manifest = manifest, gr_dependencies = dependencies, gr_gates = gates, gr_sandbox = sandbox, gr_verdict = verdict, gr_reportHash = hash\<rparr>
   })"

section \<open>The legs of a verdict\<close>

definition hardGatesPass :: "gate_outcome list \<Rightarrow> bool" where
  "hardGatesPass gates = list_all (\<lambda>g. gt_severity g \<noteq> SevHard \<or> gt_status g = GPass) gates"

definition SANDBOX_FENCE_GATE_ID :: string where
  "SANDBOX_FENCE_GATE_ID = ''G25''"

definition SANDBOX_SIDE_GATE_IDS :: "string list" where
  "SANDBOX_SIDE_GATE_IDS = [SANDBOX_FENCE_GATE_ID]"

definition sandboxGreen :: "sandbox_attestation \<Rightarrow> bool" where
  "sandboxGreen s \<longleftrightarrow> sa_declaredListening s \<and> sa_mustFailDenied s \<and> sa_managerAddrDenied s \<and> sa_mustPassReached s"

definition sandboxProvenance :: "sandbox_attestation \<Rightarrow> string" where
  "sandboxProvenance s =
     (let probed = ''measured by the runner from inside the sandbox: the must-fail targets denied, the Manager's own address denied, the one allowed egress reached'';
          declared = (if sa_mustFailTargets s \<noteq> [] then join '', '' (sa_mustFailTargets s) else ''(none configured)'')
      in ''the sandbox fence '' @ em_dash @ '' three legs '' @ probed @ ''; ONE leg measured by nobody: that '' @ declared @
         '' was listening is the Manager's declaration, so a denied connect to it proves the fence held against a target no probe put there'')"

definition sandboxFailures :: "sandbox_attestation \<Rightarrow> string list" where
  "sandboxFailures s =
     (if sa_declaredListening s then [] else
        [''the Manager did not declare that the must-fail probe targets were listening, so a blocked connect here would prove nothing about the fence'']) @
     (if sa_mustFailDenied s then [] else
        [if sa_mustFailTargets s \<noteq> []
         then ''not every must-fail target was denied '' @ em_dash @ '' the sandbox reached at least one of the targets it probed ('' @ join '', '' (sa_mustFailTargets s) @ '')''
         else ''no must-fail target was configured at all, so nothing was proven blocked'']) @
     (if sa_managerAddrDenied s then [] else [''the Manager's own address was not denied '' @ em_dash @ '' the sandbox can reach the Manager'']) @
     (if sa_mustPassReached s then [] else
        [''the must-pass target was not reached, so this probe cannot tell a fence that blocks from a probe that cannot connect at all''])"

section \<open>Assembling a report\<close>

text \<open>
  \<^verbatim>\<open>gate-runner/src/report.ts\<close>. The hash, the schema of a manifest and the text of a schema error are parameters.
\<close>

record report_deps =
  rp_sha256 :: "string \<Rightarrow> string"
  rp_manifestSchema :: "json \<Rightarrow> json option"
  rp_zodText :: "json \<Rightarrow> string"

record report_input =
  ri_runnerVersion :: string
  ri_repoURL :: string
  ri_requestedRef :: string
  ri_resolvedSha :: string
  ri_startedAt :: int
  ri_finishedAt :: int
  ri_manifest :: "json option"
  ri_dependencies :: "resolved_dependency list"
  ri_gates :: "gate_outcome list"
  ri_sandbox :: sandbox_attestation

definition parse_or_throw :: "report_deps \<Rightarrow> json \<Rightarrow> thrown + gate_report" where
  "parse_or_throw D j = (case GateReportSchema (rp_manifestSchema D) j of None \<Rightarrow> Inl (JsError ''ZodError'' (rp_zodText D j)) | Some r \<Rightarrow> Inr r)"

definition draft_report :: "report_input \<Rightarrow> gate_report" where
  "draft_report i =
     \<lparr>gr_runnerVersion = ri_runnerVersion i, gr_repoURL = ri_repoURL i, gr_requestedRef = ri_requestedRef i, gr_resolvedSha = ri_resolvedSha i,
      gr_startedAt = ri_startedAt i, gr_finishedAt = ri_finishedAt i, gr_manifest = ri_manifest i, gr_dependencies = ri_dependencies i,
      gr_gates = ri_gates i, gr_sandbox = ri_sandbox i,
      gr_verdict = (if hardGatesPass (ri_gates i) \<and> sandboxGreen (ri_sandbox i) then VPass else VFail), gr_reportHash = []\<rparr>"

definition assembleReport :: "report_deps \<Rightarrow> report_input \<Rightarrow> thrown + gate_report" where
  "assembleReport D i =
     (let body = report_body (draft_report i); reportHash = rp_sha256 D (reportHashPayload (JObj body))
      in parse_or_throw D (JObj (body @ [(''reportHash'', JStr reportHash)])))"

section \<open>What crosses is what was written\<close>

text \<open>The schema accepts what a report writes exactly when the caps hold, and reads the same report back, with the manifest the schema of manifests gives.\<close>

lemma those_checked: "(\<And>x. f (g x) = checked P x) \<Longrightarrow> those (map f (map g xs)) = checked (list_all P) xs"
  by (induction xs) (auto simp: checked_def)

lemma read_str_list: "those (map as_str (map JStr xs)) = Some xs"
  by (induction xs) auto

lemma map_of_opt_field [simp]:
  "map_of (opt_field k f x) l = (if k = l then map_option f x else None)"
  "map_of (opt_field k f x @ rest) l = (if k = l then (case x of None \<Rightarrow> map_of rest l | Some v \<Rightarrow> Some (f v)) else map_of rest l)"
  by (auto simp: opt_field_def split: option.splits)

lemma optional_back:
  assumes "\<And>v. g (f v) = Some v"
  shows "map_of kvs k = map_option f x \<Longrightarrow> optional k g kvs = Some x"
    and "map_of kvs k = (case x of None \<Rightarrow> None | Some v \<Rightarrow> Some (f v)) \<Longrightarrow> optional k g kvs = Some x"
  by (cases x; simp add: optional_def assms)+

lemma read_source_back: "read_source (JStr (source_text v)) = Some v"
  by (cases v) (simp_all add: read_source_def as_enum_def)

lemma read_back_evidence: "GateEvidenceSchema (evidence_json e) = checked evidence_ok e"
proof -
  let ?kvs = "[(''source'', JStr (source_text (ev_source e)))] @ opt_field ''file'' JStr (ev_file e) @ opt_field ''docIndex'' JNum (ev_docIndex e) @
     opt_field ''kind'' JStr (ev_kind e) @ opt_field ''name'' JStr (ev_name e) @ opt_field ''fieldPath'' JStr (ev_fieldPath e) @ opt_field ''value'' JStr (ev_value e)"
  have "optional ''file'' as_str ?kvs = Some (ev_file e)" by (rule optional_back(2) [where f = JStr]) (simp_all del: map_of_append split: option.split)
  moreover have "optional ''docIndex'' as_num ?kvs = Some (ev_docIndex e)" by (rule optional_back(2) [where f = JNum]) (simp_all del: map_of_append split: option.split)
  moreover have "optional ''kind'' as_str ?kvs = Some (ev_kind e)" by (rule optional_back(2) [where f = JStr]) (simp_all del: map_of_append split: option.split)
  moreover have "optional ''name'' as_str ?kvs = Some (ev_name e)" by (rule optional_back(2) [where f = JStr]) (simp_all del: map_of_append split: option.split)
  moreover have "optional ''fieldPath'' as_str ?kvs = Some (ev_fieldPath e)" by (rule optional_back(2) [where f = JStr]) (simp_all del: map_of_append split: option.split)
  moreover have "optional ''value'' as_str ?kvs = Some (ev_value e)" by (rule optional_back(1) [where f = JStr]) (simp_all del: map_of_append split: option.split)
  moreover have "required ''source'' read_source ?kvs = Some (ev_source e)" by (simp add: required_def read_source_back)
  ultimately show ?thesis unfolding GateEvidenceSchema_def evidence_json_def as_object.simps by (cases e) simp
qed

lemma read_back_evidences: "read_list GateEvidenceSchema (JArr (map evidence_json es)) = checked (list_all evidence_ok) es"
  using those_checked [of GateEvidenceSchema evidence_json evidence_ok es] read_back_evidence by simp

lemma read_enums:
  "as_enum severity_text [SevHard, SevSoft] (JStr (severity_text v)) = Some v"
  "as_enum status_text [GPass, GWarn, GFail] (JStr (status_text t)) = Some t"
  "as_enum verdict_text [VPass, VFail] (JStr (verdict_text u)) = Some u"
  by (cases v; cases t; cases u; simp add: as_enum_def)+

lemma read_back_gate: "GateResultSchema (gate_json g) = checked gate_ok g"
proof -
  have reason: "nullable as_str (case r of None \<Rightarrow> JNull | Some r \<Rightarrow> JStr r) = Some r" for r by (cases r) simp_all
  show ?thesis
    by (cases g; cases "gt_evidence g"; cases "gt_hint g")
       (auto simp: GateResultSchema_def gate_json_def required_def optional_def opt_field_def read_enums reason read_back_evidences
          checked_def gate_ok_def simp del: read_list.simps)
qed

lemma read_back_gates: "read_list GateResultSchema (JArr (map gate_json gs)) = checked (list_all gate_ok) gs"
  using those_checked [of GateResultSchema gate_json gate_ok gs] read_back_gate by simp

lemma read_back_sandbox: "SandboxAttestationSchema (sandbox_json s) = Some s"
  by (cases s) (simp add: SandboxAttestationSchema_def sandbox_json_def required_def read_str_list [simplified])

lemma read_back_dependencies: "read_list ResolvedDependencySchema (JArr (map dependency_json ds)) = Some ds"
proof -
  have "ResolvedDependencySchema (dependency_json d) = checked (\<lambda>_. True) d" for d
    by (cases d) (simp add: ResolvedDependencySchema_def dependency_json_def required_def checked_def)
  then show ?thesis using those_checked [of ResolvedDependencySchema dependency_json "\<lambda>_. True" ds] by (simp add: checked_def list_all_iff)
qed

definition read_manifest :: "(json \<Rightarrow> json option) \<Rightarrow> json option \<Rightarrow> json option option" where
  "read_manifest ms m = (case m of None \<Rightarrow> Some None | Some j \<Rightarrow> nullable ms j)"

lemma read_back_report:
  "GateReportSchema ms (report_json r) =
     (if sha_ok (gr_resolvedSha r) \<and> list_all gate_ok (gr_gates r) then map_option (\<lambda>m. r\<lparr>gr_manifest := m\<rparr>) (read_manifest ms (gr_manifest r)) else None)"
proof -
  have m: "nullable ms (case m of None \<Rightarrow> JNull | Some m \<Rightarrow> m) = read_manifest ms m" for m by (cases m) (simp_all add: read_manifest_def)
  have c: "as_enum (\<lambda>_. contract_version) [()] (JStr contract_version) = Some ()" by (simp add: as_enum_def)
  show ?thesis
    by (cases r; cases "read_manifest ms (gr_manifest r)")
       (simp_all add: GateReportSchema_def report_json_def report_body_def required_def read_enums m c read_back_gates read_back_dependencies
          read_back_sandbox checked_def del: read_list.simps)
qed

lemma report_body_hash: "report_body (r\<lparr>gr_reportHash := h\<rparr>) = report_body r"
  by (simp add: report_body_def)

lemma assembleReport_eq:
  "assembleReport D i = parse_or_throw D (report_json ((draft_report i)\<lparr>gr_reportHash := rp_sha256 D (reportHashPayload (JObj (report_body (draft_report i))))\<rparr>))"
  by (simp add: assembleReport_def report_json_def report_body_hash Let_def)

lemma assembled:
  assumes "assembleReport D i = Inr r"
  obtains m where "read_manifest (rp_manifestSchema D) (ri_manifest i) = Some m" "list_all gate_ok (ri_gates i)" "sha_ok (ri_resolvedSha i)"
    "r = (draft_report i)\<lparr>gr_manifest := m, gr_reportHash := rp_sha256 D (reportHashPayload (JObj (report_body (draft_report i))))\<rparr>"
  using assms unfolding assembleReport_eq parse_or_throw_def read_back_report
  by (auto simp: draft_report_def split: option.splits if_splits)

lemma failures_iff: "sandboxFailures s = [] \<longleftrightarrow> sandboxGreen s"
  by (simp add: sandboxFailures_def sandboxGreen_def)

end
