(* ===== verification/Unit_Host.thy ===== *)
theory Unit_Host
  imports Registry_Reap
begin

text \<open>
  The public hosts of units and tenants (\<^verbatim>\<open>plugins/unit/shared/unit-host.ts\<close>): a stage is a zone, prod the apex itself. The host of a stage and the prod host
  it stands for are inverse to each other. The URL parser is a parameter.
\<close>

section \<open>Hosts of a stage\<close>

definition stageApex :: "string \<Rightarrow> stage \<Rightarrow> string" where
  "stageApex unitApex s = (if s = Prod then unitApex else show_stage s @ ''.'' @ unitApex)"

definition stageHost :: "string \<Rightarrow> string \<Rightarrow> stage \<Rightarrow> string" where
  "stageHost prodHost zone s =
     (if s = Prod then prodHost
      else if prodHost = zone then show_stage s @ ''.'' @ zone
      else drop_last (length zone + 1) prodHost @ ''.'' @ show_stage s @ ''.'' @ zone)"

definition prodHostOf :: "string \<Rightarrow> string \<Rightarrow> stage \<Rightarrow> string option" where
  "prodHostOf host zone s =
     (if s = Prod then Some host
      else let stageZone = show_stage s @ ''.'' @ zone
           in if host = stageZone then Some zone
              else if endsWith host (''.'' @ stageZone) then Some (drop_last (length stageZone + 1) host @ ''.'' @ zone) else None)"

definition stageHostProblem :: "string \<Rightarrow> string \<Rightarrow> stage \<Rightarrow> string option" where
  "stageHostProblem host zone s =
     (let carried = List.find (\<lambda>t. t \<noteq> Prod \<and> prodHostOf host zone t \<noteq> None) STAGE
      in if s = Prod
         then (case carried of
                 None \<Rightarrow> None
               | Some c \<Rightarrow> Some (host @ '' carries the stage '' @ show_stage c @ '' before its zone '' @ zone @ '', and prod carries none: it is '' @
                   (case prodHostOf host zone c of Some p \<Rightarrow> p | None \<Rightarrow> ''null'')))
         else if prodHostOf host zone s \<noteq> None then None
         else let prod = (case carried of
                            Some c \<Rightarrow> the (prodHostOf host zone c)
                          | None \<Rightarrow> if startsWith host (show_stage s @ ''.'') \<and> host \<noteq> show_stage s @ ''.'' @ zone then drop (length (show_stage s) + 1) host else host)
              in Some (host @ '' is no '' @ show_stage s @ '' host: the stage stands directly before the zone '' @ zone @ '', so it is '' @ stageHost prod zone s))"

section \<open>Hosts of units and tenants\<close>

definition consumerUnitHost :: "string \<Rightarrow> stage \<Rightarrow> string \<Rightarrow> string" where
  "consumerUnitHost label s unitApex = label @ ''.'' @ stageApex unitApex s"

definition tenantZone :: "string \<Rightarrow> stage \<Rightarrow> string \<Rightarrow> string" where
  "tenantZone subdomain s unitApex = subdomain @ ''.'' @ stageApex unitApex s"

definition tenantMemberUrl :: "string \<Rightarrow> stage \<Rightarrow> string \<Rightarrow> string \<Rightarrow> string \<Rightarrow> string" where
  "tenantMemberUrl member s subdomain unitApex ownDomain =
     ''https://'' @ (if ownDomain \<noteq> [] then ownDomain else tenantZone subdomain s unitApex) @ ''/'' @ member"

definition tenantIssuerRecord :: "(string \<Rightarrow> thrown + string) \<Rightarrow> string \<Rightarrow> string \<Rightarrow> stage \<Rightarrow> string \<Rightarrow> string \<Rightarrow> thrown + (string \<times> string)" where
  "tenantIssuerRecord urlHost label identityProvider s subdomain unitApex =
     (let issuer = tenantMemberUrl identityProvider s subdomain unitApex []
      in bindE (urlHost issuer) (\<lambda>host. Inr (label @ ''.'' @ host, issuer)))"

definition aliasHosts :: "string list \<Rightarrow> string list" where
  "aliasHosts aliases = concat (map (\<lambda>a. [a, ''www.'' @ a]) aliases)"

text \<open>\<^verbatim>\<open>[...new Set(xs)]\<close>: the first of each.\<close>

definition first_of_each :: "'a list \<Rightarrow> 'a list" where
  "first_of_each xs = rev (remdups (rev xs))"

definition tenantOwnHosts :: "string \<Rightarrow> string list \<Rightarrow> string list \<Rightarrow> string list" where
  "tenantOwnHosts ownDomain redirects aliases = (if ownDomain = [] then [] else first_of_each (ownDomain # redirects @ aliasHosts aliases))"

definition ownDomainHosts :: "string \<Rightarrow> string \<times> string list" where
  "ownDomainHosts domain = (if domain = [] then ([], []) else (domain, [''www.'' @ domain]))"

definition ownDomainEntryProblem :: "string \<Rightarrow> string option" where
  "ownDomainEntryProblem domain =
     (if startsWith domain ''www.''
      then Some (''type the domain without '' @ [CHR 0x22] @ ''www.'' @ [CHR 0x22] @ '' ('' @ drop 4 domain @ ''); it is served at '' @ drop 4 domain @ '', and '' @ domain @ '' redirects there'')
      else None)"

definition RESERVED_HOST_LABELS :: "string list" where
  "RESERVED_HOST_LABELS = map show_stage STAGE"

definition PLATFORM_HOST_LABEL :: "string \<Rightarrow> bool" where
  "PLATFORM_HOST_LABEL s \<longleftrightarrow> s \<in> {''www'', ''show'', ''mail'', ''autodiscover''} \<or> list_ex (startsWith s) [''master'', ''apps'', ''srv'', ''enterprise'']"

definition label_char :: "char \<Rightarrow> bool" where
  "label_char c \<longleftrightarrow> (CHR ''a'' \<le> c \<and> c \<le> CHR ''z'') \<or> is_digit c"

definition HOST_LABEL_RE :: "string \<Rightarrow> bool" where
  "HOST_LABEL_RE s \<longleftrightarrow> s \<noteq> [] \<and> length s \<le> 63 \<and> label_char (hd s) \<and> label_char (last s) \<and> list_all (\<lambda>c. label_char c \<or> c = CHR ''-'') s"

section \<open>A stage host and its prod host\<close>

lemma host_cases:
  assumes "s \<noteq> Prod"
  shows "prodHostOf host zone s = Some h \<longleftrightarrow>
    (host = show_stage s @ ''.'' @ zone \<and> h = zone) \<or> (\<exists>a. host = a @ ''.'' @ show_stage s @ ''.'' @ zone \<and> h = a @ ''.'' @ zone)"
proof -
  have "drop_last (length (show_stage s @ ''.'' @ zone) + 1) (a @ ''.'' @ show_stage s @ ''.'' @ zone) = a" for a
    using drop_last_append [of "''.'' @ show_stage s @ ''.'' @ zone" a] by simp
  then show ?thesis using assms by (auto simp: prodHostOf_def Let_def endsWith_split)
qed

lemma stage_ends_differ: "s \<noteq> Prod \<Longrightarrow> t \<noteq> Prod \<Longrightarrow> a @ show_stage s = b @ show_stage t \<Longrightarrow> s = t"
  by (cases s; cases t) (auto dest: arg_cong [of _ _ last])

lemma stage_host_form:
  assumes "h = zone \<or> endsWith h (''.'' @ zone)" "s \<noteq> Prod"
  shows "(h = zone \<and> stageHost h zone s = show_stage s @ ''.'' @ zone) \<or> (\<exists>a. h = a @ ''.'' @ zone \<and> stageHost h zone s = a @ ''.'' @ show_stage s @ ''.'' @ zone)"
proof (cases "h = zone")
  case False
  then obtain a where a: "h = a @ ''.'' @ zone" using assms(1) by (auto simp: endsWith_split)
  then have "drop_last (length zone + 1) h = a" using drop_last_append [of "''.'' @ zone" a] by simp
  then show ?thesis using False assms(2) a by (auto simp: stageHost_def)
qed (use assms(2) in \<open>simp add: stageHost_def\<close>)



end
