(* ===== verification/Onboard_Gates.thy ===== *)
theory Onboard_Gates
  imports Gate_Report Unit_Quota Unit_Host
begin

text \<open>
  The gates the Manager itself holds an onboarding against (\<^verbatim>\<open>server/domains/units/gates\<close>, \<^verbatim>\<open>units/builds.ts\<close>, \<^verbatim>\<open>plugins/unit/server/unit-host-gate.ts\<close>): the name of the unit,
  its builds, its size, its host, its mail sender, its release workflow, and the report they are composed into.

  The YAML parser, the DNS provider and the content of the release kit are parameters. The identities the platform derives from an admitted name are
  those of no other admitted unit and of no platform namespace.
\<close>

section \<open>The maps of the clusters\<close>

definition CLUSTER_MAP_DIR :: string where
  "CLUSTER_MAP_DIR = ''clusters/active''"

definition clusterMapPath :: "string \<Rightarrow> string" where
  "clusterMapPath fqdn = CLUSTER_MAP_DIR @ ''/'' @ fqdn @ ''.yaml''"

section \<open>Results\<close>

definition dq :: "string \<Rightarrow> string" where
  "dq s = CHR 0x22 # s @ [CHR 0x22]"

definition dash :: string where
  "dash = '' '' @ em_dash @ '' ''"

definition TEXT_CAP :: nat where
  "TEXT_CAP = 600"

definition capGateText :: "string \<Rightarrow> string" where
  "capGateText t = (if js_length t > TEXT_CAP then js_take TEXT_CAP t @ ellipsis else t)"

definition hard_row :: "string \<Rightarrow> string \<Rightarrow> string \<Rightarrow> bool \<Rightarrow> string \<Rightarrow> string \<Rightarrow> string \<Rightarrow> gate_evidence list option \<Rightarrow> gate_outcome" where
  "hard_row gid title expected ok found reason detail evidence =
     \<lparr>gt_id = gid, gt_title = title, gt_severity = SevHard, gt_status = (if ok then GPass else GFail), gt_expected = expected, gt_found = found,
      gt_reason = (if ok then None else Some reason), gt_evidence = evidence, gt_detail = detail, gt_hint = None\<rparr>"

definition manager_evidence :: "string \<Rightarrow> string option \<Rightarrow> string \<Rightarrow> gate_evidence" where
  "manager_evidence name path v =
     \<lparr>ev_source = FromManager, ev_file = None, ev_docIndex = None, ev_kind = None, ev_name = Some name, ev_fieldPath = path, ev_value = Some v\<rparr>"

definition repo_evidence :: "string \<Rightarrow> string \<Rightarrow> string \<Rightarrow> gate_evidence" where
  "repo_evidence file path v =
     \<lparr>ev_source = FromRepo, ev_file = Some file, ev_docIndex = None, ev_kind = None, ev_name = None, ev_fieldPath = Some path, ev_value = Some v\<rparr>"

section \<open>The name of a unit\<close>

definition PLATFORM_NAMESPACES :: "string list" where
  "PLATFORM_NAMESPACES = [''default'', ''argocd'', ''manager'', ''dbgate'', ''example-system'', ''external-secrets'', ''gate-runner'', ''image-builder'', ''kube-system'', ''postfix'',
     ''mongodb'', ''observability'', ''redis'', ''registrations'', ''service-provisioner'', ''headscale'', ''tekton'', ''tekton-resolvers'', ''tekton-dashboard'', ''vault'', ''idp'',
     ''kubernetes-dashboard'', ''cert-manager'', ''ingress'']"

definition BUILD_NAMESPACE_SUFFIX :: string where
  "BUILD_NAMESPACE_SUFFIX = ''-build''"

definition RESERVED_PROJECT_NAMES :: "string list" where
  "RESERVED_PROJECT_NAMES = [''default'', ''core'', ''data'', ''services'', ''observability'', ''cicd'', ''builds'', ''manager'']"

definition consumerNamespace :: "string \<Rightarrow> stage \<Rightarrow> string" where
  "consumerNamespace consumerName s = consumerName @ ''-'' @ show_stage s"

definition consumerHostLabel :: "string \<Rightarrow> string option \<Rightarrow> string" where
  "consumerHostLabel name host = (case host of Some h \<Rightarrow> h | None \<Rightarrow> name)"

definition name_collisions :: "string \<Rightarrow> stage \<Rightarrow> string \<Rightarrow> string list \<Rightarrow> (string \<times> string) list \<Rightarrow> string list" where
  "name_collisions name s label tenantSubdomains foreignHostLabels =
     (if name \<in> set PLATFORM_NAMESPACES \<or> consumerNamespace name s \<in> set PLATFORM_NAMESPACES
      then [dq name @ '' is a platform namespace'' @ dash @ ''the generated Application would sync the unit's chart into it, beside the platform's own Secrets''] else []) @
     (if startsWith name ''kube-'' then [dq name @ '' carries the kube- prefix Kubernetes reserves for its own namespaces (kube-system, kube-public, kube-node-lease)''] else []) @
     (if endsWith name BUILD_NAMESPACE_SUFFIX
      then [dq name @ '' is the derived build namespace of a unit named '' @ dq (drop_last (length BUILD_NAMESPACE_SUFFIX) name) @ dash @
            ''every unit's release pipeline, the shared registrations push credential and its repo PAT live in <unit>'' @ BUILD_NAMESPACE_SUFFIX @ '', whether that unit is onboarded yet or not''] else []) @
     (case List.find (\<lambda>t. endsWith name (''-'' @ show_stage t)) STAGE of
        Some t \<Rightarrow> [dq name @ '' is the derived namespace of a unit named '' @ dq (drop_last (length (show_stage t) + 1) name) @ '' at '' @ show_stage t @ dash @
            ''every unit's namespace, Application and host are <unit>-<stage>, whether that unit is onboarded yet or not'']
      | None \<Rightarrow> []) @
     (if name \<in> set RESERVED_PROJECT_NAMES
      then [dq name @ '' is a shared ArgoCD project name'' @ dash @ ''the per-unit AppProject is named by the unit and may not shadow a platform project''] else []) @
     (if label \<in> set tenantSubdomains
      then [''the label '' @ dq label @ '' is the subdomain a tenant stands on'' @ dash @ ''its identity provider scopes every session cookie to <subdomain>.<stage apex>, '' @
            ''the very host this unit would serve, so every browser holding that tenant's session would send it here''] else []) @
     (case List.find (\<lambda>f. snd f = label) foreignHostLabels of
        Some f \<Rightarrow> [''the label '' @ dq label @ '' is the host of unit '' @ dq (fst f) @ '' at '' @ show_stage s @ dash @ ''one zone is one name space, and two units on one label would be one host'']
      | None \<Rightarrow> [])"

definition gateUnitName :: "string \<Rightarrow> stage \<Rightarrow> string \<Rightarrow> string list \<Rightarrow> (string \<times> string) list \<Rightarrow> gate_outcome" where
  "gateUnitName name s label tenantSubdomains foreignHostLabels =
     (let namespace = consumerNamespace name s; collisions = name_collisions name s label tenantSubdomains foreignHostLabels; ok = (collisions = [])
      in hard_row ''G23'' ''unit name''
           (''the name '' @ dq name @ '' lies in no space the platform composes identities from: not a platform namespace (as '' @ dq name @ '' or as '' @ dq namespace @
            ''), not under Kubernetes' kube- prefix, not in the derived build-namespace space <unit>'' @ BUILD_NAMESPACE_SUFFIX @
            '', not in the derived stage-namespace space <unit>-<stage>, not a shared ArgoCD project name; and the label '' @ dq label @
            '' is neither a subdomain a tenant stands on nor the host of another unit at '' @ show_stage s)
           ok
           (if ok then dq name @ '' collides with no reserved name space'' @ dash @ ''the namespace and Application '' @ namespace @ '', the AppProject and the build namespace '' @ name @
              BUILD_NAMESPACE_SUFFIX @ '' are free to be this unit's, and the label '' @ dq label @ '' is free at '' @ show_stage s @ '' (checked against '' @
              show_nat (length tenantSubdomains) @ '' tenant subdomain(s) and '' @ show_nat (length foreignHostLabels) @ '' other unit label(s))''
            else capGateText (join ''; '' collisions))
           (''a unit is deployed into the namespace <unit>-<stage>, fenced by the AppProject of that name and served at the host composed from it, '' @
            ''so a reserved name hands it an identity another owner holds; a unit is named by its repo, so rename the repo and onboard again'')
           (if ok then ''unit name is free'' else ''unit name is reserved'')
           (Some (map (\<lambda>c. manager_evidence name None (js_take 256 c)) (take 6 collisions))))"

section \<open>Builds\<close>

text \<open>\<^verbatim>\<open>new Map(...)\<close> keeps the last entry of a key.\<close>

definition gateBuildNameUniqueness :: "string \<Rightarrow> string list \<Rightarrow> (string \<times> string) list \<Rightarrow> gate_outcome" where
  "gateBuildNameUniqueness unitName buildNames foreignBuilds =
     (let owners = map_of (rev (map (\<lambda>(u, b). (b, u)) foreignBuilds));
          collisions = concat (map (\<lambda>n. case owners n of Some u \<Rightarrow> [(n, u)] | None \<Rightarrow> []) buildNames); ok = (collisions = [])
      in hard_row ''G16'' ''build-name uniqueness''
           (''every build name '' @ dq unitName @ '' declares is claimed by no other unit'' @ dash @
            ''a build name is the flat image name, so two units on one name push to the same registrations repository'')
           ok
           (if ok then show_nat (length buildNames) @ '' declared build name(s) checked against '' @ show_nat (length foreignBuilds) @ '' name(s) attested by other units'' @ dash @ ''no collision''
            else capGateText (join ''; '' (map (\<lambda>(n, u). ''build '' @ dq n @ '' is already attested by unit '' @ dq u) collisions)))
           ''a build name claimed by two units routes both to one registrations repository; the onboarding is rejected''
           (if ok then ''no foreign unit claims these names'' else ''build name already claimed'')
           (Some (map (\<lambda>(n, u). manager_evidence n None (js_take 256 u)) (take 20 collisions))))"

record chart_pin_mapping =
  cm_missing :: "string list"
  cm_pinnedImages :: "string list"
  cm_error :: "string option"

definition mapBuildsToChartPins :: "yaml_deps \<Rightarrow> string list \<Rightarrow> string \<Rightarrow> string option \<Rightarrow> chart_pin_mapping" where
  "mapBuildsToChartPins Y declaredBuilds source valuesStageYaml =
     (case valuesStageYaml of
        None \<Rightarrow> \<lparr>cm_missing = declaredBuilds, cm_pinnedImages = [], cm_error = None\<rparr>
      | Some t \<Rightarrow>
          (case parseBuildPins Y source t of
             Inl e \<Rightarrow> \<lparr>cm_missing = declaredBuilds, cm_pinnedImages = [], cm_error = Some (thrown_message e)\<rparr>
           | Inr pins \<Rightarrow> \<lparr>cm_missing = filter (\<lambda>n. n \<notin> set (map bp_image pins)) declaredBuilds, cm_pinnedImages = map bp_image pins, cm_error = None\<rparr>))"

definition gateBuildDeclaration :: "string list \<Rightarrow> (string \<times> stage \<times> chart_pin_mapping) option \<Rightarrow> gate_outcome" where
  "gateBuildDeclaration declaredBuilds chart =
     (let expected = ''deploy/platform.yaml declares at least one build, '' @
            (case chart of
               Some (path, s, m) \<Rightarrow> ''and '' @ path @ ''/values-'' @ show_stage s @ ''.yaml states a builds[] entry whose image is that name'' @ dash @ ''the key the release bump writes the tag into''
             | None \<Rightarrow> ''and, for a unit with a chart, that chart pins each of them'')
      in if declaredBuilds = []
         then hard_row ''G18'' ''build declaration'' expected False ''no build declared in deploy/platform.yaml''
                ''a unit without a declared build produces no image, so its release cycle has nothing to run; the onboarding is rejected'' ''empty builds[]'' None
         else (case chart of
           None \<Rightarrow> hard_row ''G18'' ''build declaration'' expected True
                (capGateText (''build-only'' @ dash @ ''no chart to check; '' @ show_nat (length declaredBuilds) @ '' build(s) declared: '' @ join '', '' declaredBuilds)) [] ''build-only unit'' None
         | Some (path, s, mapping) \<Rightarrow>
             (let file = path @ ''/values-'' @ show_stage s @ ''.yaml''; ok = (cm_error mapping = None \<and> cm_missing mapping = []);
                  found = capGateText (case cm_error mapping of
                    Some e \<Rightarrow> file @ '' is not readable as the builds[] pin grammar: '' @ e
                  | None \<Rightarrow> if ok then show_nat (length declaredBuilds) @ '' declared build(s) pinned in '' @ file @ '': '' @ join '', '' (cm_pinnedImages mapping)
                      else file @ '' states no builds[] entry for: '' @ join '', '' (cm_missing mapping) @
                        (if cm_pinnedImages mapping \<noteq> [] then '' (it pins '' @ join '', '' (cm_pinnedImages mapping) @ '')'' else '' (it pins nothing)''))
              in hard_row ''G18'' ''build declaration'' expected ok found
                   ''the release bump writes a built image's tag into the builds[] entry that names it; without that entry the image is built and never reaches the cluster''
                   (if ok then ''every declared build is pinned'' else ''declared build not pinned'')
                   (Some (map (\<lambda>n. repo_evidence file ''builds[].image'' (js_take 256 n)) (take 20 (cm_missing mapping)))))))"

definition MANIFEST_FED_GATE_IDS :: "string list" where
  "MANIFEST_FED_GATE_IDS = [''G16'', ''G18'', ''G24'', ''G27'']"

definition gateManifestInput :: "string list \<Rightarrow> gate_outcome" where
  "gateManifestInput skippedGateIds =
     (let skipped = (if skippedGateIds \<noteq> [] then join '', '' skippedGateIds else ''(none)'')
      in hard_row ''G26'' ''manifest input''
           ''the gate report carries the manifest the sandbox parsed out of deploy/platform.yaml, so the manager-side gates that judge what it declares have something to read''
           False
           (capGateText (''the report carries no manifest, so '' @ skipped @ '' did not run'' @ dash @
              ''none of them has read this repository's deploy/platform.yaml, and nothing here is a statement about what that file declares''))
           (capGateText (''a gate that reads an absent input can only report an empty declaration, which reads exactly like a repository that declares nothing'' @ dash @
              ''so these gates are not run at all rather than made to invent a finding. '' @
              ''The onboarding is refused because it could not be judged, not because the repository is wrong: what the sandbox's own gates in this same report say is where the reason stands.''))
           (''no manifest in the report'' @ dash @ ''the manifest-fed gates did not run'')
           (Some (map (\<lambda>g. manager_evidence g None ''did not run: no manifest in the report'') (take 20 skippedGateIds))))"

definition gateRepoAccess :: "bool \<Rightarrow> string \<Rightarrow> gate_outcome" where
  "gateRepoAccess ok detail =
     hard_row ''G17'' ''repo access''
       (''the Manager can clone the repository at the requested ref'' @ dash @ ''public, or private with the operator-supplied read credential'') ok detail
       ''without repo access neither the sandbox nor ArgoCD can fetch the chart; the plan is rejected'' (if ok then ''clone succeeded'' else ''clone failed'') None"

definition composeReport :: "gate_report \<Rightarrow> gate_outcome list \<Rightarrow> gate_report" where
  "composeReport runner managerGates =
     (let gates = gr_gates runner @ managerGates
      in runner\<lparr>gr_gates := gates, gr_verdict := if hardGatesPass gates \<and> gr_verdict runner = VPass then VPass else VFail\<rparr>)"

section \<open>Size\<close>

definition DEFAULT_UNIT_SIZE :: unit_size where
  "DEFAULT_UNIT_SIZE = Small"

fun mongodb_text :: "mongodb_mode \<Rightarrow> string" where
  "mongodb_text MShared = ''shared''" | "mongodb_text MStandalone = ''standalone''" | "mongodb_text MReplicaset = ''replicaset''"

fun data_component :: "data_part \<Rightarrow> size_component" where
  "data_component DPostgresql = CPostgresql" | "data_component DMongodb = CMongodb" | "data_component DRedis = CRedis" | "data_component DMariadb = CMariadb"

text \<open>\<^verbatim>\<open>UNIT_SIZE.indexOf(s)\<close>\<close>

definition size_rank :: "unit_size \<Rightarrow> nat" where
  "size_rank s = length (takeWhile (\<lambda>t. t \<noteq> s) UNIT_SIZE)"

definition owned_units :: "unit_composition \<Rightarrow> string list" where
  "owned_units b =
     (if uc_postgresql b then [''its own PostgreSQL (services declares postgresql)''] else []) @
     (if uc_mongodb b \<noteq> MShared then [''its own MongoDB (mongodb: '' @ mongodb_text (uc_mongodb b) @ '', '' @ show_nat (MONGODB_MEMBERS (uc_mongodb b)) @ '' member(s))''] else []) @
     (if uc_redis b = Some RStandalone then [''its own Redis (redis: standalone)''] else []) @
     (if uc_mariadb b = Some True then [''its own MariaDB (services declares mariadb)''] else [])"

definition quota_figures :: "unit_quota \<Rightarrow> string" where
  "quota_figures q = ''requests '' @ uq_requestsCpu q @ ''/'' @ uq_requestsMemory q @ '', limits '' @ uq_limitsCpu q @ ''/'' @ uq_limitsMemory q @ '', '' @
     show_nat (uq_pods q) @ '' pod(s), '' @ show_nat (uq_persistentVolumeClaims q) @ '' PVC(s)''"

definition frugal_parts :: "unit_composition \<Rightarrow> unit_size \<Rightarrow> part_sizes \<Rightarrow> data_part list" where
  "frugal_parts b sz sizes = filter (\<lambda>p. size_rank (sizeOf (data_component p) sz sizes) \<le> size_rank DEFAULT_UNIT_SIZE) (dataParts b)"

text \<open>\<open>sizes\<close> is absent or the sizes the data parts have of their own.\<close>

definition gateUnitSize :: "string \<Rightarrow> unit_size \<Rightarrow> (unit_composition \<times> unit_quota) option \<Rightarrow> part_sizes option \<Rightarrow> gate_outcome" where
  "gateUnitSize unitName sz brought sizes =
     (let expected = ''a unit that brings database units of its own'' @ dash @ ''postgresql or mariadb among its services, a mongodb mode other than shared, or redis: standalone'' @ dash @
            ''is assigned a size above the frugal default '' @ dq (show_size DEFAULT_UNIT_SIZE) @ '', and its namespace quota is the size table's sum for what it brings''
      in case brought of
           None \<Rightarrow> hard_row ''G24'' ''unit size'' expected True
             (''nothing of '' @ dq unitName @ '' deploys, so it holds no namespace, is bounded by no ResourceQuota and needs no size'') [] (''build-only'' @ dash @ ''no namespace to size'') None
         | Some (brings, q) \<Rightarrow>
             (let owned = owned_units brings; figures = quota_figures q; ps = (case sizes of Some l \<Rightarrow> l | None \<Rightarrow> []);
                  composition = (if owned \<noteq> [] then join '' and '' owned else ''no database units of its own'' @ dash @ ''it uses the cluster's shared MongoDB and Redis and no PostgreSQL'');
                  frugal = frugal_parts brings sz ps; ok = (frugal = []);
                  own = (\<lambda>p. show_component (data_component p) @ '' '' @ dq (show_size (sizeOf (data_component p) sz ps)));
                  place = (if frugal \<noteq> [] \<and> sizes \<noteq> None then join '', '' (map own frugal) else dq (show_size sz))
              in hard_row ''G24'' ''unit size'' expected ok
                   (capGateText (dq unitName @ '' is assigned size '' @ dq (show_size sz) @
                      (if ps \<noteq> [] then '' ('' @ join '', '' (map (\<lambda>(p, s). show_component (data_component p) @ '' '' @ dq (show_size s)) ps) @ '')'' else []) @
                      '' and brings '' @ composition @ ''; its namespace quota resolves to '' @ figures))
                   (capGateText (dq unitName @ '' brings '' @ composition @ '' at '' @ place @ '', and '' @ dq (show_size DEFAULT_UNIT_SIZE) @
                      '' or below is the frugal preset a unit lands on when nobody names a size'' @ dash @
                      ''its figures are derived from an application alone, and its mongodb row gives one member less than this platform gives the members of its own shared replica set. '' @
                      ''Either ask the operator to onboard this unit at a larger size, or declare no database units of its own in the manifest: '' @
                      ''drop postgresql and mariadb from services and use the cluster's shared MongoDB (mongodb: shared) and shared Redis (redis: shared).''))
                   (if ok then ''size '' @ show_size sz @ '' covers what the unit brings'' else place @ '' is the frugal default or below, for a database unit of its own'')
                   (Some [manager_evidence unitName (Some ''size'') (show_size sz), manager_evidence unitName (Some ''quota'') (js_take 256 figures)])))"

section \<open>Host\<close>

datatype standing_host = HostFree | HostOurs | HostCollision string | HostLeftover string string

text \<open>\<open>dns\<close> reads the content of a record by name and type; \<open>clusters\<close> are the domains of this installation's clusters.\<close>

definition readStandingHost :: "(string \<Rightarrow> string \<Rightarrow> thrown + string option) \<Rightarrow> string list \<Rightarrow> string \<Rightarrow> string \<Rightarrow> thrown + standing_host" where
  "readStandingHost dns clusters recordName clusterFqdn =
     bindE (dns recordName ''CNAME'') (\<lambda>named.
     case named of
       None \<Rightarrow> bindE (dns recordName ''A'') (\<lambda>address. Inr (case address of None \<Rightarrow> HostFree | Some a \<Rightarrow> HostLeftover ''A'' a))
     | Some c \<Rightarrow> Inr (if c = clusterFqdn then HostOurs else if c \<in> set clusters then HostCollision c else HostLeftover ''CNAME'' c))"

definition standingHostRefusal :: "string \<Rightarrow> string \<Rightarrow> string \<Rightarrow> string" where
  "standingHostRefusal recordName unit cluster =
     ''the host '' @ recordName @ '' already points at '' @ cluster @ '', a cluster of this installation'' @ dash @ ''refusing to point '' @ dq unit @
     '' at a second cluster: one stage of a unit has ONE host, and that cluster serves it. Offboard the unit there first, or give the two clusters different unit_apex answers.''"

definition gateUnitHost :: "string \<Rightarrow> string \<Rightarrow> string \<Rightarrow> standing_host option \<Rightarrow> gate_outcome" where
  "gateUnitHost host unitName clusterFqdn standing =
     (let row = hard_row ''G27'' ''unit host'' (''the host '' @ host @ '' is free, already points at '' @ clusterFqdn @
            '', or carries a record that points at no cluster of this installation (what an installation that is gone left in the zone, which provision-dns replaces)'' @ dash @
            ''never another cluster of this installation'')
      in case standing of
           None \<Rightarrow> row False ''no DNS provider is wired on this manager, so the zone could not be read''
             (''the unit's ONE public record is a mandatory part of this run kind (provision-dns fails loud without a provider); '' @
              ''set CLOUDFLARE_DNS_API_TOKEN on the manager and plan the onboarding again'') (''no DNS provider'' @ dash @ ''the host cannot be measured'') None
         | Some HostFree \<Rightarrow> row True (host @ '' is free'' @ dash @ ''no record stands under it'') [] ''host is free'' None
         | Some HostOurs \<Rightarrow> row True (host @ '' already points at '' @ clusterFqdn @ dash @ ''a re-run of this onboarding, not a takeover'') [] ''host already ours'' None
         | Some (HostLeftover kind content) \<Rightarrow> row True
             (capGateText (host @ '' stands as '' @ kind @ '' '' @ content @ '', which points at no cluster of this installation'' @ dash @
                ''what an installation that is gone left in the zone; provision-dns replaces it with a CNAME onto '' @ clusterFqdn)) []
             (''host is a leftover of a gone installation'' @ dash @ ''will be replaced'') (Some [manager_evidence host (Some ''standing'') (kind @ '' '' @ content)])
         | Some (HostCollision c) \<Rightarrow> row False (capGateText (standingHostRefusal host unitName c))
             (''one stage of a unit has ONE host, and another cluster of this installation serves it'' @ dash @
              ''offboard the unit there first, or give the two clusters different unit_apex answers'')
             ''host is served by another cluster of this installation'' (Some [manager_evidence host (Some ''standing'') (''CNAME '' @ c)]))"

section \<open>Mail sender\<close>

definition gateMailSender :: "string \<Rightarrow> stage \<Rightarrow> (string \<times> string) list \<Rightarrow> string \<Rightarrow> string option \<Rightarrow> gate_outcome" where
  "gateMailSender unitName s senders cluster apiHost =
     (let others = filter (\<lambda>x. fst x \<noteq> unitName) senders;
          row = hard_row ''G29'' ''mail sender'' (''no other unit carries an SMTP entry at '' @ show_stage s @ dash @ ''one stage has one mail sender'' @ dash @ ''and the map of '' @ cluster @
            '' carries the tailnet address (global.apiHost) the relay reaches the entry on'')
      in if others \<noteq> []
         then row False (join '', '' (map (\<lambda>(u, c). u @ '' (on '' @ c @ '')'') others) @ '' already carries the SMTP entry of '' @ show_stage s)
                (''offboard '' @ join '', '' (map fst others) @ '' at '' @ show_stage s @ '' first, or onboard '' @ unitName @ '' without smtpEntry'')
                ''the stage already has a mail sender'' (Some (map (\<lambda>(u, c). manager_evidence u (Some ''smtpEntry'') c) others))
         else case apiHost of
                None \<Rightarrow> row False (''the map of '' @ cluster @ '' carries no global.apiHost'')
                  (''the relay reaches '' @ unitName @ '''s SMTP entry only on the tailnet address of '' @ cluster @ '', which its map does not carry'' @ dash @
                   ''deploy-slave writes it for a slave and tailnet-record-address for a master'') ''the cluster's map carries no tailnet address'' None
              | Some a \<Rightarrow> row True (unitName @ '' becomes the mail sender of '' @ show_stage s @ '', reached at '' @ a @ '' on '' @ cluster) [] ''the stage's only mail sender'' None)"

section \<open>Release workflow\<close>

text \<open>A workflow file as the YAML parser reads it; \<open>kit\<close> is the content of the release kit's own workflow.\<close>

definition RELEASE_WORKFLOW_PATH :: string where
  "RELEASE_WORKFLOW_PATH = ''.github/workflows/release.yml''"

definition on_value :: "yaml_deps \<Rightarrow> string \<Rightarrow> json option" where
  "on_value Y t = (case ym_parse Y t of Inr (JObj kvs) \<Rightarrow> map_of kvs ''on'' | _ \<Rightarrow> None)"

definition workflowTriggers :: "yaml_deps \<Rightarrow> string \<Rightarrow> string list option" where
  "workflowTriggers Y t =
     (case on_value Y t of
        Some (JStr s) \<Rightarrow> Some [s]
      | Some (JArr xs) \<Rightarrow> map_option sort (those (map as_str xs))
      | Some (JObj kvs) \<Rightarrow> Some (sort (map fst kvs))
      | _ \<Rightarrow> None)"

definition onMap :: "yaml_deps \<Rightarrow> string \<Rightarrow> (string \<times> json) list option" where
  "onMap Y t = (case on_value Y t of Some (JObj kvs) \<Rightarrow> Some kvs | _ \<Rightarrow> None)"

definition pushFilter :: "yaml_deps \<Rightarrow> string \<Rightarrow> string option" where
  "pushFilter Y t = (case onMap Y t of Some kvs \<Rightarrow> map_option json_stringify (map_of kvs ''push'') | None \<Rightarrow> None)"

definition dispatchInputs :: "yaml_deps \<Rightarrow> string \<Rightarrow> string list" where
  "dispatchInputs Y t =
     (case onMap Y t of
        Some kvs \<Rightarrow>
          (case map_of kvs ''workflow_dispatch'' of
             Some (JObj d) \<Rightarrow>
               (case map_of d ''inputs'' of
                  Some (JObj inputs) \<Rightarrow> sort (map fst inputs)
                | Some (JArr xs) \<Rightarrow> sort (map show_nat [0..<length xs])
                | _ \<Rightarrow> [])
           | _ \<Rightarrow> [])
      | None \<Rightarrow> [])"

definition OLDER_KIT_TRIGGERS :: "string list" where
  "OLDER_KIT_TRIGGERS = [''workflow_dispatch'']"

definition OLDER_KIT_INPUTS :: "string list" where
  "OLDER_KIT_INPUTS = [''channel'', ''stage'', ''version'']"

definition same_names :: "string list option \<Rightarrow> string list option \<Rightarrow> bool" where
  "same_names a b = (case (a, b) of (Some x, Some y) \<Rightarrow> join '','' x = join '','' y | _ \<Rightarrow> False)"

definition is_release_kit :: "yaml_deps \<Rightarrow> string \<Rightarrow> string \<Rightarrow> bool" where
  "is_release_kit Y kit t \<longleftrightarrow>
     (same_names (workflowTriggers Y t) (workflowTriggers Y kit) \<and> pushFilter Y t = pushFilter Y kit) \<or>
     (same_names (workflowTriggers Y t) (Some OLDER_KIT_TRIGGERS) \<and> list_all (\<lambda>n. n \<in> set (dispatchInputs Y t)) OLDER_KIT_INPUTS \<and> has_substring t ''release/release.sh'')"

definition gateReleaseWorkflow :: "yaml_deps \<Rightarrow> string \<Rightarrow> string option \<Rightarrow> gate_outcome" where
  "gateReleaseWorkflow Y kit found =
     (let path = RELEASE_WORKFLOW_PATH;
          row = hard_row ''G28'' ''release workflow'' (path @ '' is absent, or it is the release kit's own workflow (on: '' @
            (case workflowTriggers Y kit of Some ts \<Rightarrow> join '', '' ts | None \<Rightarrow> ''undefined'') @ '', the push on the kit's release tags) or an older kit (on: '' @ join '', '' OLDER_KIT_TRIGGERS @
            '' with the inputs '' @ join '', '' OLDER_KIT_INPUTS @ '', running release/release.sh)'' @ dash @ ''the onboarding writes the kit there and may replace nothing else'')
      in case found of
           None \<Rightarrow> row True (path @ '' is absent'' @ dash @ ''the kit will be written there'') [] ''no release workflow yet'' None
         | Some t \<Rightarrow>
             if t = kit then row True (path @ '' carries the current release kit'') [] ''release workflow is the kit's'' None
             else (let triggers = workflowTriggers Y t
                   in if is_release_kit Y kit t
                      then row True (path @ '' carries an older release kit (on: '' @ (case triggers of Some ts \<Rightarrow> join '', '' ts | None \<Rightarrow> ''undefined'') @ '')'' @ dash @ ''the onboarding brings it forward'') []
                             ''release workflow is an older kit'' None
                      else row False
                             (case triggers of None \<Rightarrow> path @ '' is not readable as a workflow file, so it cannot be the release kit's''
                              | Some ts \<Rightarrow> path @ '' is the unit's own workflow (on: '' @ join '', '' ts @ ''), not the release kit's'')
                             (''the onboarding writes the release kit to '' @ path @ '' and would replace this workflow; move it to another file under .github/workflows/ and plan the onboarding again'')
                             ''release workflow is not the kit's''
                             (Some [repo_evidence path ''on'' (js_take 256 (join '', '' (case triggers of Some ts \<Rightarrow> ts | None \<Rightarrow> [''(unreadable)''])))])))"

section \<open>What a passing row says\<close>

lemma hard_row_sel [simp]:
  "gt_status (hard_row i t e ok f r d ev) = (if ok then GPass else GFail)" "gt_severity (hard_row i t e ok f r d ev) = SevHard" "gt_id (hard_row i t e ok f r d ev) = i"
  by (simp_all add: hard_row_def)

text \<open>A name that lies in no reserved space.\<close>

definition name_free :: "string \<Rightarrow> bool" where
  "name_free name \<longleftrightarrow> name \<notin> set PLATFORM_NAMESPACES \<and> \<not> startsWith name ''kube-'' \<and> \<not> endsWith name BUILD_NAMESPACE_SUFFIX \<and>
     (\<forall>s. \<not> endsWith name (''-'' @ show_stage s)) \<and> name \<notin> set RESERVED_PROJECT_NAMES"

lemma STAGE_all: "s \<in> set STAGE"
  by (cases s) (simp_all add: STAGE_def)

lemma find_none: "List.find P xs = None \<longleftrightarrow> (\<forall>x \<in> set xs. \<not> P x)"
  by (induction xs) auto

lemma none_listed: "(case x of Some y \<Rightarrow> [f y] | None \<Rightarrow> []) = [] \<longleftrightarrow> x = None"
  by (cases x) auto

lemma stage_all: "(\<forall>s. P s) \<longleftrightarrow> P Dev \<and> P Test \<and> P Prod"
  by (metis stage.exhaust)

lemma name_gate:
  "gt_status (gateUnitName name s label subs foreign) = GPass \<longleftrightarrow>
     name_free name \<and> consumerNamespace name s \<notin> set PLATFORM_NAMESPACES \<and> label \<notin> set subs \<and> label \<notin> snd ` set foreign"
proof -
  have "gt_status (gateUnitName name s label subs foreign) = GPass \<longleftrightarrow> name_collisions name s label subs foreign = []"
    by (simp add: gateUnitName_def Let_def)
  also have "\<dots> \<longleftrightarrow> name_free name \<and> consumerNamespace name s \<notin> set PLATFORM_NAMESPACES \<and> label \<notin> set subs \<and> label \<notin> snd ` set foreign"
    using STAGE_all by (auto simp: name_collisions_def name_free_def find_none none_listed image_iff split: if_splits)
  finally show ?thesis .
qed

lemma build_gate: "gt_status (gateBuildNameUniqueness u names foreign) = GPass \<longleftrightarrow> set names \<inter> snd ` set foreign = {}"
proof -
  let ?m = "map_of (rev (map (\<lambda>(u, b). (b, u)) foreign))"
  have none: "?m n = None \<longleftrightarrow> n \<notin> snd ` set foreign" for n by (force simp: map_of_eq_None_iff image_iff)
  have "concat (map (\<lambda>n. case ?m n of Some u \<Rightarrow> [(n, u)] | None \<Rightarrow> []) names) = [] \<longleftrightarrow> (\<forall>n \<in> set names. ?m n = None)"
    by (auto split: option.splits)
  then show ?thesis using none by (auto simp: gateBuildNameUniqueness_def Let_def)
qed

lemma declaration_gate:
  "gt_status (gateBuildDeclaration builds chart) = GPass \<longleftrightarrow>
     builds \<noteq> [] \<and> (case chart of None \<Rightarrow> True | Some (path, s, m) \<Rightarrow> cm_error m = None \<and> cm_missing m = [])"
  by (auto simp: gateBuildDeclaration_def Let_def split: option.splits prod.splits)

lemma chart_pins:
  "cm_error (mapBuildsToChartPins Y builds src file) = None \<and> cm_missing (mapBuildsToChartPins Y builds src file) = [] \<and> builds \<noteq> [] \<Longrightarrow>
     \<exists>t pins. file = Some t \<and> parseBuildPins Y src t = Inr pins \<and> set builds \<subseteq> set (map bp_image pins)"
  by (auto simp: mapBuildsToChartPins_def filter_empty_conv split: option.splits sum.splits)

lemma host_gate: "gt_status (gateUnitHost h u c st) = GPass \<longleftrightarrow> st \<noteq> None \<and> (\<forall>d. st \<noteq> Some (HostCollision d))"
  by (auto simp: gateUnitHost_def Let_def split: option.split standing_host.split)

lemma sender_gate: "gt_status (gateMailSender u s senders c api) = GPass \<longleftrightarrow> (\<forall>x \<in> set senders. fst x = u) \<and> api \<noteq> None"
  by (auto simp: gateMailSender_def Let_def filter_empty_conv split: option.split)

lemma size_gate: "gt_status (gateUnitSize u sz (Some (b, q)) sizes) = GPass \<longleftrightarrow> frugal_parts b sz (case sizes of Some l \<Rightarrow> l | None \<Rightarrow> []) = []"
  by (simp add: gateUnitSize_def Let_def)

lemma gates_hard:
  "gt_severity (gateUnitName n s l ts fs) = SevHard" "gt_severity (gateBuildNameUniqueness n bs fb) = SevHard" "gt_severity (gateBuildDeclaration bs ch) = SevHard"
  "gt_severity (gateManifestInput ids) = SevHard" "gt_severity (gateUnitHost h n c st) = SevHard" "gt_severity (gateMailSender n s se c a) = SevHard"
  "gt_severity (gateUnitSize n z br zs) = SevHard" "gt_severity (gateReleaseWorkflow Y k f) = SevHard" "gt_severity (gateRepoAccess ok d) = SevHard"
  by (auto simp: gateUnitName_def gateBuildNameUniqueness_def gateBuildDeclaration_def gateManifestInput_def gateUnitHost_def gateMailSender_def gateUnitSize_def
      gateReleaseWorkflow_def gateRepoAccess_def Let_def split: option.split prod.split standing_host.split)

lemma composed_pass: "gr_verdict (composeReport r gs) = VPass \<longleftrightarrow> gr_verdict r = VPass \<and> hardGatesPass (gr_gates r) \<and> hardGatesPass gs"
  by (auto simp: composeReport_def Let_def hardGatesPass_def)

section \<open>Derived identities\<close>

definition identities :: "string \<Rightarrow> string set" where
  "identities name = insert name (insert (name @ BUILD_NAMESPACE_SUFFIX) (range (consumerNamespace name)))"

lemma platform_ends: "p \<in> set PLATFORM_NAMESPACES \<Longrightarrow> \<not> endsWith p BUILD_NAMESPACE_SUFFIX \<and> \<not> endsWith p (''-'' @ show_stage s)"
  by (cases s) (auto simp: PLATFORM_NAMESPACES_def BUILD_NAMESPACE_SUFFIX_def endsWith_def)

lemma derived_ends_differ: "a @ ''-build'' \<noteq> b @ ''-'' @ show_stage s"
  by (cases s) (auto dest!: arg_cong [of _ _ rev])

lemma derived_stages: "consumerNamespace a s = consumerNamespace b t \<Longrightarrow> a = b \<and> s = t"
  by (cases s; cases t) (auto simp: consumerNamespace_def dest!: arg_cong [of _ _ rev])

text \<open>
  C12 The identities the platform derives from two admitted names (the name itself, its build namespace, its namespace at every stage) have nothing in common, and none of them is a
  platform namespace.
\<close>

theorem admitted_names_never_collide:
  assumes "gt_status (gateUnitName u s label subs foreign) = GPass" and "gt_status (gateUnitName v t label' subs' foreign') = GPass" and "u \<noteq> v"
  shows "identities u \<inter> identities v = {} \<and> identities u \<inter> set PLATFORM_NAMESPACES = {}"
proof
  have free: "name_free u" "name_free v" using assms(1,2) by (simp_all add: name_gate)
  have alone: "w \<noteq> x @ BUILD_NAMESPACE_SUFFIX" "w \<noteq> consumerNamespace x r" if "name_free w" for w x r
    using that by (auto simp: name_free_def consumerNamespace_def endsWith_split)
  have apart: "a @ BUILD_NAMESPACE_SUFFIX \<noteq> consumerNamespace b r" for a b r using derived_ends_differ by (simp add: BUILD_NAMESPACE_SUFFIX_def consumerNamespace_def)
  have "x \<notin> identities v" if x: "x \<in> identities u" for x
  proof -
    consider "x = u" | "x = u @ BUILD_NAMESPACE_SUFFIX" | r where "x = consumerNamespace u r" using x by (auto simp: identities_def)
    then show ?thesis
    proof cases
      case 1
      then show ?thesis using alone [OF free(1)] assms(3) by (auto simp: identities_def)
    next
      case 2
      then show ?thesis using alone [OF free(2)] apart assms(3) by (auto simp: identities_def)
    next
      case 3
      then show ?thesis using alone(2) [OF free(2)] apart assms(3) by (auto simp: identities_def dest: derived_stages) (metis apart)+
    qed
  qed
  then show "identities u \<inter> identities v = {}" by blast
  show "identities u \<inter> set PLATFORM_NAMESPACES = {}"
    using platform_ends free(1) by (auto simp: identities_def name_free_def consumerNamespace_def endsWith_split)
qed

theorem admitted_names_never_collide_witness:
  "identities ''acme'' \<inter> identities ''acme-auth'' = {} \<and> ''acme-build'' \<in> identities ''acme''"
proof -
  have "name_free ''acme''" "name_free ''acme-auth''"
    by (simp_all add: name_free_def PLATFORM_NAMESPACES_def RESERVED_PROJECT_NAMES_def BUILD_NAMESPACE_SUFFIX_def startsWith_code endsWith_def stage_all)
  then have "gt_status (gateUnitName ''acme'' Dev ''acme'' [] []) = GPass" "gt_status (gateUnitName ''acme-auth'' Dev ''acme-auth'' [] []) = GPass"
    by (simp_all add: name_gate consumerNamespace_def PLATFORM_NAMESPACES_def)
  from admitted_names_never_collide [OF this] show ?thesis by (simp add: identities_def BUILD_NAMESPACE_SUFFIX_def)
qed

end
