(* ===== verification/Gate_Run.thy ===== *)
theory Gate_Run
  imports Gate_Report JS_Number
begin

text \<open>
  The gate runner inside the sandbox: it proves its own fence (\<^verbatim>\<open>gate-runner/src/fence.ts\<close>), runs the gates over the cloned repository
  (\<^verbatim>\<open>pipeline.ts\<close>) and hands out the report (\<^verbatim>\<open>cli.ts\<close>).

  The TCP probe, the URL parser, the clock and the workspace are parameters, and so are the gates themselves: a gate is a function of the context the
  pipeline builds. The probes of one run are numbered in the order they are made, so that dialing one address twice may answer differently.
\<close>

section \<open>The fence\<close>

record fence_config =
  fc_mustFailTargets :: "string list"
  fc_managerAddr :: string
  fc_mustPassTarget :: string
  fc_declaredListening :: bool
  fc_timeoutMs :: "(bool \<times> jsnum) option"

record host_port =
  hp_host :: string
  hp_port :: nat

record parsed_url =
  pu_protocol :: string
  pu_hostname :: string
  pu_port :: string

type_synonym url_parser = "string \<Rightarrow> parsed_url option"

type_synonym connect_fn = "nat \<Rightarrow> string \<Rightarrow> nat \<Rightarrow> jsnum \<Rightarrow> thrown + bool"

definition DEFAULT_PORT :: nat where
  "DEFAULT_PORT = 443"

definition DEFAULT_TIMEOUT_MS :: jsnum where
  "DEFAULT_TIMEOUT_MS = JFin 3000"

definition normalizePort :: "bool \<times> jsnum \<Rightarrow> nat" where
  "normalizePort p =
     (case p of
        (False, JFin x) \<Rightarrow> if x = of_int \<lfloor>x\<rfloor> \<and> 0 < x \<and> x \<le> 65535 then nat \<lfloor>x\<rfloor> else DEFAULT_PORT
      | _ \<Rightarrow> DEFAULT_PORT)"

definition stripBrackets :: "string \<Rightarrow> string" where
  "stripBrackets host = (if startsWith host ''['' \<and> endsWith host '']'' then drop_last 1 (drop 1 host) else host)"

definition index_of :: "char \<Rightarrow> string \<Rightarrow> nat" where
  "index_of c s = length (takeWhile (\<lambda>d. d \<noteq> c) s)"

definition parse_address :: "string \<Rightarrow> host_port" where
  "parse_address raw =
     (if startsWith raw ''['' then
        (if CHR '']'' \<in> set raw
         then let e = index_of (CHR '']'') raw; rest = drop (e + 1) raw
              in \<lparr>hp_host = take (e - 1) (drop 1 raw),
                  hp_port = (if startsWith rest '':'' then normalizePort (to_number (drop 1 rest)) else DEFAULT_PORT)\<rparr>
         else \<lparr>hp_host = raw, hp_port = DEFAULT_PORT\<rparr>)
      else if length (filter (\<lambda>c. c = CHR '':'') raw) \<noteq> 1 then \<lparr>hp_host = raw, hp_port = DEFAULT_PORT\<rparr>
      else let i = index_of (CHR '':'') raw; host = take i raw
           in \<lparr>hp_host = (if host = [] then raw else host), hp_port = normalizePort (to_number (drop (i + 1) raw))\<rparr>)"

definition parseTarget :: "url_parser \<Rightarrow> string \<Rightarrow> host_port" where
  "parseTarget url target =
     (let raw = trim target
      in if raw = [] then \<lparr>hp_host = [], hp_port = DEFAULT_PORT\<rparr>
         else case (if has_substring raw ''://'' then url raw else None) of
                Some u \<Rightarrow> \<lparr>hp_host = stripBrackets (pu_hostname u),
                   hp_port = (if pu_port u \<noteq> [] then normalizePort (to_number (pu_port u)) else if pu_protocol u = ''http:'' then 80 else DEFAULT_PORT)\<rparr>
              | None \<Rightarrow> parse_address raw)"

definition probeDenied :: "connect_fn \<Rightarrow> nat \<Rightarrow> host_port \<Rightarrow> jsnum \<Rightarrow> bool" where
  "probeDenied connect n hp timeout =
     (if hp_host hp = [] then False else case connect n (hp_host hp) (hp_port hp) timeout of Inr b \<Rightarrow> b = False | Inl _ \<Rightarrow> False)"

definition probeReached :: "connect_fn \<Rightarrow> nat \<Rightarrow> host_port \<Rightarrow> jsnum \<Rightarrow> bool" where
  "probeReached connect n hp timeout =
     (if hp_host hp = [] then False else case connect n (hp_host hp) (hp_port hp) timeout of Inr b \<Rightarrow> b = True | Inl _ \<Rightarrow> False)"

definition positive_number :: "bool \<times> jsnum \<Rightarrow> bool" where
  "positive_number p = (case p of (False, JFin x) \<Rightarrow> 0 < x | (False, JInf) \<Rightarrow> True | _ \<Rightarrow> False)"

definition probe_timeout :: "fence_config \<Rightarrow> jsnum" where
  "probe_timeout cfg = (case fc_timeoutMs cfg of Some p \<Rightarrow> if positive_number p then snd p else DEFAULT_TIMEOUT_MS | None \<Rightarrow> DEFAULT_TIMEOUT_MS)"

definition selfProbe :: "url_parser \<Rightarrow> fence_config \<Rightarrow> connect_fn \<Rightarrow> sandbox_attestation" where
  "selfProbe url cfg connect =
     (let timeout = probe_timeout cfg; targets = fc_mustFailTargets cfg; n = length targets;
          denied = map (\<lambda>(i, t). probeDenied connect i (parseTarget url t) timeout) (enumerate 0 targets);
          managerDenied = probeDenied connect n (parseTarget url (fc_managerAddr cfg)) timeout;
          reached = probeReached connect (n + 1) (parseTarget url (fc_mustPassTarget cfg)) timeout
      in \<lparr>sa_mustFailTargets = targets, sa_declaredListening = fc_declaredListening cfg,
          sa_mustFailDenied = (denied \<noteq> [] \<and> list_all (\<lambda>d. d) denied), sa_managerAddrDenied = managerDenied, sa_mustPassReached = reached\<rparr>)"

section \<open>The pipeline\<close>

record job_meta =
  jm_targetName :: string
  jm_stage :: string
  jm_chartPath :: "string option"
  jm_clusterValueFiles :: json
  jm_repoURL :: string
  jm_requestedRef :: string
  jm_resolvedSha :: string

type_synonym file_map = "(string \<times> string) list"

record gate_context =
  gc_meta :: job_meta
  gc_files :: file_map
  gc_manifest :: "json option"
  gc_rendered :: "json list"
  gc_dependencies :: "resolved_dependency list"

record check_gate =
  cg_id :: string
  cg_check :: "gate_context \<Rightarrow> thrown + gate_outcome"

record render_outcome =
  ro_result :: gate_outcome
  ro_rendered :: "json list"
  ro_dependencies :: "resolved_dependency list"

record pipeline_config =
  pc_runnerVersion :: string
  pc_kubeVersion :: string
  pc_depBuildMs :: "bool \<times> jsnum"
  pc_renderMs :: "bool \<times> jsnum"

text \<open>The gates: the structure gate parses the manifest, the render gate calls helm in the workspace, the others are checks.\<close>

record gate_set =
  gs_structure :: "file_map \<Rightarrow> job_meta \<Rightarrow> thrown + (gate_outcome \<times> json option)"
  gs_structureId :: string
  gs_preRender :: "check_gate list"
  gs_render :: "string \<Rightarrow> job_meta \<Rightarrow> json \<Rightarrow> file_map \<Rightarrow> pipeline_config \<Rightarrow> thrown + render_outcome"
  gs_renderId :: string
  gs_noChart :: "string list \<Rightarrow> gate_outcome"
  gs_postRender :: "check_gate list"

definition SANDBOX_GATE_IDS :: "gate_set \<Rightarrow> string list" where
  "SANDBOX_GATE_IDS G = gs_structureId G # map cg_id (gs_preRender G) @ gs_renderId G # map cg_id (gs_postRender G)"

definition run_checks :: "gate_context \<Rightarrow> check_gate list \<Rightarrow> thrown + gate_outcome list" where
  "run_checks ctx gates = mapE (\<lambda>g. cg_check g ctx) gates"

definition render_phase :: "gate_set \<Rightarrow> file_map \<Rightarrow> job_meta \<Rightarrow> string \<Rightarrow> pipeline_config \<Rightarrow> json \<Rightarrow> thrown + (gate_outcome list \<times> resolved_dependency list)" where
  "render_phase G files meta workspace cfg manifest =
     (if jm_chartPath meta = None then Inr ([gs_noChart G (map cg_id (gs_postRender G))], [])
      else bindE (gs_render G workspace meta manifest files cfg) (\<lambda>ro.
        if gt_status (ro_result ro) = GPass
        then bindE (run_checks \<lparr>gc_meta = meta, gc_files = files, gc_manifest = Some manifest, gc_rendered = ro_rendered ro, gc_dependencies = ro_dependencies ro\<rparr>
                     (gs_postRender G)) (\<lambda>post. Inr (ro_result ro # post, ro_dependencies ro))
        else Inr ([ro_result ro], ro_dependencies ro)))"

definition runGates :: "report_deps \<Rightarrow> gate_set \<Rightarrow> file_map \<Rightarrow> job_meta \<Rightarrow> sandbox_attestation \<Rightarrow> string \<Rightarrow> pipeline_config \<Rightarrow> (nat \<Rightarrow> int) \<Rightarrow> thrown + gate_report" where
  "runGates D G files meta sandbox workspace cfg now =
     bindE (gs_structure G files meta) (\<lambda>(structure, manifest).
     bindE (run_checks \<lparr>gc_meta = meta, gc_files = files, gc_manifest = manifest, gc_rendered = [], gc_dependencies = []\<rparr> (gs_preRender G)) (\<lambda>pre.
     bindE (case manifest of
              Some m \<Rightarrow> if gt_status structure = GPass then render_phase G files meta workspace cfg m else Inr ([], [])
            | None \<Rightarrow> Inr ([], [])) (\<lambda>(rest, deps).
     assembleReport D \<lparr>ri_runnerVersion = pc_runnerVersion cfg, ri_repoURL = jm_repoURL meta, ri_requestedRef = jm_requestedRef meta,
       ri_resolvedSha = jm_resolvedSha meta, ri_startedAt = now 0, ri_finishedAt = now 1, ri_manifest = manifest, ri_dependencies = deps,
       ri_gates = structure # pre @ rest, ri_sandbox = sandbox\<rparr>)))"

section \<open>The command\<close>

record cli_inputs =
  ci_meta :: job_meta
  ci_sourceDir :: string
  ci_pipeline :: pipeline_config
  ci_fence :: fence_config
  ci_jobBudgetMs :: "bool \<times> jsnum"

type_synonym env = "string \<Rightarrow> string option"

definition req :: "env \<Rightarrow> string \<Rightarrow> thrown + string" where
  "req env name =
     (case env name of
        Some v \<Rightarrow> if trim v = [] then Inl (JsError ''Error'' (''gate-runner CLI: required env '' @ name @ '' is not set'')) else Inr v
      | None \<Rightarrow> Inl (JsError ''Error'' (''gate-runner CLI: required env '' @ name @ '' is not set'')))"

definition intEnv :: "env \<Rightarrow> string \<Rightarrow> jsnum \<Rightarrow> bool \<times> jsnum" where
  "intEnv env name def =
     (case env name of
        Some v \<Rightarrow> (let n = to_number v in if trim v = [] then (False, def) else if snd n \<noteq> JInf \<and> positive_number n then n else (False, def))
      | None \<Rightarrow> (False, def))"

definition csv :: "string option \<Rightarrow> string list" where
  "csv v = (case v of Some s \<Rightarrow> filter (\<lambda>w. w \<noteq> []) (map trim (split_char (CHR '','') s)) | None \<Rightarrow> [])"

definition chartPathEnv :: "env \<Rightarrow> string option" where
  "chartPathEnv env = (case env ''CHART_PATH'' of Some v \<Rightarrow> if trim v \<noteq> [] then Some v else None | None \<Rightarrow> None)"

text \<open>\<open>valueFiles\<close> stands for reading the JSON text and holding it against \<^verbatim>\<open>ClusterValueFilesSchema\<close>.\<close>

definition parseEnv :: "(string \<Rightarrow> thrown + json) \<Rightarrow> env \<Rightarrow> thrown + cli_inputs" where
  "parseEnv valueFiles env =
     bindE (req env ''STAGE'') (\<lambda>stage.
     if stage \<notin> {''dev'', ''test'', ''prod''}
     then Inl (JsError ''Error'' (''gate-runner CLI: STAGE '' @ [CHR 0x22] @ stage @ [CHR 0x22] @ '' is not one of dev|test|prod''))
     else
     bindE (req env ''CLUSTER_VALUE_FILES'') (\<lambda>cvf.
     bindE (valueFiles cvf) (\<lambda>clusterValueFiles.
     bindE (req env ''TARGET_NAME'') (\<lambda>targetName.
     bindE (req env ''REPO_URL'') (\<lambda>repoURL.
     bindE (req env ''REQUESTED_REF'') (\<lambda>requestedRef.
     bindE (req env ''RESOLVED_SHA'') (\<lambda>resolvedSha.
     bindE (req env ''SOURCE_DIR'') (\<lambda>sourceDir.
     bindE (req env ''RUNNER_VERSION'') (\<lambda>runnerVersion.
     bindE (req env ''KUBE_VERSION'') (\<lambda>kubeVersion.
     bindE (req env ''MANAGER_ADDR'') (\<lambda>managerAddr.
     bindE (req env ''MUST_PASS_TARGET'') (\<lambda>mustPassTarget.
     Inr \<lparr>ci_meta = \<lparr>jm_targetName = targetName, jm_stage = stage, jm_chartPath = chartPathEnv env, jm_clusterValueFiles = clusterValueFiles,
            jm_repoURL = repoURL, jm_requestedRef = requestedRef, jm_resolvedSha = resolvedSha\<rparr>,
          ci_sourceDir = sourceDir,
          ci_pipeline = \<lparr>pc_runnerVersion = runnerVersion, pc_kubeVersion = kubeVersion, pc_depBuildMs = intEnv env ''DEP_BUILD_MS'' (JFin 60000),
            pc_renderMs = intEnv env ''RENDER_MS'' (JFin 120000)\<rparr>,
          ci_fence = \<lparr>fc_mustFailTargets = csv (env ''MUST_FAIL_TARGETS''), fc_managerAddr = managerAddr, fc_mustPassTarget = mustPassTarget,
            fc_declaredListening = (env ''CONFIRMED_LISTENING'' = Some ''true''), fc_timeoutMs = Some (intEnv env ''FENCE_TIMEOUT_MS'' (JFin 3000))\<rparr>,
          ci_jobBudgetMs = intEnv env ''JOB_BUDGET_MS'' (JFin 480000)\<rparr>))))))))))))"

text \<open>
  \<^verbatim>\<open>gates/sandbox-fence.gate.ts\<close>
\<close>

definition fence_evidence :: "string \<Rightarrow> string \<Rightarrow> gate_evidence" where
  "fence_evidence name v = \<lparr>ev_source = FromRunner, ev_file = None, ev_docIndex = None, ev_kind = None, ev_name = Some name, ev_fieldPath = None, ev_value = Some (js_take 256 v)\<rparr>"

definition FENCE_EXPECTED :: string where
  "FENCE_EXPECTED = ''the runner's own egress self-probe proves the sandbox fence holds before any gate reads the repository: '' @
     ''every must-fail target denied against the Manager's DECLARATION that they were listening '' @ em_dash @ '' a declaration no probe stands behind '' @ em_dash @
     '' the Manager's own address denied, and the one allowed egress reached''"

definition FENCE_REASON :: string where
  "FENCE_REASON = ''the sandbox is what keeps untrusted repository content away from the cluster it is being onboarded to, so a fence that is not provably holding means the repository is not read at all. '' @
     ''This is a fault in the platform's own validation sandbox, not a finding about the repository under validation: nothing in that repository can change this outcome, '' @
     ''and the onboarding is refused until the sandbox's egress policy holds again.''"

definition sandboxFenceRefusal :: "sandbox_attestation \<Rightarrow> string list \<Rightarrow> gate_outcome" where
  "sandboxFenceRefusal sandbox skippedGateIds =
     (let legs = sandboxFailures sandbox;
          skipped = (if skippedGateIds \<noteq> [] then join '', '' skippedGateIds @ '' did not run'' else ''no sandbox gate exists to run'')
      in \<lparr>gt_id = SANDBOX_FENCE_GATE_ID, gt_title = ''sandbox fence'', gt_severity = SevHard, gt_status = GFail, gt_expected = FENCE_EXPECTED,
          gt_found = ''The sandbox fence did not hold: '' @ join ''; '' legs @ ''. '' @ skipped @ '' '' @ em_dash @
            '' no gate has read this repository, and the manifest in this report is null because nothing parsed it, not because the repository lacks one.'',
          gt_reason = Some FENCE_REASON,
          gt_evidence = Some (fence_evidence ''mustFailTargets'' (join '', '' (sa_mustFailTargets sandbox)) # map (fence_evidence ''fence'') (take 4 legs)),
          gt_detail = ''the sandbox fence did not hold '' @ em_dash @ '' no gate ran'', gt_hint = None\<rparr>)"

definition fenceRefused :: "report_deps \<Rightarrow> gate_set \<Rightarrow> cli_inputs \<Rightarrow> sandbox_attestation \<Rightarrow> (nat \<Rightarrow> int) \<Rightarrow> thrown + gate_report" where
  "fenceRefused D G i sandbox now =
     assembleReport D \<lparr>ri_runnerVersion = pc_runnerVersion (ci_pipeline i), ri_repoURL = jm_repoURL (ci_meta i), ri_requestedRef = jm_requestedRef (ci_meta i),
       ri_resolvedSha = jm_resolvedSha (ci_meta i), ri_startedAt = now 0, ri_finishedAt = now 1, ri_manifest = None, ri_dependencies = [],
       ri_gates = [sandboxFenceRefusal sandbox (SANDBOX_GATE_IDS G)], ri_sandbox = sandbox\<rparr>"

text \<open>\<open>readWorkspace\<close> reads the cloned tree; it throws when the job's budget ran out.\<close>

definition runGateCli :: "report_deps \<Rightarrow> gate_set \<Rightarrow> url_parser \<Rightarrow> cli_inputs \<Rightarrow> connect_fn \<Rightarrow> (string \<Rightarrow> thrown + file_map) \<Rightarrow> (nat \<Rightarrow> int) \<Rightarrow> thrown + gate_report" where
  "runGateCli D G url i connect readWorkspace now =
     (let sandbox = selfProbe url (ci_fence i) connect
      in if \<not> sandboxGreen sandbox then fenceRefused D G i sandbox now
         else bindE (readWorkspace (ci_sourceDir i)) (\<lambda>files. runGates D G files (ci_meta i) sandbox (ci_sourceDir i) (ci_pipeline i) now))"

text \<open>\<^verbatim>\<open>main\<close>: the file the report is written to, and its content.\<close>

definition cli_main :: "report_deps \<Rightarrow> gate_set \<Rightarrow> url_parser \<Rightarrow> (string \<Rightarrow> thrown + json) \<Rightarrow> env \<Rightarrow> connect_fn \<Rightarrow> (string \<Rightarrow> thrown + file_map) \<Rightarrow> (nat \<Rightarrow> int) \<Rightarrow>
    thrown + (string \<times> json)" where
  "cli_main D G url valueFiles env connect readWorkspace now =
     bindE (req env ''REPORT_OUT'') (\<lambda>reportOut.
     bindE (parseEnv valueFiles env) (\<lambda>inputs.
     bindE (runGateCli D G url inputs connect readWorkspace now) (\<lambda>report. Inr (reportOut, report_json report))))"

section \<open>What a passing report stands for\<close>

definition dialed :: "url_parser \<Rightarrow> fence_config \<Rightarrow> connect_fn \<Rightarrow> nat \<Rightarrow> string \<Rightarrow> bool \<Rightarrow> bool" where
  "dialed url cfg connect n target reached \<longleftrightarrow>
     (let hp = parseTarget url target in hp_host hp \<noteq> [] \<and> connect n (hp_host hp) (hp_port hp) (probe_timeout cfg) = Inr reached)"

definition fence_held :: "url_parser \<Rightarrow> fence_config \<Rightarrow> connect_fn \<Rightarrow> bool" where
  "fence_held url cfg connect \<longleftrightarrow>
     (let ts = fc_mustFailTargets cfg
      in fc_declaredListening cfg \<and> ts \<noteq> [] \<and> (\<forall>n < length ts. dialed url cfg connect n (ts ! n) False) \<and>
         dialed url cfg connect (length ts) (fc_managerAddr cfg) False \<and> dialed url cfg connect (length ts + 1) (fc_mustPassTarget cfg) True)"

lemma probes_dialed:
  "probeDenied connect n (parseTarget url t) (probe_timeout cfg) = dialed url cfg connect n t False"
  "probeReached connect n (parseTarget url t) (probe_timeout cfg) = dialed url cfg connect n t True"
  by (auto simp: probeDenied_def probeReached_def dialed_def Let_def split: sum.splits)

lemma selfProbe_green: "sandboxGreen (selfProbe url cfg connect) \<longleftrightarrow> fence_held url cfg connect"
proof -
  have "list_all (\<lambda>d. d) (map (\<lambda>(n, t). dialed url cfg connect n t False) (enumerate 0 ts)) \<longleftrightarrow> (\<forall>n < length ts. dialed url cfg connect n (ts ! n) False)" for ts
    by (simp add: list_all_length nth_enumerate_eq)
  moreover have e: "enumerate 0 ts \<noteq> [] \<longleftrightarrow> ts \<noteq> []" for ts :: "string list" by (cases ts) simp_all
  ultimately show ?thesis
    by (simp add: sandboxGreen_def selfProbe_def fence_held_def probes_dialed Let_def conj_ac e)
qed

lemma assembled_verdict: "assembleReport D i = Inr r \<Longrightarrow> gr_verdict r = VPass \<longleftrightarrow> hardGatesPass (gr_gates r) \<and> sandboxGreen (gr_sandbox r)"
  by (erule assembled) (simp add: draft_report_def)

lemma runGates_assembled:
  assumes "runGates D G files meta sandbox ws cfg now = Inr r"
  obtains i g where "assembleReport D i = Inr r" "ri_sandbox i = sandbox" "gs_structure G files meta = Inr (g, ri_manifest i)"
  using assms unfolding runGates_def by (auto simp: bindE_Inr)

text \<open>
  C8 a report that passes stands for a fence that held: at least one must-fail target was configured, every one of them and the Manager's own address was dialed
  and refused, the one allowed egress was reached, and every hard gate of the report passed. While the fence does not hold, the report is the same
  whatever the repository contains and whatever the gates would say, its only row is the failed fence gate, and its verdict is a fail.
\<close>

theorem passing_report_proves_the_fence:
  assumes "runGateCli D G url i connect readWorkspace now = Inr r"
  shows "(gr_verdict r = VPass \<longleftrightarrow> fence_held url (ci_fence i) connect \<and> (\<forall>g \<in> set (gr_gates r). gt_severity g = SevHard \<longrightarrow> gt_status g = GPass)) \<and>
    (\<not> fence_held url (ci_fence i) connect \<longrightarrow>
       (\<forall>other checks. map cg_id (gs_preRender checks) = map cg_id (gs_preRender G) \<and> map cg_id (gs_postRender checks) = map cg_id (gs_postRender G) \<and>
          gs_structureId checks = gs_structureId G \<and> gs_renderId checks = gs_renderId G \<longrightarrow> runGateCli D checks url i connect other now = Inr r) \<and>
       map gt_id (gr_gates r) = [SANDBOX_FENCE_GATE_ID] \<and> gr_manifest r = None)"
proof (cases "fence_held url (ci_fence i) connect")
  case True
  let ?s = "selfProbe url (ci_fence i) connect"
  have green: "sandboxGreen ?s" using True selfProbe_green by simp
  with assms obtain files where "runGates D G files (ci_meta i) ?s (ci_sourceDir i) (ci_pipeline i) now = Inr r" by (auto simp: runGateCli_def bindE_Inr)
  then obtain j g where j: "assembleReport D j = Inr r" "ri_sandbox j = ?s" by (rule runGates_assembled)
  have "gr_sandbox r = ?s" using j by (auto elim!: assembled simp: draft_report_def)
  then show ?thesis using assembled_verdict [OF j(1)] green True by (auto simp: hardGatesPass_def list_all_iff)
next
  case False
  then have red: "\<not> sandboxGreen (selfProbe url (ci_fence i) connect)" using selfProbe_green by simp
  then have r: "fenceRefused D G i (selfProbe url (ci_fence i) connect) now = Inr r" using assms by (simp add: runGateCli_def)
  then have "gr_gates r = [sandboxFenceRefusal (selfProbe url (ci_fence i) connect) (SANDBOX_GATE_IDS G)]"
    and "gr_manifest r = None" "gr_verdict r \<noteq> VPass"
    using red unfolding fenceRefused_def by (auto elim!: assembled simp: draft_report_def read_manifest_def)
  then show ?thesis using False red r by (auto simp: runGateCli_def fenceRefused_def SANDBOX_GATE_IDS_def sandboxFenceRefusal_def Let_def)
qed

text \<open>A runner whose two must-fail targets are refused and whose allowed egress answers, over a unit without a chart.\<close>

definition gx_deps :: report_deps where
  "gx_deps = \<lparr>rp_sha256 = (\<lambda>s. s), rp_manifestSchema = (\<lambda>m. Some m), rp_zodText = (\<lambda>_. [])\<rparr>"

definition gx_row :: "string \<Rightarrow> gate_outcome" where
  "gx_row n = \<lparr>gt_id = n, gt_title = n, gt_severity = SevHard, gt_status = GPass, gt_expected = [], gt_found = [], gt_reason = None, gt_evidence = None, gt_detail = [], gt_hint = None\<rparr>"

definition gx_gates :: gate_set where
  "gx_gates = \<lparr>gs_structure = (\<lambda>_ _. Inr (gx_row ''G1'', Some (JObj []))), gs_structureId = ''G1'', gs_preRender = [\<lparr>cg_id = ''G2'', cg_check = (\<lambda>_. Inr (gx_row ''G2''))\<rparr>],
     gs_render = (\<lambda>_ _ _ _ _. Inl (JsValue [])), gs_renderId = ''G3'', gs_noChart = (\<lambda>_. gx_row ''G3''), gs_postRender = [\<lparr>cg_id = ''G6'', cg_check = (\<lambda>_. Inr (gx_row ''G6''))\<rparr>]\<rparr>"

definition gx_inputs :: cli_inputs where
  "gx_inputs = \<lparr>ci_meta = \<lparr>jm_targetName = ''u'', jm_stage = ''dev'', jm_chartPath = None, jm_clusterValueFiles = JArr [], jm_repoURL = [], jm_requestedRef = [],
       jm_resolvedSha = replicate 40 (CHR ''a'')\<rparr>,
     ci_sourceDir = [], ci_pipeline = \<lparr>pc_runnerVersion = ''1'', pc_kubeVersion = ''1'', pc_depBuildMs = (False, JFin 1), pc_renderMs = (False, JFin 1)\<rparr>,
     ci_fence = \<lparr>fc_mustFailTargets = [''lan'', ''api''], fc_managerAddr = ''mgr'', fc_mustPassTarget = ''git'', fc_declaredListening = True, fc_timeoutMs = None\<rparr>,
     ci_jobBudgetMs = (False, JFin 1)\<rparr>"

definition gx_connect :: "string \<Rightarrow> connect_fn" where
  "gx_connect open_to n host port timeout = Inr (host = open_to)"

definition gx_body :: report_input where
  "gx_body = \<lparr>ri_runnerVersion = ''1'', ri_repoURL = [], ri_requestedRef = [], ri_resolvedSha = replicate 40 (CHR ''a''), ri_startedAt = 0, ri_finishedAt = 0,
     ri_manifest = Some (JObj []), ri_dependencies = [], ri_gates = [gx_row ''G1'', gx_row ''G2'', gx_row ''G3''],
     ri_sandbox = \<lparr>sa_mustFailTargets = [''lan'', ''api''], sa_declaredListening = True, sa_mustFailDenied = True, sa_managerAddrDenied = True, sa_mustPassReached = True\<rparr>\<rparr>"

definition gx_report :: gate_report where
  "gx_report = (draft_report gx_body)\<lparr>gr_reportHash := reportHashPayload (JObj (report_body (draft_report gx_body)))\<rparr>"

lemma gx_target: "parseTarget url ''lan'' = \<lparr>hp_host = ''lan'', hp_port = 443\<rparr>" "parseTarget url ''api'' = \<lparr>hp_host = ''api'', hp_port = 443\<rparr>"
    "parseTarget url ''mgr'' = \<lparr>hp_host = ''mgr'', hp_port = 443\<rparr>" "parseTarget url ''git'' = \<lparr>hp_host = ''git'', hp_port = 443\<rparr>"
  by (simp_all add: parseTarget_def parse_address_def trim_def is_space_def startsWith_code DEFAULT_PORT_def Let_def)

lemma gx_probe: "selfProbe url (ci_fence gx_inputs) (gx_connect ''git'') = ri_sandbox gx_body"
  by (simp add: selfProbe_def gx_inputs_def gx_connect_def gx_target probeDenied_def probeReached_def gx_body_def)

lemma gx_row_ok: "gate_ok (gx_row ''G1'')" "gate_ok (gx_row ''G2'')" "gate_ok (gx_row ''G3'')"
  by (simp_all add: gate_ok_def gx_row_def gate_id_ok_def digits_def is_digit_def js_length_def TEXT_MAX_def less_eq_char_def)

lemma gx_run: "runGateCli gx_deps gx_gates url gx_inputs (gx_connect ''git'') (\<lambda>_. Inr []) (\<lambda>_. 0) = Inr gx_report"
proof -
  have "assembleReport gx_deps gx_body = Inr gx_report"
    unfolding assembleReport_eq parse_or_throw_def read_back_report
    by (simp add: gx_report_def gx_deps_def draft_report_def gx_body_def gx_row_ok sha_ok_def sha_char_def is_digit_def less_eq_char_def read_manifest_def list_all_iff)
  moreover have "sandboxGreen (ri_sandbox gx_body)" by (simp add: sandboxGreen_def gx_body_def)
  moreover have "\<lparr>ri_runnerVersion = pc_runnerVersion (ci_pipeline gx_inputs), ri_repoURL = jm_repoURL (ci_meta gx_inputs), ri_requestedRef = jm_requestedRef (ci_meta gx_inputs),
       ri_resolvedSha = jm_resolvedSha (ci_meta gx_inputs), ri_startedAt = 0, ri_finishedAt = 0, ri_manifest = Some (JObj []), ri_dependencies = [],
       ri_gates = [gx_row ''G1'', gx_row ''G2'', gx_row ''G3''], ri_sandbox = ri_sandbox gx_body\<rparr> = gx_body" by (simp add: gx_body_def gx_inputs_def)
  ultimately show ?thesis
    by (simp add: runGateCli_def gx_probe runGates_def run_checks_def gx_gates_def render_phase_def) (simp add: gx_row_def gx_inputs_def)
qed

theorem passing_report_proves_the_fence_witness:
  "gr_verdict gx_report = VPass \<and> fence_held (\<lambda>_. None) (ci_fence gx_inputs) (gx_connect ''git'') \<and> map gt_id (gr_gates gx_report) = [''G1'', ''G2'', ''G3'']"
proof -
  have g: "gr_gates gx_report = [gx_row ''G1'', gx_row ''G2'', gx_row ''G3'']" by (simp add: gx_report_def draft_report_def gx_body_def)
  have "fence_held (\<lambda>_. None) (ci_fence gx_inputs) (gx_connect ''git'')"
    using selfProbe_green [of "\<lambda>_. None" "ci_fence gx_inputs" "gx_connect ''git''"] by (simp add: gx_probe sandboxGreen_def gx_body_def)
  then show ?thesis using passing_report_proves_the_fence [OF gx_run [of "\<lambda>_. None"]] by (simp add: g gx_row_def)
qed

end
