(* ===== verification/Gate_Receipt.thy ===== *)
theory Gate_Receipt
  imports Gate_Run Effects
begin

text \<open>
  The Manager's side of a validation (\<^verbatim>\<open>server/adapters/gate-runner/gate-runner-tekton.ts\<close>): a job is a PipelineRun with a credential Secret, its
  report comes back in a ConfigMap, and the objects are reaped.

  The state is the namespace of the jobs. A call of the Kubernetes API is numbered: it takes effect and answers, is refused without effect, or takes
  effect while its answer is lost. What the objects of Tekton read at a call is a parameter. A value of a ConfigMap is given as what
  \<^verbatim>\<open>JSON.parse\<close> makes of it. Collecting the children of a deleted run is left to Kubernetes and not counted on.
\<close>

section \<open>The namespace\<close>

datatype api_answer = Answers | Refuses thrown | Loses thrown

record run_owner =
  ow_name :: string
  ow_uid :: string

record kube_run =
  kr_owner :: run_owner
  kr_body :: json

record kube_secret =
  ks_name :: string
  ks_data :: "(string \<times> string) list"
  ks_owner :: run_owner

type_synonym cm_data = "(string \<times> (thrown + json)) list"

record namespace =
  k_runs :: "kube_run list"
  k_secrets :: "kube_secret list"
  k_reports :: "(string \<times> cm_data) list"
  k_calls :: nat

record kube_condition =
  cd_type :: "string option"
  cd_status :: "string option"
  cd_reason :: "string option"
  cd_message :: "string option"

record kube_taskrun =
  tr_label :: "string option"
  tr_name :: "string option"
  tr_conditions :: "kube_condition list"

record gate_kube =
  gk_api :: "nat \<Rightarrow> api_answer"
  gk_exists :: "string \<Rightarrow> thrown"
  gk_uid :: "nat \<Rightarrow> string"
  gk_conditions :: "nat \<Rightarrow> string \<Rightarrow> kube_condition list"
  gk_taskRuns :: "nat \<Rightarrow> string \<Rightarrow> kube_taskrun list"

definition api_call :: "gate_kube \<Rightarrow> (namespace \<Rightarrow> thrown + 'a) \<Rightarrow> (namespace \<Rightarrow> namespace) \<Rightarrow> (namespace, 'a) comp" where
  "api_call K reply effect s =
     (let s' = s\<lparr>k_calls := k_calls s + 1\<rparr>
      in case gk_api K (k_calls s) of
           Answers \<Rightarrow> (case reply s of Inl e \<Rightarrow> (Inl e, s') | Inr x \<Rightarrow> (Inr x, effect s'))
         | Refuses e \<Rightarrow> (Inl e, s')
         | Loses e \<Rightarrow> (Inl e, if isl (reply s) then s' else effect s'))"

section \<open>The seam to the cluster\<close>

definition MANAGED_BY_KEY :: string where
  "MANAGED_BY_KEY = ''app.kubernetes.io/managed-by''"

definition MANAGED_BY_VALUE :: string where
  "MANAGED_BY_VALUE = ''hostyour-manager''"

fun json_field :: "string \<Rightarrow> json \<Rightarrow> json" where
  "json_field k (JObj kvs) = (case map_of kvs k of Some v \<Rightarrow> v | None \<Rightarrow> JNull)"
| "json_field k j = JNull"

definition run_name :: "json \<Rightarrow> string" where
  "run_name body = (case json_field ''name'' (json_field ''metadata'' body) of JStr n \<Rightarrow> n | _ \<Rightarrow> [])"

definition managed :: "json \<Rightarrow> bool" where
  "managed body \<longleftrightarrow> json_field MANAGED_BY_KEY (json_field ''labels'' (json_field ''metadata'' body)) = JStr MANAGED_BY_VALUE"

definition createPipelineRun :: "gate_kube \<Rightarrow> json \<Rightarrow> (namespace, run_owner) comp" where
  "createPipelineRun K body s =
     (let owner = \<lparr>ow_name = run_name body, ow_uid = gk_uid K (k_calls s)\<rparr>
      in api_call K (\<lambda>s. if run_name body \<in> set (map (ow_name \<circ> kr_owner) (k_runs s)) then Inl (gk_exists K (run_name body)) else Inr owner)
           (\<lambda>s. s\<lparr>k_runs := k_runs s @ [\<lparr>kr_owner = owner, kr_body = body\<rparr>]\<rparr>) s)"

definition createSecret :: "gate_kube \<Rightarrow> string \<Rightarrow> (string \<times> string) list \<Rightarrow> run_owner \<Rightarrow> (namespace, unit) comp" where
  "createSecret K name data owner =
     api_call K (\<lambda>s. if name \<in> set (map ks_name (k_secrets s)) then Inl (gk_exists K name) else Inr ())
       (\<lambda>s. s\<lparr>k_secrets := k_secrets s @ [\<lparr>ks_name = name, ks_data = data, ks_owner = owner\<rparr>]\<rparr>)"

definition succeeded_condition :: "kube_condition list \<Rightarrow> kube_condition option" where
  "succeeded_condition cs = List.find (\<lambda>c. cd_type c = Some ''Succeeded'') cs"

definition run_outcome :: "kube_condition list \<Rightarrow> bool option" where
  "run_outcome cs =
     (case succeeded_condition cs of
        None \<Rightarrow> None
      | Some c \<Rightarrow> (case cd_status c of None \<Rightarrow> None | Some t \<Rightarrow> if t = ''Unknown'' then None else Some (t = ''True'')))"

definition pipelineRunOutcome :: "gate_kube \<Rightarrow> string \<Rightarrow> (namespace, bool option) comp" where
  "pipelineRunOutcome K name s = api_call K (\<lambda>_. Inr (run_outcome (gk_conditions K (k_calls s) name))) (\<lambda>s. s) s"

datatype report_cm = CmReport "thrown + json" | CmIncomplete "thrown + json" | CmUnrecognized "string list" | CmAbsent

definition read_cm :: "cm_data option \<Rightarrow> report_cm" where
  "read_cm cm =
     (case cm of
        None \<Rightarrow> CmAbsent
      | Some data \<Rightarrow>
          (case map_of data ''report.json'' of
             Some j \<Rightarrow> CmReport j
           | None \<Rightarrow> (case map_of data ''incomplete.json'' of Some j \<Rightarrow> CmIncomplete j | None \<Rightarrow> CmUnrecognized (map fst data))))"

definition readReportConfigMap :: "gate_kube \<Rightarrow> string \<Rightarrow> (namespace, report_cm) comp" where
  "readReportConfigMap K name = api_call K (\<lambda>s. Inr (read_cm (map_of (k_reports s) name))) (\<lambda>s. s)"

record task_run_outcome =
  to_task :: string
  to_succeeded :: "bool option"
  to_reason :: string
  to_message :: string

definition task_outcome :: "kube_taskrun \<Rightarrow> task_run_outcome" where
  "task_outcome tr =
     (let cond = succeeded_condition (tr_conditions tr); get = (\<lambda>f. case cond of None \<Rightarrow> None | Some c \<Rightarrow> f c); text0 = (\<lambda>x. case x of None \<Rightarrow> [] | Some t \<Rightarrow> t)
      in \<lparr>to_task = (case tr_label tr of Some l \<Rightarrow> l | None \<Rightarrow> (case tr_name tr of Some n \<Rightarrow> n | None \<Rightarrow> ''(unnamed TaskRun)'')),
          to_succeeded = (if get cd_status = Some ''True'' then Some True else if get cd_status = Some ''False'' then Some False else None),
          to_reason = text0 (get cd_reason), to_message = text0 (get cd_message)\<rparr>)"

definition listTaskRunOutcomes :: "gate_kube \<Rightarrow> string \<Rightarrow> (namespace, task_run_outcome list) comp" where
  "listTaskRunOutcomes K name s = api_call K (\<lambda>_. Inr (map task_outcome (gk_taskRuns K (k_calls s) name))) (\<lambda>s. s) s"

definition deletePipelineRun :: "gate_kube \<Rightarrow> string \<Rightarrow> (namespace, unit) comp" where
  "deletePipelineRun K name = api_call K (\<lambda>_. Inr ()) (\<lambda>s. s\<lparr>k_runs := filter (\<lambda>r. ow_name (kr_owner r) \<noteq> name) (k_runs s)\<rparr>)"

definition deleteConfigMap :: "gate_kube \<Rightarrow> string \<Rightarrow> (namespace, unit) comp" where
  "deleteConfigMap K name = api_call K (\<lambda>_. Inr ()) (\<lambda>s. s\<lparr>k_reports := filter (\<lambda>r. fst r \<noteq> name) (k_reports s)\<rparr>)"

definition deleteSecret :: "gate_kube \<Rightarrow> string \<Rightarrow> (namespace, unit) comp" where
  "deleteSecret K name = api_call K (\<lambda>_. Inr ()) (\<lambda>s. s\<lparr>k_secrets := filter (\<lambda>r. ks_name r \<noteq> name) (k_secrets s)\<rparr>)"

definition listPipelineRunNames :: "gate_kube \<Rightarrow> (namespace, string list) comp" where
  "listPipelineRunNames K = api_call K (\<lambda>s. Inr (map (ow_name \<circ> kr_owner) (filter (\<lambda>r. managed (kr_body r)) (k_runs s)))) (\<lambda>s. s)"

section \<open>Jobs\<close>

record runner_config =
  rc_namespace :: string
  rc_pipelineName :: string
  rc_serviceAccount :: string
  rc_reportWriterServiceAccount :: string
  rc_podFsGroup :: int
  rc_workspaceStorage :: string
  rc_runnerVersion :: string
  rc_kubeVersion :: string
  rc_jobBudgetMs :: int
  rc_mustFailTargets :: "string list"
  rc_managerAddr :: string
  rc_mustPassTarget :: string
  rc_openCredential :: "string \<Rightarrow> thrown + string"
  rc_urlHost :: "string \<Rightarrow> string option"

record job_request =
  jr_targetName :: string
  jr_stage :: string
  jr_chartPath :: "string option"
  jr_repoURL :: string
  jr_requestedRef :: string
  jr_resolvedSha :: string
  jr_clusterValueFiles :: json
  jr_declaredListening :: bool
  jr_repoCredentialId :: "string option"

definition credSecretName :: "string \<Rightarrow> string" where
  "credSecretName runId = ''gate-cred-'' @ runId"

definition reportCmName :: "string \<Rightarrow> string" where
  "reportCmName runId = ''gate-report-'' @ runId"

definition upstream :: "string \<Rightarrow> thrown" where
  "upstream msg = App (Upstream (''gate-runner (tekton): '' @ msg))"

definition gitCredentialsLine :: "runner_config \<Rightarrow> string \<Rightarrow> string \<Rightarrow> string" where
  "gitCredentialsLine cfg repoURL token =
     (let host = (case rc_urlHost cfg repoURL of Some h \<Rightarrow> if h = [] then ''github.com'' else h | None \<Rightarrow> ''github.com'')
      in ''https://x-access-token:'' @ token @ ''@'' @ host)"

definition param :: "string \<Rightarrow> string \<Rightarrow> json" where
  "param name v = JObj [(''name'', JStr name), (''value'', JStr v)]"

definition pipelineRunBody :: "runner_config \<Rightarrow> string \<Rightarrow> job_request \<Rightarrow> json" where
  "pipelineRunBody cfg runId rq = JObj [
     (''apiVersion'', JStr ''tekton.dev/v1''),
     (''kind'', JStr ''PipelineRun''),
     (''metadata'', JObj [
        (''name'', JStr runId),
        (''namespace'', JStr (rc_namespace cfg)),
        (''labels'', JObj [(MANAGED_BY_KEY, JStr MANAGED_BY_VALUE), (''hostyour.cloud/gate-target'', JStr (jr_targetName rq))])]),
     (''spec'', JObj [
        (''pipelineRef'', JObj [(''name'', JStr (rc_pipelineName cfg))]),
        (''taskRunTemplate'', JObj [(''serviceAccountName'', JStr (rc_serviceAccount cfg))]),
        (''taskRunSpecs'', JArr [JObj [(''pipelineTaskName'', JStr ''publish-report''), (''serviceAccountName'', JStr (rc_reportWriterServiceAccount cfg))]]),
        (''podTemplate'', JObj [(''securityContext'', JObj [(''fsGroup'', JNum (rc_podFsGroup cfg))])]),
        (''workspaces'', JArr [JObj [(''name'', JStr ''source''),
           (''volumeClaimTemplate'', JObj [(''spec'', JObj [(''accessModes'', JArr [JStr ''ReadWriteOnce'']),
              (''resources'', JObj [(''requests'', JObj [(''storage'', JStr (rc_workspaceStorage cfg))])])])])]]),
        (''params'', JArr [
           param ''git-url'' (jr_repoURL rq),
           param ''git-revision'' (jr_resolvedSha rq),
           param ''requested-ref'' (jr_requestedRef rq),
           param ''chart-path'' (case jr_chartPath rq of Some p \<Rightarrow> p | None \<Rightarrow> []),
           param ''stage'' (jr_stage rq),
           param ''target-name'' (jr_targetName rq),
           param ''cluster-value-files'' (json_stringify (jr_clusterValueFiles rq)),
           param ''run-id'' runId,
           param ''repo-credential-secret'' (credSecretName runId),
           param ''must-fail-targets'' (join '','' (rc_mustFailTargets cfg)),
           param ''manager-addr'' (rc_managerAddr cfg),
           param ''must-pass-target'' (rc_mustPassTarget cfg),
           param ''confirmed-listening'' (if jr_declaredListening rq then ''true'' else ''false''),
           param ''runner-version'' (rc_runnerVersion cfg),
           param ''kube-version'' (rc_kubeVersion cfg),
           param ''job-budget-ms'' (show_int (rc_jobBudgetMs cfg))])])]"

definition submit :: "gate_kube \<Rightarrow> runner_config \<Rightarrow> string \<Rightarrow> job_request \<Rightarrow> (namespace, string) comp" where
  "submit K cfg runId rq =
     bindM (case jr_repoCredentialId rq of
              Some cid \<Rightarrow> if cid = [] then ret [] else bindM (liftE (rc_openCredential cfg cid)) (\<lambda>token. ret (gitCredentialsLine cfg (jr_repoURL rq) token))
            | None \<Rightarrow> ret []) (\<lambda>gitCredentials.
     bindM (catchM (createPipelineRun K (pipelineRunBody cfg runId rq))
              (\<lambda>e. throwM (upstream (''could not create the gate-run PipelineRun: '' @ thrown_message e)))) (\<lambda>owner.
     bindM (catchM (createSecret K (credSecretName runId) [(''GITCREDENTIALS'', gitCredentials)] owner)
              (\<lambda>e. bindM (catchM (deletePipelineRun K runId) (\<lambda>_. ret ()))
                     (\<lambda>_. throwM (upstream (''could not create the gate-run credential Secret: '' @ thrown_message e))))) (\<lambda>_.
     ret runId)))"

text \<open>\<^verbatim>\<open>Promise.allSettled\<close> over the two deletes: neither waits for the other, and what throws is dropped.\<close>

definition reap_job :: "gate_kube \<Rightarrow> string \<Rightarrow> (namespace, unit) comp" where
  "reap_job K jobId = seqM [
     catchM (deleteConfigMap K (reportCmName jobId)) (\<lambda>_. ret ()),
     catchM (deleteSecret K (credSecretName jobId)) (\<lambda>_. ret ()),
     catchM (deletePipelineRun K jobId) (\<lambda>_. ret ())]"

definition cancel_job :: "gate_kube \<Rightarrow> string \<Rightarrow> (namespace, unit) comp" where
  "cancel_job K jobId = reap_job K jobId"

definition reapOrphans :: "gate_kube \<Rightarrow> (namespace, nat) comp" where
  "reapOrphans K = bindM (listPipelineRunNames K) (\<lambda>ids. bindM (forM ids (reap_job K)) (\<lambda>_. ret (length ids)))"

section \<open>Receiving a report\<close>

datatype task_evidence = TaskRuns "task_run_outcome list" | TaskRunsUnread string

definition captureTaskRuns :: "gate_kube \<Rightarrow> string \<Rightarrow> (namespace, task_evidence) comp" where
  "captureTaskRuns K jobId = catchM (bindM (listTaskRunOutcomes K jobId) (\<lambda>ts. ret (TaskRuns ts))) (\<lambda>e. ret (TaskRunsUnread (thrown_message e)))"

definition task_line :: "task_run_outcome \<Rightarrow> string" where
  "task_line t = ''  '' @ to_task t @ '': '' @ (case to_succeeded t of None \<Rightarrow> ''never settled'' | Some b \<Rightarrow> if b then ''succeeded'' else ''FAILED'') @ '' '' @ em_dash @ '' '' @
     (if to_reason t = [] then ''(no reason)'' else to_reason t) @ '': '' @ (if to_message t = [] then ''(no message)'' else to_message t)"

fun taskRunLines :: "task_evidence \<Rightarrow> string list" where
  "taskRunLines (TaskRunsUnread why) = [''the gate-run's TaskRun statuses could NOT be read, so why it died is not known here: '' @ why]"
| "taskRunLines (TaskRuns ts) =
     (if ts = [] then [''the gate-run's PipelineRun had no TaskRuns at all '' @ em_dash @ '' no task of the pipeline ever started'']
      else ''what the gate-run's TaskRuns ended as:'' # map task_line ts)"

definition gateIncomplete :: "string \<Rightarrow> string option \<Rightarrow> task_evidence \<Rightarrow> thrown" where
  "gateIncomplete cause reason evidence =
     App (GateIncomplete (''gate-runner (tekton): '' @ join [newline]
       ([''the gate-run did not run to completion '' @ em_dash @ '' NO gate report exists, so nothing was judged about the repository under validation. '' @
         ''This is a failure of the gate-run itself, not a finding about that repository.'', cause] @
        (case reason of None \<Rightarrow> [] | Some r \<Rightarrow> [''the gate-run's own reason: '' @ r]) @ taskRunLines evidence)))"

definition sandboxRows :: "gate_report \<Rightarrow> string list" where
  "sandboxRows report =
     (let rows = filter (\<lambda>g. gt_id g \<in> set SANDBOX_SIDE_GATE_IDS) (gr_gates report)
      in if rows = []
         then [''the report carries no sandbox-side row of its own (it carries '' @
               (if gr_gates report \<noteq> [] then join '', '' (map gt_id (gr_gates report)) else ''no gates at all'') @
               ''), so which sandbox gates did not run is not stated in it '' @ em_dash @ '' the runner that wrote it is older than the row that says so.'']
         else map (\<lambda>g. gt_id g @ '' '' @ gt_title g @ '': '' @ gt_found g) rows)"

definition sandboxDegraded :: "gate_report \<Rightarrow> thrown" where
  "sandboxDegraded report =
     App (SandboxDegraded (''gate-runner (tekton): '' @ join [newline]
       ([''the gate-run's own egress self-probe says the sandbox fence did NOT hold, so this run is refused. '' @
         ''Nothing was judged about the repository under validation, and nothing in that repository can change this outcome.'',
         ''the sandbox is what keeps untrusted repository content away from the cluster it is being onboarded to; '' @
         ''a run inside a fence that is not provably holding is not a validation, whatever its gates report.''] @
        sandboxFailures (gr_sandbox report) @
        [''must-fail targets probed: '' @ (if sa_mustFailTargets (gr_sandbox report) \<noteq> [] then join '', '' (sa_mustFailTargets (gr_sandbox report)) else ''(none configured)'')] @
        sandboxRows report @
        [''the runner that measured this: '' @ gr_runnerVersion report,
         ''this is fixed in the platform's own gate-runner namespace '' @ em_dash @ '' its egress NetworkPolicy '' @ em_dash @ '' and the onboarding is re-run afterwards.''])))"

definition IncompleteGateRunSchema :: "json \<Rightarrow> string option" where
  "IncompleteGateRunSchema = as_object (\<lambda>kvs. do {
     version \<leftarrow> required ''incompleteVersion'' as_str kvs;
     runId \<leftarrow> required ''runId'' as_str kvs;
     reason \<leftarrow> required ''reason'' as_str kvs;
     generated \<leftarrow> required ''generatedAt'' as_str kvs;
     Some reason
   })"

text \<open>The reason and the note of an incomplete notice. \<open>issues\<close> is the text the schema library gives its issues.\<close>

definition readIncompleteNotice :: "(json \<Rightarrow> string) \<Rightarrow> thrown + json \<Rightarrow> string option \<times> string option" where
  "readIncompleteNotice issues parsed =
     (case parsed of
        Inl e \<Rightarrow> (None, Some (''its incomplete.json is not JSON: '' @ thrown_message e))
      | Inr j \<Rightarrow>
          (case IncompleteGateRunSchema j of
             Some reason \<Rightarrow> (Some reason, None)
           | None \<Rightarrow> (case json_field ''reason'' j of JStr r \<Rightarrow> if r \<noteq> [] then Some r else None | _ \<Rightarrow> None,
               Some (''its incomplete.json does not hold IncompleteGateRunSchema: '' @ issues j))))"

fun without_hash :: "json \<Rightarrow> json" where
  "without_hash (JObj kvs) = JObj (filter (\<lambda>kv. fst kv \<noteq> ''reportHash'') kvs)"
| "without_hash j = j"

definition receive_report :: "report_deps \<Rightarrow> thrown + json \<Rightarrow> thrown + gate_report" where
  "receive_report D parsed =
     (case bindE parsed (\<lambda>published. bindE (parse_or_throw D published) (\<lambda>report. Inr (published, report))) of
        Inl e \<Rightarrow> Inl (upstream (''the published gate report is malformed: '' @ thrown_message e))
      | Inr (published, report) \<Rightarrow>
          (let computed = rp_sha256 D (reportHashPayload (without_hash published))
           in if computed \<noteq> gr_reportHash report
              then Inl (upstream (''the published gate report's reportHash does not verify (report carries '' @ gr_reportHash report @ '', its body hashes to '' @ computed @
                     '') '' @ em_dash @ '' the report was corrupted or rewritten after the runner authored it''))
              else if \<not> sandboxGreen (gr_sandbox report) then Inl (sandboxDegraded report)
              else Inr report))"

datatype job_progress = Gating | Done gate_report

definition settled_report :: "report_deps \<Rightarrow> (json \<Rightarrow> string) \<Rightarrow> string \<Rightarrow> bool \<Rightarrow> task_evidence \<Rightarrow> report_cm \<Rightarrow> thrown + job_progress" where
  "settled_report D issues jobId succeeded evidence cm =
     (case cm of
        CmAbsent \<Rightarrow> Inl (gateIncomplete (''the gate-run settled (succeeded='' @ (if succeeded then ''true'' else ''false'') @ '') but published no report ConfigMap '' @ reportCmName jobId @
          '' at all '' @ em_dash @ '' the publish-report task runs as a `finally` task, so it should have written one even after the gate task died'') None evidence)
      | CmUnrecognized ks \<Rightarrow> Inl (gateIncomplete (''the report ConfigMap '' @ reportCmName jobId @ '' carries neither report.json nor incomplete.json '' @ em_dash @ '' it carries: '' @
          (if ks \<noteq> [] then join '', '' ks else ''(no data keys at all)'') @ ''. The gate-runner that wrote it and this Manager disagree about the report contract'') None evidence)
      | CmIncomplete j \<Rightarrow>
          (case readIncompleteNotice issues j of (reason, note) \<Rightarrow>
             Inl (gateIncomplete (''the report ConfigMap '' @ reportCmName jobId @ '' carries incomplete.json instead of report.json: the gate task produced no report file'' @
               (case note of None \<Rightarrow> [] | Some n \<Rightarrow> '' ('' @ n @ '')'')) reason evidence))
      | CmReport j \<Rightarrow> bindE (receive_report D j) (\<lambda>report. Inr (Done report)))"

definition poll :: "gate_kube \<Rightarrow> report_deps \<Rightarrow> (json \<Rightarrow> string) \<Rightarrow> string \<Rightarrow> (namespace, job_progress) comp" where
  "poll K D issues jobId =
     bindM (catchM (pipelineRunOutcome K jobId) (\<lambda>e. throwM (upstream (''could not read the gate-run PipelineRun status: '' @ thrown_message e)))) (\<lambda>outcome.
     case outcome of
       None \<Rightarrow> ret Gating
     | Some succeeded \<Rightarrow>
         bindM (captureTaskRuns K jobId) (\<lambda>evidence.
         bindM (readReportConfigMap K (reportCmName jobId)) (\<lambda>cm.
         bindM (reap_job K jobId) (\<lambda>_.
         liftE (settled_report D issues jobId succeeded evidence cm)))))"

section \<open>What stands in the namespace\<close>

definition run_names :: "namespace \<Rightarrow> string set" where
  "run_names s = (\<lambda>r. ow_name (kr_owner r)) ` set (k_runs s)"

definition secret_names :: "namespace \<Rightarrow> string set" where
  "secret_names s = ks_name ` set (k_secrets s)"

definition report_names :: "namespace \<Rightarrow> string set" where
  "report_names s = fst ` set (k_reports s)"

text \<open>Every credential Secret and every report stands beside the run that names it, so that the list of the runs finds it again.\<close>

definition handled :: "namespace \<Rightarrow> bool" where
  "handled s \<longleftrightarrow> (\<forall>r. credSecretName r \<in> secret_names s \<or> reportCmName r \<in> report_names s \<longrightarrow> r \<in> run_names s)"

text \<open>A process that dies: from the first call on that did not answer, no call takes effect any more.\<close>

definition crash_only :: "gate_kube \<Rightarrow> bool" where
  "crash_only K \<longleftrightarrow> (\<forall>m n. m < n \<and> gk_api K m \<noteq> Answers \<longrightarrow> (\<exists>e. gk_api K n = Refuses e))"

definition took :: "gate_kube \<Rightarrow> nat \<Rightarrow> bool" where
  "took K n \<longleftrightarrow> (case gk_api K n of Refuses e \<Rightarrow> False | _ \<Rightarrow> True)"

lemma took_answers:
  assumes "crash_only K" "took K n" "m < n"
  shows "gk_api K m = Answers"
proof (rule ccontr)
  assume "gk_api K m \<noteq> Answers"
  then obtain e where "gk_api K n = Refuses e" using assms(1,3) by (auto simp: crash_only_def)
  then show False using assms(2) by (simp add: took_def)
qed

lemma answers_took: "gk_api K n = Answers \<Longrightarrow> took K n"
  by (simp add: took_def)

lemma names_inject [simp]: "credSecretName a = credSecretName b \<longleftrightarrow> a = b" "reportCmName a = reportCmName b \<longleftrightarrow> a = b"
  by (simp_all add: credSecretName_def reportCmName_def)

lemma settled_delete:
  "catchM (api_call K (\<lambda>_. Inr ()) f) (\<lambda>_. ret ()) s = (Inr (), if took K (k_calls s) then f (s\<lparr>k_calls := k_calls s + 1\<rparr>) else s\<lparr>k_calls := k_calls s + 1\<rparr>)"
  by (simp add: catchM_def api_call_def took_def Let_def split: api_answer.split)

lemma reap_job_run:
  "reap_job K j s = (Inr (), s\<lparr>
     k_reports := if took K (k_calls s) then filter (\<lambda>r. fst r \<noteq> reportCmName j) (k_reports s) else k_reports s,
     k_secrets := if took K (k_calls s + 1) then filter (\<lambda>r. ks_name r \<noteq> credSecretName j) (k_secrets s) else k_secrets s,
     k_runs := if took K (k_calls s + 2) then filter (\<lambda>r. ow_name (kr_owner r) \<noteq> j) (k_runs s) else k_runs s,
     k_calls := k_calls s + 3\<rparr>)"
  by (simp add: reap_job_def deleteConfigMap_def deleteSecret_def deletePipelineRun_def bindM_def settled_delete numeral_3_eq_3)

lemma image_filter_other: "f ` {x \<in> A. f x \<noteq> y} = f ` A - {y}"
  by auto

lemma reap_job_names:
  "report_names (snd (reap_job K j s)) = (if took K (k_calls s) then report_names s - {reportCmName j} else report_names s)"
  "secret_names (snd (reap_job K j s)) = (if took K (k_calls s + 1) then secret_names s - {credSecretName j} else secret_names s)"
  "run_names (snd (reap_job K j s)) = (if took K (k_calls s + 2) then run_names s - {j} else run_names s)"
  by (simp_all add: reap_job_run report_names_def secret_names_def run_names_def image_filter_other [of fst] image_filter_other [of ks_name]
      image_filter_other [of "\<lambda>r. ow_name (kr_owner r)"])

lemma reap_job_handled:
  assumes K: "crash_only K" and s: "handled s"
  shows "handled (snd (reap_job K j s))"
proof (cases "took K (k_calls s + 2)")
  case True
  then have "took K (k_calls s)" "took K (k_calls s + 1)" using took_answers [OF K True] by (simp_all add: took_def)
  then show ?thesis using True s by (auto simp: reap_job_names handled_def)
next
  case False
  then show ?thesis using s by (auto simp: reap_job_names handled_def split: if_splits)
qed

lemma reaps_run: "fst (forM js (reap_job K) s) = Inr ()"
  by (induction js arbitrary: s) (simp_all add: forM_def bindM_def reap_job_run)

lemma reaps_Cons: "snd (forM (j # js) (reap_job K) s) = snd (forM js (reap_job K) (snd (reap_job K j s)))"
  by (simp add: forM_def bindM_def reap_job_run)

lemma reaps_handled: "crash_only K \<Longrightarrow> handled s \<Longrightarrow> handled (snd (forM js (reap_job K) s))"
proof (induction js arbitrary: s)
  case (Cons j js)
  then show ?case using reap_job_handled by (simp only: reaps_Cons)
qed (simp add: forM_def)

lemma names_calls [simp]:
  "run_names (s\<lparr>k_calls := n\<rparr>) = run_names s" "secret_names (s\<lparr>k_calls := n\<rparr>) = secret_names s" "report_names (s\<lparr>k_calls := n\<rparr>) = report_names s"
  by (simp_all add: run_names_def secret_names_def report_names_def)

lemma handled_calls [simp]: "handled (s\<lparr>k_calls := n\<rparr>) = handled s"
  by (simp add: handled_def)

lemma pres_read: "pres handled (api_call K reply (\<lambda>s. s))"
  by (simp add: pres_def api_call_def Let_def split: api_answer.split sum.split)

lemma pres_reads: "pres handled (pipelineRunOutcome K j)" "pres handled (listTaskRunOutcomes K j)" "pres handled (readReportConfigMap K n)" "pres handled (listPipelineRunNames K)"
  using pres_read unfolding pres_def pipelineRunOutcome_def listTaskRunOutcomes_def readReportConfigMap_def listPipelineRunNames_def by blast+

lemma reap_job_pres: "crash_only K \<Longrightarrow> pres handled (reap_job K j)"
  by (simp add: pres_def reap_job_handled)

lemma reapOrphans_pres: "crash_only K \<Longrightarrow> pres handled (reapOrphans K)"
  unfolding reapOrphans_def forM_def by (intro pres_bind pres_seq pres_reads) (auto intro: reap_job_pres pres_ret)

lemma poll_pres: "crash_only K \<Longrightarrow> pres handled (poll K D issues j)"
  unfolding poll_def captureTaskRuns_def
  by (intro pres_bind pres_catch pres_reads pres_throwM) (auto split: option.split intro!: pres_bind pres_catch pres_reads pres_ret reap_job_pres pres_liftE)

lemma run_name_body: "run_name (pipelineRunBody cfg runId rq) = runId"
  by (simp add: run_name_def pipelineRunBody_def)

lemma managed_body: "managed (pipelineRunBody cfg runId rq)"
  by (simp add: managed_def pipelineRunBody_def)

lemma create_run_state:
  assumes "handled s"
  shows "handled (snd (createPipelineRun K body s))"
    and "fst (createPipelineRun K body s) = Inr owner \<Longrightarrow> gk_api K (k_calls s) = Answers \<and> run_name body \<notin> run_names s \<and>
      run_names (snd (createPipelineRun K body s)) = insert (run_name body) (run_names s) \<and> k_secrets (snd (createPipelineRun K body s)) = k_secrets s \<and>
      k_reports (snd (createPipelineRun K body s)) = k_reports s \<and> k_calls (snd (createPipelineRun K body s)) = k_calls s + 1"
  using assms
  by (auto simp: createPipelineRun_def api_call_def Let_def handled_def run_names_def secret_names_def report_names_def split: api_answer.splits if_splits sum.splits)

lemma create_secret_handled:
  assumes "handled s" "r \<in> run_names s"
  shows "handled (snd (createSecret K (credSecretName r) data owner s)) \<and> r \<in> run_names (snd (createSecret K (credSecretName r) data owner s)) \<and>
    k_calls (snd (createSecret K (credSecretName r) data owner s)) = k_calls s + 1"
  using assms by (auto simp: createSecret_def api_call_def Let_def handled_def run_names_def secret_names_def report_names_def split: api_answer.splits sum.splits)

lemma create_secret_fails:
  "fst (createSecret K name data owner s) = Inl e \<Longrightarrow> name \<notin> secret_names s \<Longrightarrow> gk_api K (k_calls s) \<noteq> Answers"
  by (auto simp: createSecret_def api_call_def Let_def secret_names_def)

lemma submit_pres:
  assumes K: "crash_only K"
  shows "pres handled (submit K cfg runId rq)"
proof -
  have run: "handled (snd (bindM (catchM (createPipelineRun K (pipelineRunBody cfg runId rq)) f) (\<lambda>owner.
      bindM (catchM (createSecret K (credSecretName runId) data owner) (\<lambda>e. bindM (catchM (deletePipelineRun K runId) (\<lambda>_. ret ())) (\<lambda>_. throwM (g e))))
        (\<lambda>_. ret runId)) s))" (is "handled (snd (bindM (catchM ?create f) ?rest s))")
    if s: "handled s" and f: "\<And>e. f e = throwM (h e)" for f g h data s
  proof (cases "fst (?create s)")
    case (Inl e)
    then show ?thesis using create_run_state(1) [OF s, of K "pipelineRunBody cfg runId rq"] by (cases "?create s") (simp add: bindM_def catchM_def f)
  next
    case (Inr owner)
    define s1 where "s1 = snd (?create s)"
    have c: "?create s = (Inr owner, s1)" using Inr by (simp add: s1_def prod_eq_iff)
    note created = create_run_state(2) [OF s Inr, unfolded run_name_body s1_def [symmetric]]
    have h1: "handled s1" using create_run_state(1) [OF s] by (simp add: s1_def)
    let ?secret = "createSecret K (credSecretName runId) data owner"
    note h2 = create_secret_handled [OF h1, of runId K data owner]
    show ?thesis
    proof (cases "fst (?secret s1)")
      case (Inr u)
      then show ?thesis using h2 created by (cases "?secret s1") (simp add: bindM_def catchM_def c)
    next
      case (Inl e)
      have "credSecretName runId \<notin> secret_names s1" using s created by (auto simp: handled_def secret_names_def)
      then have "gk_api K (k_calls s1) \<noteq> Answers" using create_secret_fails [OF Inl] by simp
      then obtain e' where "gk_api K (Suc (k_calls s1)) = Refuses e'" using K unfolding crash_only_def by (meson lessI)
      then have "\<not> took K (k_calls (snd (?secret s1)))" using h2 created by (simp add: took_def)
      then show ?thesis using Inl h2 created by (cases "?secret s1") (simp add: bindM_def catchM_def c deletePipelineRun_def settled_delete [unfolded catchM_def])
    qed
  qed
  show ?thesis unfolding submit_def by (rule pres_bind) (auto simp: pres_def bindM_def split: option.split sum.split intro: run [simplified])
qed

lemma reaps_run_names: "(\<And>n. took K n) \<Longrightarrow> run_names (snd (forM js (reap_job K) s)) = run_names s - set js"
proof (induction js arbitrary: s)
  case (Cons j js)
  then have "run_names (snd (forM js (reap_job K) (snd (reap_job K j s)))) = run_names (snd (reap_job K j s)) - set js" by blast
  then show ?case using Cons.prems by (auto simp add: reaps_Cons reap_job_names(3))
qed (simp add: forM_def)

lemma sweep_empties:
  assumes "\<And>n. gk_api K n = Answers" "\<forall>r \<in> set (k_runs s). managed (kr_body r)"
  shows "run_names (snd (reapOrphans K s)) = {}"
proof -
  let ?ids = "map (ow_name \<circ> kr_owner) (filter (\<lambda>r. managed (kr_body r)) (k_runs s))"
  have "listPipelineRunNames K s = (Inr ?ids, s\<lparr>k_calls := k_calls s + 1\<rparr>)" by (simp add: listPipelineRunNames_def api_call_def assms(1))
  then have "snd (reapOrphans K s) = snd (forM ?ids (reap_job K) (s\<lparr>k_calls := k_calls s + 1\<rparr>))"
    using reaps_run [of ?ids K "s\<lparr>k_calls := k_calls s + 1\<rparr>"]
    by (cases "forM ?ids (reap_job K) (s\<lparr>k_calls := k_calls s + 1\<rparr>)") (simp add: reapOrphans_def bindM_def)
  moreover have "set ?ids = run_names s" using assms(2) by (auto simp: run_names_def image_iff)
  ultimately show ?thesis using reaps_run_names [of K ?ids "s\<lparr>k_calls := k_calls s + 1\<rparr>"] assms(1) by (simp add: took_def)
qed

text \<open>
  C10 whenever the Manager dies in the middle of submitting, polling, cancelling or sweeping, every credential Secret and every report still stands beside its
  run, so that the list of runs finds it again; and a sweep that goes through leaves none of them.
\<close>

theorem no_credential_outlives_its_run:
  assumes "crash_only K" and "handled s"
  shows "handled (snd (submit K cfg runId rq s)) \<and> handled (snd (poll K D issues jobId s)) \<and> handled (snd (cancel_job K jobId s)) \<and> handled (snd (reapOrphans K s)) \<and>
    ((\<forall>n. gk_api K n = Answers) \<and> (\<forall>r \<in> set (k_runs s). managed (kr_body r)) \<longrightarrow>
       run_names (snd (reapOrphans K s)) = {} \<and>
       (\<forall>r. credSecretName r \<notin> secret_names (snd (reapOrphans K s)) \<and> reportCmName r \<notin> report_names (snd (reapOrphans K s))))"
proof (intro conjI impI)
  show swept: "handled (snd (reapOrphans K s))" using presD [OF reapOrphans_pres] assms by blast
  show "run_names (snd (reapOrphans K s)) = {}" if "(\<forall>n. gk_api K n = Answers) \<and> (\<forall>r \<in> set (k_runs s). managed (kr_body r))"
    using sweep_empties that by blast
  then show "\<forall>r. credSecretName r \<notin> secret_names (snd (reapOrphans K s)) \<and> reportCmName r \<notin> report_names (snd (reapOrphans K s))"
    if "(\<forall>n. gk_api K n = Answers) \<and> (\<forall>r \<in> set (k_runs s). managed (kr_body r))"
    using that swept by (auto simp: handled_def)
qed (use assms presD [OF submit_pres] presD [OF poll_pres] reap_job_handled in \<open>auto simp: cancel_job_def\<close>)

section \<open>What the Manager accepts\<close>

lemma received:
  "receive_report D (Inr p) = Inr r \<longleftrightarrow>
     GateReportSchema (rp_manifestSchema D) p = Some r \<and> rp_sha256 D (reportHashPayload (without_hash p)) = gr_reportHash r \<and> sandboxGreen (gr_sandbox r)"
  by (auto simp: receive_report_def parse_or_throw_def Let_def upstream_def sandboxDegraded_def split: option.split)

lemma poll_settled:
  assumes "\<And>n. gk_api K n = Answers" "run_outcome (gk_conditions K (k_calls s) jobId) = Some ok"
    and "map_of (k_reports s) (reportCmName jobId) = Some data" "map_of data ''report.json'' = Some parsed"
  shows "fst (poll K D issues jobId s) = bindE (receive_report D parsed) (\<lambda>r. Inr (Done r))"
proof -
  have answered: "api_call K f g t = (case f t of Inl e \<Rightarrow> (Inl e, t\<lparr>k_calls := k_calls t + 1\<rparr>) | Inr x \<Rightarrow> (Inr x, g (t\<lparr>k_calls := k_calls t + 1\<rparr>)))" for f g t
    by (simp add: api_call_def assms(1) Let_def split: sum.split)
  show ?thesis
    by (simp add: poll_def captureTaskRuns_def pipelineRunOutcome_def listTaskRunOutcomes_def readReportConfigMap_def answered bindM_def catchM_def assms(2-4)
        read_cm_def reap_job_run settled_report_def)
qed

lemma body_of_report: "without_hash (report_json r) = JObj (report_body r)"
  by (simp add: report_json_def report_body_def)

lemma runner_report_received:
  assumes run: "runGateCli D G url i connect readWorkspace now = Inr r"
    and manifests: "\<And>files meta g m. gs_structure G files meta = Inr (g, Some m) \<Longrightarrow> m \<noteq> JNull \<and> rp_manifestSchema D m = Some m"
  shows "receive_report D (Inr (report_json r)) = (if sandboxGreen (gr_sandbox r) then Inr r else Inl (sandboxDegraded r))"
    and "gr_sandbox r = selfProbe url (ci_fence i) connect"
proof -
  let ?s = "selfProbe url (ci_fence i) connect"
  obtain j where j: "assembleReport D j = Inr r" "ri_sandbox j = ?s"
      "\<And>m. ri_manifest j = Some m \<Longrightarrow> m \<noteq> JNull \<and> rp_manifestSchema D m = Some m"
  proof (cases "sandboxGreen ?s")
    case True
    with run obtain files where "runGates D G files (ci_meta i) ?s (ci_sourceDir i) (ci_pipeline i) now = Inr r" by (auto simp: runGateCli_def bindE_Inr)
    then obtain k g where "assembleReport D k = Inr r" "ri_sandbox k = ?s" "gs_structure G files (ci_meta i) = Inr (g, ri_manifest k)" by (rule runGates_assembled)
    then show thesis using that manifests by metis
  next
    case False
    with run have "fenceRefused D G i ?s now = Inr r" by (simp add: runGateCli_def)
    then show thesis unfolding fenceRefused_def by (rule that) simp_all
  qed
  obtain m where m: "read_manifest (rp_manifestSchema D) (ri_manifest j) = Some m" "list_all gate_ok (ri_gates j)" "sha_ok (ri_resolvedSha j)"
    and r: "r = (draft_report j)\<lparr>gr_manifest := m, gr_reportHash := rp_sha256 D (reportHashPayload (JObj (report_body (draft_report j))))\<rparr>"
    using j(1) by (rule assembled)
  have "m = ri_manifest j" using m(1) j(3) by (cases "ri_manifest j") (force simp: read_manifest_def elim: nullable.elims)+
  then have r': "r = (draft_report j)\<lparr>gr_reportHash := rp_sha256 D (reportHashPayload (JObj (report_body (draft_report j))))\<rparr>" using r by (simp add: draft_report_def)
  have hash: "rp_sha256 D (reportHashPayload (without_hash (report_json r))) = gr_reportHash r" unfolding body_of_report by (simp add: r' report_body_hash)
  have "read_manifest (rp_manifestSchema D) (gr_manifest r) = Some (gr_manifest r)" using m(1) \<open>m = ri_manifest j\<close> r' by (simp add: draft_report_def)
  then have "GateReportSchema (rp_manifestSchema D) (report_json r) = Some r" unfolding read_back_report using m(2,3) r' by (simp add: draft_report_def)
  then show "receive_report D (Inr (report_json r)) = (if sandboxGreen (gr_sandbox r) then Inr r else Inl (sandboxDegraded r))"
    using hash by (simp add: receive_report_def parse_or_throw_def)
  show "gr_sandbox r = ?s" using r' j(2) by (simp add: draft_report_def)
qed

text \<open>
  C9 a settled job is done exactly when its published report holds the schema, its body hashes to the hash it carries, and its fence attestation is green. A report
  that the runner wrote arrives as it was written, and is refused as a degraded sandbox exactly when the fence did not hold.
\<close>

theorem manager_accepts_exactly:
  assumes "\<And>n. gk_api K n = Answers" and "run_outcome (gk_conditions K (k_calls s) jobId) = Some ok"
    and "map_of (k_reports s) (reportCmName jobId) = Some data" and "map_of data ''report.json'' = Some (Inr published)"
    and manifests: "\<And>files meta g m. gs_structure G files meta = Inr (g, Some m) \<Longrightarrow> m \<noteq> JNull \<and> rp_manifestSchema D m = Some m"
  shows "(fst (poll K D issues jobId s) = Inr (Done r) \<longleftrightarrow>
      GateReportSchema (rp_manifestSchema D) published = Some r \<and> rp_sha256 D (reportHashPayload (without_hash published)) = gr_reportHash r \<and> sandboxGreen (gr_sandbox r)) \<and>
    (runGateCli D G url i connect readWorkspace now = Inr r \<and> published = report_json r \<longrightarrow>
      fst (poll K D issues jobId s) = (if fence_held url (ci_fence i) connect then Inr (Done r) else Inl (sandboxDegraded r)))"
proof (intro conjI impI)
  note p = poll_settled [OF assms(1-4), of D issues]
  show "fst (poll K D issues jobId s) = Inr (Done r) \<longleftrightarrow>
      GateReportSchema (rp_manifestSchema D) published = Some r \<and> rp_sha256 D (reportHashPayload (without_hash published)) = gr_reportHash r \<and> sandboxGreen (gr_sandbox r)"
    by (simp add: p bindE_Inr received)
  assume "runGateCli D G url i connect readWorkspace now = Inr r \<and> published = report_json r"
  then show "fst (poll K D issues jobId s) = (if fence_held url (ci_fence i) connect then Inr (Done r) else Inl (sandboxDegraded r))"
    using runner_report_received [OF _ manifests] selfProbe_green [of url "ci_fence i" connect] by (auto simp: p)
qed

text \<open>A namespace with one settled job, whose report is the one of the small runner.\<close>

definition gx_kube :: gate_kube where
  "gx_kube = \<lparr>gk_api = (\<lambda>_. Answers), gk_exists = JsValue, gk_uid = show_nat,
     gk_conditions = (\<lambda>_ _. [\<lparr>cd_type = Some ''Succeeded'', cd_status = Some ''True'', cd_reason = None, cd_message = None\<rparr>]), gk_taskRuns = (\<lambda>_ _. [])\<rparr>"

definition gx_request :: job_request where
  "gx_request = \<lparr>jr_targetName = ''u'', jr_stage = ''dev'', jr_chartPath = None, jr_repoURL = [], jr_requestedRef = [], jr_resolvedSha = [], jr_clusterValueFiles = JArr [],
     jr_declaredListening = True, jr_repoCredentialId = None\<rparr>"

definition gx_config :: runner_config where
  "gx_config = \<lparr>rc_namespace = ''n'', rc_pipelineName = ''p'', rc_serviceAccount = ''a'', rc_reportWriterServiceAccount = ''w'', rc_podFsGroup = 1000, rc_workspaceStorage = ''1Gi'',
     rc_runnerVersion = ''1'', rc_kubeVersion = ''1'', rc_jobBudgetMs = 1, rc_mustFailTargets = [''lan''], rc_managerAddr = ''mgr'', rc_mustPassTarget = ''git'',
     rc_openCredential = Inr, rc_urlHost = (\<lambda>_. None)\<rparr>"

definition gx_space :: "bool \<Rightarrow> namespace" where
  "gx_space reported = \<lparr>k_runs = [\<lparr>kr_owner = \<lparr>ow_name = ''j'', ow_uid = ''0''\<rparr>, kr_body = pipelineRunBody gx_config ''j'' gx_request\<rparr>],
     k_secrets = [\<lparr>ks_name = credSecretName ''j'', ks_data = [], ks_owner = \<lparr>ow_name = ''j'', ow_uid = ''0''\<rparr>\<rparr>],
     k_reports = (if reported then [(reportCmName ''j'', [(''report.json'', Inr (report_json gx_report))])] else []), k_calls = 0\<rparr>"

lemma gx_handled: "handled (gx_space b)"
  by (auto simp: handled_def gx_space_def run_names_def secret_names_def report_names_def credSecretName_def reportCmName_def split: if_splits)

theorem no_credential_outlives_its_run_witness:
  "crash_only gx_kube \<and> handled (gx_space True) \<and> secret_names (gx_space True) \<noteq> {} \<and> run_names (snd (reapOrphans gx_kube (gx_space True))) = {}"
proof -
  have K: "crash_only gx_kube" by (simp add: crash_only_def gx_kube_def)
  have "(\<forall>n. gk_api gx_kube n = Answers) \<and> (\<forall>r \<in> set (k_runs (gx_space True)). managed (kr_body r))"
    by (simp add: gx_kube_def gx_space_def managed_body)
  moreover have "secret_names (gx_space True) \<noteq> {}" by (simp add: secret_names_def gx_space_def)
  ultimately show ?thesis using no_credential_outlives_its_run [OF K gx_handled [of True], of gx_config "''k''" gx_request gx_deps "\<lambda>_. []" "''j''"] K gx_handled
    by blast
qed

theorem manager_accepts_exactly_witness:
  "fst (poll gx_kube gx_deps (\<lambda>_. []) ''j'' (gx_space True)) = Inr (Done gx_report)"
proof -
  have "fence_held (\<lambda>_. None) (ci_fence gx_inputs) (gx_connect ''git'')"
    using selfProbe_green [of "\<lambda>_. None" "ci_fence gx_inputs" "gx_connect ''git''"] by (simp add: gx_probe sandboxGreen_def gx_body_def)
  then show ?thesis
    using manager_accepts_exactly [of gx_kube "gx_space True" "''j''" True "[(''report.json'', Inr (report_json gx_report))]" "report_json gx_report" gx_gates gx_deps "\<lambda>_. []" gx_report
        "\<lambda>_. None" gx_inputs "gx_connect ''git''" "\<lambda>_. Inr []" "\<lambda>_. 0"] gx_run [of "\<lambda>_. None"]
    by (simp add: gx_kube_def gx_space_def run_outcome_def succeeded_condition_def gx_gates_def gx_deps_def)
qed

end
