(* ===== verification/Onboarding.thy ===== *)
theory Onboarding
  imports Onboard_Gates Gate_Receipt
begin

text \<open>
  Validating an onboarding (\<^verbatim>\<open>server/domains/units/validate.ts\<close>): clone the repository, run the gates in the sandbox, poll for the report, add the gates of the Manager, and judge.

  The git adapter, the registrations, the tenant subdomains, the size table and the DNS reading are parameters that answer or throw. The loop that polls sees the clock and the abort
  signal: a list of ticks gives what it sees, one tick per turn, and a list that runs out is a validation that still polls.
\<close>

section \<open>Requests and dependencies\<close>

record onboard_request =
  or_repoURL :: string
  or_size :: unit_size
  or_ref :: string
  or_consumerName :: string
  or_repoCredentialId :: "string option"

record onboard_target =
  ot_domain :: string
  ot_stage :: stage
  ot_chartPath :: "string option"
  ot_clusterValueFiles :: "(string \<times> string) list"

record validate_deps =
  vd_cloneAtRef :: "string \<Rightarrow> string \<Rightarrow> string option \<Rightarrow> thrown + (string \<times> string)"
  vd_readFile :: "string \<Rightarrow> string \<Rightarrow> thrown + string option"
  vd_dispose :: "string \<Rightarrow> thrown + unit"
  vd_kube :: gate_kube
  vd_config :: runner_config
  vd_runId :: string
  vd_reports :: report_deps
  vd_issues :: "json \<Rightarrow> string"
  vd_tenantSubdomains :: "thrown + string list"
  vd_hostLabels :: "stage \<Rightarrow> string \<Rightarrow> thrown + (string \<times> string) list"
  vd_attestedBuilds :: "string \<Rightarrow> thrown + (string \<times> string) list"
  vd_smtpSenders :: "stage \<Rightarrow> thrown + (string \<times> string) list"
  vd_declareListening :: bool
  vd_resolveQuota :: "unit_size \<Rightarrow> unit_composition \<Rightarrow> thrown + unit_quota"
  vd_standingHost :: "(string \<Rightarrow> string \<Rightarrow> thrown + standing_host) option"
  vd_yaml :: yaml_deps
  vd_kit :: string
  vd_pollBudgetMs :: "int option"

record tick =
  tk_aborted :: bool
  tk_now :: int
  tk_abortedAsleep :: bool

record validation_outcome =
  vo_verdict :: verdict
  vo_resolvedSha :: string
  vo_report :: gate_report
  vo_builds :: "string list option"

record onboard_state =
  os_space :: namespace
  os_log :: "string list"
  os_disposed :: "string list"

definition on_space :: "(namespace, 'a) comp \<Rightarrow> (onboard_state, 'a) comp" where
  "on_space m s = (case m (os_space s) of (r, n) \<Rightarrow> (r, s\<lparr>os_space := n\<rparr>))"

definition log_line :: "string \<Rightarrow> (onboard_state, unit) comp" where
  "log_line l = modify (\<lambda>s. s\<lparr>os_log := os_log s @ [l]\<rparr>)"

definition gate_line :: "gate_outcome \<Rightarrow> string" where
  "gate_line g = gt_id g @ '' '' @ status_text (gt_status g) @ dash @ gt_detail g"

section \<open>Polling\<close>

definition abort_error :: thrown where
  "abort_error = JsError ''AbortError'' ''aborted''"

definition DEFAULT_POLL_BUDGET_MS :: int where
  "DEFAULT_POLL_BUDGET_MS = 600000"

definition first_by_id :: "gate_outcome list \<Rightarrow> gate_outcome list" where
  "first_by_id gs = foldl (\<lambda>seen g. if gt_id g \<in> gt_id ` set seen then seen else seen @ [g]) [] gs"

fun poll_loop :: "validate_deps \<Rightarrow> int \<Rightarrow> int \<Rightarrow> string \<Rightarrow> tick list \<Rightarrow> (onboard_state, gate_report option) comp" where
  "poll_loop V budget deadline jobId [] = ret None"
| "poll_loop V budget deadline jobId (t # ts) =
     (if tk_aborted t then throwM abort_error
      else bindM (on_space (poll (vd_kube V) (vd_reports V) (vd_issues V) jobId)) (\<lambda>progress.
        case progress of
          Done report \<Rightarrow> bindM (forM (first_by_id (gr_gates report)) (\<lambda>g. log_line (gate_line g))) (\<lambda>_. ret (Some report))
        | Gating \<Rightarrow>
            if tk_now t \<ge> deadline
            then throwM (App (Upstream (''the gate-run did not settle within '' @ show_int budget @ ''ms'' @ dash @
              ''the Tekton controller may be down or the PipelineRun stuck unscheduled; the validation stops here instead of polling forever'')))
            else if tk_abortedAsleep t then throwM abort_error
            else poll_loop V budget deadline jobId ts))"

definition pollToDone :: "validate_deps \<Rightarrow> int \<Rightarrow> string \<Rightarrow> tick list \<Rightarrow> (onboard_state, gate_report option) comp" where
  "pollToDone V now jobId ticks =
     (let budget = (case vd_pollBudgetMs V of Some b \<Rightarrow> b | None \<Rightarrow> DEFAULT_POLL_BUDGET_MS) in poll_loop V budget (now + budget) jobId ticks)"

section \<open>Reading the manifest and the values chain\<close>

definition manifest_host :: "json \<Rightarrow> string option" where
  "manifest_host m = as_str (json_field ''host'' m)"

definition manifest_builds :: "json \<Rightarrow> string list" where
  "manifest_builds m = (case json_field ''builds'' m of JArr bs \<Rightarrow> map (\<lambda>b. case json_field ''name'' b of JStr n \<Rightarrow> n | _ \<Rightarrow> []) bs | _ \<Rightarrow> [])"

definition has_service :: "json \<Rightarrow> string \<Rightarrow> bool" where
  "has_service m n = (case json_field ''services'' m of JArr xs \<Rightarrow> JStr n \<in> set xs | _ \<Rightarrow> False)"

definition manifest_mongodb :: "json \<Rightarrow> mongodb_mode" where
  "manifest_mongodb m = (if json_field ''mongodb'' m = JStr ''standalone'' then MStandalone else if json_field ''mongodb'' m = JStr ''replicaset'' then MReplicaset else MShared)"

definition manifest_brings :: "json \<Rightarrow> unit_composition" where
  "manifest_brings m = \<lparr>uc_app = None, uc_postgresql = has_service m ''postgresql'', uc_mongodb = manifest_mongodb m,
     uc_redis = Some (if json_field ''redis'' m = JStr ''standalone'' then RStandalone else RShared), uc_mariadb = Some (has_service m ''mariadb'')\<rparr>"

definition stated :: "string \<Rightarrow> json \<Rightarrow> string option" where
  "stated key doc = (case json_field key (json_field ''global'' doc) of JStr a \<Rightarrow> if a \<noteq> [] then Some a else None | _ \<Rightarrow> None)"

definition apiHostFromChain :: "yaml_deps \<Rightarrow> (string \<times> string) list \<Rightarrow> string \<Rightarrow> thrown + string option" where
  "apiHostFromChain Y files domain =
     (case List.find (\<lambda>f. fst f = clusterMapPath domain) files of
        None \<Rightarrow> Inr None
      | Some f \<Rightarrow> bindE (ym_parse Y (snd f)) (\<lambda>doc. Inr (stated ''apiHost'' doc)))"

fun unitApexIfStated :: "yaml_deps \<Rightarrow> string option \<Rightarrow> (string \<times> string) list \<Rightarrow> thrown + string option" where
  "unitApexIfStated Y found [] = Inr found"
| "unitApexIfStated Y found (f # fs) =
     bindE (ym_parse Y (snd f)) (\<lambda>doc. unitApexIfStated Y (case stated ''unitApex'' doc of Some a \<Rightarrow> Some a | None \<Rightarrow> found) fs)"

section \<open>The gates of the Manager\<close>

definition first_rows :: "validate_deps \<Rightarrow> onboard_request \<Rightarrow> onboard_target \<Rightarrow> string \<Rightarrow> string \<Rightarrow> string \<Rightarrow> thrown + gate_outcome list" where
  "first_rows V rq tg workdir sha hostLabel =
     bindE (vd_tenantSubdomains V) (\<lambda>tenantSubdomains.
     bindE (vd_hostLabels V (ot_stage tg) (or_consumerName rq)) (\<lambda>foreignHostLabels.
     bindE (vd_readFile V workdir RELEASE_WORKFLOW_PATH) (\<lambda>releaseWorkflow.
     Inr [gateRepoAccess True (''cloned '' @ or_repoURL rq @ '' at '' @ sha),
          gateUnitName (or_consumerName rq) (ot_stage tg) hostLabel tenantSubdomains foreignHostLabels,
          gateReleaseWorkflow (vd_yaml V) (vd_kit V) releaseWorkflow])))"

definition chart_mapping :: "validate_deps \<Rightarrow> onboard_target \<Rightarrow> string \<Rightarrow> string list \<Rightarrow> thrown + (string \<times> stage \<times> chart_pin_mapping) option" where
  "chart_mapping V tg workdir builds =
     (case ot_chartPath tg of
        None \<Rightarrow> Inr None
      | Some path \<Rightarrow>
          (let source = path @ ''/values-'' @ show_stage (ot_stage tg) @ ''.yaml''
           in bindE (vd_readFile V workdir source) (\<lambda>file. Inr (Some (path, ot_stage tg, mapBuildsToChartPins (vd_yaml V) builds source file)))))"

definition size_row :: "validate_deps \<Rightarrow> onboard_request \<Rightarrow> onboard_target \<Rightarrow> json \<Rightarrow> thrown + gate_outcome" where
  "size_row V rq tg m =
     (if ot_chartPath tg = None then Inr (gateUnitSize (or_consumerName rq) (or_size rq) None None)
      else bindE (vd_resolveQuota V (or_size rq) (manifest_brings m)) (\<lambda>q. Inr (gateUnitSize (or_consumerName rq) (or_size rq) (Some (manifest_brings m, q)) None)))"

definition host_rows :: "validate_deps \<Rightarrow> onboard_request \<Rightarrow> onboard_target \<Rightarrow> string \<Rightarrow> thrown + gate_outcome list" where
  "host_rows V rq tg hostLabel =
     (if ot_chartPath tg = None then Inr []
      else bindE (unitApexIfStated (vd_yaml V) None (ot_clusterValueFiles tg)) (\<lambda>apex.
        case apex of
          None \<Rightarrow> Inr []
        | Some a \<Rightarrow>
            (let host = consumerUnitHost hostLabel (ot_stage tg) a
             in bindE (case vd_standingHost V of None \<Rightarrow> Inr None | Some f \<Rightarrow> bindE (f host (ot_domain tg)) (\<lambda>h. Inr (Some h))) (\<lambda>standing.
                Inr [gateUnitHost host (or_consumerName rq) (ot_domain tg) standing]))))"

definition sender_rows :: "validate_deps \<Rightarrow> onboard_request \<Rightarrow> onboard_target \<Rightarrow> json \<Rightarrow> thrown + gate_outcome list" where
  "sender_rows V rq tg m =
     (if json_field ''smtpEntry'' m = JNull \<or> ot_chartPath tg = None then Inr []
      else bindE (vd_smtpSenders V (ot_stage tg)) (\<lambda>senders.
        bindE (apiHostFromChain (vd_yaml V) (ot_clusterValueFiles tg) (ot_domain tg)) (\<lambda>apiHost.
        Inr [gateMailSender (or_consumerName rq) (ot_stage tg) senders (ot_domain tg) apiHost])))"

definition manifest_rows :: "validate_deps \<Rightarrow> onboard_request \<Rightarrow> onboard_target \<Rightarrow> string \<Rightarrow> string \<Rightarrow> json \<Rightarrow> thrown + gate_outcome list" where
  "manifest_rows V rq tg workdir hostLabel m =
     (let builds = manifest_builds m
      in bindE (chart_mapping V tg workdir builds) (\<lambda>chart.
         bindE (vd_attestedBuilds V (or_consumerName rq)) (\<lambda>foreignBuilds.
         bindE (size_row V rq tg m) (\<lambda>sized.
         bindE (host_rows V rq tg hostLabel) (\<lambda>hosts.
         bindE (sender_rows V rq tg m) (\<lambda>senders.
         Inr ([gateBuildNameUniqueness (or_consumerName rq) builds foreignBuilds, gateBuildDeclaration builds chart, sized] @ hosts @ senders)))))))"

definition judge :: "validate_deps \<Rightarrow> onboard_request \<Rightarrow> onboard_target \<Rightarrow> string \<Rightarrow> string \<Rightarrow> gate_report \<Rightarrow> thrown + (gate_outcome list \<times> string list option)" where
  "judge V rq tg workdir sha report =
     (let hostLabel = consumerHostLabel (or_consumerName rq) (case gr_manifest report of Some m \<Rightarrow> manifest_host m | None \<Rightarrow> None)
      in bindE (first_rows V rq tg workdir sha hostLabel) (\<lambda>rows.
         case gr_manifest report of
           None \<Rightarrow> Inr (rows @ [gateManifestInput MANIFEST_FED_GATE_IDS], None)
         | Some m \<Rightarrow> bindE (manifest_rows V rq tg workdir hostLabel m) (\<lambda>more. Inr (rows @ more, Some (manifest_builds m)))))"

section \<open>The validation\<close>

definition job_of :: "validate_deps \<Rightarrow> onboard_request \<Rightarrow> onboard_target \<Rightarrow> string \<Rightarrow> job_request" where
  "job_of V rq tg sha =
     \<lparr>jr_targetName = or_consumerName rq, jr_stage = show_stage (ot_stage tg), jr_chartPath = ot_chartPath tg, jr_repoURL = or_repoURL rq, jr_requestedRef = or_ref rq, jr_resolvedSha = sha,
      jr_clusterValueFiles = JArr (map (\<lambda>(p, c). JObj [(''path'', JStr p), (''content'', JStr c)]) (ot_clusterValueFiles tg)),
      jr_declaredListening = vd_declareListening V, jr_repoCredentialId = (case or_repoCredentialId rq of Some c \<Rightarrow> if c = [] then None else Some c | None \<Rightarrow> None)\<rparr>"

definition validate_cloned :: "validate_deps \<Rightarrow> onboard_request \<Rightarrow> onboard_target \<Rightarrow> int \<Rightarrow> tick list \<Rightarrow> string \<Rightarrow> string \<Rightarrow> (onboard_state, validation_outcome option) comp" where
  "validate_cloned V rq tg now ticks workdir sha =
     bindM (on_space (submit (vd_kube V) (vd_config V) (vd_runId V) (job_of V rq tg sha))) (\<lambda>jobId.
     bindM (catchM (pollToDone V now jobId ticks)
              (\<lambda>e. bindM (catchM (on_space (cancel_job (vd_kube V) jobId)) (\<lambda>_. ret ())) (\<lambda>_. throwM e))) (\<lambda>polled.
     case polled of
       None \<Rightarrow> ret None
     | Some report \<Rightarrow>
         bindM (log_line (sandboxProvenance (gr_sandbox report))) (\<lambda>_.
         bindM (liftE (judge V rq tg workdir sha report)) (\<lambda>(rows, builds).
         bindM (forM rows (\<lambda>g. log_line (gate_line g))) (\<lambda>_.
         (let composed = composeReport report rows
          in ret (Some \<lparr>vo_verdict = gr_verdict composed, vo_resolvedSha = sha, vo_report = composed,
               vo_builds = (if gr_verdict composed = VPass then builds else None)\<rparr>)))))))"

text \<open>The clone is disposed of in the end, whether the validation returned or threw; a validation that still polls holds it.\<close>

definition disposed :: "validate_deps \<Rightarrow> string \<Rightarrow> (onboard_state, 'a option) comp \<Rightarrow> (onboard_state, 'a option) comp" where
  "disposed V workdir m s =
     (case m s of
        (Inr None, s') \<Rightarrow> (Inr None, s')
      | (r, s') \<Rightarrow> (case vd_dispose V workdir of Inl e \<Rightarrow> (Inl e, s'\<lparr>os_disposed := os_disposed s' @ [workdir]\<rparr>) | Inr _ \<Rightarrow> (r, s'\<lparr>os_disposed := os_disposed s' @ [workdir]\<rparr>)))"

definition validateOnboard :: "validate_deps \<Rightarrow> onboard_request \<Rightarrow> onboard_target \<Rightarrow> int \<Rightarrow> tick list \<Rightarrow> (onboard_state, validation_outcome option) comp" where
  "validateOnboard V rq tg now ticks =
     bindM (liftE (vd_cloneAtRef V (or_repoURL rq) (or_ref rq) (jr_repoCredentialId (job_of V rq tg [])))) (\<lambda>(workdir, sha).
     bindM (log_line (''cloned '' @ or_repoURL rq @ '' @ '' @ or_ref rq @ '' -> '' @ sha)) (\<lambda>_.
     disposed V workdir (validate_cloned V rq tg now ticks workdir sha)))"

section \<open>What an admitted unit stands for\<close>

lemma fst_bindM: "fst (bindM m k s) = Inr x \<longleftrightarrow> (\<exists>y s'. m s = (Inr y, s') \<and> fst (k y s') = Inr x)"
  by (auto simp: bindM_def split: prod.splits sum.splits)

lemma received_green: "receive_report D j = Inr r \<Longrightarrow> sandboxGreen (gr_sandbox r)"
  using received by (cases j) (simp_all add: receive_report_def)

lemma settled_done: "settled_report D issues j b ev cm = Inr (Done r) \<Longrightarrow> \<exists>p. receive_report D p = Inr r"
  by (cases cm) (auto simp: settled_report_def bindE_Inr split: prod.splits)

lemma poll_done_green:
  assumes "fst (poll K D issues j s) = Inr (Done r)"
  shows "sandboxGreen (gr_sandbox r)"
proof -
  obtain out s' where o: "fst ((case out of None \<Rightarrow> ret Gating | Some ok \<Rightarrow>
      bindM (captureTaskRuns K j) (\<lambda>ev. bindM (readReportConfigMap K (reportCmName j)) (\<lambda>cm. bindM (reap_job K j) (\<lambda>_. liftE (settled_report D issues j ok ev cm))))) s') = Inr (Done r)"
    using assms unfolding poll_def fst_bindM by blast
  then obtain ok where "out = Some ok" by (cases out) auto
  with o obtain ev cm where "settled_report D issues j ok ev cm = Inr (Done r)" by (auto simp: fst_bindM)
  then show ?thesis using settled_done received_green by blast
qed

lemma poll_loop_green: "fst (poll_loop V b d j ts s) = Inr (Some r) \<Longrightarrow> sandboxGreen (gr_sandbox r)"
proof (induction ts arbitrary: s)
  case (Cons t ts)
  obtain progress s' where p: "on_space (poll (vd_kube V) (vd_reports V) (vd_issues V) j) s = (Inr progress, s')"
    and rest: "fst ((case progress of Done report \<Rightarrow> bindM (forM (first_by_id (gr_gates report)) (\<lambda>g. log_line (gate_line g))) (\<lambda>_. ret (Some report))
        | Gating \<Rightarrow> if tk_now t \<ge> d then throwM (App (Upstream (''the gate-run did not settle within '' @ show_int b @ ''ms'' @ dash @
              ''the Tekton controller may be down or the PipelineRun stuck unscheduled; the validation stops here instead of polling forever'')))
            else if tk_abortedAsleep t then throwM abort_error else poll_loop V b d j ts) s') = Inr (Some r)"
    using Cons.prems unfolding poll_loop.simps by (auto simp only: fst_bindM split: if_splits) (auto)
  show ?case
  proof (cases progress)
    case Gating
    then show ?thesis using rest Cons.IH by (auto split: if_splits)
  next
    case (Done report)
    then have "report = r" using rest by (auto simp: fst_bindM)
    moreover have "fst (poll (vd_kube V) (vd_reports V) (vd_issues V) j (os_space s)) = Inr (Done report)"
      using p Done by (cases "poll (vd_kube V) (vd_reports V) (vd_issues V) j (os_space s)") (simp add: on_space_def)
    ultimately show ?thesis using poll_done_green by blast
  qed
qed simp

lemma validated:
  assumes "fst (validateOnboard V rq tg now ticks s) = Inr (Some out)"
  obtains workdir sha report rows builds where
    "vd_cloneAtRef V (or_repoURL rq) (or_ref rq) (jr_repoCredentialId (job_of V rq tg [])) = Inr (workdir, sha)"
    "sandboxGreen (gr_sandbox report)" "judge V rq tg workdir sha report = Inr (rows, builds)"
    "out = \<lparr>vo_verdict = gr_verdict (composeReport report rows), vo_resolvedSha = sha, vo_report = composeReport report rows,
       vo_builds = (if gr_verdict (composeReport report rows) = VPass then builds else None)\<rparr>"
proof -
  obtain workdir sha s1 where c: "vd_cloneAtRef V (or_repoURL rq) (or_ref rq) (jr_repoCredentialId (job_of V rq tg [])) = Inr (workdir, sha)"
    and d: "fst (disposed V workdir (validate_cloned V rq tg now ticks workdir sha) s1) = Inr (Some out)"
    using assms unfolding validateOnboard_def by (auto simp: fst_bindM log_line_def)
  have "fst (validate_cloned V rq tg now ticks workdir sha s1) = Inr (Some out)"
    using d unfolding disposed_def by (auto split: prod.splits sum.splits option.splits)
  then obtain jobId s2 polled s3 where p: "catchM (pollToDone V now jobId ticks) (\<lambda>e. bindM (catchM (on_space (cancel_job (vd_kube V) jobId)) (\<lambda>_. ret ())) (\<lambda>_. throwM e)) s2 = (Inr polled, s3)"
    and k: "fst ((case polled of None \<Rightarrow> ret None | Some report \<Rightarrow>
         bindM (log_line (sandboxProvenance (gr_sandbox report))) (\<lambda>_.
         bindM (liftE (judge V rq tg workdir sha report)) (\<lambda>(rows, builds).
         bindM (forM rows (\<lambda>g. log_line (gate_line g))) (\<lambda>_.
         (let composed = composeReport report rows
          in ret (Some \<lparr>vo_verdict = gr_verdict composed, vo_resolvedSha = sha, vo_report = composed,
               vo_builds = (if gr_verdict composed = VPass then builds else None)\<rparr>)))))) s3) = Inr (Some out)"
    unfolding validate_cloned_def fst_bindM by blast
  obtain report where r: "polled = Some report" using k by (cases polled) auto
  have "fst (pollToDone V now jobId ticks s2) = Inr (Some report)"
    using p r by (cases "pollToDone V now jobId ticks s2"; cases "fst (pollToDone V now jobId ticks s2)") (auto simp: catchM_def bindM_def split: prod.splits sum.splits)
  then have "sandboxGreen (gr_sandbox report)" unfolding pollToDone_def Let_def by (rule poll_loop_green)
  moreover obtain rows builds where "judge V rq tg workdir sha report = Inr (rows, builds)"
    "out = \<lparr>vo_verdict = gr_verdict (composeReport report rows), vo_resolvedSha = sha, vo_report = composeReport report rows,
       vo_builds = (if gr_verdict (composeReport report rows) = VPass then builds else None)\<rparr>"
    using k by (auto simp: r fst_bindM Let_def)
  ultimately show thesis using that c by blast
qed

lemma judged_rows:
  assumes "judge V rq tg workdir sha report = Inr (rows, builds)" "hardGatesPass rows"
  obtains m subs labels extra where "gr_manifest report = Some m" "builds = Some (manifest_builds m)"
    "vd_tenantSubdomains V = Inr subs" "vd_hostLabels V (ot_stage tg) (or_consumerName rq) = Inr labels"
    "gt_status (gateUnitName (or_consumerName rq) (ot_stage tg) (consumerHostLabel (or_consumerName rq) (manifest_host m)) subs labels) = GPass"
    "manifest_rows V rq tg workdir (consumerHostLabel (or_consumerName rq) (manifest_host m)) m = Inr extra" "hardGatesPass extra"
proof (cases "gr_manifest report")
  case None
  then have "gateManifestInput MANIFEST_FED_GATE_IDS \<in> set rows" using assms(1) by (auto simp: judge_def Let_def bindE_Inr)
  then have "gt_status (gateManifestInput MANIFEST_FED_GATE_IDS) = GPass" using assms(2) gates_hard by (auto simp: hardGatesPass_def list_all_iff)
  then show thesis by (simp add: gateManifestInput_def Let_def)
next
  case (Some m)
  then show thesis
    using assms that gates_hard by (auto simp: judge_def first_rows_def Let_def bindE_Inr hardGatesPass_def)
qed

lemma admitted_builds:
  assumes rows: "manifest_rows V rq tg workdir label m = Inr extra" "hardGatesPass extra"
  shows "manifest_builds m \<noteq> [] \<and>
    (\<exists>foreign. vd_attestedBuilds V (or_consumerName rq) = Inr foreign \<and> set (manifest_builds m) \<inter> snd ` set foreign = {}) \<and>
    (\<forall>path. ot_chartPath tg = Some path \<longrightarrow> (\<exists>t pins. vd_readFile V workdir (path @ ''/values-'' @ show_stage (ot_stage tg) @ ''.yaml'') = Inr (Some t) \<and>
       parseBuildPins (vd_yaml V) (path @ ''/values-'' @ show_stage (ot_stage tg) @ ''.yaml'') t = Inr pins \<and> set (manifest_builds m) \<subseteq> set (map bp_image pins)))"
proof -
  obtain chart foreign rest where chart: "chart_mapping V tg workdir (manifest_builds m) = Inr chart" and foreign: "vd_attestedBuilds V (or_consumerName rq) = Inr foreign"
    and extra: "extra = gateBuildNameUniqueness (or_consumerName rq) (manifest_builds m) foreign # gateBuildDeclaration (manifest_builds m) chart # rest"
    using rows(1) by (auto simp: manifest_rows_def Let_def bindE_Inr)
  have "gt_status (gateBuildNameUniqueness (or_consumerName rq) (manifest_builds m) foreign) = GPass" "gt_status (gateBuildDeclaration (manifest_builds m) chart) = GPass"
    using rows(2) gates_hard by (simp_all add: extra hardGatesPass_def)
  then have b: "set (manifest_builds m) \<inter> snd ` set foreign = {}" and d: "manifest_builds m \<noteq> []"
    "case chart of None \<Rightarrow> True | Some (path, s, mp) \<Rightarrow> cm_error mp = None \<and> cm_missing mp = []" by (auto simp: build_gate declaration_gate)
  have "\<exists>t pins. vd_readFile V workdir src = Inr (Some t) \<and> parseBuildPins (vd_yaml V) src t = Inr pins \<and> set (manifest_builds m) \<subseteq> set (map bp_image pins)"
    if path: "ot_chartPath tg = Some path" and src: "src = path @ ''/values-'' @ show_stage (ot_stage tg) @ ''.yaml''" for path src
  proof -
    obtain fl where f: "vd_readFile V workdir src = Inr fl" "chart = Some (path, ot_stage tg, mapBuildsToChartPins (vd_yaml V) (manifest_builds m) src fl)"
      using chart path src by (auto simp: chart_mapping_def Let_def bindE_Inr)
    then show ?thesis using chart_pins [of "vd_yaml V" "manifest_builds m" src fl] d by auto
  qed
  then show ?thesis using b d(1) foreign by blast
qed

text \<open>
  C11 An onboarding that passes: the sandbox's fence held and every hard gate of the report passed; the unit's name lies in no reserved space and its label is neither a tenant's subdomain nor
  another unit's host; it declares a build, none of its builds is another unit's, and the chart, where there is one, pins each of them.
\<close>

theorem onboarding_admits_only_free_units:
  assumes "fst (validateOnboard V rq tg now ticks s) = Inr (Some out)" and "vo_verdict out = VPass"
  shows "sandboxGreen (gr_sandbox (vo_report out)) \<and> (\<forall>g \<in> set (gr_gates (vo_report out)). gt_severity g = SevHard \<longrightarrow> gt_status g = GPass) \<and>
    name_free (or_consumerName rq) \<and>
    (\<exists>m workdir sha subs labels foreign. gr_manifest (vo_report out) = Some m \<and> vo_builds out = Some (manifest_builds m) \<and> manifest_builds m \<noteq> [] \<and>
       vd_cloneAtRef V (or_repoURL rq) (or_ref rq) (jr_repoCredentialId (job_of V rq tg [])) = Inr (workdir, sha) \<and> vo_resolvedSha out = sha \<and>
       vd_tenantSubdomains V = Inr subs \<and> consumerHostLabel (or_consumerName rq) (manifest_host m) \<notin> set subs \<and>
       vd_hostLabels V (ot_stage tg) (or_consumerName rq) = Inr labels \<and> consumerHostLabel (or_consumerName rq) (manifest_host m) \<notin> snd ` set labels \<and>
       vd_attestedBuilds V (or_consumerName rq) = Inr foreign \<and> set (manifest_builds m) \<inter> snd ` set foreign = {} \<and>
       (\<forall>path. ot_chartPath tg = Some path \<longrightarrow> (\<exists>t pins. vd_readFile V workdir (path @ ''/values-'' @ show_stage (ot_stage tg) @ ''.yaml'') = Inr (Some t) \<and>
          parseBuildPins (vd_yaml V) (path @ ''/values-'' @ show_stage (ot_stage tg) @ ''.yaml'') t = Inr pins \<and> set (manifest_builds m) \<subseteq> set (map bp_image pins))))"
proof -
  obtain workdir sha report rows builds where v: "vd_cloneAtRef V (or_repoURL rq) (or_ref rq) (jr_repoCredentialId (job_of V rq tg [])) = Inr (workdir, sha)"
    "sandboxGreen (gr_sandbox report)" "judge V rq tg workdir sha report = Inr (rows, builds)"
    and out: "out = \<lparr>vo_verdict = gr_verdict (composeReport report rows), vo_resolvedSha = sha, vo_report = composeReport report rows,
       vo_builds = (if gr_verdict (composeReport report rows) = VPass then builds else None)\<rparr>"
    using assms(1) by (rule validated)
  have pass: "gr_verdict (composeReport report rows) = VPass" using assms(2) by (simp add: out)
  then have hard: "hardGatesPass (gr_gates report)" "hardGatesPass rows" by (simp_all add: composed_pass)
  obtain m subs labels extra where m: "gr_manifest report = Some m" "builds = Some (manifest_builds m)" "vd_tenantSubdomains V = Inr subs"
    "vd_hostLabels V (ot_stage tg) (or_consumerName rq) = Inr labels"
    "gt_status (gateUnitName (or_consumerName rq) (ot_stage tg) (consumerHostLabel (or_consumerName rq) (manifest_host m)) subs labels) = GPass"
    "manifest_rows V rq tg workdir (consumerHostLabel (or_consumerName rq) (manifest_host m)) m = Inr extra" "hardGatesPass extra"
    using v(3) hard(2) by (rule judged_rows)
  note b = admitted_builds [OF m(6,7)]
  then obtain foreign where foreign: "vd_attestedBuilds V (or_consumerName rq) = Inr foreign" "set (manifest_builds m) \<inter> snd ` set foreign = {}" by blast
  have sel: "vo_report out = composeReport report rows" "vo_resolvedSha out = sha" "vo_builds out = Some (manifest_builds m)" using pass m(2) by (simp_all add: out)
  have rep: "gr_sandbox (composeReport report rows) = gr_sandbox report" "gr_manifest (composeReport report rows) = gr_manifest report"
    "gr_gates (composeReport report rows) = gr_gates report @ rows" by (simp_all add: composeReport_def Let_def)
  have gates: "\<forall>g \<in> set (gr_gates report @ rows). gt_severity g = SevHard \<longrightarrow> gt_status g = GPass" using hard by (auto simp: hardGatesPass_def list_all_iff)
  have name: "name_free (or_consumerName rq)" "consumerHostLabel (or_consumerName rq) (manifest_host m) \<notin> set subs"
    "consumerHostLabel (or_consumerName rq) (manifest_host m) \<notin> snd ` set labels" using m(5) by (simp_all add: name_gate)
  show ?thesis unfolding sel rep
    by (intro conjI exI [of _ m] exI [of _ workdir] exI [of _ sha] exI [of _ subs] exI [of _ labels] exI [of _ foreign])
       (fact v gates name m foreign b [THEN conjunct1] b [THEN conjunct2, THEN conjunct2] refl)+
qed

text \<open>A unit without a chart whose validation passes: the namespace of the small runner, whose report carries a manifest that declares one build.\<close>

definition gx_manifest :: json where
  "gx_manifest = JObj [(''builds'', JArr [JObj [(''name'', JStr ''acme'')]])]"

definition gx_validate :: validate_deps where
  "gx_validate = \<lparr>vd_cloneAtRef = (\<lambda>_ _ _. Inr (''/w'', ''s'')), vd_readFile = (\<lambda>_ _. Inr None), vd_dispose = (\<lambda>_. Inr ()), vd_kube = gx_kube, vd_config = gx_config, vd_runId = ''j'',
     vd_reports = gx_deps, vd_issues = (\<lambda>_. []), vd_tenantSubdomains = Inr [], vd_hostLabels = (\<lambda>_ _. Inr []), vd_attestedBuilds = (\<lambda>_. Inr [(''other'', ''web'')]),
     vd_smtpSenders = (\<lambda>_. Inr []), vd_declareListening = True, vd_resolveQuota = (\<lambda>_ _. Inl (JsValue [])), vd_standingHost = None,
     vd_yaml = \<lparr>ym_parse = (\<lambda>_. Inl (JsValue [])), ym_why = (\<lambda>_. [])\<rparr>, vd_kit = [], vd_pollBudgetMs = None\<rparr>"

definition gx_onboard :: onboard_request where
  "gx_onboard = \<lparr>or_repoURL = ''r'', or_size = Medium, or_ref = ''HEAD'', or_consumerName = ''acme'', or_repoCredentialId = None\<rparr>"

definition gx_cluster :: onboard_target where
  "gx_cluster = \<lparr>ot_domain = ''d'', ot_stage = Dev, ot_chartPath = None, ot_clusterValueFiles = []\<rparr>"

definition gx_admitted :: gate_report where
  "gx_admitted = (let d = (draft_report gx_body)\<lparr>gr_manifest := Some gx_manifest\<rparr> in d\<lparr>gr_reportHash := reportHashPayload (JObj (report_body d))\<rparr>)"

definition gx_start :: onboard_state where
  "gx_start = \<lparr>os_space = \<lparr>k_runs = [], k_secrets = [], k_reports = [(reportCmName ''j'', [(''report.json'', Inr (report_json gx_admitted))])], k_calls = 0\<rparr>, os_log = [], os_disposed = []\<rparr>"

lemma logs_return: "\<exists>s'. forM gs (\<lambda>g. log_line (gate_line g)) s = (Inr (), s') \<and> os_space s' = os_space s"
proof (induction gs arbitrary: s)
  case (Cons g gs)
  from Cons.IH [of "s\<lparr>os_log := os_log s @ [gate_line g]\<rparr>"] show ?case by (simp add: forM_def log_line_def bindM_def)
qed (simp add: forM_def)

lemma poll_loop_done:
  assumes "fst (poll (vd_kube V) (vd_reports V) (vd_issues V) j (os_space s)) = Inr (Done r)" "\<not> tk_aborted t"
  shows "\<exists>s'. poll_loop V b d j (t # ts) s = (Inr (Some r), s')"
proof -
  obtain n where p: "poll (vd_kube V) (vd_reports V) (vd_issues V) j (os_space s) = (Inr (Done r), n)" using assms(1) by (metis prod.collapse)
  show ?thesis using logs_return [of "first_by_id (gr_gates r)" "s\<lparr>os_space := n\<rparr>"] assms(2) by (auto simp: on_space_def p bindM_def)
qed

lemma gx_validate_sel: "vd_kube gx_validate = gx_kube" "vd_config gx_validate = gx_config" "vd_runId gx_validate = ''j''" "vd_reports gx_validate = gx_deps" "vd_issues gx_validate = (\<lambda>_. [])"
    "vd_cloneAtRef gx_validate u r c = Inr (''/w'', ''s'')" "vd_dispose gx_validate w = Inr ()"
  by (simp_all add: gx_validate_def)

lemma gx_received: "receive_report gx_deps (Inr (report_json gx_admitted)) = Inr gx_admitted"
proof -
  have "rp_sha256 gx_deps (reportHashPayload (without_hash (report_json gx_admitted))) = gr_reportHash gx_admitted"
    unfolding body_of_report by (simp add: gx_admitted_def Let_def gx_deps_def report_body_hash)
  moreover have "gr_resolvedSha gx_admitted = replicate 40 (CHR ''a'')" "gr_gates gx_admitted = [gx_row ''G1'', gx_row ''G2'', gx_row ''G3'']" "gr_manifest gx_admitted = Some gx_manifest"
    "sandboxGreen (gr_sandbox gx_admitted)"
    by (simp_all add: gx_admitted_def Let_def draft_report_def gx_body_def sandboxGreen_def)
  ultimately show ?thesis unfolding received read_back_report
    by (cases gx_admitted) (simp add: gx_deps_def gx_row_ok sha_ok_def sha_char_def is_digit_def less_eq_char_def list_all_iff read_manifest_def gx_manifest_def)
qed

lemma gx_submitted:
  "submit gx_kube gx_config ''j'' rq (os_space gx_start) =
     (Inr ''j'', (os_space gx_start)\<lparr>k_runs := [\<lparr>kr_owner = \<lparr>ow_name = ''j'', ow_uid = show_nat 0\<rparr>, kr_body = pipelineRunBody gx_config ''j'' rq\<rparr>],
       k_secrets := [\<lparr>ks_name = credSecretName ''j'', ks_data = [(''GITCREDENTIALS'', [])], ks_owner = \<lparr>ow_name = ''j'', ow_uid = show_nat 0\<rparr>\<rparr>], k_calls := 2\<rparr>)"
  if "jr_repoCredentialId rq = None"
  using that by (simp add: submit_def bindM_def catchM_def createPipelineRun_def createSecret_def api_call_def gx_kube_def gx_start_def run_name_body Let_def)

lemma gx_polled:
  assumes "k_reports n = k_reports (os_space gx_start)"
  shows "fst (poll gx_kube gx_deps (\<lambda>_. []) ''j'' n) = Inr (Done gx_admitted)"
proof -
  have "fst (poll gx_kube gx_deps (\<lambda>_. []) ''j'' n) = bindE (receive_report gx_deps (Inr (report_json gx_admitted))) (\<lambda>r. Inr (Done r))"
    by (rule poll_settled [where data = "[(''report.json'', Inr (report_json gx_admitted))]" and ok = True])
       (simp_all add: gx_kube_def run_outcome_def succeeded_condition_def assms gx_start_def)
  then show ?thesis by (simp add: gx_received)
qed

lemma gx_judged: "\<exists>rows. judge gx_validate gx_onboard gx_cluster ''/w'' ''s'' gx_admitted = Inr (rows, Some [''acme'']) \<and> hardGatesPass rows"
proof -
  have "name_free ''acme''"
    by (simp add: name_free_def PLATFORM_NAMESPACES_def RESERVED_PROJECT_NAMES_def BUILD_NAMESPACE_SUFFIX_def startsWith_code endsWith_def stage_all)
  then have "gt_status (gateUnitName ''acme'' Dev ''acme'' [] []) = GPass" by (simp add: name_gate consumerNamespace_def PLATFORM_NAMESPACES_def)
  moreover have "gt_status (gateBuildNameUniqueness ''acme'' [''acme''] [(''other'', ''web'')]) = GPass" by (simp add: build_gate)
  moreover have "gt_status (gateBuildDeclaration [''acme''] None) = GPass" by (simp add: declaration_gate)
  ultimately show ?thesis
    by (simp add: judge_def first_rows_def manifest_rows_def chart_mapping_def size_row_def host_rows_def sender_rows_def gx_validate_def gx_onboard_def gx_cluster_def gx_admitted_def
        gx_manifest_def manifest_builds_def manifest_host_def consumerHostLabel_def hardGatesPass_def gateRepoAccess_def gateReleaseWorkflow_def gateUnitSize_def Let_def)
qed

lemma gx_validated: "\<exists>out. fst (validateOnboard gx_validate gx_onboard gx_cluster 0 [\<lparr>tk_aborted = False, tk_now = 0, tk_abortedAsleep = False\<rparr>] gx_start) = Inr (Some out) \<and> vo_verdict out = VPass"
proof -
  let ?rq = "job_of gx_validate gx_onboard gx_cluster ''s''" and ?ticks = "[\<lparr>tk_aborted = False, tk_now = 0, tk_abortedAsleep = False\<rparr>]"
  obtain rows where j: "judge gx_validate gx_onboard gx_cluster ''/w'' ''s'' gx_admitted = Inr (rows, Some [''acme''])" "hardGatesPass rows" using gx_judged by blast
  define s1 where "s1 = gx_start\<lparr>os_log := [''cloned r @ HEAD -> s'']\<rparr>"
  have start: "os_space s1 = os_space gx_start" by (simp add: s1_def)
  have "jr_repoCredentialId ?rq = None" by (simp add: job_of_def gx_onboard_def)
  note sub = gx_submitted [OF this]
  obtain s2 where s2: "on_space (submit gx_kube gx_config ''j'' ?rq) s1 = (Inr ''j'', s2)" "k_reports (os_space s2) = k_reports (os_space gx_start)"
    by (simp add: on_space_def start sub)
  obtain s3 where s3: "pollToDone gx_validate 0 ''j'' ?ticks s2 = (Inr (Some gx_admitted), s3)"
    using poll_loop_done [of gx_validate "''j''" s2 gx_admitted "hd ?ticks" _ _ "[]"] gx_polled [OF s2(2)] unfolding pollToDone_def Let_def gx_validate_sel list.sel by (simp del: poll_loop.simps) blast
  have pass: "gr_verdict (composeReport gx_admitted rows) = VPass"
    unfolding composed_pass using j(2) by (simp add: gx_admitted_def Let_def draft_report_def gx_body_def hardGatesPass_def gx_row_def sandboxGreen_def)
  obtain s4 where s4: "forM rows (\<lambda>g. log_line (gate_line g)) (s3\<lparr>os_log := os_log s3 @ [sandboxProvenance (gr_sandbox gx_admitted)]\<rparr>) = (Inr (), s4)" using logs_return by blast
  have cloned: "validate_cloned gx_validate gx_onboard gx_cluster 0 ?ticks ''/w'' ''s'' s1 = (Inr (Some \<lparr>vo_verdict = VPass, vo_resolvedSha = ''s'',
      vo_report = composeReport gx_admitted rows, vo_builds = Some [''acme'']\<rparr>), s4)"
    unfolding validate_cloned_def bindM_def catchM_def using s2(1) s3 s4 j(1) pass by (simp add: gx_validate_sel log_line_def Let_def)
  have "fst (validateOnboard gx_validate gx_onboard gx_cluster 0 ?ticks gx_start) = Inr (Some \<lparr>vo_verdict = VPass, vo_resolvedSha = ''s'', vo_report = composeReport gx_admitted rows, vo_builds = Some [''acme'']\<rparr>)"
    using cloned unfolding validateOnboard_def bindM_def disposed_def s1_def
    by (simp add: gx_validate_sel log_line_def gx_onboard_def gx_start_def)
  then show ?thesis by simp
qed

theorem onboarding_admits_only_free_units_witness:
  "\<exists>out. fst (validateOnboard gx_validate gx_onboard gx_cluster 0 [\<lparr>tk_aborted = False, tk_now = 0, tk_abortedAsleep = False\<rparr>] gx_start) = Inr (Some out) \<and> sandboxGreen (gr_sandbox (vo_report out)) \<and>
     name_free ''acme''"
  using gx_validated onboarding_admits_only_free_units [of gx_validate gx_onboard gx_cluster 0 "[\<lparr>tk_aborted = False, tk_now = 0, tk_abortedAsleep = False\<rparr>]" gx_start]
  by (fastforce simp: gx_onboard_def)

section \<open>A validation ends\<close>

lemma poll_loop_ends: "\<exists>t \<in> set ticks. tk_now t \<ge> deadline \<Longrightarrow> fst (poll_loop V budget deadline j ticks s) \<noteq> Inr None"
proof (induction ticks arbitrary: s)
  case (Cons t ts)
  show ?case
  proof
    assume "fst (poll_loop V budget deadline j (t # ts) s) = Inr None"
    then obtain progress s' where k: "\<not> tk_aborted t" "fst ((case progress of Done report \<Rightarrow> bindM (forM (first_by_id (gr_gates report)) (\<lambda>g. log_line (gate_line g))) (\<lambda>_. ret (Some report))
        | Gating \<Rightarrow> if tk_now t \<ge> deadline then throwM (App (Upstream (''the gate-run did not settle within '' @ show_int budget @ ''ms'' @ dash @
              ''the Tekton controller may be down or the PipelineRun stuck unscheduled; the validation stops here instead of polling forever'')))
            else if tk_abortedAsleep t then throwM abort_error else poll_loop V budget deadline j ts) s') = Inr None"
      unfolding poll_loop.simps by (auto simp only: fst_bindM split: if_splits) (auto)
    then have "progress = Gating" by (cases progress) (auto simp: fst_bindM)
    then have "tk_now t < deadline" "fst (poll_loop V budget deadline j ts s') = Inr None" using k by (auto split: if_splits)
    then show False using Cons by auto
  qed
qed simp

lemma validate_cloned_ends:
  assumes poll: "\<And>j s. fst (pollToDone V now j ticks s) \<noteq> Inr None"
  shows "fst (validate_cloned V rq tg now ticks workdir sha s1) \<noteq> Inr None"
proof
  assume "fst (validate_cloned V rq tg now ticks workdir sha s1) = Inr None"
  then obtain jobId s2 polled s3 where p: "catchM (pollToDone V now jobId ticks) (\<lambda>e. bindM (catchM (on_space (cancel_job (vd_kube V) jobId)) (\<lambda>_. ret ())) (\<lambda>_. throwM e)) s2 = (Inr polled, s3)"
    and k: "fst ((case polled of None \<Rightarrow> ret None | Some report \<Rightarrow>
       bindM (log_line (sandboxProvenance (gr_sandbox report))) (\<lambda>_.
       bindM (liftE (judge V rq tg workdir sha report)) (\<lambda>(rows, builds).
       bindM (forM rows (\<lambda>g. log_line (gate_line g))) (\<lambda>_.
       (let composed = composeReport report rows
        in ret (Some \<lparr>vo_verdict = gr_verdict composed, vo_resolvedSha = sha, vo_report = composed,
             vo_builds = (if gr_verdict composed = VPass then builds else None)\<rparr>)))))) s3) = Inr None"
    unfolding validate_cloned_def fst_bindM by blast
  have "polled = None" using k by (cases polled) (auto simp: fst_bindM Let_def)
  moreover have "fst (pollToDone V now jobId ticks s2) = Inr polled"
    using p by (cases "pollToDone V now jobId ticks s2"; cases "fst (pollToDone V now jobId ticks s2)") (auto simp: catchM_def bindM_def split: prod.splits sum.splits)
  ultimately show False using poll by simp
qed

text \<open>
  C18 A validation does not poll forever: once its clock shows the deadline, it has ended, with a verdict or with an error, whatever the run, the report and the signal did
  meanwhile, and its clone is disposed of.
\<close>

theorem validation_ends:
  assumes "\<exists>t \<in> set ticks. tk_now t \<ge> now + (case vd_pollBudgetMs V of Some b \<Rightarrow> b | None \<Rightarrow> DEFAULT_POLL_BUDGET_MS)"
  shows "fst (validateOnboard V rq tg now ticks s) \<noteq> Inr None \<and>
    (\<forall>workdir sha. vd_cloneAtRef V (or_repoURL rq) (or_ref rq) (jr_repoCredentialId (job_of V rq tg [])) = Inr (workdir, sha) \<longrightarrow> workdir \<in> set (os_disposed (snd (validateOnboard V rq tg now ticks s))))"
proof -
  have "fst (pollToDone V now j ticks s) \<noteq> Inr None" for j s
    unfolding pollToDone_def Let_def by (rule poll_loop_ends) (use assms in simp)
  then have cloned: "fst (validate_cloned V rq tg now ticks workdir sha s1) \<noteq> Inr None" for workdir sha s1 by (rule validate_cloned_ends)
  have disposed: "fst (disposed V workdir m s1) \<noteq> Inr None \<and> workdir \<in> set (os_disposed (snd (disposed V workdir m s1)))" if "fst (m s1) \<noteq> Inr None" for workdir s1 and m :: "(onboard_state, validation_outcome option) comp"
    using that by (auto simp: disposed_def split: prod.splits sum.splits option.splits)
  show ?thesis
    using disposed [OF cloned] by (cases "vd_cloneAtRef V (or_repoURL rq) (or_ref rq) (jr_repoCredentialId (job_of V rq tg []))") (auto simp: validateOnboard_def bindM_def log_line_def liftE_def modify_def split: prod.splits)
qed

theorem validation_ends_witness:
  "let out = validateOnboard gx_validate gx_onboard gx_cluster 0 [\<lparr>tk_aborted = False, tk_now = 5, tk_abortedAsleep = False\<rparr>, \<lparr>tk_aborted = False, tk_now = 600000, tk_abortedAsleep = False\<rparr>] gx_start
   in fst out \<noteq> Inr None \<and> ''/w'' \<in> set (os_disposed (snd out))"
  using validation_ends [of "[\<lparr>tk_aborted = False, tk_now = 5, tk_abortedAsleep = False\<rparr>, \<lparr>tk_aborted = False, tk_now = 600000, tk_abortedAsleep = False\<rparr>]" 0 gx_validate gx_onboard gx_cluster gx_start]
  by (simp add: DEFAULT_POLL_BUDGET_MS_def gx_validate_def Let_def)

end
