(* ===== verification/Json_Read.thy ===== *)
theory Json_Read
  imports Json_Text
begin

text \<open>
  Reading back what \<^verbatim>\<open>JSON.stringify\<close> wrote, and documents of one \<^verbatim>\<open>key: value\<close> line per field. The YAML parser of the program is a parameter of the
  development; this reader is an instance of it, and shows that what the theorems ask of the parser can hold.
\<close>

section \<open>Values\<close>

definition hex_value :: "char \<Rightarrow> nat" where
  "hex_value c = (let b = of_char c :: nat in if b < 58 then b - 48 else b - 87)"

definition unescape :: "char \<Rightarrow> char" where
  "unescape e = (case map_of (map (\<lambda>(c, d). (d, c)) short_escapes) e of Some c \<Rightarrow> c | None \<Rightarrow> e)"

text \<open>The rest of a string after its opening quote.\<close>

fun read_string :: "string \<Rightarrow> (string \<times> string) option" where
  "read_string [] = None"
| "read_string [c] = (if c = CHR 0x22 then Some ([], []) else None)"
| "read_string (c # e # ds) =
     (if c = CHR 0x22 then Some ([], e # ds)
      else if c \<noteq> CHR 0x5C then map_option (\<lambda>(s, r). (c # s, r)) (read_string (e # ds))
      else if e \<noteq> CHR ''u'' then map_option (\<lambda>(s, r). (unescape e # s, r)) (read_string ds)
      else map_option (\<lambda>(s, r). (char_of (16 * hex_value (hd (drop 2 ds)) + hex_value (hd (drop 3 ds))) # s, r)) (read_string (drop 4 ds)))"

fun read_seq :: "nat \<Rightarrow> (string \<Rightarrow> ('a \<times> string) option) \<Rightarrow> char \<Rightarrow> string \<Rightarrow> ('a list \<times> string) option" where
  "read_seq 0 item close s = None"
| "read_seq (Suc n) item close s =
     (if s \<noteq> [] \<and> hd s = close then Some ([], tl s)
      else (case item s of
        Some (x, d # r) \<Rightarrow>
          if d = close then Some ([x], r)
          else map_option (\<lambda>(xs, t). (x # xs, t)) (read_seq n item close r)
      | _ \<Rightarrow> None))"

definition read_number :: "string \<Rightarrow> json \<times> string" where
  "read_number s = (let neg = (s \<noteq> [] \<and> hd s = CHR ''-''); t = (if neg then tl s else s); n = int (number_of (takeWhile is_digit t))
     in (JNum (if neg then - n else n), dropWhile is_digit t))"

definition read_pair :: "(string \<Rightarrow> (json \<times> string) option) \<Rightarrow> string \<Rightarrow> ((string \<times> json) \<times> string) option" where
  "read_pair item s = (case read_string (tl s) of
     Some (k, d # r) \<Rightarrow> map_option (\<lambda>(v, t). ((k, v), t)) (item r)
   | _ \<Rightarrow> None)"

primrec read_json :: "nat \<Rightarrow> string \<Rightarrow> (json \<times> string) option" where
  "read_json 0 s = None"
| "read_json (Suc n) s =
     (if s = [] then None
      else if first_kind s = 0 then Some (JNull, drop 4 s)
      else if first_kind s = 1 then Some (JBool True, drop 4 s)
      else if first_kind s = 2 then Some (JBool False, drop 5 s)
      else if first_kind s = 3 then Some (read_number s)
      else if first_kind s = 4 then map_option (\<lambda>(t, r). (JStr t, r)) (read_string (tl s))
      else if first_kind s = 5 then map_option (\<lambda>(xs, r). (JArr xs, r)) (read_seq (length s) (read_json n) CHR '']'' (tl s))
      else map_option (\<lambda>(kvs, r). (JObj kvs, r)) (read_seq (length s) (read_pair (read_json n)) CHR ''}'' (tl s)))"

lemma read_escaped: "read_string (json_escape_char c @ r) = map_option (\<lambda>(s, t). (c # s, t)) (read_string r)" if "r \<noteq> []"
proof (cases rule: escape_cases [of c])
  case (short e)
  have "unescape e = c" "e \<noteq> CHR ''u''" using short(1) by (auto simp: short_escapes_def unescape_def)
  then show ?thesis using short(2) by simp
next
  case control
  have "hex_value (hex_digit n) = n" if "n < 16" for n using that by (simp add: hex_value_def Let_def hex_digit_code)
  then have "char_of (16 * hex_value (hex_digit (of_char c div 16)) + hex_value (hex_digit (of_char c mod 16))) = c"
    using control(1) by (simp add: div_less_iff_less_mult)
  then show ?thesis using control(2) by simp
next
  case plain
  then show ?thesis using that by (cases r) simp_all
qed

lemma read_string_quote: "read_string (concat (map json_escape_char s) @ CHR 0x22 # r) = Some (s, r)"
proof (induction s)
  case Nil
  show ?case by (cases r) simp_all
next
  case (Cons c s)
  then show ?case by (simp add: read_escaped)
qed

text \<open>What may follow a value: anything that does not go on with a number.\<close>

definition after :: "string \<Rightarrow> bool" where
  "after r \<longleftrightarrow> r = [] \<or> \<not> is_digit (hd r)"

lemma read_number_show: "after r \<Longrightarrow> read_number (show_int i @ r) = (JNum i, r)"
proof -
  assume r: "after r"
  have ends: "takeWhile is_digit r = []" "dropWhile is_digit r = r" using r by (cases r; simp add: after_def)+
  have digits: "takeWhile is_digit (show_nat n @ r) = show_nat n" "dropWhile is_digit (show_nat n @ r) = r" for n
    using show_nat_digit_list [of n] ends by (simp_all add: takeWhile_append2 dropWhile_append2 list_all_iff)
  have "hd (show_nat n @ r) \<noteq> CHR ''-''" for n using show_nat_head [of n r] minus_no_digit by auto
  moreover have "show_nat n \<noteq> []" for n using show_nat_digit_list by blast
  ultimately show ?thesis by (simp add: read_number_def show_int_def digits number_of_show Let_def)
qed

lemma read_seq_joined:
  assumes item: "\<And>x r. x \<in> set xs \<Longrightarrow> after r \<Longrightarrow> item (f x @ r) = Some (x, r)"
    and opens: "\<And>x. x \<in> set xs \<Longrightarrow> f x \<noteq> [] \<and> hd (f x) \<noteq> close"
    and close: "close = CHR '']'' \<or> close = CHR ''}''" and fuel: "length xs < n"
  shows "read_seq n item close (join '','' (map f xs) @ close # r) = Some (xs, r)"
  using item opens fuel
proof (induction xs arbitrary: n)
  case Nil
  then show ?case by (cases n) simp_all
next
  case (Cons x xs)
  obtain m where n: "n = Suc m" using Cons.prems(3) by (cases n) auto
  have fin: "after (close # t)" "after (CHR '','' # t)" for t using close by (auto simp: after_def is_digit_def less_eq_char_def)
  have hd: "f x \<noteq> []" "hd (f x) \<noteq> close" using Cons.prems(2) by auto
  have item: "item (f x @ t) = Some (x, t)" if "after t" for t using Cons.prems(1) that by simp
  show ?case
  proof (cases xs)
    case Nil
    then show ?thesis using hd item [OF fin(1)] by (simp add: n)
  next
    case (Cons y ys)
    have ne: "CHR '','' \<noteq> close" using close by auto
    have "read_seq m item close (join '','' (map f xs) @ close # r) = Some (xs, r)"
      using Cons.prems n by (intro Cons.IH) auto
    then show ?thesis using hd item [OF fin(2)] ne Cons by (simp add: n)
  qed
qed

lemma join_length: "x \<in> set xs \<Longrightarrow> length (f x) \<le> length (join '','' (map f xs))"
proof (induction xs)
  case (Cons y ys)
  then show ?case by (cases ys) auto
qed simp

lemma joined_count: "(\<And>x. x \<in> set xs \<Longrightarrow> f x \<noteq> []) \<Longrightarrow> length xs \<le> length (join '','' (map f xs))"
proof (induction xs)
  case (Cons y ys)
  then show ?case by (cases ys) (auto simp: Suc_le_eq)
qed simp

lemma stringify_no_close: "json_stringify j \<noteq> [] \<and> hd (json_stringify j) \<noteq> CHR '']'' \<and> hd (json_stringify j) \<noteq> CHR ''}''"
  using stringify_opens [of j "[]"] by (auto simp: stops_def)

lemma read_json_stringify: "after r \<Longrightarrow> length (json_stringify j) \<le> n \<Longrightarrow> read_json n (json_stringify j @ r) = Some (j, r)"
proof (induction j arbitrary: n r)
  case JNull
  then obtain m where "n = Suc m" by (cases n) auto
  then show ?case by (simp add: first_kind_def)
next
  case (JBool b)
  then obtain m where "n = Suc m" by (cases n; cases b) auto
  then show ?case by (cases b) (simp_all add: first_kind_def)
next
  case (JNum i)
  have "first_kind (show_int i @ r) = 3" "show_int i @ r \<noteq> []" using stringify_kind [of "JNum i" r] stringify_no_close [of "JNum i"] by simp_all
  moreover obtain m where "n = Suc m" using JNum stringify_no_close [of "JNum i"] by (cases n) auto
  ultimately show ?case using read_number_show [OF JNum(1)] by simp
next
  case (JStr s)
  then show ?case by (cases n) (simp_all add: json_quote_def first_kind_def Let_def read_string_quote)
next
  case (JArr xs)
  let ?t = "join '','' (map json_stringify xs)"
  obtain m where n: "n = Suc m" using JArr.prems(2) by (cases n) auto
  have count: "length xs \<le> length ?t" by (rule joined_count) (use stringify_no_close in blast)
  have "read_seq (length ((CHR ''['' # ?t @ '']'') @ r)) (read_json m) CHR '']'' (?t @ CHR '']'' # r) = Some (xs, r)"
  proof (rule read_seq_joined)
    fix x r' assume x: "x \<in> set xs" "after r'"
    have "length (json_stringify x) \<le> m" using JArr.prems(2) join_length [OF x(1), of json_stringify] by (simp add: n)
    then show "read_json m (json_stringify x @ r') = Some (x, r')" using JArr.IH x by blast
  qed (use stringify_no_close count in auto)
  then show ?case by (simp add: n first_kind_def Let_def)
next
  case (JObj kvs)
  let ?f = "\<lambda>(k, v). json_quote k @ '':'' @ json_stringify v" let ?t = "join '','' (map ?f kvs)"
  obtain m where n: "n = Suc m" using JObj.prems(2) by (cases n) auto
  have ne: "?f x \<noteq> [] \<and> hd (?f x) = CHR 0x22" for x by (cases x) (simp add: json_quote_def)
  have count: "length kvs \<le> length ?t" by (rule joined_count) (use ne in blast)
  have "read_seq (length ((CHR ''{'' # ?t @ ''}'') @ r)) (read_pair (read_json m)) CHR ''}'' (?t @ CHR ''}'' # r) = Some (kvs, r)"
  proof (rule read_seq_joined)
    fix x r' assume x: "x \<in> set kvs" "after r'"
    obtain k v where kv: "x = (k, v)" by (cases x)
    have "length (json_stringify v) \<le> length (?f x)" by (simp add: kv)
    then have "length (json_stringify v) \<le> m" using JObj.prems(2) join_length [OF x(1), of ?f] by (simp add: n)
    then have "read_json m (json_stringify v @ r') = Some (v, r')" using JObj.IH [of x v] x kv by simp
    then show "read_pair (read_json m) (?f x @ r') = Some (x, r')" by (simp add: kv read_pair_def json_quote_def read_string_quote)
  qed (use ne count in auto)
  then show ?case by (simp add: n first_kind_def Let_def)
qed

declare read_json.simps [simp del]

section \<open>Documents\<close>

definition line_text :: "string \<times> json \<Rightarrow> string" where
  "line_text kv = fst kv @ '': '' @ json_stringify (snd kv)"

definition flat_text :: "(string \<times> json) list \<Rightarrow> string" where
  "flat_text kvs = join [newline] (map line_text kvs) @ [newline]"

fun read_flat :: "nat \<Rightarrow> string \<Rightarrow> (string \<times> json) list option" where
  "read_flat 0 s = None"
| "read_flat (Suc n) s =
     (if s = [] then Some []
      else let k = takeWhile (\<lambda>c. c \<noteq> CHR '':'') s
           in case read_json (length s) (drop (length k + 2) s) of
                Some (v, r) \<Rightarrow> map_option (\<lambda>kvs. (k, v) # kvs) (read_flat n (tl r))
              | None \<Rightarrow> None)"

lemma flat_text_concat: "kvs \<noteq> [] \<Longrightarrow> flat_text kvs = concat (map (\<lambda>kv. line_text kv @ [newline]) kvs)"
proof (induction kvs)
  case (Cons kv kvs)
  then show ?case by (cases kvs) (simp_all add: flat_text_def)
qed simp

lemma read_flat_lines:
  assumes "\<And>k v. (k, v) \<in> set kvs \<Longrightarrow> CHR '':'' \<notin> set k" "length kvs < n"
  shows "read_flat n (concat (map (\<lambda>kv. line_text kv @ [newline]) kvs)) = Some kvs"
  using assms
proof (induction kvs arbitrary: n)
  case Nil
  then show ?case by (cases n) simp_all
next
  case (Cons kv kvs)
  obtain k v where kv: "kv = (k, v)" by (cases kv)
  obtain m where n: "n = Suc m" "length kvs < m" using Cons.prems(2) by (cases n) auto
  let ?rest = "concat (map (\<lambda>kv. line_text kv @ [newline]) kvs)" let ?s = "k @ '': '' @ json_stringify v @ newline # ?rest"
  have colon: "CHR '':'' \<notin> set k" using Cons.prems(1) [of k v] kv by simp
  then have key: "takeWhile (\<lambda>c. c \<noteq> CHR '':'') ?s = k" by (subst takeWhile_append2) auto
  have "after (newline # ?rest)" by (simp add: after_def newline_def is_digit_def less_eq_char_def)
  then have "read_json (length ?s) (json_stringify v @ newline # ?rest) = Some (v, newline # ?rest)"
    by (rule read_json_stringify) simp
  moreover have "read_flat m ?rest = Some kvs" using Cons n by (intro Cons.IH) auto
  moreover have "concat (map (\<lambda>kv. line_text kv @ [newline]) (kv # kvs)) = ?s" by (simp add: kv line_text_def)
  moreover have "drop (length k + 2) ?s = json_stringify v @ newline # ?rest" by simp
  ultimately show ?case using key kv by (simp only: n(1) read_flat.simps Let_def) simp
qed

definition read_document :: "string \<Rightarrow> json option" where
  "read_document s = map_option JObj (read_flat (Suc (length s)) s)"

lemma read_document_flat:
  assumes "\<And>k v. (k, v) \<in> set kvs \<Longrightarrow> CHR '':'' \<notin> set k" "kvs \<noteq> []"
  shows "read_document (flat_text kvs) = Some (JObj kvs)"
proof -
  have "length kvs \<le> length (concat (map (\<lambda>kv. line_text kv @ [newline]) kvs))" by (induction kvs) auto
  then show ?thesis using read_flat_lines [of kvs] assms by (simp add: read_document_def flat_text_concat del: read_flat.simps)
qed

end
