(* ===== verification/Zod_Schema.thy ===== *)
theory Zod_Schema
  imports Json_Read Results
begin

text \<open>
  Schemas on JSON values, as the source writes them with zod: a schema answers the value it reads, with its objects in the order of their shape and stripped of the keys they do
  not declare, or nothing. Every schema built from these combinators reads its own result as it is, and its result is plain: each key once, each number exact in JavaScript.
\<close>

section \<open>Combinators\<close>

type_synonym zschema = "json \<Rightarrow> json option"

datatype presence = ZRequired | ZOptional | ZDefault json

type_synonym zshape = "(string \<times> presence \<times> zschema) list"

definition MAX_SAFE :: int where
  "MAX_SAFE = 2 ^ 53 - 1"

definition zstring :: "(string \<Rightarrow> bool) \<Rightarrow> zschema" where
  "zstring P j = (case j of JStr s \<Rightarrow> if P s then Some j else None | _ \<Rightarrow> None)"

definition zbool :: zschema where
  "zbool j = (case j of JBool b \<Rightarrow> Some j | _ \<Rightarrow> None)"

text \<open>\<^verbatim>\<open>z.number().int()\<close> with a further check; zod takes safe integers only.\<close>

definition zint :: "(int \<Rightarrow> bool) \<Rightarrow> zschema" where
  "zint P j = (case j of JNum i \<Rightarrow> if P i \<and> \<bar>i\<bar> \<le> MAX_SAFE then Some j else None | _ \<Rightarrow> None)"

definition zenum :: "string list \<Rightarrow> zschema" where
  "zenum ws = zstring (\<lambda>s. s \<in> set ws)"

definition zarray :: "zschema \<Rightarrow> zschema" where
  "zarray v j = (case j of JArr xs \<Rightarrow> map_option JArr (those (map v xs)) | _ \<Rightarrow> None)"

definition zfield :: "(string \<times> json) list \<Rightarrow> string \<times> presence \<times> zschema \<Rightarrow> (string \<times> json) list option" where
  "zfield kvs f = (case f of (k, p, v) \<Rightarrow>
     (case map_of kvs k of
        Some j \<Rightarrow> map_option (\<lambda>j'. [(k, j')]) (v j)
      | None \<Rightarrow> (case p of ZRequired \<Rightarrow> None | ZOptional \<Rightarrow> Some [] | ZDefault d \<Rightarrow> Some [(k, d)])))"

definition zfields :: "zshape \<Rightarrow> (string \<times> json) list \<Rightarrow> (string \<times> json) list option" where
  "zfields spec kvs = map_option concat (those (map (zfield kvs) spec))"

definition zobject :: "zshape \<Rightarrow> zschema" where
  "zobject spec j = (case j of JObj kvs \<Rightarrow> map_option JObj (zfields spec kvs) | _ \<Rightarrow> None)"

definition zrefine :: "((string \<times> json) list \<Rightarrow> bool) \<Rightarrow> zschema \<Rightarrow> zschema" where
  "zrefine P v j = (case v j of Some (JObj kvs) \<Rightarrow> if P kvs then Some (JObj kvs) else None | _ \<Rightarrow> None)"

text \<open>\<^verbatim>\<open>{ ...e, k: v }\<close> and the object without a key.\<close>

fun set_field :: "string \<Rightarrow> 'v \<Rightarrow> (string \<times> 'v) list \<Rightarrow> (string \<times> 'v) list" where
  "set_field k v [] = [(k, v)]"
| "set_field k v ((l, w) # kvs) = (if l = k then (k, v) # kvs else (l, w) # set_field k v kvs)"

definition drop_field :: "string \<Rightarrow> (string \<times> 'v) list \<Rightarrow> (string \<times> 'v) list" where
  "drop_field k kvs = filter (\<lambda>kv. fst kv \<noteq> k) kvs"

fun spread :: "(string \<times> json option) list \<Rightarrow> (string \<times> json) list \<Rightarrow> (string \<times> json) list" where
  "spread [] kvs = kvs"
| "spread ((k, x) # ps) kvs = spread ps (case x of Some v \<Rightarrow> set_field k v kvs | None \<Rightarrow> drop_field k kvs)"

lemma map_of_set_field [simp]: "map_of (set_field k v kvs) l = (if l = k then Some v else map_of kvs l)"
  by (induction kvs) auto

lemma map_of_drop_field [simp]: "map_of (drop_field k kvs) l = (if l = k then None else map_of kvs l)"
  by (induction kvs) (auto simp: drop_field_def)

section \<open>Plain values\<close>

fun plain_json :: "json \<Rightarrow> bool" where
  "plain_json (JNum i) \<longleftrightarrow> \<bar>i\<bar> \<le> MAX_SAFE"
| "plain_json (JArr xs) \<longleftrightarrow> list_all plain_json xs"
| "plain_json (JObj kvs) \<longleftrightarrow> distinct (map fst kvs) \<and> list_all (\<lambda>(k, v). plain_json v) kvs"
| "plain_json j \<longleftrightarrow> True"

definition zgood :: "zschema \<Rightarrow> bool" where
  "zgood v \<longleftrightarrow> (\<forall>j j'. v j = Some j' \<longrightarrow> v j' = Some j' \<and> plain_json j')"

definition zshape_good :: "zshape \<Rightarrow> bool" where
  "zshape_good spec \<longleftrightarrow> distinct (map fst spec) \<and>
     (\<forall>(k, p, v) \<in> set spec. zgood v \<and> (case p of ZDefault d \<Rightarrow> v d = Some d | _ \<Rightarrow> True))"

lemma zgoodD: "zgood v \<Longrightarrow> v j = Some j' \<Longrightarrow> v j' = Some j'" "zgood v \<Longrightarrow> v j = Some j' \<Longrightarrow> plain_json j'"
  by (auto simp: zgood_def)

lemma zgood_string: "zgood (zstring P)"
  by (auto simp: zgood_def zstring_def split: json.splits if_splits)

lemma zgood_bool: "zgood zbool"
  by (auto simp: zgood_def zbool_def split: json.splits)

lemma zgood_int: "zgood (zint P)"
  by (auto simp: zgood_def zint_def split: json.splits if_splits)

lemma zgood_enum: "zgood (zenum ws)"
  by (simp add: zenum_def zgood_string)

lemma those_Some: "those xs = Some ys \<longleftrightarrow> xs = map Some ys"
  by (induction xs arbitrary: ys) (auto split: option.splits)

lemma zgood_array:
  assumes "zgood v"
  shows "zgood (zarray v)"
  unfolding zgood_def
proof (intro allI impI)
  fix j j' assume "zarray v j = Some j'"
  then obtain xs ys where xs: "j' = JArr ys" "map v xs = map Some ys" by (auto simp: zarray_def those_Some split: json.splits)
  have "v y = Some y \<and> plain_json y" if "y \<in> set ys" for y
  proof -
    obtain i where i: "i < length ys" "y = ys ! i" using \<open>y \<in> set ys\<close> by (auto simp: in_set_conv_nth)
    then have "v (xs ! i) = Some y" using xs(2) by (metis length_map nth_map)
    then show ?thesis using zgoodD [OF assms] by blast
  qed
  then show "zarray v j' = Some j' \<and> plain_json j'" by (auto simp: xs zarray_def those_Some list_all_iff)
qed

lemma zfields_Cons: "zfields (f # spec) kvs = Some out \<longleftrightarrow> (\<exists>a b. zfield kvs f = Some a \<and> zfields spec kvs = Some b \<and> out = a @ b)"
  by (auto simp: zfields_def those_Some split: option.splits)

lemma zfield_Some: "zfield kvs (k, p, v) = Some a \<Longrightarrow> a = [] \<and> map_of kvs k = None \<and> p = ZOptional \<or>
    (\<exists>j. a = [(k, j)] \<and> ((\<exists>i. map_of kvs k = Some i \<and> v i = Some j) \<or> map_of kvs k = None \<and> p = ZDefault j))"
  by (auto simp: zfield_def split: option.splits presence.splits)

lemma zfields_keys: "zfields spec kvs = Some out \<Longrightarrow> set (map fst out) \<subseteq> set (map fst spec)"
proof (induction spec arbitrary: out)
  case (Cons f spec)
  obtain k p v where f: "f = (k, p, v)" by (cases f)
  obtain a b where ab: "zfield kvs f = Some a" "zfields spec kvs = Some b" "out = a @ b" using Cons.prems zfields_Cons by blast
  have "set (map fst a) \<subseteq> {k}" using zfield_Some [of kvs k p v a] ab(1) f by auto
  then show ?case using Cons.IH [OF ab(2)] ab(3) f by auto
qed (simp add: zfields_def)

text \<open>What a result says about each declared key.\<close>

lemma zfields_lookup:
  assumes "zfields spec kvs = Some out" "distinct (map fst spec)"
  shows "distinct (map fst out) \<and> (\<forall>(k, p, v) \<in> set spec. zfield kvs (k, p, v) = Some (case map_of out k of Some j \<Rightarrow> [(k, j)] | None \<Rightarrow> []))"
  using assms
proof (induction spec arbitrary: out)
  case (Cons f spec)
  obtain k p v where f: "f = (k, p, v)" by (cases f)
  obtain a b where ab: "zfield kvs f = Some a" "zfields spec kvs = Some b" "out = a @ b" using Cons.prems(1) zfields_Cons by blast
  have k: "k \<notin> set (map fst b)" using zfields_keys [OF ab(2)] Cons.prems(2) f by auto
  then have none: "map_of b k = None" by (simp add: map_of_eq_None_iff)
  have a: "a = (case map_of out k of Some j \<Rightarrow> [(k, j)] | None \<Rightarrow> [])" using zfield_Some [of kvs k p v a] ab f none by auto
  have IH: "distinct (map fst b)" "\<forall>(k, p, v) \<in> set spec. zfield kvs (k, p, v) = Some (case map_of b k of Some j \<Rightarrow> [(k, j)] | None \<Rightarrow> [])"
    using Cons.IH [OF ab(2)] Cons.prems(2) by auto
  have fst_a: "fst ` set a \<subseteq> {k}" using a by (auto split: option.splits)
  have same: "map_of out l = map_of b l" if "l \<noteq> k" for l
  proof -
    have "map_of a l = None" using fst_a that by (auto simp: map_of_eq_None_iff)
    then show ?thesis using ab(3) by (simp add: map_add_def split: option.split)
  qed
  have "distinct (map fst out)" using ab(3) a IH(1) k by (auto split: option.splits)
  moreover have "l \<noteq> k" if "(l, q, w) \<in> set spec" for l q w using Cons.prems(2) f that by force
  ultimately show ?case using IH(2) same ab(1) a f by (auto split: prod.splits)
qed (simp add: zfields_def)

lemma zfields_again:
  assumes "zfields spec kvs = Some out" "distinct (map fst spec)" "\<And>f. f \<in> set spec \<Longrightarrow> zfield out' f = zfield kvs f"
  shows "zfields spec out' = Some out"
proof -
  have "map (zfield out') spec = map (zfield kvs) spec" using assms(3) by simp
  then show ?thesis using assms(1) unfolding zfields_def by (simp only:)
qed

lemma zfields_good:
  assumes out: "zfields spec kvs = Some out" and good: "zshape_good spec"
  shows "zfields spec out = Some out" "plain_json (JObj out)"
proof -
  have d: "distinct (map fst spec)" using good by (simp add: zshape_good_def)
  note L = zfields_lookup [OF out d]
  have field: "zfield kvs (k, p, v) = Some (case map_of out k of Some j \<Rightarrow> [(k, j)] | None \<Rightarrow> [])" if "(k, p, v) \<in> set spec" for k p v
    using L that by auto
  have spec: "zgood v" "p = ZDefault dft \<Longrightarrow> v dft = Some dft" if "(k, p, v) \<in> set spec" for k p v dft
    using good that by (auto simp: zshape_good_def)
  have read: "v j = Some j \<and> plain_json j" if m: "(k, p, v) \<in> set spec" "map_of out k = Some j" for k p v j
  proof -
    have "(\<exists>i. v i = Some j) \<or> p = ZDefault j" using field [OF m(1)] zfield_Some [of kvs k p v "[(k, j)]"] m(2) by auto
    then show ?thesis using zgoodD [OF spec(1) [OF m(1)]] spec(2) [OF m(1)] by blast
  qed
  have "zfield out (k, p, v) = zfield kvs (k, p, v)" if m: "(k, p, v) \<in> set spec" for k p v
  proof (cases "map_of out k")
    case None
    then have "p = ZOptional" using field [OF m] zfield_Some [of kvs k p v "[]"] by simp
    then show ?thesis using field [OF m] None by (simp add: zfield_def)
  next
    case (Some j)
    then show ?thesis using field [OF m] read [OF m Some] by (simp add: zfield_def)
  qed
  then show "zfields spec out = Some out" using zfields_again [OF out d, of out] by (metis prod_cases3)
  have "plain_json j" if j: "(k, j) \<in> set out" for k j
  proof -
    have "k \<in> set (map fst spec)" using zfields_keys [OF out] j by force
    then obtain p v where "(k, p, v) \<in> set spec" by auto
    moreover have "map_of out k = Some j" using L j by (simp add: map_of_is_SomeI)
    ultimately show ?thesis using read by blast
  qed
  then show "plain_json (JObj out)" using L by (auto simp: list_all_iff)
qed

lemma zgood_object: "zshape_good spec \<Longrightarrow> zgood (zobject spec)"
  using zfields_good by (fastforce simp: zgood_def zobject_def split: json.splits)

lemma zgood_refine: "zgood v \<Longrightarrow> zgood (zrefine P v)"
  by (fastforce simp: zgood_def zrefine_def split: option.splits json.splits if_splits)

lemmas zgood_intros = zgood_string zgood_bool zgood_int zgood_enum zgood_array zgood_object zgood_refine

end
