(* ===== verification/Registration.thy ===== *)
theory Registration
  imports Zod_Schema Onboard_Gates
begin

text \<open>
  What the platform registers about a unit (\<^verbatim>\<open>shared/consumer.ts\<close>: \<^verbatim>\<open>ConsumerRegistrationSchema\<close>) and the laws every file of it obeys
  (\<^verbatim>\<open>plugins/unit/server/registration-laws.ts\<close>): the path guard, the text with one field per line that is read back before it is written, the trailer.

  A registration is the object the schema read, fields in the order of its shape. The YAML parser is a parameter; what the laws need of it is \<open>yaml_reads\<close>: that it
  reads a document of one JSON value per line. \<open>flat_yaml\<close> does.
\<close>

section \<open>Schema\<close>

type_synonym entry = "(string \<times> json) list"

definition dns_label :: "nat \<Rightarrow> string \<Rightarrow> bool" where
  "dns_label n s \<longleftrightarrow> s \<noteq> [] \<and> length s \<le> n \<and> label_char (hd s) \<and> label_char (last s) \<and> list_all (\<lambda>c. label_char c \<or> c = CHR ''-'') s"

definition consumerName_ok :: "string \<Rightarrow> bool" where
  "consumerName_ok = dns_label 40"

definition hostLabel_ok :: "string \<Rightarrow> bool" where
  "hostLabel_ok s \<longleftrightarrow> HOST_LABEL_RE s \<and> s \<notin> set RESERVED_HOST_LABELS \<and> \<not> PLATFORM_HOST_LABEL s"

definition CONSUMER_SERVICE :: "string list" where
  "CONSUMER_SERVICE = [''mongodb'', ''postgresql'', ''redis'', ''mariadb'', ''registry-pull'', ''forwardauth'', ''postfix'', ''smtp-ops'']"

text \<open>\<^verbatim>\<open>/^[^/].*$/\<close>: no line terminator after the first character.\<close>

definition line_break :: "string \<Rightarrow> bool" where
  "line_break s \<longleftrightarrow> CHR 0x0A \<in> set s \<or> CHR 0x0D \<in> set s \<or> has_substring s [CHR 0xE2, CHR 0x80, CHR 0xA8] \<or> has_substring s [CHR 0xE2, CHR 0x80, CHR 0xA9]"

definition chartPath_ok :: "string \<Rightarrow> bool" where
  "chartPath_ok s \<longleftrightarrow> s \<noteq> [] \<and> hd s \<noteq> CHR ''/'' \<and> \<not> line_break (dropWhile (\<lambda>c. js_units c = 0) (tl s))"

definition publicFqdn_ok :: "string \<Rightarrow> bool" where
  "publicFqdn_ok s \<longleftrightarrow> (let labels = split_char CHR ''.'' s in length labels \<ge> 2 \<and> list_all (dns_label 63) labels)"

definition repoURL_ok :: "string \<Rightarrow> bool" where
  "repoURL_ok s \<longleftrightarrow> startsWith s ''https://'' \<and> endsWith s ''.git'' \<and> length s > 12 \<and> CHR '' '' \<notin> set s"

definition upper_char :: "char \<Rightarrow> bool" where
  "upper_char c \<longleftrightarrow> CHR ''A'' \<le> c \<and> c \<le> CHR ''Z''"

definition dkimKey_ok :: "string \<Rightarrow> bool" where
  "dkimKey_ok s \<longleftrightarrow> s \<noteq> [] \<and> upper_char (hd s) \<and> list_all (\<lambda>c. upper_char c \<or> is_digit c \<or> c = CHR ''_'') s"

definition SmtpEntrySchema :: zschema where
  "SmtpEntrySchema = zobject
     [(''service'', ZRequired, zstring (dns_label 63)), (''port'', ZRequired, zint (\<lambda>i. 1 \<le> i \<and> i \<le> 65535)), (''dkimKey'', ZOptional, zstring dkimKey_ok)]"

definition UnitSizeSchema :: zschema where
  "UnitSizeSchema = zenum (map show_size UNIT_SIZE)"

definition VolumeSchema :: zschema where
  "VolumeSchema = zstring (\<lambda>s. length s \<ge> 3 \<and> last s = CHR ''i'' \<and> last (butlast s) \<in> {CHR ''M'', CHR ''G'', CHR ''T''} \<and> list_all is_digit (butlast (butlast s)))"

definition part_shape :: "zschema \<Rightarrow> zshape" where
  "part_shape v = map (\<lambda>p. (show_component (data_component p), ZOptional, v)) DATA_PART"

definition UnitQuotaSchema :: zschema where
  "UnitQuotaSchema = zobject
     (map (\<lambda>k. (k, ZRequired, zstring (\<lambda>s. s \<noteq> []))) [''requestsCpu'', ''requestsMemory'', ''limitsCpu'', ''limitsMemory''] @
      map (\<lambda>k. (k, ZRequired, zint (\<lambda>i. i > 0))) [''pods'', ''persistentVolumeClaims''])"

definition REDIS_MAXMEMORY_POLICY :: "string list" where
  "REDIS_MAXMEMORY_POLICY = [''noeviction'', ''allkeys-lru'']"

definition registration_shape :: zshape where
  "registration_shape =
     [(''name'', ZRequired, zstring consumerName_ok),
      (''repoURL'', ZRequired, zstring repoURL_ok),
      (''owner'', ZOptional, zstring (\<lambda>_. True)),
      (''onboardedAt'', ZOptional, zstring (\<lambda>_. True)),
      (''suspended'', ZDefault (JBool False), zbool),
      (''quiesced'', ZDefault (JBool False), zbool),
      (''removing'', ZDefault (JBool False), zbool),
      (''chartPath'', ZOptional, zstring chartPath_ok),
      (''cluster'', ZOptional, zstring (dns_label 63)),
      (''leaving'', ZOptional, zstring (dns_label 63)),
      (''databases'', ZOptional, zarray (zstring (\<lambda>_. True))),
      (''keyPatterns'', ZOptional, zarray (zstring (\<lambda>_. True))),
      (''channelPatterns'', ZOptional, zarray (zstring (\<lambda>_. True))),
      (''services'', ZOptional, zarray (zenum CONSUMER_SERVICE)),
      (''size'', ZOptional, UnitSizeSchema),
      (''sizes'', ZOptional, zobject (part_shape UnitSizeSchema)),
      (''volumes'', ZOptional, zobject (part_shape VolumeSchema)),
      (''mongodb'', ZOptional, zenum [''shared'', ''standalone'', ''replicaset'']),
      (''redis'', ZOptional, zenum [''shared'', ''standalone'']),
      (''redisMaxmemoryPolicy'', ZOptional, zenum REDIS_MAXMEMORY_POLICY),
      (''quota'', ZOptional, UnitQuotaSchema),
      (''host'', ZOptional, zstring hostLabel_ok),
      (''fqdn'', ZOptional, zstring publicFqdn_ok),
      (''smtpEntry'', ZOptional, SmtpEntrySchema),
      (''builds'', ZOptional, zarray (zstring pin_name_ok))]"

definition REGISTRATION_KEYS :: "string list" where
  "REGISTRATION_KEYS = map fst registration_shape"

definition unitNameFromRepoURL :: "string \<Rightarrow> string" where
  "unitNameFromRepoURL url = (let base = rev (takeWhile (\<lambda>c. c \<noteq> CHR ''/'') (rev url)) in if endsWith base ''.git'' then drop_last 4 base else base)"

definition has_field :: "entry \<Rightarrow> string \<Rightarrow> bool" where
  "has_field e k \<longleftrightarrow> map_of e k \<noteq> None"

definition str_of :: "entry \<Rightarrow> string \<Rightarrow> string option" where
  "str_of e k = Option.bind (map_of e k) as_str"

definition DEPLOY_GROUP :: "string list" where
  "DEPLOY_GROUP = [''chartPath'', ''cluster'', ''databases'', ''services'', ''size'', ''mongodb'', ''quota'', ''host'']"

definition registration_refines :: "entry \<Rightarrow> bool" where
  "registration_refines e \<longleftrightarrow>
     map_option unitNameFromRepoURL (str_of e ''repoURL'') = str_of e ''name'' \<and>
     (if \<not> has_field e ''cluster''
      then list_all (\<lambda>k. \<not> has_field e k) DEPLOY_GROUP \<and> has_field e ''builds'' \<and> \<not> has_field e ''fqdn'' \<and> \<not> has_field e ''smtpEntry'' \<and>
        list_all (\<lambda>k. \<not> has_field e k) [''sizes'', ''volumes'', ''redis'', ''redisMaxmemoryPolicy'']
      else list_all (has_field e) DEPLOY_GROUP \<and> \<not> has_field e ''builds'')"

definition ConsumerRegistrationSchema :: zschema where
  "ConsumerRegistrationSchema = zrefine registration_refines (zobject registration_shape)"

definition valid_entry :: "entry \<Rightarrow> bool" where
  "valid_entry e \<longleftrightarrow> ConsumerRegistrationSchema (JObj e) = Some (JObj e)"

section \<open>The laws of a file\<close>

definition zod_parse :: "yaml_deps \<Rightarrow> entry \<Rightarrow> thrown + entry" where
  "zod_parse Y e = (case ConsumerRegistrationSchema (JObj e) of Some (JObj e') \<Rightarrow> Inr e' | _ \<Rightarrow> Inl (JsError ''ZodError'' (ym_why Y (JObj e))))"

definition parseRegistration :: "yaml_deps \<Rightarrow> string \<Rightarrow> thrown + entry" where
  "parseRegistration Y t =
     (case ym_parse Y t of
        Inl e \<Rightarrow> Inl (App (Internal (''registration is not valid YAML: '' @ thrown_message e)))
      | Inr (JObj kvs) \<Rightarrow> Inr kvs
      | Inr doc \<Rightarrow> Inl (App (Internal (''registration is not a YAML mapping: '' @ json_stringify doc))))"

definition read_entry :: "yaml_deps \<Rightarrow> string \<Rightarrow> thrown + entry" where
  "read_entry Y t = bindE (parseRegistration Y t) (zod_parse Y)"

definition deepEqual :: "json option \<Rightarrow> json option \<Rightarrow> bool" where
  "deepEqual a b \<longleftrightarrow> map_option json_stringify a = map_option json_stringify b"

definition serializePointer :: "yaml_deps \<Rightarrow> entry \<Rightarrow> thrown + string" where
  "serializePointer Y e =
     bindE (zod_parse Y e) (\<lambda>validated.
       let yaml = flat_text validated
       in bindE (read_entry Y yaml) (\<lambda>reparsed.
            case List.find (\<lambda>(k, v). \<not> deepEqual (map_of reparsed k) (Some v)) validated of
              Some (k, v) \<Rightarrow> Inl (App (Internal (''registration serialize round-trip diverged at '' @ dq k)))
            | None \<Rightarrow> Inr yaml))"

definition trailer :: "string \<Rightarrow> string" where
  "trailer runId = ''['' @ runId @ '']''"

definition makeRegistrationGuard :: "(string \<Rightarrow> bool) \<Rightarrow> string \<Rightarrow> string \<Rightarrow> thrown + string" where
  "makeRegistrationGuard pattern label path =
     (if \<not> pattern path \<or> has_substring path ''..'' then Inl (App (Internal (''path guard: '' @ dq path @ '' is outside '' @ label))) else Inr path)"

section \<open>What is written reads back\<close>

text \<open>What the laws rely on of the YAML parser: a document of one JSON value per line reads as the object of its lines.\<close>

definition yaml_reads :: "yaml_deps \<Rightarrow> bool" where
  "yaml_reads Y \<longleftrightarrow> (\<forall>kvs. kvs \<noteq> [] \<and> set (map fst kvs) \<subseteq> set REGISTRATION_KEYS \<and> plain_json (JObj kvs) \<longrightarrow> ym_parse Y (flat_text kvs) = Inr (JObj kvs))"

definition flat_yaml :: yaml_deps where
  "flat_yaml = \<lparr>ym_parse = (\<lambda>t. case read_document t of Some j \<Rightarrow> Inr j | None \<Rightarrow> Inl (JsError ''YAMLParseError'' [])), ym_why = (\<lambda>_. [])\<rparr>"

lemma registration_shape_good: "zshape_good registration_shape"
proof -
  have parts: "zshape_good (part_shape v)" if "zgood v" for v
    using that by (simp add: zshape_good_def part_shape_def DATA_PART_def)
  have size: "zgood UnitSizeSchema" "zgood VolumeSchema" "zgood SmtpEntrySchema" "zgood UnitQuotaSchema"
    unfolding UnitSizeSchema_def VolumeSchema_def SmtpEntrySchema_def UnitQuotaSchema_def by (rule zgood_intros; simp add: zshape_good_def zgood_intros)+
  then show ?thesis using zgood_object [OF parts] by (simp add: zshape_good_def registration_shape_def zgood_intros zbool_def)
qed

lemma schema_good: "zgood ConsumerRegistrationSchema"
  unfolding ConsumerRegistrationSchema_def by (intro zgood_intros registration_shape_good)

lemma schema_object: "ConsumerRegistrationSchema j = Some j' \<Longrightarrow> \<exists>e. j' = JObj e \<and> valid_entry e"
proof -
  assume j: "ConsumerRegistrationSchema j = Some j'"
  then obtain e where "j' = JObj e" by (auto simp: ConsumerRegistrationSchema_def zrefine_def split: option.splits json.splits if_splits)
  then show ?thesis using zgoodD(1) [OF schema_good j] by (simp add: valid_entry_def)
qed

lemma zod_parse_valid: "zod_parse Y e = Inr e' \<Longrightarrow> valid_entry e'"
  using schema_object by (fastforce simp: zod_parse_def split: option.splits json.splits)

lemma zod_parse_same: "valid_entry e \<Longrightarrow> zod_parse Y e = Inr e"
  by (simp add: zod_parse_def valid_entry_def)

lemma valid_entry_shape:
  assumes "valid_entry e"
  shows "zfields registration_shape e = Some e" "registration_refines e"
  using assms by (auto simp: valid_entry_def ConsumerRegistrationSchema_def zrefine_def zobject_def split: option.splits if_splits)

lemma shape_distinct: "distinct (map fst registration_shape)"
  using registration_shape_good by (simp add: zshape_good_def)

lemma valid_entry_plain: "valid_entry e \<Longrightarrow> plain_json (JObj e)" "valid_entry e \<Longrightarrow> set (map fst e) \<subseteq> set REGISTRATION_KEYS"
  by (rule zfields_good(2) [OF _ registration_shape_good], erule valid_entry_shape(1)) (use zfields_keys [OF valid_entry_shape(1)] in \<open>simp add: REGISTRATION_KEYS_def\<close>)

lemma valid_entry_field:
  assumes "valid_entry e" "(k, p, v) \<in> set registration_shape"
  shows "case map_of e k of Some j \<Rightarrow> v j = Some j | None \<Rightarrow> p = ZOptional"
proof -
  have "zfield e (k, p, v) = Some (case map_of e k of Some j \<Rightarrow> [(k, j)] | None \<Rightarrow> [])"
    using zfields_lookup [OF valid_entry_shape(1) [OF assms(1)] shape_distinct] assms(2) by auto
  then show ?thesis by (auto simp: zfield_def split: option.splits presence.splits)
qed

lemma valid_entry_nonempty: "valid_entry e \<Longrightarrow> e \<noteq> []"
  using valid_entry_field [of e "''name''" ZRequired "zstring consumerName_ok"] by (auto simp: registration_shape_def)

lemma valid_entry_distinct: "valid_entry e \<Longrightarrow> distinct (map fst e)"
  using valid_entry_plain(1) by auto

lemma read_back: "yaml_reads Y \<Longrightarrow> valid_entry e \<Longrightarrow> read_entry Y (flat_text e) = Inr e"
  using valid_entry_plain [of e] valid_entry_nonempty [of e] by (simp add: read_entry_def parseRegistration_def yaml_reads_def zod_parse_same)

lemma serialize_eq:
  assumes "yaml_reads Y"
  shows "serializePointer Y e = bindE (zod_parse Y e) (\<lambda>e'. Inr (flat_text e'))"
proof (cases "zod_parse Y e")
  case (Inr e')
  have v: "valid_entry e'" using Inr by (rule zod_parse_valid)
  have "List.find (\<lambda>(k, v). \<not> deepEqual (map_of e' k) (Some v)) e' = None"
    using valid_entry_distinct [OF v] by (auto simp: find_none deepEqual_def)
  then show ?thesis using read_back [OF assms v] by (simp add: serializePointer_def Inr)
qed (simp add: serializePointer_def)

lemma keys_no_colon: "k \<in> set REGISTRATION_KEYS \<Longrightarrow> CHR '':'' \<notin> set k"
  by (auto simp: REGISTRATION_KEYS_def registration_shape_def)

lemma flat_yaml_reads: "yaml_reads flat_yaml"
  unfolding yaml_reads_def
proof (intro allI impI)
  fix kvs :: entry
  assume kvs: "kvs \<noteq> [] \<and> set (map fst kvs) \<subseteq> set REGISTRATION_KEYS \<and> plain_json (JObj kvs)"
  have "CHR '':'' \<notin> set k" if "(k, v) \<in> set kvs" for k v using kvs that by (intro keys_no_colon) force
  then show "ym_parse flat_yaml (flat_text kvs) = Inr (JObj kvs)" using read_document_flat [of kvs] kvs by (simp add: flat_yaml_def)
qed

text \<open>
  C16 A registration is written exactly when the schema accepts it, and then the text reads back as what the schema made of it, defaults filled in and undeclared keys gone. Writing what was
  read gives the same text again, so a re-attestation that changes nothing commits nothing.
\<close>

theorem registration_round_trip:
  assumes "yaml_reads Y"
  shows "case ConsumerRegistrationSchema (JObj e) of
      Some j \<Rightarrow> (\<exists>e'. j = JObj e' \<and> serializePointer Y e = Inr (flat_text e') \<and> read_entry Y (flat_text e') = Inr e' \<and> serializePointer Y e' = Inr (flat_text e'))
    | None \<Rightarrow> (\<exists>err. serializePointer Y e = Inl err)"
proof (cases "ConsumerRegistrationSchema (JObj e)")
  case (Some j)
  then obtain e' where e': "j = JObj e'" "valid_entry e'" using schema_object by blast
  then have "zod_parse Y e = Inr e'" using Some by (simp add: zod_parse_def)
  then show ?thesis using Some e' serialize_eq [OF assms] read_back [OF assms e'(2)] by (simp add: zod_parse_same)
qed (simp add: serializePointer_def zod_parse_def)

theorem registration_round_trip_witness:
  "let e = [(''builds'', JArr [JStr ''acme'']), (''name'', JStr ''acme''), (''repoURL'', JStr ''https://git.example/acme.git''), (''colour'', JStr ''blue'')];
       e' = [(''name'', JStr ''acme''), (''repoURL'', JStr ''https://git.example/acme.git''), (''suspended'', JBool False), (''quiesced'', JBool False), (''removing'', JBool False),
         (''builds'', JArr [JStr ''acme''])]
   in serializePointer flat_yaml e = Inr (flat_text e') \<and> read_entry flat_yaml (flat_text e') = Inr e'"
proof -
  let ?e = "[(''builds'', JArr [JStr ''acme'']), (''name'', JStr ''acme''), (''repoURL'', JStr ''https://git.example/acme.git''), (''colour'', JStr ''blue'')]"
  let ?e' = "[(''name'', JStr ''acme''), (''repoURL'', JStr ''https://git.example/acme.git''), (''suspended'', JBool False), (''quiesced'', JBool False), (''removing'', JBool False),
    (''builds'', JArr [JStr ''acme''])]"
  have "ConsumerRegistrationSchema (JObj ?e) = Some (JObj ?e')" by code_simp
  then show ?thesis using registration_round_trip [OF flat_yaml_reads, of ?e] unfolding Let_def by (simp only: option.case json.inject) blast
qed

end
