(* ===== verification/Cluster_Marking.thy ===== *)
theory Cluster_Marking
  imports Registration Release_Tags
begin

text \<open>
  The maps of the clusters, \<^verbatim>\<open>clusters/active/<fqdn>.yaml\<close> (\<^verbatim>\<open>server/domains/inventory/cluster-marking.ts\<close>): the schema of a map, the marking it folds to, and the resolution of a
  cluster by its FQDN or its name. A branch is the list of its files; a directory is what their paths name under it, in the order of the list.
\<close>

section \<open>A branch\<close>

type_synonym tree = "(string \<times> string) list"

abbreviation readFile :: "tree \<Rightarrow> string \<Rightarrow> string option" where
  "readFile t path \<equiv> map_of t path"

definition under :: "string \<Rightarrow> string \<Rightarrow> bool" where
  "under dir path \<longleftrightarrow> startsWith path (dir @ ''/'')"

definition listDir :: "tree \<Rightarrow> string \<Rightarrow> string list" where
  "listDir t dir = remdups (map (\<lambda>(p, _). takeWhile (\<lambda>c. c \<noteq> CHR ''/'') (drop (length dir + 1) p)) (filter (\<lambda>(p, _). under dir p) t))"

section \<open>The schema of a map\<close>

definition zstrict :: "zshape \<Rightarrow> zschema" where
  "zstrict spec j = (case j of JObj kvs \<Rightarrow> if set (map fst kvs) \<subseteq> set (map fst spec) then zobject spec j else None | _ \<Rightarrow> None)"

definition zpassthrough :: "zshape \<Rightarrow> zschema" where
  "zpassthrough spec j = (case j of
     JObj kvs \<Rightarrow> map_option (\<lambda>out. JObj (out @ filter (\<lambda>(k, _). k \<notin> set (map fst spec)) kvs)) (zfields spec kvs)
   | _ \<Rightarrow> None)"

definition zunion :: "zschema \<Rightarrow> zschema \<Rightarrow> zschema" where
  "zunion a b j = (case a j of Some j' \<Rightarrow> Some j' | None \<Rightarrow> b j)"

definition zmin1 :: zschema where
  "zmin1 = zstring (\<lambda>s. s \<noteq> [])"

definition lower_label :: "string \<Rightarrow> bool" where
  "lower_label s \<longleftrightarrow> s \<noteq> [] \<and> label_char (hd s) \<and> label_char (last s) \<and> list_all (\<lambda>c. label_char c \<or> c = CHR ''-'') s"

definition global_shape :: zshape where
  "global_shape =
     [(''domain'', ZRequired, zmin1), (''clusterName'', ZRequired, zstring lower_label), (''buildPlane'', ZRequired, zmin1), (''master'', ZOptional, zmin1),
      (''apiHost'', ZOptional, zmin1), (''apiPort'', ZOptional, zint (\<lambda>i. i > 0)), (''unitApex'', ZOptional, zmin1), (''platformDomain'', ZOptional, zmin1),
      (''alertRecipients'', ZOptional, zunion (zstring (\<lambda>_. True)) (zarray (zstring (\<lambda>_. True)))), (''deployUrl'', ZOptional, zmin1),
      (''clusterIssuer'', ZOptional, zmin1), (''letsencryptEmail'', ZOptional, zmin1), (''letsencryptServer'', ZOptional, zmin1),
      (''timeSources'', ZOptional, (\<lambda>j. if j = JArr [] then None else zarray zmin1 j)), (''registryPullUser'', ZOptional, zmin1), (''registryPushUser'', ZOptional, zmin1),
      (''endpoints'', ZOptional, zpassthrough []),
      (''objectStorage'', ZOptional, zobject [(''r2'', ZRequired, zobject [(''accountId'', ZRequired, zmin1), (''jurisdiction'', ZRequired, zmin1)])]),
      (''githubApp'', ZOptional, zobject [(''appId'', ZRequired, zmin1)])]"

definition marking_shape :: zshape where
  "marking_shape =
     [(''stage'', ZRequired, zenum (map show_stage STAGE)), (''role'', ZRequired, zenum [''master'', ''slave'']), (''booksCluster'', ZOptional, zmin1),
      (''release'', ZOptional, zstring (\<lambda>s. parseReleaseTag s \<noteq> None)), (''global'', ZRequired, zpassthrough global_shape)]"

definition ClusterMarkingFileSchema :: zschema where
  "ClusterMarkingFileSchema = zstrict marking_shape"

section \<open>A marking\<close>

record cluster_marking =
  mk_header :: "string option"
  mk_fqdn :: string
  mk_name :: string
  mk_role :: string
  mk_stage :: string
  mk_booksCluster :: "string option"
  mk_buildPlane :: bool
  mk_buildPlaneFqdn :: string
  mk_release :: "string option"
  mk_texts :: "(string \<times> string) list"
  mk_apiPort :: "int option"
  mk_alertRecipients :: "string list option"
  mk_mailHost :: "json option"
  mk_objectStorage :: "(string \<times> string) option"
  mk_deployRepo :: "string option"
  mk_timeSources :: "string list option"
  mk_globalRest :: entry

text \<open>The optional text fields a marking carries under the name they have in the map.\<close>

definition TEXT_FIELDS :: "string list" where
  "TEXT_FIELDS = [''master'', ''apiHost'', ''unitApex'', ''platformDomain'', ''clusterIssuer'', ''letsencryptEmail'', ''letsencryptServer'', ''registryPullUser'', ''registryPushUser'']"

definition mk_apiHost :: "cluster_marking \<Rightarrow> string option" where
  "mk_apiHost m = map_of (mk_texts m) ''apiHost''"

definition NAMED_GLOBALS :: "string list" where
  "NAMED_GLOBALS = [''domain'', ''clusterName'', ''booksCluster'', ''buildPlane'', ''master'', ''apiHost'', ''apiPort'', ''unitApex'', ''platformDomain'', ''alertRecipients'', ''deployUrl'',
     ''clusterIssuer'', ''letsencryptEmail'', ''letsencryptServer'', ''timeSources'', ''registryPullUser'', ''registryPushUser'']"

definition header_line :: "string \<Rightarrow> bool" where
  "header_line l \<longleftrightarrow> startsWith l ''#'' \<or> trim l = []"

definition headerOf :: "string \<Rightarrow> string option" where
  "headerOf t =
     (let h = rev (dropWhile is_space (rev (join [newline] (takeWhile header_line (split_char newline t))))) in if h = [] then None else Some h)"

text \<open>\<^verbatim>\<open>url.replace(/^https?:\/\/[^/]+\//, "").replace(/\.git$/, "")\<close>\<close>

definition strip_origin :: "string \<Rightarrow> string" where
  "strip_origin u =
     (let r = (if startsWith u ''https://'' then drop 8 u else if startsWith u ''http://'' then drop 7 u else []);
          host = takeWhile (\<lambda>c. c \<noteq> CHR ''/'') r; p = drop (length host) r
      in if host \<noteq> [] \<and> p \<noteq> [] then tl p else u)"

definition deploy_repo :: "string \<Rightarrow> string" where
  "deploy_repo u = (let p = strip_origin u in if endsWith p ''.git'' then drop_last 4 p else p)"

definition lookup_in :: "string \<Rightarrow> json option \<Rightarrow> json option" where
  "lookup_in k j = (case j of Some (JObj kvs) \<Rightarrow> map_of kvs k | _ \<Rightarrow> None)"

definition strings_of :: "json \<Rightarrow> string list" where
  "strings_of j = (case j of JArr xs \<Rightarrow> map (\<lambda>x. case x of JStr s \<Rightarrow> s | _ \<Rightarrow> []) xs | JStr s \<Rightarrow> split_char CHR '','' s | _ \<Rightarrow> [])"

definition fold_global :: "entry \<Rightarrow> entry \<Rightarrow> string \<Rightarrow> cluster_marking" where
  "fold_global m g t =
     (let text_at = (\<lambda>e k. case str_of e k of Some s \<Rightarrow> s | None \<Rightarrow> []); r2 = lookup_in ''r2'' (map_of g ''objectStorage'')
      in \<lparr>mk_header = headerOf t, mk_fqdn = text_at g ''domain'', mk_name = text_at g ''clusterName'', mk_role = text_at m ''role'', mk_stage = text_at m ''stage'',
          mk_booksCluster = str_of m ''booksCluster'', mk_buildPlane = (text_at g ''buildPlane'' = text_at g ''domain''), mk_buildPlaneFqdn = text_at g ''buildPlane'',
          mk_release = str_of m ''release'', mk_texts = concat (map (\<lambda>k. case str_of g k of Some s \<Rightarrow> [(k, s)] | None \<Rightarrow> []) TEXT_FIELDS),
          mk_apiPort = Option.bind (map_of g ''apiPort'') as_num,
          mk_alertRecipients = map_option (\<lambda>j. filter (\<lambda>s. s \<noteq> []) (map trim (strings_of j))) (map_of g ''alertRecipients''),
          mk_mailHost = lookup_in ''host'' (lookup_in ''mail'' (map_of g ''endpoints'')),
          mk_objectStorage = map_option (\<lambda>_. (case lookup_in ''accountId'' r2 of Some (JStr a) \<Rightarrow> a | _ \<Rightarrow> [], case lookup_in ''jurisdiction'' r2 of Some (JStr a) \<Rightarrow> a | _ \<Rightarrow> []))
            (map_of g ''objectStorage''),
          mk_deployRepo = (case map_option deploy_repo (str_of g ''deployUrl'') of Some r \<Rightarrow> if r = [] then None else Some r | None \<Rightarrow> None),
          mk_timeSources = map_option strings_of (map_of g ''timeSources''), mk_globalRest = filter (\<lambda>(k, _). k \<notin> set NAMED_GLOBALS) g\<rparr>)"

definition foldMarking :: "yaml_deps \<Rightarrow> string \<Rightarrow> json \<Rightarrow> string \<Rightarrow> thrown + cluster_marking" where
  "foldMarking Y path raw t =
     (case ClusterMarkingFileSchema raw of
        Some (JObj m) \<Rightarrow> (case map_of m ''global'' of
             Some (JObj g) \<Rightarrow> Inr (fold_global m g t)
           | _ \<Rightarrow> Inl (App (Validation (''cluster map '' @ path @ '' is not a valid marking: '' @ ym_why Y raw))))
      | _ \<Rightarrow> Inl (App (Validation (''cluster map '' @ path @ '' is not a valid marking: '' @ ym_why Y raw))))"

definition name_clash :: "string \<Rightarrow> string \<Rightarrow> string \<Rightarrow> thrown" where
  "name_clash fqdn path name = App (Validation (''cluster maps '' @ clusterMapPath fqdn @ '' and '' @ path @ '' both carry the name '' @ dq name @ dash @
     ''a cluster is addressed by that name (ArgoCD instance, AppProject, Vault mount), so the two would collide; '' @
     ''a name is fixed at a cluster's adoption, so one of the two files was written by hand''))"

text \<open>The maps folded so far, in the order they were read: no two of a name, and a later one of an FQDN in the place of an earlier one.\<close>

fun index_maps :: "yaml_deps \<Rightarrow> tree \<Rightarrow> cluster_marking list \<Rightarrow> string list \<Rightarrow> thrown + cluster_marking list" where
  "index_maps Y t found [] = Inr found"
| "index_maps Y t found (e # es) =
     (if \<not> endsWith e ''.yaml'' then index_maps Y t found es
      else let path = CLUSTER_MAP_DIR @ ''/'' @ e
           in case readFile t path of
                None \<Rightarrow> index_maps Y t found es
              | Some body \<Rightarrow>
                  bindE (ym_parse Y body) (\<lambda>raw. bindE (foldMarking Y path raw body) (\<lambda>m.
                    case List.find (\<lambda>seen. mk_name seen = mk_name m) found of
                      Some clash \<Rightarrow> Inl (name_clash (mk_fqdn clash) path (mk_name m))
                    | None \<Rightarrow> index_maps Y t (found @ [m]) es)))"

definition indexMarkingsIn :: "yaml_deps \<Rightarrow> tree \<Rightarrow> thrown + cluster_marking list" where
  "indexMarkingsIn Y t = index_maps Y t [] (listDir t CLUSTER_MAP_DIR)"

definition resolveClusterMarkingIn :: "yaml_deps \<Rightarrow> string \<Rightarrow> tree \<Rightarrow> string \<Rightarrow> thrown + cluster_marking" where
  "resolveClusterMarkingIn Y branch t cluster =
     bindE (indexMarkingsIn Y t) (\<lambda>found.
       case List.find (\<lambda>m. mk_fqdn m = cluster) (rev found) of
         Some m \<Rightarrow> Inr m
       | None \<Rightarrow> (case List.find (\<lambda>m. mk_name m = cluster) found of
             Some m \<Rightarrow> Inr m
           | None \<Rightarrow> Inl (App (Validation (''no cluster map for '' @ dq cluster @ dash @ ''expected '' @ clusterMapPath cluster @ '' on '' @ branch @
               ''; every cluster is marked when it is installed (the branch programs for a master, mark-slave for a slave), so a missing map means the install never completed or '' @
               ''the map was removed by hand'')))))"

section \<open>A resolution reads the maps alone\<close>

lemma index_maps_cong: "(\<And>e. e \<in> set es \<Longrightarrow> readFile t' (CLUSTER_MAP_DIR @ ''/'' @ e) = readFile t (CLUSTER_MAP_DIR @ ''/'' @ e)) \<Longrightarrow> index_maps Y t' found es = index_maps Y t found es"
proof (induction es arbitrary: found)
  case (Cons e es)
  have IH: "index_maps Y t' f es = index_maps Y t f es" for f using Cons by simp
  have read: "readFile t' (CLUSTER_MAP_DIR @ ''/'' @ e) = readFile t (CLUSTER_MAP_DIR @ ''/'' @ e)" using Cons.prems by simp
  show ?case unfolding index_maps.simps Let_def IH read by (rule refl)
qed simp

lemma resolve_same:
  assumes "filter (\<lambda>(p, _). under CLUSTER_MAP_DIR p) t' = filter (\<lambda>(p, _). under CLUSTER_MAP_DIR p) t"
  shows "resolveClusterMarkingIn Y b t' c = resolveClusterMarkingIn Y b t c"
proof -
  have filtered: "map_of (filter (\<lambda>(p, _). under CLUSTER_MAP_DIR p) s) p = map_of s p" if "under CLUSTER_MAP_DIR p" for s :: tree and p
    using that by (induction s) auto
  have "under CLUSTER_MAP_DIR (CLUSTER_MAP_DIR @ ''/'' @ e)" for e by (simp add: under_def startsWith_def)
  then have "readFile t' (CLUSTER_MAP_DIR @ ''/'' @ e) = readFile t (CLUSTER_MAP_DIR @ ''/'' @ e)" for e using filtered [of _ t] filtered [of _ t'] assms by metis
  then have "index_maps Y t' f es = index_maps Y t f es" for f es by (intro index_maps_cong)
  then show ?thesis using assms by (simp add: resolveClusterMarkingIn_def indexMarkingsIn_def listDir_def)
qed

end
