(* ===== verification/Registrations.thy ===== *)
theory Registrations
  imports Cluster_Marking Effects
begin

text \<open>
  The books of the installation (\<^verbatim>\<open>plugins/unit/server/registrations.ts\<close>): the one writer of \<^verbatim>\<open>registrations/**\<close> and of the relay target of a stage, over a turn on the books branch.

  A turn fetches the branch, reads it, and commits at most once. Fetch and push may fail; a push may also land while its answer is lost. Turns on one branch run one at a
  time, so a turn is one step of the state; an operation of two turns is their sequence. Each operation that writes is first the commit it makes of the tree it read.
\<close>

section \<open>Turns\<close>

datatype push_outcome = Pushed | PushRefused thrown | PushLost thrown

record git_deps =
  gd_branch :: string
  gd_fetch :: "nat \<Rightarrow> thrown option"
  gd_push :: "nat \<Rightarrow> push_outcome"
  gd_sha :: "nat \<Rightarrow> string"

record commit_input =
  ci_message :: string
  ci_write :: tree
  ci_remove :: "string list"

record books =
  bk_tree :: tree
  bk_last :: "(string \<times> string) list"
  bk_head :: nat
  bk_calls :: nat

definition commit_removes :: "commit_input \<Rightarrow> string list" where
  "commit_removes ci = filter (\<lambda>p. p \<notin> set (map fst (ci_write ci))) (ci_remove ci)"

definition apply_commit :: "commit_input \<Rightarrow> tree \<Rightarrow> tree" where
  "apply_commit ci t = fold (\<lambda>(p, c). set_field p c) (ci_write ci) (filter (\<lambda>(p, _). p \<notin> set (commit_removes ci)) t)"

definition staged :: "commit_input \<Rightarrow> tree \<Rightarrow> string list" where
  "staged ci t = filter (\<lambda>p. readFile (apply_commit ci t) p \<noteq> readFile t p) (map fst (ci_write ci) @ commit_removes ci)"

definition commitPushIn :: "git_deps \<Rightarrow> commit_input \<Rightarrow> (books, string \<times> bool) comp" where
  "commitPushIn G ci s =
     (if staged ci (bk_tree s) = [] then (Inr (gd_sha G (bk_head s), False), s)
      else let tried = s\<lparr>bk_calls := Suc (bk_calls s)\<rparr>;
               landed = tried\<lparr>bk_tree := apply_commit ci (bk_tree s), bk_last := fold (\<lambda>p. set_field p (ci_message ci)) (staged ci (bk_tree s)) (bk_last s), bk_head := Suc (bk_head s)\<rparr>
           in case gd_push G (bk_calls s) of
                Pushed \<Rightarrow> (Inr (gd_sha G (Suc (bk_head s)), True), landed)
              | PushRefused e \<Rightarrow> (Inl e, tried)
              | PushLost e \<Rightarrow> (Inl e, landed))"

definition withBranch :: "git_deps \<Rightarrow> (books, 'a) comp \<Rightarrow> (books, 'a) comp" where
  "withBranch G fn s =
     (let fetched = s\<lparr>bk_calls := Suc (bk_calls s)\<rparr>
      in case gd_fetch G (bk_calls s) of Some e \<Rightarrow> (Inl e, fetched) | None \<Rightarrow> fn fetched)"

text \<open>A turn that reads, and a turn that commits what it made of the books, or nothing.\<close>

definition readTurn :: "git_deps \<Rightarrow> (tree \<Rightarrow> thrown + 'a) \<Rightarrow> (books, 'a) comp" where
  "readTurn G f = withBranch G (\<lambda>s. (f (bk_tree s), s))"

definition turn :: "git_deps \<Rightarrow> (books \<Rightarrow> thrown + (commit_input option \<times> 'a)) \<Rightarrow> (books, (string \<times> bool) option \<times> 'a) comp" where
  "turn G f = withBranch G (\<lambda>s.
     case f s of
       Inl e \<Rightarrow> (Inl e, s)
     | Inr (None, x) \<Rightarrow> (Inr (None, x), s)
     | Inr (Some ci, x) \<Rightarrow> (case commitPushIn G ci s of (Inl e, s') \<Rightarrow> (Inl e, s') | (Inr c, s') \<Rightarrow> (Inr (Some c, x), s')))"

definition readFileCommit :: "books \<Rightarrow> string \<Rightarrow> string option" where
  "readFileCommit s path = (if readFile (bk_tree s) path = None then None else map_of (bk_last s) path)"

section \<open>Paths\<close>

definition buildPath :: "string \<Rightarrow> string" where
  "buildPath name = ''registrations/'' @ name @ ''/build.yaml''"

definition stagePath :: "stage \<Rightarrow> string \<Rightarrow> string" where
  "stagePath s name = ''registrations/'' @ name @ ''/'' @ show_stage s @ ''.yaml''"

definition relayPath :: "stage \<Rightarrow> string" where
  "relayPath s = ''installation/values/postfix-'' @ show_stage s @ ''.yaml''"

definition REGISTRATION_GUARD :: "string \<Rightarrow> bool" where
  "REGISTRATION_GUARD p = (case split_char CHR ''/'' p of
     [d, u, f] \<Rightarrow> d = ''registrations'' \<and> pin_name_ok u \<and> f \<in> {''dev.yaml'', ''test.yaml'', ''prod.yaml'', ''build.yaml''}
   | _ \<Rightarrow> False)"

definition RELAY_GUARD :: "string \<Rightarrow> bool" where
  "RELAY_GUARD p \<longleftrightarrow> p \<in> relayPath ` set STAGE"

definition guard :: "string \<Rightarrow> thrown + string" where
  "guard = makeRegistrationGuard REGISTRATION_GUARD ''registrations/<unit>/(dev|test|prod|build).yaml''"

definition relayGuard :: "string \<Rightarrow> thrown + string" where
  "relayGuard = makeRegistrationGuard RELAY_GUARD ''installation/values/postfix-(dev|test|prod).yaml''"

definition relayValues :: "string \<Rightarrow> stage \<Rightarrow> string \<Rightarrow> int \<Rightarrow> string" where
  "relayValues unit s apiHost port = join [newline]
     [''# Written by the Manager from the registration of '' @ unit @ '' at '' @ show_stage s @ '', the one unit whose SMTP entry is'',
      ''# attested there: the relay of this stage hands its mail to that entry over the tailnet. Removed when'',
      ''# no unit of the stage declares one.'',
      ''postfix:'',
      ''  config:'',
      ''    general:'',
      ''      RELAYHOST: '' @ json_stringify (JStr (''['' @ apiHost @ '']:'' @ show_int port)),
      ''relayTarget:'',
      ''  address: '' @ json_stringify (JStr apiHost),
      ''  port: '' @ show_int port] @ [newline]"

section \<open>Reads\<close>

definition bool_of :: "entry \<Rightarrow> string \<Rightarrow> bool" where
  "bool_of e k \<longleftrightarrow> map_of e k = Some (JBool True)"

definition builds_of :: "entry \<Rightarrow> string list" where
  "builds_of e = (case map_of e ''builds'' of Some (JArr xs) \<Rightarrow> concat (map (\<lambda>x. case x of JStr b \<Rightarrow> [b] | _ \<Rightarrow> []) xs) | _ \<Rightarrow> [])"

definition isCiOnly :: "entry \<Rightarrow> stage list \<Rightarrow> bool" where
  "isCiOnly e stages \<longleftrightarrow> has_field e ''builds'' \<and> builds_of e = [] \<and> stages = []"

definition stagesIn :: "tree \<Rightarrow> string \<Rightarrow> stage list" where
  "stagesIn t name = filter (\<lambda>s. readFile t (stagePath s name) \<noteq> None) STAGE"

definition entry_at :: "yaml_deps \<Rightarrow> tree \<Rightarrow> string \<Rightarrow> thrown + entry option" where
  "entry_at Y t path = (case readFile t path of None \<Rightarrow> Inr None | Some raw \<Rightarrow> bindE (read_entry Y raw) (\<lambda>e. Inr (Some e)))"

definition readRegistration :: "git_deps \<Rightarrow> yaml_deps \<Rightarrow> stage \<Rightarrow> string \<Rightarrow> (books, entry option) comp" where
  "readRegistration G Y s name = readTurn G (\<lambda>t. entry_at Y t (stagePath s name))"

definition readBuildRegistration :: "git_deps \<Rightarrow> yaml_deps \<Rightarrow> string \<Rightarrow> (books, entry option) comp" where
  "readBuildRegistration G Y name = readTurn G (\<lambda>t. entry_at Y t (buildPath name))"

definition readUnitStages :: "git_deps \<Rightarrow> string \<Rightarrow> (books, stage list) comp" where
  "readUnitStages G name = readTurn G (\<lambda>t. Inr (stagesIn t name))"

definition unit_names :: "tree \<Rightarrow> string list" where
  "unit_names t = listDir t ''registrations''"

definition listUnitNames :: "git_deps \<Rightarrow> (books, string list) comp" where
  "listUnitNames G = readTurn G (\<lambda>t. Inr (unit_names t))"

text \<open>A read of one file of a unit; a file that does not read or validate is a refusal that names it.\<close>

definition strict_read :: "yaml_deps \<Rightarrow> string \<Rightarrow> string \<Rightarrow> tree \<Rightarrow> string \<Rightarrow> thrown + entry option" where
  "strict_read Y form check t path =
     (case entry_at Y t path of
        Inl e \<Rightarrow> Inl (App (Validation (path @ '' is not a readable '' @ form @ '' registration, so '' @ check @ '': '' @ thrown_message e)))
      | Inr x \<Rightarrow> Inr x)"

definition build_registrations :: "yaml_deps \<Rightarrow> tree \<Rightarrow> thrown + (string \<times> entry \<times> bool) list" where
  "build_registrations Y t = flatMapE (\<lambda>unit.
     bindE (strict_read Y ''build'' ''the build-name uniqueness check cannot be trusted'' t (buildPath unit)) (\<lambda>x.
       Inr (case x of None \<Rightarrow> [] | Some e \<Rightarrow> [(unit, e, isCiOnly e (stagesIn t unit))]))) (unit_names t)"

definition listBuildRegistrations :: "git_deps \<Rightarrow> yaml_deps \<Rightarrow> (books, (string \<times> entry \<times> bool) list) comp" where
  "listBuildRegistrations G Y = readTurn G (build_registrations Y)"

definition attested_builds :: "yaml_deps \<Rightarrow> string option \<Rightarrow> tree \<Rightarrow> thrown + (string \<times> string) list" where
  "attested_builds Y exceptUnit t =
     bindE (build_registrations Y t) (\<lambda>rs. Inr (concat (map (\<lambda>(u, e, _). if Some u = exceptUnit then [] else map (Pair u) (builds_of e)) rs)))"

definition listAttestedBuildNames :: "git_deps \<Rightarrow> yaml_deps \<Rightarrow> string option \<Rightarrow> (books, (string \<times> string) list) comp" where
  "listAttestedBuildNames G Y exceptUnit = readTurn G (attested_builds Y exceptUnit)"

definition attested_fqdns :: "yaml_deps \<Rightarrow> (string \<times> stage) option \<Rightarrow> tree \<Rightarrow> thrown + (string \<times> stage \<times> string) list" where
  "attested_fqdns Y except t = flatMapE (\<lambda>(u, s).
     if except = Some (u, s) then Inr []
     else bindE (strict_read Y ''stage'' ''the domain uniqueness check cannot be trusted'' t (stagePath s u)) (\<lambda>x.
       Inr (case x of None \<Rightarrow> [] | Some e \<Rightarrow> (case str_of e ''fqdn'' of Some d \<Rightarrow> [(u, s, d)] | None \<Rightarrow> [])))) (List.product (unit_names t) STAGE)"

definition listAttestedFqdns :: "git_deps \<Rightarrow> yaml_deps \<Rightarrow> (string \<times> stage) option \<Rightarrow> (books, (string \<times> stage \<times> string) list) comp" where
  "listAttestedFqdns G Y except = readTurn G (attested_fqdns Y except)"

definition smtp_senders :: "yaml_deps \<Rightarrow> stage \<Rightarrow> tree \<Rightarrow> thrown + (string \<times> string \<times> json) list" where
  "smtp_senders Y s t = flatMapE (\<lambda>u.
     bindE (strict_read Y ''stage'' ''the stage's mail sender cannot be read'' t (stagePath s u)) (\<lambda>x.
       Inr (case x of None \<Rightarrow> [] | Some e \<Rightarrow> (case (map_of e ''smtpEntry'', str_of e ''cluster'') of (Some m, Some c) \<Rightarrow> [(u, c, m)] | _ \<Rightarrow> [])))) (unit_names t)"

definition listSmtpSenders :: "git_deps \<Rightarrow> yaml_deps \<Rightarrow> stage \<Rightarrow> (books, (string \<times> string \<times> json) list) comp" where
  "listSmtpSenders G Y s = readTurn G (smtp_senders Y s)"

definition host_labels :: "yaml_deps \<Rightarrow> stage \<Rightarrow> string \<Rightarrow> tree \<Rightarrow> thrown + (string \<times> string) list" where
  "host_labels Y s exceptUnit t = flatMapE (\<lambda>u.
     if u = exceptUnit then Inr []
     else bindE (strict_read Y ''stage'' ''the host-label check cannot be trusted'' t (stagePath s u)) (\<lambda>x.
       Inr (case x of None \<Rightarrow> [] | Some e \<Rightarrow> [(u, consumerHostLabel u (str_of e ''host''))]))) (unit_names t)"

definition listAttestedHostLabels :: "git_deps \<Rightarrow> yaml_deps \<Rightarrow> stage \<Rightarrow> string \<Rightarrow> (books, (string \<times> string) list) comp" where
  "listAttestedHostLabels G Y s exceptUnit = readTurn G (host_labels Y s exceptUnit)"

text \<open>The tolerant scan: what stands at a stage on a cluster, and what had to be skipped, with the reason.\<close>

definition scan_one :: "yaml_deps \<Rightarrow> string \<Rightarrow> stage \<Rightarrow> tree \<Rightarrow> string \<Rightarrow> (string \<times> entry) list \<times> (string \<times> stage \<times> string) list" where
  "scan_one Y cluster s t name =
     (let path = stagePath s name; skip = (\<lambda>why. ([], [(name, s, path @ why)]))
      in case readFile t path of
           None \<Rightarrow> ([], [])
         | Some raw \<Rightarrow>
             (case parseRegistration Y raw of
                Inl e \<Rightarrow> skip ('' is not readable registration YAML: '' @ thrown_message e)
              | Inr kvs \<Rightarrow>
                  (case zod_parse Y kvs of
                     Inl e \<Rightarrow> skip ('' failed its schema: '' @ thrown_message e)
                   | Inr e \<Rightarrow>
                       if str_of e ''name'' \<noteq> Some name
                       then skip ('' body name ('' @ dq (case str_of e ''name'' of Some n \<Rightarrow> n | None \<Rightarrow> []) @ '') disagrees with its directory name ('' @ dq name @ '')'')
                       else if \<not> list_all (has_field e) DEPLOY_GROUP
                       then skip ('' carries no deploy group (chartPath/cluster/databases/services/size/mongodb/quota/host)'' @ dash @ ''a stage registration must'')
                       else if str_of e ''cluster'' \<noteq> Some cluster then ([], []) else ([(name, e)], []))))"

definition scan_consumers :: "yaml_deps \<Rightarrow> string \<Rightarrow> stage \<Rightarrow> tree \<Rightarrow> (string \<times> entry) list \<times> (string \<times> stage \<times> string) list" where
  "scan_consumers Y cluster s t = (let rs = map (scan_one Y cluster s t) (unit_names t) in (concat (map fst rs), concat (map snd rs)))"

definition listConsumerRegistrations :: "git_deps \<Rightarrow> yaml_deps \<Rightarrow> string \<Rightarrow> stage \<Rightarrow> (books, (string \<times> entry) list \<times> (string \<times> stage \<times> string) list) comp" where
  "listConsumerRegistrations G Y cluster s = readTurn G (\<lambda>t. Inr (scan_consumers Y cluster s t))"

section \<open>What a commit holds\<close>

record smtp_entry =
  sm_service :: string
  sm_port :: int
  sm_dkimKey :: "string option"

record unit_identity =
  ui_name :: string
  ui_repoURL :: string
  ui_owner :: "string option"
  ui_onboardedAt :: "string option"
  ui_suspended :: bool
  ui_quiesced :: bool

record deploy_group =
  dp_stage :: stage
  dp_quiesced :: "bool option"
  dp_chartPath :: string
  dp_cluster :: string
  dp_host :: string
  dp_databases :: "string list"
  dp_keyPatterns :: "string list"
  dp_channelPatterns :: "string list"
  dp_services :: "string list"
  dp_size :: unit_size
  dp_sizes :: "part_sizes option"
  dp_volumes :: "(data_part \<times> string) list option"
  dp_mongodb :: mongodb_mode
  dp_redis :: "redis_mode option"
  dp_redisMaxmemoryPolicy :: "string option"
  dp_quota :: unit_quota
  dp_fqdn :: "string option"
  dp_smtpEntry :: "smtp_entry option"

record registration_commit =
  rc_unit :: unit_identity
  rc_builds :: "string list"
  rc_deploy :: "deploy_group option"

definition strs :: "string list \<Rightarrow> json" where
  "strs xs = JArr (map JStr xs)"

definition part_json :: "('a \<Rightarrow> string) \<Rightarrow> (data_part \<times> 'a) list \<Rightarrow> json" where
  "part_json f ps = JObj (map (\<lambda>(p, x). (show_component (data_component p), JStr (f x))) ps)"

definition quota_json :: "unit_quota \<Rightarrow> json" where
  "quota_json q = JObj [(''requestsCpu'', JStr (uq_requestsCpu q)), (''requestsMemory'', JStr (uq_requestsMemory q)), (''limitsCpu'', JStr (uq_limitsCpu q)),
     (''limitsMemory'', JStr (uq_limitsMemory q)), (''pods'', JNum (int (uq_pods q))), (''persistentVolumeClaims'', JNum (int (uq_persistentVolumeClaims q)))]"

definition smtp_json :: "smtp_entry \<Rightarrow> json" where
  "smtp_json m = JObj ([(''service'', JStr (sm_service m)), (''port'', JNum (sm_port m))] @ opt_field ''dkimKey'' JStr (sm_dkimKey m))"

fun redis_text :: "redis_mode \<Rightarrow> string" where
  "redis_text RShared = ''shared''" | "redis_text RStandalone = ''standalone''"

definition unit_entry :: "unit_identity \<Rightarrow> entry" where
  "unit_entry u = [(''name'', JStr (ui_name u)), (''repoURL'', JStr (ui_repoURL u))] @ opt_field ''owner'' JStr (ui_owner u) @ opt_field ''onboardedAt'' JStr (ui_onboardedAt u) @
     [(''suspended'', JBool (ui_suspended u)), (''quiesced'', JBool (ui_quiesced u))]"

definition build_entry :: "entry \<Rightarrow> string list \<Rightarrow> entry" where
  "build_entry unit builds = set_field ''builds'' (strs builds) (set_field ''removing'' (JBool False) unit)"

definition deploy_fields :: "deploy_group \<Rightarrow> string option \<Rightarrow> entry" where
  "deploy_fields d fqdn =
     opt_field ''quiesced'' JBool (dp_quiesced d) @
     [(''chartPath'', JStr (dp_chartPath d)), (''cluster'', JStr (dp_cluster d)), (''host'', JStr (dp_host d)), (''databases'', strs (dp_databases d)),
      (''keyPatterns'', strs (dp_keyPatterns d)), (''channelPatterns'', strs (dp_channelPatterns d)), (''services'', strs (dp_services d)), (''size'', JStr (show_size (dp_size d)))] @
     opt_field ''sizes'' (part_json show_size) (dp_sizes d) @ opt_field ''volumes'' (part_json (\<lambda>v. v)) (dp_volumes d) @ [(''mongodb'', JStr (mongodb_text (dp_mongodb d)))] @
     opt_field ''redis'' (\<lambda>r. JStr (redis_text r)) (dp_redis d) @ opt_field ''redisMaxmemoryPolicy'' JStr (dp_redisMaxmemoryPolicy d) @ [(''quota'', quota_json (dp_quota d))] @
     opt_field ''fqdn'' JStr fqdn @ opt_field ''smtpEntry'' smtp_json (dp_smtpEntry d)"

definition stage_entry :: "unit_identity \<Rightarrow> deploy_group \<Rightarrow> string option \<Rightarrow> entry" where
  "stage_entry u d fqdn = fold (\<lambda>(k, v). set_field k v) (deploy_fields d fqdn) (set_field ''removing'' (JBool False) (unit_entry u))"

definition builds_text :: "string list \<Rightarrow> string" where
  "builds_text builds = (if builds \<noteq> [] then join '', '' builds else ''none'')"

definition written :: "yaml_deps \<Rightarrow> string \<Rightarrow> entry \<Rightarrow> thrown + (string \<times> string)" where
  "written Y path e = bindE (guard path) (\<lambda>p. bindE (serializePointer Y e) (\<lambda>c. Inr (p, c)))"

definition not_registered :: "stage \<Rightarrow> string \<Rightarrow> thrown" where
  "not_registered s name = App (Validation (''consumer '' @ dq name @ '' is not registered at '' @ show_stage s))"

section \<open>The relay of a stage\<close>

definition smtp_port :: "json \<Rightarrow> int" where
  "smtp_port m = (case m of JObj kvs \<Rightarrow> (case map_of kvs ''port'' of Some (JNum i) \<Rightarrow> i | _ \<Rightarrow> 0) | _ \<Rightarrow> 0)"

text \<open>\<open>nxt\<close> is the stage file's cluster and SMTP entry after the commit, or nothing where the file goes.\<close>

definition relayTarget :: "git_deps \<Rightarrow> yaml_deps \<Rightarrow> tree \<Rightarrow> stage \<Rightarrow> string \<Rightarrow> (string option \<times> json option) option \<Rightarrow> thrown + (tree \<times> string list)" where
  "relayTarget G Y t s name nxt =
     bindE (relayGuard (relayPath s)) (\<lambda>path.
     case nxt of
       Some (Some cluster, Some m) \<Rightarrow>
         bindE (resolveClusterMarkingIn Y (gd_branch G) t cluster) (\<lambda>marking.
         case mk_apiHost marking of
           None \<Rightarrow> Inl (App (Validation (name @ '' carries the SMTP entry of '' @ show_stage s @ '', and '' @ clusterMapPath (mk_fqdn marking) @ '' carries no global.apiHost'' @ dash @
             ''the tailnet address the relay reaches the entry on, written by deploy-slave for a slave and by tailnet-record-address for a master'')))
         | Some apiHost \<Rightarrow> Inr ([(path, relayValues name s apiHost (smtp_port m))], []))
     | _ \<Rightarrow>
         (case readFile t (stagePath s name) of
            None \<Rightarrow> Inr ([], [])
          | Some raw \<Rightarrow> bindE (parseRegistration Y raw) (\<lambda>kvs. Inr ([], if has_field kvs ''smtpEntry'' then [path] else []))))"

section \<open>Writers\<close>

definition create_build_plan :: "yaml_deps \<Rightarrow> unit_identity \<Rightarrow> string list \<Rightarrow> string \<Rightarrow> thrown + unit \<Rightarrow> books \<Rightarrow> thrown + (commit_input option \<times> unit)" where
  "create_build_plan Y u builds runId beforeCommit s =
     bindE (guard (buildPath (ui_name u))) (\<lambda>path.
     let raw = readFile (bk_tree s) path
     in if stagesIn (bk_tree s) (ui_name u) \<noteq> [] \<or> (raw \<noteq> None \<and> \<not> (case readFileCommit s path of Some m \<Rightarrow> endsWith (rev (dropWhile is_space (rev m))) (trailer runId) | None \<Rightarrow> False))
        then Inl (App (Validation (''build-only unit '' @ ui_name u @ '' is already registered by another run'' @ dash @
               ''plan the onboarding again to re-attest it without the creation inverse'')))
        else bindE (case raw of None \<Rightarrow> Inr (unit_entry u) | Some r \<Rightarrow> read_entry Y r) (\<lambda>unit.
             bindE beforeCommit (\<lambda>_.
             bindE (serializePointer Y (build_entry unit builds)) (\<lambda>c.
             Inr (Some \<lparr>ci_message = ''register('' @ ui_name u @ ''): build '' @ builds_text builds @ '' '' @ trailer runId, ci_write = [(path, c)], ci_remove = []\<rparr>, ())))))"

definition createBuildRegistration :: "git_deps \<Rightarrow> yaml_deps \<Rightarrow> unit_identity \<Rightarrow> string list \<Rightarrow> string \<Rightarrow> thrown + unit \<Rightarrow> (books, (string \<times> bool) option \<times> unit) comp" where
  "createBuildRegistration G Y u builds runId beforeCommit = turn G (create_build_plan Y u builds runId beforeCommit)"

text \<open>The domain the standing stage file carries, its \<^verbatim>\<open>fqdn\<close> key alone.\<close>

definition standing_fqdn :: "yaml_deps \<Rightarrow> tree \<Rightarrow> stage \<Rightarrow> string \<Rightarrow> thrown + string option" where
  "standing_fqdn Y t s name =
     (case readFile t (stagePath s name) of
        None \<Rightarrow> Inr None
      | Some raw \<Rightarrow> bindE (parseRegistration Y raw) (\<lambda>kvs. Inr (case map_of kvs ''fqdn'' of Some (JStr d) \<Rightarrow> if publicFqdn_ok d then Some d else None | _ \<Rightarrow> None)))"

definition register_plan :: "git_deps \<Rightarrow> yaml_deps \<Rightarrow> unit_identity \<Rightarrow> deploy_group \<Rightarrow> tree \<Rightarrow> string \<Rightarrow> books \<Rightarrow> thrown + (commit_input option \<times> unit)" where
  "register_plan G Y u d build runId s =
     (let t = bk_tree s; name = ui_name u
      in bindE (case dp_fqdn d of Some q \<Rightarrow> Inr (Some q) | None \<Rightarrow> standing_fqdn Y t (dp_stage d) name) (\<lambda>fqdn.
         bindE (written Y (stagePath (dp_stage d) name) (stage_entry u d fqdn)) (\<lambda>w.
         bindE (relayTarget G Y t (dp_stage d) name (Some (Some (dp_cluster d), map_option smtp_json (dp_smtpEntry d)))) (\<lambda>(rw, rr).
         Inr (Some \<lparr>ci_message = ''register('' @ name @ ''): '' @ show_stage (dp_stage d) @ '' on '' @ dp_cluster d @ '' '' @ trailer runId,
                ci_write = build @ [w] @ rw, ci_remove = rr\<rparr>, ())))))"

definition commitRegistration :: "git_deps \<Rightarrow> yaml_deps \<Rightarrow> registration_commit \<Rightarrow> string \<Rightarrow> (books, (string \<times> bool) option \<times> unit) comp" where
  "commitRegistration G Y rc runId =
     (let u = rc_unit rc
      in bindM (liftE (written Y (buildPath (ui_name u)) (build_entry (unit_entry u) (rc_builds rc)))) (\<lambda>w.
         case rc_deploy rc of
           None \<Rightarrow> turn G (\<lambda>_. Inr (Some \<lparr>ci_message = ''register('' @ ui_name u @ ''): build '' @ builds_text (rc_builds rc) @ '' '' @ trailer runId, ci_write = [w], ci_remove = []\<rparr>, ()))
         | Some d \<Rightarrow> turn G (register_plan G Y u d [w] runId)))"

fun any_running :: "yaml_deps \<Rightarrow> tree \<Rightarrow> string \<Rightarrow> bool \<Rightarrow> stage list \<Rightarrow> thrown + bool" where
  "any_running Y t name found [] = Inr found"
| "any_running Y t name found (s # ss) =
     (if found then Inr True
      else bindE (entry_at Y t (stagePath s name)) (\<lambda>x.
        any_running Y t name (case x of Some e \<Rightarrow> \<not> bool_of e ''suspended'' | None \<Rightarrow> False) ss))"

text \<open>The unit's own file follows a change of \<open>suspended\<close>: it stops once every stage is suspended.\<close>

definition build_follows :: "yaml_deps \<Rightarrow> tree \<Rightarrow> stage \<Rightarrow> string \<Rightarrow> bool \<Rightarrow> thrown + tree" where
  "build_follows Y t s name suspended =
     bindE (entry_at Y t (buildPath name)) (\<lambda>x.
     case x of
       None \<Rightarrow> Inr []
     | Some build \<Rightarrow>
         bindE (any_running Y t name (\<not> suspended) (filter (\<lambda>r. r \<noteq> s) (stagesIn t name))) (\<lambda>anyRunning.
           if bool_of build ''suspended'' \<noteq> (\<not> anyRunning)
           then bindE (written Y (buildPath name) (set_field ''suspended'' (JBool (\<not> anyRunning)) build)) (\<lambda>w. Inr [w])
           else Inr []))"

definition flip_plan :: "yaml_deps \<Rightarrow> stage \<Rightarrow> string \<Rightarrow> (string \<times> json option) list \<Rightarrow> string \<Rightarrow> books \<Rightarrow> thrown + (commit_input option \<times> unit)" where
  "flip_plan Y s name patch message b =
     (let t = bk_tree b
      in bindE (entry_at Y t (stagePath s name)) (\<lambda>x.
         case x of
           None \<Rightarrow> Inl (not_registered s name)
         | Some e \<Rightarrow>
             bindE (written Y (stagePath s name) (spread patch e)) (\<lambda>w.
             bindE (case map_of patch ''suspended'' of Some (Some (JBool v)) \<Rightarrow> build_follows Y t s name v | _ \<Rightarrow> Inr []) (\<lambda>ws.
             Inr (Some \<lparr>ci_message = message, ci_write = w # ws, ci_remove = []\<rparr>, ())))))"

definition flip :: "git_deps \<Rightarrow> yaml_deps \<Rightarrow> stage \<Rightarrow> string \<Rightarrow> (string \<times> json option) list \<Rightarrow> string \<Rightarrow> (books, (string \<times> bool) option \<times> unit) comp" where
  "flip G Y s name patch message = turn G (flip_plan Y s name patch message)"

definition setSuspended :: "git_deps \<Rightarrow> yaml_deps \<Rightarrow> stage \<Rightarrow> string \<Rightarrow> bool \<Rightarrow> string \<Rightarrow> (books, (string \<times> bool) option \<times> unit) comp" where
  "setSuspended G Y s name v runId =
     flip G Y s name [(''suspended'', Some (JBool v))] ((if v then ''consumer-suspend'' else ''consumer-resume'') @ ''('' @ name @ '') '' @ trailer runId)"

definition setQuiesced :: "git_deps \<Rightarrow> yaml_deps \<Rightarrow> stage \<Rightarrow> string \<Rightarrow> bool \<Rightarrow> string \<Rightarrow> (books, (string \<times> bool) option \<times> unit) comp" where
  "setQuiesced G Y s name v runId =
     flip G Y s name [(''quiesced'', Some (JBool v))] ((if v then ''quiesce'' else ''unquiesce'') @ ''('' @ name @ '') '' @ trailer runId)"

definition setRemoving :: "git_deps \<Rightarrow> yaml_deps \<Rightarrow> stage \<Rightarrow> string \<Rightarrow> string \<Rightarrow> (books, (string \<times> bool) option \<times> unit) comp" where
  "setRemoving G Y s name runId = flip G Y s name [(''removing'', Some (JBool True))] (''removing('' @ name @ ''): '' @ show_stage s @ '' '' @ trailer runId)"

definition setSize :: "git_deps \<Rightarrow> yaml_deps \<Rightarrow> stage \<Rightarrow> string \<Rightarrow> unit_size \<Rightarrow> part_sizes option \<Rightarrow> (data_part \<times> string) list option \<Rightarrow> unit_quota \<Rightarrow> string \<Rightarrow>
    (books, (string \<times> bool) option \<times> unit) comp" where
  "setSize G Y s name sz sizes volumes q runId =
     flip G Y s name ([(''size'', Some (JStr (show_size sz)))] @ (case sizes of Some ps \<Rightarrow> [(''sizes'', Some (part_json show_size ps))] | None \<Rightarrow> []) @
         (case volumes of Some vs \<Rightarrow> [(''volumes'', Some (part_json (\<lambda>v. v) vs))] | None \<Rightarrow> []) @ [(''quota'', Some (quota_json q))])
       (''size('' @ name @ ''): '' @ show_size sz @
        join '','' (map (\<lambda>(p, x). '' '' @ show_component (data_component p) @ '' '' @ show_size x) (case sizes of Some ps \<Rightarrow> ps | None \<Rightarrow> [])) @ '' '' @ trailer runId)"

definition setFqdn :: "git_deps \<Rightarrow> yaml_deps \<Rightarrow> stage \<Rightarrow> string \<Rightarrow> string \<Rightarrow> string \<Rightarrow> (books, (string \<times> bool) option \<times> unit) comp" where
  "setFqdn G Y s name fqdn runId =
     flip G Y s name [(''fqdn'', if fqdn = [] then None else Some (JStr fqdn))] (''domain('' @ name @ ''): '' @ show_stage s @ '' '' @ (if fqdn = [] then ''none'' else fqdn) @ '' '' @ trailer runId)"

definition move_entry :: "entry \<Rightarrow> string \<Rightarrow> entry" where
  "move_entry e cluster =
     (let next = set_field ''cluster'' (JStr cluster) e
      in case str_of e ''cluster'' of Some old \<Rightarrow> if old \<noteq> cluster then set_field ''leaving'' (JStr old) next else next | None \<Rightarrow> next)"

definition move_plan :: "git_deps \<Rightarrow> yaml_deps \<Rightarrow> stage \<Rightarrow> string \<Rightarrow> entry \<Rightarrow> string \<Rightarrow> string \<Rightarrow> books \<Rightarrow> thrown + (commit_input option \<times> unit)" where
  "move_plan G Y s name e cluster runId b =
     (let next = move_entry e cluster
      in bindE (relayTarget G Y (bk_tree b) s name (Some (Some cluster, map_of next ''smtpEntry''))) (\<lambda>(rw, rr).
         bindE (written Y (stagePath s name) next) (\<lambda>w.
         Inr (Some \<lparr>ci_message = ''migrate('' @ name @ ''): '' @ (case str_of e ''cluster'' of Some old \<Rightarrow> old | None \<Rightarrow> ''undefined'') @ '' -> '' @ cluster @ '' '' @ trailer runId,
                ci_write = w # rw, ci_remove = rr\<rparr>, ()))))"

definition setCluster :: "git_deps \<Rightarrow> yaml_deps \<Rightarrow> stage \<Rightarrow> string \<Rightarrow> string \<Rightarrow> string \<Rightarrow> (books, (string \<times> bool) option \<times> unit) comp" where
  "setCluster G Y s name cluster runId =
     bindM (readRegistration G Y s name) (\<lambda>current.
     case current of
       None \<Rightarrow> throwM (not_registered s name)
     | Some e \<Rightarrow> turn G (move_plan G Y s name e cluster runId))"

definition clearLeaving :: "git_deps \<Rightarrow> yaml_deps \<Rightarrow> stage \<Rightarrow> string \<Rightarrow> string \<Rightarrow> (books, (string \<times> bool) option \<times> unit) comp" where
  "clearLeaving G Y s name runId =
     bindM (readRegistration G Y s name) (\<lambda>current.
     case current of
       None \<Rightarrow> throwM (not_registered s name)
     | Some e \<Rightarrow> (case str_of e ''leaving'' of
         None \<Rightarrow> ret (None, ())
       | Some old \<Rightarrow> flip G Y s name [(''leaving'', None)] (''migrate('' @ name @ ''): left '' @ old @ '' '' @ trailer runId)))"

definition remove_plan :: "git_deps \<Rightarrow> yaml_deps \<Rightarrow> stage \<Rightarrow> string \<Rightarrow> string \<Rightarrow> books \<Rightarrow> thrown + (commit_input option \<times> bool)" where
  "remove_plan G Y s name runId b =
     (let t = bk_tree b; path = stagePath s name
      in if readFile t path = None then Inl (not_registered s name)
         else bindE (guard path) (\<lambda>p.
              let unitRemoved = list_all (\<lambda>r. r = s) (stagesIn t name)
              in bindE (if unitRemoved then bindE (guard (buildPath name)) (\<lambda>q. Inr [q]) else Inr []) (\<lambda>more.
                 bindE (relayTarget G Y t s name None) (\<lambda>(rw, rr).
                 Inr (Some \<lparr>ci_message = ''offboard('' @ name @ ''): '' @ show_stage s @ (if unitRemoved then '' + build'' else []) @ '' '' @ trailer runId,
                        ci_write = [], ci_remove = p # more @ rr\<rparr>, unitRemoved)))))"

definition removeRegistration :: "git_deps \<Rightarrow> yaml_deps \<Rightarrow> stage \<Rightarrow> string \<Rightarrow> string \<Rightarrow> (books, (string \<times> bool) option \<times> bool) comp" where
  "removeRegistration G Y s name runId = turn G (remove_plan G Y s name runId)"

definition remove_build_plan :: "string \<Rightarrow> string \<Rightarrow> string option \<Rightarrow> books \<Rightarrow> thrown + (commit_input option \<times> bool)" where
  "remove_build_plan name runId createdByRun b =
     (if stagesIn (bk_tree b) name \<noteq> [] \<or> readFile (bk_tree b) (buildPath name) = None then Inr (None, False)
      else if (case createdByRun of
             Some r \<Rightarrow> r \<noteq> [] \<and> \<not> (case readFileCommit b (buildPath name) of Some m \<Rightarrow> endsWith (rev (dropWhile is_space (rev m))) (trailer r) | None \<Rightarrow> False)
           | None \<Rightarrow> False) then Inr (None, False)
      else bindE (guard (buildPath name)) (\<lambda>p.
           Inr (Some \<lparr>ci_message = ''offboard('' @ name @ ''): build '' @ trailer runId, ci_write = [], ci_remove = [p]\<rparr>, True)))"

definition removeBuildRegistration :: "git_deps \<Rightarrow> string \<Rightarrow> string \<Rightarrow> string option \<Rightarrow> (books, (string \<times> bool) option \<times> bool) comp" where
  "removeBuildRegistration G name runId createdByRun = turn G (remove_build_plan name runId createdByRun)"

section \<open>The move of a domain\<close>

record domain_change =
  dc_path :: "string list"
  dc_before :: string
  dc_after :: string
  dc_anchors :: "(string list \<times> string) list"

text \<open>A property of an object, or an element of an array by its index.\<close>

definition json_prop :: "json \<Rightarrow> string \<Rightarrow> json option" where
  "json_prop j k = (case j of
     JObj kvs \<Rightarrow> map_of kvs k
   | JArr xs \<Rightarrow> (case List.find (\<lambda>i. show_nat i = k) [0..<length xs] of Some i \<Rightarrow> Some (xs ! i) | None \<Rightarrow> None)
   | _ \<Rightarrow> None)"

definition set_prop :: "string \<Rightarrow> json \<Rightarrow> json \<Rightarrow> json" where
  "set_prop k v j = (case j of
     JObj kvs \<Rightarrow> JObj (set_field k v kvs)
   | JArr xs \<Rightarrow> (case List.find (\<lambda>i. show_nat i = k) [0..<length xs] of Some i \<Rightarrow> JArr (xs[i := v]) | None \<Rightarrow> JArr xs)
   | _ \<Rightarrow> j)"

definition json_at :: "json \<Rightarrow> string list \<Rightarrow> json option" where
  "json_at doc path = foldl (\<lambda>x k. Option.bind x (\<lambda>j. json_prop j k)) (Some doc) path"

fun set_at :: "json \<Rightarrow> string list \<Rightarrow> json \<Rightarrow> json" where
  "set_at j [] v = v"
| "set_at j (k # path) v = (case json_prop j k of None \<Rightarrow> set_prop k v j | Some x \<Rightarrow> set_prop k (set_at x path v) j)"

definition apply_change :: "bool \<Rightarrow> domain_change \<Rightarrow> json \<Rightarrow> thrown + json" where
  "apply_change rev_dir ch next =
     (let field = join ''.'' (dc_path ch); before = (if rev_dir then dc_after ch else dc_before ch); after = (if rev_dir then dc_before ch else dc_after ch);
          standing = json_at next (dc_path ch)
      in if list_ex (\<lambda>k. k \<in> {''__proto__'', ''constructor'', ''prototype''}) (dc_path ch) then Inl (JsError ''Error'' ''unsafe domain field path'')
         else if list_ex (\<lambda>(p, v). json_at next p \<noteq> Some (JStr v)) (dc_anchors ch) then Inl (JsError ''Error'' (''domain field '' @ field @ '' moved since planning''))
         else if standing = Some (JStr after) then Inr next
         else if standing \<noteq> Some (JStr before) then Inl (JsError ''Error'' (''domain field '' @ field @ '' changed since planning''))
         else Inr (set_at next (dc_path ch) (JStr after)))"

fun applyDomainChanges :: "bool \<Rightarrow> domain_change list \<Rightarrow> json \<Rightarrow> thrown + json" where
  "applyDomainChanges rev_dir [] next = Inr next"
| "applyDomainChanges rev_dir (ch # chs) next = bindE (apply_change rev_dir ch next) (applyDomainChanges rev_dir chs)"

definition domain_plan :: "yaml_deps \<Rightarrow> stage \<Rightarrow> string \<Rightarrow> domain_change list \<Rightarrow> bool \<Rightarrow> string \<Rightarrow> books \<Rightarrow> thrown + (commit_input option \<times> unit)" where
  "domain_plan Y s name changes rev_dir runId b =
     bindE (guard (stagePath s name)) (\<lambda>path.
     bindE (entry_at Y (bk_tree b) path) (\<lambda>x.
     case x of
       None \<Rightarrow> Inl (App (Validation (''consumer '' @ name @ ''/'' @ show_stage s @ '' disappeared'')))
     | Some e \<Rightarrow>
         bindE (applyDomainChanges rev_dir changes (JObj e)) (\<lambda>next.
         bindE (serializePointer Y (case next of JObj n \<Rightarrow> n | _ \<Rightarrow> [])) (\<lambda>c.
         Inr (Some \<lparr>ci_message = ''consumer-domain('' @ name @ ''): '' @ (if rev_dir then ''restore'' else ''move'') @ '' '' @ show_stage s @ '' '' @ trailer runId,
                ci_write = [(path, c)], ci_remove = []\<rparr>, ())))))"

definition compareDomainFields :: "git_deps \<Rightarrow> yaml_deps \<Rightarrow> stage \<Rightarrow> string \<Rightarrow> domain_change list \<Rightarrow> bool \<Rightarrow> string \<Rightarrow> (books, (string \<times> bool) option \<times> unit) comp" where
  "compareDomainFields G Y s name changes rev_dir runId =
     (if list_ex (\<lambda>c. dc_path c \<noteq> [''fqdn'']) changes then throwM (App (Validation ''consumer domain migration changes only fqdn''))
      else if changes = [] then ret (None, ())
      else turn G (domain_plan Y s name changes rev_dir runId))"

end
