(* ===== verification/Books.thy ===== *)
theory Books
  imports Registrations
begin

text \<open>
  What the writers of the books keep, in general. The locale \<open>writer\<close> is the contract of a turn: a commit made of a tree that holds an invariant leaves a tree that holds it, so the
  turn does, whether it returned or threw, and whether its push landed. The locale \<open>books_invariant\<close> is that contract for every plan of the registrations; what it gives is
  that the invariant holds after any sequence of turns.
\<close>

section \<open>What a commit leaves\<close>

lemma map_of_writes: "map_of (fold (\<lambda>(p, c). set_field p c) ws t) p = (case map_of (rev ws) p of Some c \<Rightarrow> Some c | None \<Rightarrow> map_of t p)"
  by (induction ws arbitrary: t) (auto simp: map_add_def split: option.split)

lemma read_filtered: "map_of (filter (\<lambda>(p, _). P p) t) p = (if P p then map_of t p else None)"
  by (induction t) auto

lemma read_commit:
  "readFile (apply_commit ci t) p = (case map_of (rev (ci_write ci)) p of Some c \<Rightarrow> Some c | None \<Rightarrow> if p \<in> set (ci_remove ci) then None else readFile t p)"
proof (cases "map_of (rev (ci_write ci)) p")
  case None
  then have "p \<notin> fst ` set (ci_write ci)" by (simp add: map_of_eq_None_iff)
  then show ?thesis using None by (simp add: apply_commit_def map_of_writes read_filtered commit_removes_def)
qed (simp add: apply_commit_def map_of_writes)

lemma read_untouched: "p \<notin> fst ` set (ci_write ci) \<Longrightarrow> p \<notin> set (ci_remove ci) \<Longrightarrow> readFile (apply_commit ci t) p = readFile t p"
proof -
  assume "p \<notin> fst ` set (ci_write ci)" "p \<notin> set (ci_remove ci)"
  moreover from this have "map_of (rev (ci_write ci)) p = None" by (simp add: map_of_eq_None_iff)
  ultimately show ?thesis by (simp add: read_commit)
qed

lemma filter_set_field: "\<not> P p \<Longrightarrow> filter (\<lambda>(p, _). P p) (set_field p c t) = filter (\<lambda>(p, _). P p) t"
  by (induction t) auto

lemma untouched_dir:
  assumes "\<And>p. p \<in> set (map fst (ci_write ci)) \<union> set (ci_remove ci) \<Longrightarrow> \<not> P p"
  shows "filter (\<lambda>(p, _). P p) (apply_commit ci t) = filter (\<lambda>(p, _). P p) t"
proof -
  have ws: "filter (\<lambda>(p, _). P p) (fold (\<lambda>(p, c). set_field p c) ws u) = filter (\<lambda>(p, _). P p) u" if "\<And>p. p \<in> set (map fst ws) \<Longrightarrow> \<not> P p" for ws u
    using that by (induction ws arbitrary: u) (auto simp: filter_set_field)
  have "P p \<Longrightarrow> p \<notin> set (commit_removes ci)" for p using assms by (auto simp: commit_removes_def)
  then show ?thesis using ws [of "ci_write ci"] assms by (auto simp: apply_commit_def intro: filter_cong)
qed

section \<open>The contract of a writer\<close>

locale writer =
  fixes invt :: "tree \<Rightarrow> bool" and admits :: "tree \<Rightarrow> bool" and plan :: "books \<Rightarrow> thrown + (commit_input option \<times> 'a)"
  assumes keeps: "invt (bk_tree s) \<Longrightarrow> admits (bk_tree s) \<Longrightarrow> plan s = Inr (Some ci, x) \<Longrightarrow> invt (apply_commit ci (bk_tree s))"
begin

lemma commit_keeps:
  assumes "invt (bk_tree s)" "admits (bk_tree s)" "plan s = Inr (Some ci, x)"
  shows "invt (bk_tree (snd (commitPushIn G ci s)))"
  using assms keeps [OF assms] by (auto simp: commitPushIn_def Let_def split: push_outcome.split)

lemma turn_keeps:
  assumes "invt (bk_tree s)" "admits (bk_tree s)"
  shows "invt (bk_tree (snd (turn G plan s)))"
proof -
  let ?s = "s\<lparr>bk_calls := Suc (bk_calls s)\<rparr>"
  have "invt (bk_tree (snd (commitPushIn G ci ?s)))" if "plan ?s = Inr (Some ci, x)" for ci x
    using that assms by (intro commit_keeps) simp_all
  then show ?thesis using assms(1) by (auto simp: turn_def withBranch_def Let_def split: option.split sum.split prod.split)
qed

end

lemma unstaged_same:
  assumes "staged ci t = []"
  shows "readFile (apply_commit ci t) p = readFile t p"
proof (cases "p \<in> set (map fst (ci_write ci) @ commit_removes ci)")
  case True
  then show ?thesis using assms by (auto simp: staged_def filter_empty_conv)
next
  case False
  then have "p \<notin> fst ` set (ci_write ci)" "p \<notin> set (ci_remove ci)" by (auto simp: commit_removes_def)
  then show ?thesis by (rule read_untouched)
qed

text \<open>A turn whose fetch and push succeed does what its plan asks.\<close>

lemma turn_succeeds:
  assumes "\<And>n. gd_fetch G n = None" "\<And>n. gd_push G n = Pushed" "\<And>s. bk_tree s = bk_tree b \<Longrightarrow> plan s = Inr (Some ci, x)"
  obtains c b' where "turn G plan b = (Inr (Some c, x), b')" "\<And>p. readFile (bk_tree b') p = readFile (apply_commit ci (bk_tree b)) p"
  using assms unstaged_same [of ci "bk_tree b"]
  by (cases "staged ci (bk_tree b) = []") (simp_all add: turn_def withBranch_def commitPushIn_def Let_def)

lemma read_turn_tree: "bk_tree (snd (readTurn G f s)) = bk_tree s"
  by (simp add: readTurn_def withBranch_def Let_def split: option.split)

lemma read_turn_value: "readTurn G f s = (Inr x, s') \<Longrightarrow> f (bk_tree s) = Inr x \<and> bk_tree s' = bk_tree s"
  by (auto simp: readTurn_def withBranch_def Let_def split: option.splits)

section \<open>Paths\<close>

lemma stage_suffix: "a @ ''/'' @ show_stage s @ ''.yaml'' = b @ ''/'' @ show_stage r @ ''.yaml'' \<longleftrightarrow> a = b \<and> s = r"
  by (cases s; cases r) (auto dest!: arg_cong [of _ _ rev])

lemma stagePath_inject [simp]: "stagePath s a = stagePath r b \<longleftrightarrow> s = r \<and> a = b"
  using stage_suffix by (auto simp: stagePath_def)

lemma buildPath_inject [simp]: "buildPath a = buildPath b \<longleftrightarrow> a = b"
  by (auto simp: buildPath_def dest!: arg_cong [of _ _ rev])

lemma build_not_stage [simp]: "buildPath a \<noteq> stagePath s b" "stagePath s b \<noteq> buildPath a"
  by (cases s; auto simp: buildPath_def stagePath_def dest!: arg_cong [of _ _ rev])+

lemma relayPath_inject [simp]: "relayPath s = relayPath r \<longleftrightarrow> s = r"
  by (cases s; cases r) (simp_all add: relayPath_def)

lemma relay_not_registration [simp]: "relayPath s \<noteq> stagePath r a" "stagePath r a \<noteq> relayPath s" "relayPath s \<noteq> buildPath a" "buildPath a \<noteq> relayPath s"
  by (simp_all add: relayPath_def stagePath_def buildPath_def)

lemma not_a_map [simp]: "\<not> under CLUSTER_MAP_DIR (stagePath s a)" "\<not> under CLUSTER_MAP_DIR (buildPath a)" "\<not> under CLUSTER_MAP_DIR (relayPath s)"
  by (simp_all add: under_def startsWith_def CLUSTER_MAP_DIR_def stagePath_def buildPath_def relayPath_def)

section \<open>Reading an entry that was written\<close>

lemma zod_parse_fields:
  assumes "zod_parse Y e = Inr e'"
  shows "zfields registration_shape e = Some e'"
  using assms by (auto simp: zod_parse_def ConsumerRegistrationSchema_def zrefine_def zobject_def split: option.splits json.splits if_splits)

lemma zod_parse_lookup:
  assumes "zod_parse Y e = Inr e'" "(k, p, v) \<in> set registration_shape"
  shows "map_of e k = Some j \<Longrightarrow> \<exists>j'. v j = Some j' \<and> map_of e' k = Some j'"
    and "map_of e k = None \<Longrightarrow> map_of e' k = (case p of ZDefault d \<Rightarrow> Some d | _ \<Rightarrow> None)"
proof -
  have f: "zfield e (k, p, v) = Some (case map_of e' k of Some j \<Rightarrow> [(k, j)] | None \<Rightarrow> [])"
    using zfields_lookup [OF zod_parse_fields [OF assms(1)] shape_distinct] assms(2) by auto
  then show "map_of e k = Some j \<Longrightarrow> \<exists>j'. v j = Some j' \<and> map_of e' k = Some j'" by (auto simp: zfield_def split: option.splits)
  show "map_of e k = None \<Longrightarrow> map_of e' k = (case p of ZDefault d \<Rightarrow> Some d | _ \<Rightarrow> None)" using f by (auto simp: zfield_def split: option.splits presence.splits)
qed

text \<open>A field of a valid entry that a change leaves alone is written as it stood.\<close>

lemma kept_field:
  assumes "zod_parse Y n = Inr e'" "valid_entry e" "map_of n k = map_of e k" "k \<in> set REGISTRATION_KEYS"
  shows "map_of e' k = map_of e k"
proof -
  obtain p v where m: "(k, p, v) \<in> set registration_shape" using assms(4) by (auto simp: REGISTRATION_KEYS_def)
  note f = valid_entry_field [OF assms(2) m]
  show ?thesis
  proof (cases "map_of e k")
    case None
    then show ?thesis using zod_parse_lookup(2) [OF assms(1) m] assms(3) f by simp
  next
    case (Some j)
    then have "v j = Some j" using f by simp
    then show ?thesis using zod_parse_lookup(1) [OF assms(1) m, of j] assms(3) Some by auto
  qed
qed

lemma guard_path: "guard p = Inr q \<Longrightarrow> q = p"
  by (auto simp: guard_def makeRegistrationGuard_def split: if_splits)

lemma written_path: "written Y path e = Inr w \<Longrightarrow> fst w = path"
  using guard_path by (auto simp: written_def bindE_Inr)

lemma written_Inr:
  assumes "yaml_reads Y" "written Y path e = Inr w"
  obtains e' where "zod_parse Y e = Inr e'" "valid_entry e'" "w = (path, flat_text e')" "read_entry Y (flat_text e') = Inr e'"
proof -
  obtain p c where "guard path = Inr p" "serializePointer Y e = Inr c" "w = (p, c)" using assms(2) by (auto simp: written_def bindE_Inr)
  moreover from this have "p = path" by (auto simp: guard_def makeRegistrationGuard_def split: if_splits)
  ultimately show thesis using that serialize_eq [OF assms(1)] zod_parse_valid read_back [OF assms(1)] by (auto simp: bindE_Inr)
qed

lemma written_eq: "yaml_reads Y \<Longrightarrow> written Y path e = bindE (guard path) (\<lambda>p. bindE (zod_parse Y e) (\<lambda>e'. Inr (p, flat_text e')))"
  by (cases "guard path"; cases "zod_parse Y e") (simp_all add: written_def serialize_eq)

lemma entry_at_written: "yaml_reads Y \<Longrightarrow> valid_entry e \<Longrightarrow> readFile t p = Some (flat_text e) \<Longrightarrow> entry_at Y t p = Inr (Some e)"
  by (simp add: entry_at_def read_back)

lemma entry_at_valid: "entry_at Y t p = Inr (Some e) \<Longrightarrow> valid_entry e"
  using zod_parse_valid by (auto simp: entry_at_def read_entry_def bindE_Inr split: option.splits)

lemma entry_at_cong: "readFile t' p = readFile t p \<Longrightarrow> entry_at Y t' p = entry_at Y t p"
  by (simp add: entry_at_def)

lemma smtp_key: "(''smtpEntry'', ZOptional, SmtpEntrySchema) \<in> set registration_shape" "''smtpEntry'' \<in> set REGISTRATION_KEYS" "''cluster'' \<in> set REGISTRATION_KEYS"
  "(''cluster'', ZOptional, zstring (dns_label 63)) \<in> set registration_shape" "''suspended'' \<in> set REGISTRATION_KEYS"
  "(''suspended'', ZDefault (JBool False), zbool) \<in> set registration_shape"
  by (simp_all add: REGISTRATION_KEYS_def registration_shape_def)

definition in_scope :: "stage \<Rightarrow> string \<Rightarrow> commit_input \<Rightarrow> bool" where
  "in_scope s name ci \<longleftrightarrow> set (map fst (ci_write ci)) \<union> set (ci_remove ci) \<subseteq> {stagePath s name, buildPath name, relayPath s}"

lemma read_other:
  assumes "in_scope s name ci" "p \<notin> {stagePath s name, buildPath name, relayPath s}"
  shows "readFile (apply_commit ci t) p = readFile t p"
  by (rule read_untouched) (use assms in \<open>force simp: in_scope_def\<close>)+

section \<open>The commits of the writers\<close>

lemma opt_field_keys [simp]: "fst ` set (opt_field k f x) = (if x = None then {} else {k})" "distinct (map fst (opt_field k f x))"
  by (auto simp: opt_field_def split: option.split)

lemma map_of_opt_field' [simp]: "map_of (opt_field k f x) l = (if l = k then map_option f x else None)"
  by (cases x) (auto simp: opt_field_def)

lemma deploy_fields_distinct: "distinct (map fst (deploy_fields d q))"
  by (simp add: deploy_fields_def)

lemma map_of_rev: "distinct (map fst xs) \<Longrightarrow> map_of (rev xs) = map_of xs"
  by (rule map_of_eqI) (auto simp: rev_map [symmetric] map_of_eq_Some_iff intro: map_of_is_SomeI)

lemma stage_entry_lookup: "map_of (stage_entry u d q) k = (case map_of (deploy_fields d q) k of Some v \<Rightarrow> Some v | None \<Rightarrow> if k = ''removing'' then Some (JBool False) else map_of (unit_entry u) k)"
  by (simp add: stage_entry_def map_of_writes map_of_rev [OF deploy_fields_distinct] split: option.split)

lemma deploy_fields_keys:
  "map_of (deploy_fields d q) ''smtpEntry'' = map_option smtp_json (dp_smtpEntry d)" "map_of (deploy_fields d q) ''cluster'' = Some (JStr (dp_cluster d))"
  unfolding deploy_fields_def map_of_append map_add_def by (simp_all split: option.split)

lemma stage_entry_keys:
  "map_of (stage_entry u d q) ''smtpEntry'' = map_option smtp_json (dp_smtpEntry d)" "map_of (stage_entry u d q) ''cluster'' = Some (JStr (dp_cluster d))"
  by (simp_all add: stage_entry_lookup deploy_fields_keys unit_entry_def map_add_def split: option.split)

lemma spread_other: "k \<notin> fst ` set patch \<Longrightarrow> map_of (spread patch e) k = map_of e k"
  by (induction patch e rule: spread.induct) (auto split: option.split)

lemma written_first: "p \<notin> fst ` set ws \<Longrightarrow> readFile (apply_commit \<lparr>ci_message = m, ci_write = (p, c) # ws, ci_remove = rs\<rparr> t) p = Some c"
  by (simp add: read_commit map_add_def map_of_eq_None_iff split: option.split) (metis map_of_eq_None_iff option.distinct(1) set_rev)

lemma build_follows_path:
  assumes "yaml_reads Y" "build_follows Y t s name v = Inr ws"
  shows "fst ` set ws \<subseteq> {buildPath name}"
  using assms(2) by (auto simp: build_follows_def bindE_Inr split: option.splits if_splits elim!: written_Inr [OF assms(1)])

lemma flip_commit:
  assumes Y: "yaml_reads Y" and flip: "flip_plan Y s name patch message b = Inr (Some ci, x)"
  obtains e e' ws where "entry_at Y (bk_tree b) (stagePath s name) = Inr (Some e)" "valid_entry e" "zod_parse Y (spread patch e) = Inr e'"
    "ci = \<lparr>ci_message = message, ci_write = (stagePath s name, flat_text e') # ws, ci_remove = []\<rparr>" "fst ` set ws \<subseteq> {buildPath name}"
    "(case map_of patch ''suspended'' of Some (Some (JBool v)) \<Rightarrow> build_follows Y (bk_tree b) s name v | _ \<Rightarrow> Inr []) = Inr ws"
    "in_scope s name ci" "entry_at Y (apply_commit ci (bk_tree b)) (stagePath s name) = Inr (Some e')"
proof -
  obtain e w ws where e: "entry_at Y (bk_tree b) (stagePath s name) = Inr (Some e)" and w: "written Y (stagePath s name) (spread patch e) = Inr w"
    and ws: "(case map_of patch ''suspended'' of Some (Some (JBool v)) \<Rightarrow> build_follows Y (bk_tree b) s name v | _ \<Rightarrow> Inr []) = Inr ws"
    and ci: "ci = \<lparr>ci_message = message, ci_write = w # ws, ci_remove = []\<rparr>"
    using flip by (auto simp: flip_plan_def Let_def bindE_Inr split: option.splits)
  obtain e' where e': "zod_parse Y (spread patch e) = Inr e'" "w = (stagePath s name, flat_text e')" "read_entry Y (flat_text e') = Inr e'"
    using written_Inr [OF Y w] by metis
  have paths: "fst ` set ws \<subseteq> {buildPath name}"
    using ws build_follows_path [OF Y] by (auto split: option.splits json.splits)
  have "stagePath s name \<notin> fst ` set ws" using paths by auto
  then have "entry_at Y (apply_commit ci (bk_tree b)) (stagePath s name) = Inr (Some e')"
    using written_first [of "stagePath s name" ws message "flat_text e'" "[]"] by (simp add: ci e' entry_at_def)
  moreover have "in_scope s name ci" using paths by (auto simp: in_scope_def ci e')
  ultimately show thesis using that [OF e entry_at_valid [OF e] e'(1) _ paths ws] ci e'(2) by simp
qed

lemma relayTarget_sending:
  assumes "relayTarget G Y t s name (Some (Some c, Some m)) = Inr (rw, rr)"
  obtains marking a where "resolveClusterMarkingIn Y (gd_branch G) t c = Inr marking" "mk_apiHost marking = Some a"
    "rw = [(relayPath s, relayValues name s a (smtp_port m))]" "rr = []"
  using assms by (auto simp: relayTarget_def relayGuard_def makeRegistrationGuard_def bindE_Inr split: option.splits if_splits)

lemma relayTarget_paths: "relayTarget G Y t s name nxt = Inr (rw, rr) \<Longrightarrow> fst ` set rw \<subseteq> {relayPath s}"
proof (cases "\<exists>c m. nxt = Some (Some c, Some m)")
  case True
  then obtain c m where nxt: "nxt = Some (Some c, Some m)" by blast
  assume "relayTarget G Y t s name nxt = Inr (rw, rr)"
  then show ?thesis unfolding nxt by (rule relayTarget_sending) simp
next
  case False
  have "(case nxt of Some (Some c, Some m) \<Rightarrow> A c m | _ \<Rightarrow> B) = B" for A and B :: "thrown + (tree \<times> string list)" using False by (auto split: option.splits)
  moreover assume "relayTarget G Y t s name nxt = Inr (rw, rr)"
  ultimately show ?thesis by (auto simp: relayTarget_def bindE_Inr split: option.splits)
qed

lemma domain_changes_fqdn:
  "applyDomainChanges r chs (JObj e) = Inr j \<Longrightarrow> \<not> list_ex (\<lambda>c. dc_path c \<noteq> [''fqdn'']) chs \<Longrightarrow> \<exists>n. j = JObj n \<and> (\<forall>k. k \<noteq> ''fqdn'' \<longrightarrow> map_of n k = map_of e k)"
proof (induction chs arbitrary: e)
  case (Cons ch chs)
  obtain x where x: "apply_change r ch (JObj e) = Inr x" "applyDomainChanges r chs x = Inr j" using Cons.prems(1) by (auto simp: bindE_Inr)
  have "dc_path ch = [''fqdn'']" using Cons.prems(2) by simp
  then obtain n where n: "x = JObj n" "\<forall>k. k \<noteq> ''fqdn'' \<longrightarrow> map_of n k = map_of e k"
    using x(1) by (auto simp: apply_change_def Let_def json_prop_def set_prop_def split: if_splits option.splits)
  then show ?case using Cons.IH [of n] x(2) Cons.prems(2) by auto
qed auto

lemma domain_commit:
  assumes "domain_plan Y s name changes r runId b = Inr (Some ci, x)" "\<not> list_ex (\<lambda>c. dc_path c \<noteq> [''fqdn'']) changes"
  obtains e n w where "entry_at Y (bk_tree b) (stagePath s name) = Inr (Some e)" "written Y (stagePath s name) n = Inr w" "\<And>k. k \<noteq> ''fqdn'' \<Longrightarrow> map_of n k = map_of e k"
    "ci_write ci = [w]" "ci_remove ci = []"
proof -
  obtain p e j c where p: "guard (stagePath s name) = Inr p" "entry_at Y (bk_tree b) p = Inr (Some e)" "applyDomainChanges r changes (JObj e) = Inr j"
    "serializePointer Y (case j of JObj n \<Rightarrow> n | _ \<Rightarrow> []) = Inr c" "ci_write ci = [(p, c)]" "ci_remove ci = []"
    using assms(1) by (auto simp: domain_plan_def bindE_Inr split: option.splits)
  obtain n where n: "j = JObj n" "\<forall>k. k \<noteq> ''fqdn'' \<longrightarrow> map_of n k = map_of e k" using domain_changes_fqdn [OF p(3) assms(2)] by blast
  show thesis using that [of e n "(p, c)"] p n guard_path [OF p(1)] by (auto simp: written_def)
qed

section \<open>The operations, in any order\<close>

definition quiet_patch :: "(string \<times> json option) list \<Rightarrow> bool" where
  "quiet_patch patch \<longleftrightarrow> {''name'', ''smtpEntry'', ''cluster''} \<inter> fst ` set patch = {}"

definition sends :: "yaml_deps \<Rightarrow> tree \<Rightarrow> stage \<Rightarrow> string \<Rightarrow> entry \<Rightarrow> json \<Rightarrow> bool" where
  "sends Y t s u e m \<longleftrightarrow> entry_at Y t (stagePath s u) = Inr (Some e) \<and> map_of e ''smtpEntry'' = Some m"

definition sender :: "yaml_deps \<Rightarrow> tree \<Rightarrow> stage \<Rightarrow> string \<Rightarrow> bool" where
  "sender Y t s u \<longleftrightarrow> (\<exists>e m. sends Y t s u e m)"

text \<open>
  One turn of a writer on the books. A move is two turns, and its second commits the entry its first read: the run that moves a unit holds the unit's lock, so the stage file
  is still that entry. A registration that attests an SMTP entry has passed G29: no other unit sends at the stage.
\<close>

inductive books_step :: "git_deps \<Rightarrow> yaml_deps \<Rightarrow> books \<Rightarrow> books \<Rightarrow> bool" for G Y where
  reads: "books_step G Y b (snd (readTurn G (f :: tree \<Rightarrow> thrown + unit) b))"
| creates: "books_step G Y b (snd (createBuildRegistration G Y u builds runId before b))"
| registers: "(\<And>d v. rc_deploy rc = Some d \<Longrightarrow> dp_smtpEntry d \<noteq> None \<Longrightarrow> sender Y (bk_tree b) (dp_stage d) v \<Longrightarrow> v = ui_name (rc_unit rc)) \<Longrightarrow>
    books_step G Y b (snd (commitRegistration G Y rc runId b))"
| suspends: "books_step G Y b (snd (setSuspended G Y s name v runId b))"
| quiesces: "books_step G Y b (snd (setQuiesced G Y s name v runId b))"
| marks: "books_step G Y b (snd (setRemoving G Y s name runId b))"
| sizes: "books_step G Y b (snd (setSize G Y s name sz ps vs q runId b))"
| names: "books_step G Y b (snd (setFqdn G Y s name d runId b))"
| domains: "books_step G Y b (snd (compareDomainFields G Y s name changes r runId b))"
| moves: "entry_at Y (bk_tree b) (stagePath s name) = Inr (Some e) \<Longrightarrow> books_step G Y b (snd (turn G (move_plan G Y s name e cluster runId) b))"
| moves_at_once: "books_step G Y b (snd (setCluster G Y s name cluster runId b))"
| leaves: "books_step G Y b (snd (clearLeaving G Y s name runId b))"
| removes: "books_step G Y b (snd (removeRegistration G Y s name runId b))"
| removes_build: "books_step G Y b (snd (removeBuildRegistration G name runId owner b))"

locale books_invariant =
  fixes invt :: "tree \<Rightarrow> bool" and G :: git_deps and Y :: yaml_deps
  assumes flip_law: "invt (bk_tree b) \<Longrightarrow> quiet_patch patch \<Longrightarrow> flip_plan Y s name patch message b = Inr (Some ci, x) \<Longrightarrow> invt (apply_commit ci (bk_tree b))"
    and register_law: "invt (bk_tree b) \<Longrightarrow> written Y (buildPath (ui_name u)) (build_entry (unit_entry u) builds) = Inr w \<Longrightarrow>
      (\<And>v. dp_smtpEntry d \<noteq> None \<Longrightarrow> sender Y (bk_tree b) (dp_stage d) v \<Longrightarrow> v = ui_name u) \<Longrightarrow>
      register_plan G Y u d [w] runId b = Inr (Some ci, x) \<Longrightarrow> invt (apply_commit ci (bk_tree b))"
    and build_law: "invt t \<Longrightarrow> written Y (buildPath (ui_name u)) (build_entry (unit_entry u) builds) = Inr w \<Longrightarrow> invt (apply_commit \<lparr>ci_message = m, ci_write = [w], ci_remove = []\<rparr> t)"
    and move_law: "invt (bk_tree b) \<Longrightarrow> entry_at Y (bk_tree b) (stagePath s name) = Inr (Some e) \<Longrightarrow> move_plan G Y s name e cluster runId b = Inr (Some ci, x) \<Longrightarrow>
      invt (apply_commit ci (bk_tree b))"
    and domain_law: "invt (bk_tree b) \<Longrightarrow> \<not> list_ex (\<lambda>c. dc_path c \<noteq> [''fqdn'']) changes \<Longrightarrow> domain_plan Y s name changes rd runId b = Inr (Some ci, x) \<Longrightarrow> invt (apply_commit ci (bk_tree b))"
    and remove_law: "invt (bk_tree b) \<Longrightarrow> remove_plan G Y s name runId b = Inr (Some ci, r) \<Longrightarrow> invt (apply_commit ci (bk_tree b))"
    and create_law: "invt (bk_tree b) \<Longrightarrow> create_build_plan Y u builds runId before b = Inr (Some ci, x) \<Longrightarrow> invt (apply_commit ci (bk_tree b))"
    and remove_build_law: "invt (bk_tree b) \<Longrightarrow> remove_build_plan name runId owner b = Inr (Some ci, r) \<Longrightarrow> invt (apply_commit ci (bk_tree b))"

sublocale books_invariant \<subseteq> flips: writer invt "\<lambda>_. quiet_patch patch" "flip_plan Y s name patch message" for patch s name message
  by unfold_locales (rule flip_law)

sublocale books_invariant \<subseteq> cluster_moves: writer invt "\<lambda>t. entry_at Y t (stagePath s name) = Inr (Some e)" "move_plan G Y s name e cluster runId" for s name e cluster runId
  by unfold_locales (rule move_law)

sublocale books_invariant \<subseteq> domains: writer invt "\<lambda>_. \<not> list_ex (\<lambda>c. dc_path c \<noteq> [''fqdn'']) changes" "domain_plan Y s name changes rd runId" for changes s name rd runId
  by unfold_locales (rule domain_law)

sublocale books_invariant \<subseteq> removes: writer invt "\<lambda>_. True" "remove_plan G Y s name runId" for s name runId
  by unfold_locales (rule remove_law)

sublocale books_invariant \<subseteq> creates: writer invt "\<lambda>_. True" "create_build_plan Y u builds runId before" for u builds runId before
  by unfold_locales (rule create_law)

sublocale books_invariant \<subseteq> build_removes: writer invt "\<lambda>_. True" "remove_build_plan name runId owner" for name runId owner
  by unfold_locales (rule remove_build_law)

sublocale books_invariant \<subseteq> build_registers: writer invt "\<lambda>_. written Y (buildPath (ui_name u)) (build_entry (unit_entry u) builds) = Inr w"
    "\<lambda>_. Inr (Some \<lparr>ci_message = m, ci_write = [w], ci_remove = []\<rparr>, ())" for u builds w m
  by unfold_locales (auto intro: build_law)

sublocale books_invariant \<subseteq> registers: writer invt "\<lambda>t. written Y (buildPath (ui_name u)) (build_entry (unit_entry u) builds) = Inr w \<and>
      (dp_smtpEntry d \<noteq> None \<longrightarrow> (\<forall>v. sender Y t (dp_stage d) v \<longrightarrow> v = ui_name u))" "register_plan G Y u d [w] runId" for u builds w d runId
  by unfold_locales (rule register_law; blast)

context books_invariant
begin

lemma flip_turn: "invt (bk_tree b) \<Longrightarrow> quiet_patch patch \<Longrightarrow> invt (bk_tree (snd (flip G Y s name patch message b)))"
  unfolding flip_def by (rule flips.turn_keeps)

lemma read_then:
  assumes "invt (bk_tree b)"
    and "\<And>x b'. readRegistration G Y s name b = (Inr x, b') \<Longrightarrow> entry_at Y (bk_tree b') (stagePath s name) = Inr x \<Longrightarrow> invt (bk_tree b') \<Longrightarrow> invt (bk_tree (snd (f x b')))"
  shows "invt (bk_tree (snd (bindM (readRegistration G Y s name) f b)))"
proof (cases "readRegistration G Y s name b")
  case (Pair r b')
  have tree: "bk_tree b' = bk_tree b" using read_turn_tree [of G _ b] Pair unfolding readRegistration_def by (metis snd_conv)
  show ?thesis
  proof (cases r)
    case (Inr x)
    then have "entry_at Y (bk_tree b) (stagePath s name) = Inr x" using read_turn_value [of G "\<lambda>t. entry_at Y t (stagePath s name)" b x b'] Pair by (simp add: readRegistration_def)
    then show ?thesis using assms Pair Inr tree by (simp add: bindM_def)
  qed (use assms Pair tree in \<open>simp add: bindM_def\<close>)
qed

lemma register_turn:
  assumes ok: "invt (bk_tree b)"
    and alone: "\<And>d v. rc_deploy rc = Some d \<Longrightarrow> dp_smtpEntry d \<noteq> None \<Longrightarrow> sender Y (bk_tree b) (dp_stage d) v \<Longrightarrow> v = ui_name (rc_unit rc)"
  shows "invt (bk_tree (snd (commitRegistration G Y rc runId b)))"
proof (cases "written Y (buildPath (ui_name (rc_unit rc))) (build_entry (unit_entry (rc_unit rc)) (rc_builds rc))")
  case (Inl e)
  then show ?thesis using ok by (simp add: commitRegistration_def Let_def bindM_def liftE_def)
next
  case (Inr w)
  show ?thesis
  proof (cases "rc_deploy rc")
    case None
    then show ?thesis using build_registers.turn_keeps [OF ok Inr] by (simp add: commitRegistration_def Let_def bindM_def liftE_def Inr)
  next
    case (Some d)
    then show ?thesis using registers.turn_keeps [OF ok, of "rc_unit rc" "rc_builds rc" w d G runId] Inr alone by (simp add: commitRegistration_def Let_def bindM_def liftE_def)
  qed
qed

lemma step_keeps: "books_step G Y b b' \<Longrightarrow> invt (bk_tree b) \<Longrightarrow> invt (bk_tree b')"
proof (induction rule: books_step.induct)
  case (reads b f) then show ?case by (simp add: read_turn_tree)
next
  case (creates b u builds runId before) then show ?case unfolding createBuildRegistration_def by (intro creates.turn_keeps) simp_all
next
  case (registers rc b runId) then show ?case by (intro register_turn)
next
  case (suspends b s name v runId) then show ?case unfolding setSuspended_def by (intro flip_turn) (simp_all add: quiet_patch_def)
next
  case (quiesces b s name v runId) then show ?case unfolding setQuiesced_def by (intro flip_turn) (simp_all add: quiet_patch_def)
next
  case (marks b s name runId) then show ?case unfolding setRemoving_def by (intro flip_turn) (simp_all add: quiet_patch_def)
next
  case (sizes b s name sz ps vs q runId) then show ?case unfolding setSize_def by (intro flip_turn) (auto simp: quiet_patch_def split: option.splits)
next
  case (names b s name d runId) then show ?case unfolding setFqdn_def by (intro flip_turn) (simp_all add: quiet_patch_def)
next
  case (domains b s name changes r runId)
  then show ?case using domains.turn_keeps [of b changes G s name r runId] by (simp add: compareDomainFields_def throwM_def ret_def)
next
  case (moves b s name e cluster runId) then show ?case by (intro cluster_moves.turn_keeps) simp_all
next
  case (moves_at_once b s name cluster runId)
  show ?case unfolding setCluster_def
    by (rule read_then) (use moves_at_once in \<open>auto simp: throwM_def split: option.split intro!: cluster_moves.turn_keeps\<close>)
next
  case (leaves b s name runId)
  show ?case unfolding clearLeaving_def
    by (rule read_then) (use leaves in \<open>auto simp: throwM_def ret_def quiet_patch_def split: option.split intro!: flip_turn\<close>)
next
  case (removes b s name runId) then show ?case unfolding removeRegistration_def by (intro removes.turn_keeps) simp_all
next
  case (removes_build b name runId owner) then show ?case unfolding removeBuildRegistration_def by (intro build_removes.turn_keeps) simp_all
qed

lemma steps_keep: "(books_step G Y)\<^sup>*\<^sup>* b b' \<Longrightarrow> invt (bk_tree b) \<Longrightarrow> invt (bk_tree b')"
  by (induction rule: rtranclp_induct) (auto intro: step_keeps)

end

end
