(* ===== verification/Books_Relay.thy ===== *)
theory Books_Relay
  imports Books
begin

text \<open>
  The relay of a stage follows the one unit whose stage file carries an SMTP entry: its file stands exactly while there is such a unit, and names the tailnet address of the
  unit's cluster and the port of its entry.
\<close>

section \<open>The relay follows the sender\<close>

definition relay_points :: "git_deps \<Rightarrow> yaml_deps \<Rightarrow> tree \<Rightarrow> stage \<Rightarrow> string \<Rightarrow> entry \<Rightarrow> json \<Rightarrow> bool" where
  "relay_points G Y t s u e m \<longleftrightarrow> (\<exists>c marking a. str_of e ''cluster'' = Some c \<and> resolveClusterMarkingIn Y (gd_branch G) t c = Inr marking \<and> mk_apiHost marking = Some a \<and>
     readFile t (relayPath s) = Some (relayValues u s a (smtp_port m)))"

definition relay_follows :: "git_deps \<Rightarrow> yaml_deps \<Rightarrow> tree \<Rightarrow> bool" where
  "relay_follows G Y t \<longleftrightarrow>
     (\<forall>s u. \<exists>x. entry_at Y t (stagePath s u) = Inr x) \<and>
     (\<forall>s u e m. sends Y t s u e m \<longrightarrow> relay_points G Y t s u e m) \<and>
     (\<forall>s u v. sender Y t s u \<longrightarrow> sender Y t s v \<longrightarrow> u = v) \<and>
     (\<forall>s. readFile t (relayPath s) \<noteq> None \<longrightarrow> (\<exists>u. sender Y t s u))"

lemma resolve_kept: "in_scope s name ci \<Longrightarrow> resolveClusterMarkingIn Y b (apply_commit ci t) c = resolveClusterMarkingIn Y b t c"
  by (rule resolve_same, rule untouched_dir) (auto simp: in_scope_def)

lemma relay_step:
  assumes ok: "relay_follows G Y t" and scope: "in_scope s name ci" and new: "entry_at Y (apply_commit ci t) (stagePath s name) = Inr x"
    and sending: "\<And>e m. x = Some e \<Longrightarrow> map_of e ''smtpEntry'' = Some m \<Longrightarrow>
      relay_points G Y (apply_commit ci t) s name e m \<and> (\<forall>u. sender Y t s u \<longrightarrow> u = name)"
    and silent: "(\<And>e. x = Some e \<Longrightarrow> map_of e ''smtpEntry'' = None) \<Longrightarrow>
      readFile (apply_commit ci t) (relayPath s) = (if \<exists>u. u \<noteq> name \<and> sender Y t s u then readFile t (relayPath s) else None)"
  shows "relay_follows G Y (apply_commit ci t)"
proof -
  let ?t = "apply_commit ci t"
  have view: "entry_at Y ?t (stagePath r u) = (if r = s \<and> u = name then Inr x else entry_at Y t (stagePath r u))" for r u
    using new read_other [OF scope, of "stagePath r u" t] by (auto intro: entry_at_cong)
  have relay: "readFile ?t (relayPath r) = readFile t (relayPath r)" if "r \<noteq> s" for r using read_other [OF scope, of "relayPath r" t] that by simp
  have sends: "sends Y ?t r u e m \<longleftrightarrow> (if r = s \<and> u = name then x = Some e \<and> map_of e ''smtpEntry'' = Some m else sends Y t r u e m)" for r u e m
    by (auto simp: sends_def view)
  have one: "u = v" if "sender Y t r u" "sender Y t r v" for r u v using ok that by (auto simp: relay_follows_def)
  have points: "relay_points G Y ?t r u e m" if "sends Y t r u e m" "readFile ?t (relayPath r) = readFile t (relayPath r)" for r u e m
    using ok that resolve_kept [OF scope] by (auto simp: relay_follows_def relay_points_def)
  show ?thesis
  proof (cases "\<exists>e m. x = Some e \<and> map_of e ''smtpEntry'' = Some m")
    case True
    then obtain e m where x: "x = Some e" "map_of e ''smtpEntry'' = Some m" by blast
    note new_sender = sending [OF x]
    have only: "sender Y ?t s u \<longleftrightarrow> u = name" for u using new_sender x by (auto simp: sender_def sends)
    have same: "sender Y ?t r u \<longleftrightarrow> sender Y t r u" if "r \<noteq> s" for r u using that by (simp add: sender_def sends)
    have "relay_points G Y ?t r u e' m'" if "sends Y ?t r u e' m'" for r u e' m'
    proof (cases "r = s")
      case True
      then have "u = name" "e' = e" "m' = m" using that only [of u] x by (auto simp: sender_def sends split: if_splits)
      then show ?thesis using new_sender True by blast
    next
      case False
      then show ?thesis using that points relay [OF False] by (simp add: sends)
    qed
    moreover have "u = v" if "sender Y ?t r u" "sender Y ?t r v" for r u v using that only same one by (cases "r = s") auto
    moreover have "\<exists>u. sender Y ?t r u" if "readFile ?t (relayPath r) \<noteq> None" for r
      using that ok relay [of r] only same by (cases "r = s") (auto simp: relay_follows_def)
    ultimately show ?thesis using ok view unfolding relay_follows_def by (auto split: if_splits)
  next
    case False
    then have none: "x = Some e \<Longrightarrow> map_of e ''smtpEntry'' = None" for e by (cases "map_of e ''smtpEntry''") auto
    note quiet = silent [OF none]
    have same: "sender Y ?t r u \<longleftrightarrow> sender Y t r u \<and> (r, u) \<noteq> (s, name)" for r u using False by (auto simp: sender_def sends)
    have kept: "readFile ?t (relayPath r) = readFile t (relayPath r)" if "sender Y ?t r u" for r u
    proof (cases "r = s")
      case True
      then have "\<exists>v. v \<noteq> name \<and> sender Y t s v" using that same by blast
      then show ?thesis using quiet True by simp
    qed (rule relay)
    have "relay_points G Y ?t r u e m" if "sends Y ?t r u e m" for r u e m
      using that points kept [of r u] False by (auto simp: sender_def sends split: if_splits)
    moreover have "u = v" if "sender Y ?t r u" "sender Y ?t r v" for r u v using that one same by blast
    moreover have "\<exists>u. sender Y ?t r u" if "readFile ?t (relayPath r) \<noteq> None" for r
    proof (cases "r = s")
      case True
      then show ?thesis using that quiet same by (auto split: if_splits)
    next
      case False
      then show ?thesis using that relay [OF False] ok same by (auto simp: relay_follows_def)
    qed
    ultimately show ?thesis using ok view unfolding relay_follows_def by (auto split: if_splits)
  qed
qed

lemma smtp_schema_same: "SmtpEntrySchema (smtp_json m) = Some j \<Longrightarrow> j = smtp_json m"
  by (cases "sm_dkimKey m") (auto simp: SmtpEntrySchema_def smtp_json_def zobject_def zfields_def zfield_def zstring_def zint_def opt_field_def split: if_splits)

section \<open>What a commit does to the relay\<close>

lemma relayTarget_silent:
  assumes ok: "relay_follows G Y t" and silent: "\<And>c m. nxt \<noteq> Some (Some c, Some m)" and r: "relayTarget G Y t s name nxt = Inr (rw, rr)"
  shows "rw = [] \<and> rr = (if sender Y t s name then [relayPath s] else [])"
proof -
  have path: "relayGuard (relayPath s) = Inr p \<Longrightarrow> p = relayPath s" for p by (auto simp: relayGuard_def makeRegistrationGuard_def split: if_splits)
  have "\<exists>x. entry_at Y t (stagePath s name) = Inr x" using ok by (simp add: relay_follows_def)
  then obtain x where x: "entry_at Y t (stagePath s name) = Inr x" ..
  have nxt: "(case nxt of Some (Some c, Some m) \<Rightarrow> A c m | _ \<Rightarrow> B) = B" for A and B :: "thrown + (tree \<times> string list)"
    using silent by (auto split: option.splits)
  show ?thesis
  proof (cases "readFile t (stagePath s name)")
    case None
    then have "\<not> sender Y t s name" by (simp add: sender_def sends_def entry_at_def)
    then show ?thesis using r None by (auto simp: relayTarget_def nxt bindE_Inr)
  next
    case (Some raw)
    then obtain kvs e where kvs: "parseRegistration Y raw = Inr kvs" "zod_parse Y kvs = Inr e" "x = Some e"
      using x by (auto simp: entry_at_def read_entry_def bindE_Inr)
    have "has_field kvs ''smtpEntry'' \<longleftrightarrow> sender Y t s name"
      using zod_parse_lookup [OF kvs(2) smtp_key(1)] x kvs(3) by (cases "map_of kvs ''smtpEntry''") (auto simp: sender_def sends_def has_field_def)
    then show ?thesis using r Some kvs(1) path by (auto simp: relayTarget_def nxt bindE_Inr)
  qed
qed

lemma one_sender: "relay_follows G Y t \<Longrightarrow> sender Y t s u \<Longrightarrow> sender Y t s v \<Longrightarrow> u = v"
  by (simp add: relay_follows_def)

lemma relay_absent: "relay_follows G Y t \<Longrightarrow> \<not> (\<exists>u. sender Y t s u) \<Longrightarrow> readFile t (relayPath s) = None"
  by (auto simp: relay_follows_def)

lemma relay_freed:
  assumes ok: "relay_follows G Y t" and relay: "readFile t' (relayPath s) = (if sender Y t s name then None else readFile t (relayPath s))"
  shows "readFile t' (relayPath s) = (if \<exists>u. u \<noteq> name \<and> sender Y t s u then readFile t (relayPath s) else None)"
proof (cases "\<exists>u. sender Y t s u")
  case True
  then obtain u where u: "sender Y t s u" ..
  have one: "v = u" if "sender Y t s v" for v using one_sender [OF ok that u] .
  show ?thesis
  proof (cases "u = name")
    case True
    then have "\<not> (\<exists>v. v \<noteq> name \<and> sender Y t s v)" using one by blast
    then show ?thesis using relay u True by auto
  next
    case False
    then have "\<not> sender Y t s name" using one by blast
    then show ?thesis using relay u False by auto
  qed
qed (use relay relay_absent [OF ok, of s] in auto)

text \<open>What a commit that puts a stage file and its relay target does to the relay.\<close>

lemma relay_put:
  assumes ok: "relay_follows G Y t" and target: "relayTarget G Y t s name (Some (Some c, m)) = Inr (rw, rr)"
    and ci: "ci_remove ci = rr" "ci_write ci = pre @ rw" "fst ` set pre \<subseteq> {stagePath s name, buildPath name}"
    and new: "entry_at Y (apply_commit ci t) (stagePath s name) = Inr (Some e)" "map_of e ''smtpEntry'' = m" "str_of e ''cluster'' = Some c"
    and alone: "m \<noteq> None \<Longrightarrow> \<forall>u. sender Y t s u \<longrightarrow> u = name"
  shows "relay_follows G Y (apply_commit ci t)"
proof (cases m)
  case (Some j)
  obtain marking a where r: "resolveClusterMarkingIn Y (gd_branch G) t c = Inr marking" "mk_apiHost marking = Some a"
    "rw = [(relayPath s, relayValues name s a (smtp_port j))]" "rr = []" using relayTarget_sending target Some by metis
  have scope: "in_scope s name ci" using ci r by (auto simp: in_scope_def)
  have "readFile (apply_commit ci t) (relayPath s) = Some (relayValues name s a (smtp_port j))" using ci r by (simp add: read_commit)
  then have "relay_points G Y (apply_commit ci t) s name e j" using new r resolve_kept [OF scope] by (auto simp: relay_points_def)
  then show ?thesis by (intro relay_step [OF ok scope new(1)]) (use new(2) Some alone in auto)
next
  case None
  have r: "rw = []" "rr = (if sender Y t s name then [relayPath s] else [])" using relayTarget_silent [OF ok _ target] None by auto
  have scope: "in_scope s name ci" using ci r by (auto simp: in_scope_def)
  have "relayPath s \<notin> fst ` set pre" using ci(3) by auto
  then have "map_of (rev (ci_write ci)) (relayPath s) = None" using ci r by (simp add: map_of_eq_None_iff)
  then have relay: "readFile (apply_commit ci t) (relayPath s) = (if sender Y t s name then None else readFile t (relayPath s))"
    using ci r by (simp add: read_commit)
  show ?thesis by (rule relay_step [OF ok scope new(1)]) (use new(2) None relay_freed [OF ok relay] in auto)
qed

text \<open>A commit that leaves the relay file and the entry and the cluster of the stage file.\<close>

lemma relay_same:
  assumes ok: "relay_follows G Y t" and scope: "in_scope s name ci" and relay: "readFile (apply_commit ci t) (relayPath s) = readFile t (relayPath s)"
    and old: "entry_at Y t (stagePath s name) = Inr x" and new: "entry_at Y (apply_commit ci t) (stagePath s name) = Inr x'"
    and same: "rel_option (\<lambda>e e'. map_of e' ''smtpEntry'' = map_of e ''smtpEntry'' \<and> map_of e' ''cluster'' = map_of e ''cluster'') x x'"
  shows "relay_follows G Y (apply_commit ci t)"
proof (rule relay_step [OF ok scope new])
  fix e' m
  assume e': "x' = Some e'" "map_of e' ''smtpEntry'' = Some m"
  then obtain e where e: "x = Some e" "map_of e ''smtpEntry'' = Some m" "map_of e' ''cluster'' = map_of e ''cluster''" using same by (auto simp: option_rel_Some2)
  then have s: "sends Y t s name e m" using old by (simp add: sends_def)
  then have "relay_points G Y t s name e m" using ok by (simp add: relay_follows_def)
  then have "relay_points G Y (apply_commit ci t) s name e' m" using relay resolve_kept [OF scope] e(3) by (auto simp: relay_points_def str_of_def)
  moreover have "sender Y t s name" using s by (auto simp: sender_def)
  then have "u = name" if "sender Y t s u" for u using one_sender [OF ok that] by blast
  ultimately show "relay_points G Y (apply_commit ci t) s name e' m \<and> (\<forall>u. sender Y t s u \<longrightarrow> u = name)" by blast
next
  assume "\<And>e. x' = Some e \<Longrightarrow> map_of e ''smtpEntry'' = None"
  then have "\<not> sender Y t s name" using old same by (cases x') (auto simp: sender_def sends_def option_rel_Some2)
  then show "readFile (apply_commit ci t) (relayPath s) = (if \<exists>u. u \<noteq> name \<and> sender Y t s u then readFile t (relayPath s) else None)"
    using relay_freed [OF ok, of "apply_commit ci t" s name] relay by simp
qed

section \<open>Every writer keeps the relay\<close>

lemma flip_keeps:
  assumes ok: "relay_follows G Y (bk_tree b)" and Y: "yaml_reads Y" "quiet_patch patch" and plan: "flip_plan Y s name patch message b = Inr (Some ci, x)"
  shows "relay_follows G Y (apply_commit ci (bk_tree b))"
proof -
  obtain e e' ws where f: "entry_at Y (bk_tree b) (stagePath s name) = Inr (Some e)" "valid_entry e" "zod_parse Y (spread patch e) = Inr e'"
    "ci = \<lparr>ci_message = message, ci_write = (stagePath s name, flat_text e') # ws, ci_remove = []\<rparr>" "fst ` set ws \<subseteq> {buildPath name}"
    "in_scope s name ci" "entry_at Y (apply_commit ci (bk_tree b)) (stagePath s name) = Inr (Some e')" using flip_commit [OF Y(1) plan] by metis
  have relay: "readFile (apply_commit ci (bk_tree b)) (relayPath s) = readFile (bk_tree b) (relayPath s)"
    by (rule read_untouched) (use f(4,5) in auto)
  have "map_of (spread patch e) k = map_of e k" if "k \<in> {''smtpEntry'', ''cluster''}" for k using Y(2) that by (intro spread_other) (unfold quiet_patch_def, blast)
  then have "map_of e' k = map_of e k" if "k \<in> {''smtpEntry'', ''cluster''}" for k using kept_field [OF f(3,2), of k] smtp_key(2,3) that by auto
  then show ?thesis using relay_same [OF ok f(6) relay f(1,7)] by simp
qed

lemma register_keeps:
  assumes ok: "relay_follows G Y (bk_tree b)" and Y: "yaml_reads Y" and build: "fst ` set bw \<subseteq> {buildPath (ui_name u)}"
    and alone: "dp_smtpEntry d \<noteq> None \<Longrightarrow> \<forall>v. sender Y (bk_tree b) (dp_stage d) v \<longrightarrow> v = ui_name u"
    and plan: "register_plan G Y u d bw runId b = Inr (Some ci, x)"
  shows "relay_follows G Y (apply_commit ci (bk_tree b))"
proof -
  let ?s = "dp_stage d" and ?n = "ui_name u" and ?m = "map_option smtp_json (dp_smtpEntry d)"
  obtain q w rw rr where w: "written Y (stagePath ?s ?n) (stage_entry u d q) = Inr w"
    and r: "relayTarget G Y (bk_tree b) ?s ?n (Some (Some (dp_cluster d), ?m)) = Inr (rw, rr)" and ci: "ci_write ci = bw @ [w] @ rw" "ci_remove ci = rr"
    using plan by (auto simp: register_plan_def Let_def bindE_Inr)
  obtain e where e: "zod_parse Y (stage_entry u d q) = Inr e" "w = (stagePath ?s ?n, flat_text e)" "read_entry Y (flat_text e) = Inr e"
    using written_Inr [OF Y w] by metis
  have smtp: "map_of e ''smtpEntry'' = ?m"
    using zod_parse_lookup [OF e(1) smtp_key(1)] smtp_schema_same by (cases "dp_smtpEntry d") (auto simp: stage_entry_keys)
  have cluster: "str_of e ''cluster'' = Some (dp_cluster d)"
    using zod_parse_lookup(1) [OF e(1) smtp_key(4), of "JStr (dp_cluster d)"] by (auto simp: stage_entry_keys str_of_def zstring_def split: if_splits)
  have "fst ` set rw \<subseteq> {relayPath ?s}" using relayTarget_paths [OF r] by simp
  then have "map_of (rev rw) (stagePath ?s ?n) = None" by (auto simp: map_of_eq_None_iff)
  then have new: "entry_at Y (apply_commit ci (bk_tree b)) (stagePath ?s ?n) = Inr (Some e)"
    by (simp add: entry_at_def read_commit ci e map_add_def)
  show ?thesis
    by (rule relay_put [OF ok r ci(2) _ _ new smtp cluster, of "bw @ [w]"]) (use ci build alone e(2) in auto)
qed

lemma move_keeps:
  assumes ok: "relay_follows G Y (bk_tree b)" and Y: "yaml_reads Y" and old: "entry_at Y (bk_tree b) (stagePath s name) = Inr (Some e)"
    and plan: "move_plan G Y s name e cluster runId b = Inr (Some ci, x)"
  shows "relay_follows G Y (apply_commit ci (bk_tree b))"
proof -
  let ?next = "move_entry e cluster"
  have next_keys: "map_of ?next ''smtpEntry'' = map_of e ''smtpEntry''" "map_of ?next ''cluster'' = Some (JStr cluster)"
    by (auto simp: move_entry_def Let_def split: option.split)
  obtain w rw rr where w: "written Y (stagePath s name) ?next = Inr w"
    and r: "relayTarget G Y (bk_tree b) s name (Some (Some cluster, map_of ?next ''smtpEntry'')) = Inr (rw, rr)" and ci: "ci_write ci = w # rw" "ci_remove ci = rr"
    using plan by (auto simp: move_plan_def Let_def bindE_Inr)
  obtain e' where e': "zod_parse Y ?next = Inr e'" "w = (stagePath s name, flat_text e')" "read_entry Y (flat_text e') = Inr e'" using written_Inr [OF Y w] by metis
  have smtp: "map_of e' ''smtpEntry'' = map_of ?next ''smtpEntry''" using kept_field [OF e'(1) entry_at_valid [OF old] next_keys(1) smtp_key(2)] next_keys by simp
  have cluster: "str_of e' ''cluster'' = Some cluster"
    using zod_parse_lookup(1) [OF e'(1) smtp_key(4) next_keys(2)] by (auto simp: str_of_def zstring_def split: if_splits)
  have "fst ` set rw \<subseteq> {relayPath s}" using relayTarget_paths [OF r] by simp
  then have "map_of (rev rw) (stagePath s name) = None" by (auto simp: map_of_eq_None_iff)
  then have new: "entry_at Y (apply_commit ci (bk_tree b)) (stagePath s name) = Inr (Some e')" by (simp add: entry_at_def read_commit ci e' map_add_def)
  have "u = name" if "map_of e ''smtpEntry'' \<noteq> None" "sender Y (bk_tree b) s u" for u
    using one_sender [OF ok that(2), of name] that(1) old by (auto simp: sender_def sends_def)
  then show ?thesis by (intro relay_put [OF ok r ci(2) _ _ new smtp cluster, of "[w]"]) (use ci e'(2) next_keys in auto)
qed

lemma domain_keeps:
  assumes ok: "relay_follows G Y (bk_tree b)" and Y: "yaml_reads Y" and fq: "\<not> list_ex (\<lambda>c. dc_path c \<noteq> [''fqdn'']) changes" and plan: "domain_plan Y s name changes r runId b = Inr (Some ci, x)"
  shows "relay_follows G Y (apply_commit ci (bk_tree b))"
proof -
  obtain e n w where f: "entry_at Y (bk_tree b) (stagePath s name) = Inr (Some e)" "written Y (stagePath s name) n = Inr w" "\<And>k. k \<noteq> ''fqdn'' \<Longrightarrow> map_of n k = map_of e k"
    "ci_write ci = [w]" "ci_remove ci = []" using domain_commit [OF plan fq] by metis
  obtain e' where e': "zod_parse Y n = Inr e'" "w = (stagePath s name, flat_text e')" "read_entry Y (flat_text e') = Inr e'" using written_Inr [OF Y f(2)] by metis
  have new: "entry_at Y (apply_commit ci (bk_tree b)) (stagePath s name) = Inr (Some e')" by (simp add: entry_at_def read_commit f(4) e')
  have relay: "readFile (apply_commit ci (bk_tree b)) (relayPath s) = readFile (bk_tree b) (relayPath s)" by (rule read_untouched) (simp_all add: f(4,5) e'(2))
  have "map_of e' k = map_of e k" if "k \<in> {''smtpEntry'', ''cluster''}" for k
    using kept_field [OF e'(1) entry_at_valid [OF f(1)] f(3), of k] smtp_key(2,3) that by auto
  then show ?thesis using relay_same [OF ok _ relay f(1) new] by (simp add: in_scope_def f(4,5) e'(2))
qed

lemma remove_keeps:
  assumes ok: "relay_follows G Y (bk_tree b)" and plan: "remove_plan G Y s name runId b = Inr (Some ci, x)"
  shows "relay_follows G Y (apply_commit ci (bk_tree b))"
proof -
  obtain bs rw rr where r: "relayTarget G Y (bk_tree b) s name None = Inr (rw, rr)" and ci: "ci_write ci = []" "ci_remove ci = stagePath s name # bs @ rr"
    and bs: "set bs \<subseteq> {buildPath name}"
    using plan guard_path by (fastforce simp: remove_plan_def Let_def bindE_Inr split: if_splits)
  have rr: "rr = (if sender Y (bk_tree b) s name then [relayPath s] else [])" using relayTarget_silent [OF ok _ r] by simp
  have scope: "in_scope s name ci" using ci bs rr by (auto simp: in_scope_def)
  have new: "entry_at Y (apply_commit ci (bk_tree b)) (stagePath s name) = Inr None" by (simp add: entry_at_def read_commit ci)
  have "relayPath s \<notin> set bs" using bs by auto
  then have "readFile (apply_commit ci (bk_tree b)) (relayPath s) = (if sender Y (bk_tree b) s name then None else readFile (bk_tree b) (relayPath s))"
    by (simp add: read_commit ci rr)
  from relay_freed [OF ok this] show ?thesis by (intro relay_step [OF ok scope new]) auto
qed

lemma build_keeps:
  assumes ok: "relay_follows G Y t" and ci: "fst ` set (ci_write ci) \<union> set (ci_remove ci) \<subseteq> {buildPath name}"
  shows "relay_follows G Y (apply_commit ci t)"
proof -
  have scope: "in_scope Prod name ci" using ci by (auto simp: in_scope_def)
  have kept: "readFile (apply_commit ci t) p = readFile t p" if "p \<noteq> buildPath name" for p
    by (rule read_untouched) (use that ci in blast)+
  obtain x where x: "entry_at Y t (stagePath Prod name) = Inr x" using ok unfolding relay_follows_def by blast
  then have "entry_at Y (apply_commit ci t) (stagePath Prod name) = Inr x" using entry_at_cong [OF kept [of "stagePath Prod name"]] by simp
  then show ?thesis by (intro relay_same [OF ok scope kept x]) (auto simp: option.rel_refl)
qed

lemma create_keeps:
  assumes "relay_follows G Y (bk_tree b)" "create_build_plan Y u builds runId before b = Inr (Some ci, x)"
  shows "relay_follows G Y (apply_commit ci (bk_tree b))"
  by (rule build_keeps [OF assms(1), of ci "ui_name u"]) (use assms(2) in \<open>auto simp: create_build_plan_def guard_def makeRegistrationGuard_def Let_def bindE_Inr split: if_splits\<close>)

lemma remove_build_keeps:
  assumes "relay_follows G Y (bk_tree b)" "remove_build_plan name runId owner b = Inr (Some ci, x)"
  shows "relay_follows G Y (apply_commit ci (bk_tree b))"
  by (rule build_keeps [OF assms(1), of ci name]) (use assms(2) in \<open>auto simp: remove_build_plan_def guard_def makeRegistrationGuard_def bindE_Inr split: if_splits\<close>)

interpretation relay: books_invariant "\<lambda>t. yaml_reads Y \<and> relay_follows G Y t" G Y for G Y
proof (unfold_locales, goal_cases)
  case 1 then show ?case using flip_keeps by blast
next
  case (2 b u builds w d runId ci x)
  then have "fst ` set [w] \<subseteq> {buildPath (ui_name u)}" using written_path by simp
  from register_keeps [OF _ _ this _ 2(4)] 2(1,3) show ?case by blast
next
  case (3 t u builds w m)
  then have "fst w = buildPath (ui_name u)" using written_path by blast
  then show ?case using 3 by (auto intro!: build_keeps [where name = "ui_name u"])
next
  case 4 then show ?case using move_keeps by blast
next
  case 5 then show ?case using domain_keeps by blast
next
  case 6 then show ?case using remove_keeps by blast
next
  case 7 then show ?case using create_keeps by blast
next
  case 8 then show ?case using remove_build_keeps by blast
qed


section \<open>An installation with one sender\<close>

definition quiet_git :: git_deps where
  "quiet_git = \<lparr>gd_branch = ''books'', gd_fetch = (\<lambda>_. None), gd_push = (\<lambda>_. Pushed), gd_sha = (\<lambda>_. ''c0ffee'')\<rparr>"

definition one_cluster :: books where
  "one_cluster = \<lparr>bk_tree = [(''clusters/active/m1.example.com.yaml'',
     flat_text [(''stage'', JStr ''prod''), (''role'', JStr ''master''),
       (''global'', JObj [(''domain'', JStr ''m1.example.com''), (''clusterName'', JStr ''m1''), (''buildPlane'', JStr ''m1.example.com''), (''apiHost'', JStr ''100.64.0.1'')])])],
     bk_last = [], bk_head = 0, bk_calls = 0\<rparr>"

definition mailer_deploy :: deploy_group where
  "mailer_deploy = \<lparr>dp_stage = Prod, dp_quiesced = None, dp_chartPath = ''chart'', dp_cluster = ''m1'', dp_host = ''mailer'', dp_databases = [], dp_keyPatterns = [], dp_channelPatterns = [],
     dp_services = [], dp_size = Small, dp_sizes = None, dp_volumes = None, dp_mongodb = MShared, dp_redis = None, dp_redisMaxmemoryPolicy = None,
     dp_quota = \<lparr>uq_requestsCpu = ''1'', uq_requestsMemory = ''1Gi'', uq_limitsCpu = ''2'', uq_limitsMemory = ''2Gi'', uq_pods = 10, uq_persistentVolumeClaims = 2\<rparr>,
     dp_fqdn = None, dp_smtpEntry = Some \<lparr>sm_service = ''smtp'', sm_port = 587, sm_dkimKey = None\<rparr>\<rparr>"

definition mailer :: registration_commit where
  "mailer = \<lparr>rc_unit = \<lparr>ui_name = ''mailer'', ui_repoURL = ''https://git.example/acme/mailer.git'', ui_owner = None, ui_onboardedAt = None, ui_suspended = False, ui_quiesced = False\<rparr>,
     rc_builds = [''mailer''], rc_deploy = Some mailer_deploy\<rparr>"

definition mailer_build :: entry where
  "mailer_build = [(''name'', JStr ''mailer''), (''repoURL'', JStr ''https://git.example/acme/mailer.git''), (''suspended'', JBool False), (''quiesced'', JBool False), (''removing'', JBool False),
     (''builds'', JArr [JStr ''mailer''])]"

definition mailer_stage :: "bool \<Rightarrow> entry" where
  "mailer_stage v = [(''name'', JStr ''mailer''), (''repoURL'', JStr ''https://git.example/acme/mailer.git''), (''suspended'', JBool v), (''quiesced'', JBool False), (''removing'', JBool False),
     (''chartPath'', JStr ''chart''), (''cluster'', JStr ''m1''), (''databases'', JArr []), (''keyPatterns'', JArr []), (''channelPatterns'', JArr []), (''services'', JArr []), (''size'', JStr ''small''),
     (''mongodb'', JStr ''shared''),
     (''quota'', JObj [(''requestsCpu'', JStr ''1''), (''requestsMemory'', JStr ''1Gi''), (''limitsCpu'', JStr ''2''), (''limitsMemory'', JStr ''2Gi''), (''pods'', JNum 10), (''persistentVolumeClaims'', JNum 2)]),
     (''host'', JStr ''mailer''), (''smtpEntry'', JObj [(''service'', JStr ''smtp''), (''port'', JNum 587)])]"

lemma quiet_git_calls [simp]: "gd_fetch quiet_git n = None" "gd_push quiet_git n = Pushed"
  by (simp_all add: quiet_git_def)

lemma mailer_reads:
  "zod_parse flat_yaml (build_entry (unit_entry (rc_unit mailer)) (rc_builds mailer)) = Inr mailer_build"
  "zod_parse flat_yaml (stage_entry (rc_unit mailer) mailer_deploy None) = Inr (mailer_stage False)"
  by code_simp+

lemma mailer_paths: "guard (buildPath ''mailer'') = Inr (buildPath ''mailer'')" "guard (stagePath Prod ''mailer'') = Inr (stagePath Prod ''mailer'')"
  by code_simp+

lemma mailer_relay:
  "relayTarget quiet_git flat_yaml (bk_tree one_cluster) Prod ''mailer'' (Some (Some ''m1'', Some (smtp_json \<lparr>sm_service = ''smtp'', sm_port = 587, sm_dkimKey = None\<rparr>))) =
     Inr ([(relayPath Prod, relayValues ''mailer'' Prod ''100.64.0.1'' 587)], [])"
  by code_simp

lemma one_cluster_files: "readFile (bk_tree one_cluster) (stagePath s u) = None" "readFile (bk_tree one_cluster) (relayPath s) = None"
  by (simp_all add: one_cluster_def stagePath_def relayPath_def)

lemma one_cluster_follows: "relay_follows quiet_git flat_yaml (bk_tree one_cluster)" "\<not> sender flat_yaml (bk_tree one_cluster) s u"
  by (simp_all add: relay_follows_def sender_def sends_def entry_at_def one_cluster_files)

lemma mailer_registers:
  "\<exists>c b'. commitRegistration quiet_git flat_yaml mailer ''r1'' one_cluster = (Inr (Some c, ()), b') \<and> readFile (bk_tree b') (relayPath Prod) = Some (relayValues ''mailer'' Prod ''100.64.0.1'' 587) \<and>
     readFile (bk_tree b') (stagePath Prod ''mailer'') = Some (flat_text (mailer_stage False))"
proof -
  let ?plan = "register_plan quiet_git flat_yaml (rc_unit mailer) mailer_deploy [(buildPath ''mailer'', flat_text mailer_build)] ''r1''"
  let ?ci = "\<lparr>ci_message = ''register(mailer): prod on m1 [r1]'',
    ci_write = [(buildPath ''mailer'', flat_text mailer_build), (stagePath Prod ''mailer'', flat_text (mailer_stage False)), (relayPath Prod, relayValues ''mailer'' Prod ''100.64.0.1'' 587)], ci_remove = []\<rparr>"
  have name: "ui_name (rc_unit mailer) = ''mailer''" "rc_deploy mailer = Some mailer_deploy" "dp_stage mailer_deploy = Prod" "dp_cluster mailer_deploy = ''m1''" "dp_fqdn mailer_deploy = None"
    "dp_smtpEntry mailer_deploy = Some \<lparr>sm_service = ''smtp'', sm_port = 587, sm_dkimKey = None\<rparr>" by (simp_all add: mailer_def mailer_deploy_def)
  have plan: "?plan s = Inr (Some ?ci, ())" if "bk_tree s = bk_tree one_cluster" for s
    using that mailer_relay by (simp add: register_plan_def Let_def name written_eq [OF flat_yaml_reads] standing_fqdn_def one_cluster_files mailer_reads mailer_paths trailer_def)
  obtain c b' where b': "turn quiet_git ?plan one_cluster = (Inr (Some c, ()), b')" "\<And>p. readFile (bk_tree b') p = readFile (apply_commit ?ci (bk_tree one_cluster)) p"
    by (rule turn_succeeds [of quiet_git one_cluster ?plan ?ci "()"]) (simp_all add: plan)
  have "commitRegistration quiet_git flat_yaml mailer ''r1'' one_cluster = turn quiet_git ?plan one_cluster"
    using name by (simp add: commitRegistration_def Let_def bindM_def liftE_def written_eq [OF flat_yaml_reads] mailer_reads mailer_paths)
  moreover have "readFile (bk_tree b') (relayPath Prod) = Some (relayValues ''mailer'' Prod ''100.64.0.1'' 587)"
    "readFile (bk_tree b') (stagePath Prod ''mailer'') = Some (flat_text (mailer_stage False))" by (simp_all add: b'(2) read_commit)
  ultimately show ?thesis using b'(1) by auto
qed


end
