(* ===== verification/Books_Shelf.thy ===== *)
theory Books_Shelf
  imports Books_Relay
begin

text \<open>
  The files of the registrations: each stands at the path of the unit it names, the unit's own file with its builds and a stage file with the whole deploy group; and a
  suspension of a stage decides whether the unit builds.
\<close>

section \<open>Every file stands at its path\<close>

definition shelved :: "yaml_deps \<Rightarrow> string \<Rightarrow> string \<Rightarrow> bool" where
  "shelved Y p c \<longleftrightarrow> (\<exists>u e. read_entry Y c = Inr e \<and> str_of e ''name'' = Some u \<and>
     (p = buildPath u \<and> \<not> has_field e ''cluster'' \<or> (\<exists>s. p = stagePath s u \<and> has_field e ''cluster'')))"

definition shelf_ok :: "yaml_deps \<Rightarrow> tree \<Rightarrow> bool" where
  "shelf_ok Y t \<longleftrightarrow> (\<forall>p c. under ''registrations'' p \<longrightarrow> readFile t p = Some c \<longrightarrow> shelved Y p c)"

lemma registration_dir [simp]: "under ''registrations'' (stagePath s u)" "under ''registrations'' (buildPath u)" "\<not> under ''registrations'' (relayPath s)"
  by (simp_all add: under_def startsWith_def stagePath_def buildPath_def relayPath_def)

lemma shelf_commit:
  assumes "shelf_ok Y t" "\<And>p c. (p, c) \<in> set (ci_write ci) \<Longrightarrow> under ''registrations'' p \<Longrightarrow> shelved Y p c"
  shows "shelf_ok Y (apply_commit ci t)"
  using assms by (auto simp: shelf_ok_def read_commit split: option.splits if_splits dest!: map_of_SomeD)

lemma name_key: "''name'' \<in> set REGISTRATION_KEYS" "(''name'', ZRequired, zstring consumerName_ok) \<in> set registration_shape"
  by (simp_all add: REGISTRATION_KEYS_def registration_shape_def)

lemma written_shelved:
  assumes Y: "yaml_reads Y" and w: "written Y path n = Inr (p, c)" and name: "map_of n ''name'' = Some (JStr u)"
    and path: "path = buildPath u \<and> map_of n ''cluster'' = None \<or> (\<exists>s. path = stagePath s u \<and> map_of n ''cluster'' \<noteq> None)"
  shows "shelved Y p c"
proof -
  obtain e where e: "zod_parse Y n = Inr e" "(p, c) = (path, flat_text e)" "read_entry Y (flat_text e) = Inr e" using written_Inr [OF Y w] by metis
  have "str_of e ''name'' = Some u" using zod_parse_lookup(1) [OF e(1) name_key(2) name] by (auto simp: str_of_def zstring_def split: if_splits)
  moreover have "has_field e ''cluster'' \<longleftrightarrow> map_of n ''cluster'' \<noteq> None"
    using zod_parse_lookup [OF e(1) smtp_key(4)] by (cases "map_of n ''cluster''") (auto simp: has_field_def)
  ultimately show ?thesis using e path by (auto simp: shelved_def)
qed

lemma valid_name: "valid_entry e \<Longrightarrow> str_of e ''name'' = Some u \<Longrightarrow> map_of e ''name'' = Some (JStr u)"
  using valid_entry_field [OF _ name_key(2), of e] by (auto simp: str_of_def zstring_def split: option.splits json.splits)

lemma entry_at_Some: "entry_at Y t p = Inr (Some e) \<longleftrightarrow> (\<exists>c. readFile t p = Some c \<and> read_entry Y c = Inr e)"
  by (auto simp: entry_at_def bindE_Inr split: option.splits)

lemma shelf_stage:
  assumes "shelf_ok Y t" "entry_at Y t (stagePath s name) = Inr (Some e)"
  shows "map_of e ''name'' = Some (JStr name)" "map_of e ''cluster'' \<noteq> None"
proof -
  obtain c where c: "readFile t (stagePath s name) = Some c" "read_entry Y c = Inr e" using assms(2) by (auto simp: entry_at_Some)
  then have "shelved Y (stagePath s name) c" using assms(1) by (simp add: shelf_ok_def)
  then have "str_of e ''name'' = Some name" "has_field e ''cluster''" using c(2) by (auto simp: shelved_def)
  then show "map_of e ''name'' = Some (JStr name)" "map_of e ''cluster'' \<noteq> None" using valid_name [OF entry_at_valid [OF assms(2)]] by (simp_all add: has_field_def)
qed

lemma shelf_build:
  assumes "shelf_ok Y t" "entry_at Y t (buildPath name) = Inr (Some e)"
  shows "map_of e ''name'' = Some (JStr name)" "map_of e ''cluster'' = None"
proof -
  obtain c where c: "readFile t (buildPath name) = Some c" "read_entry Y c = Inr e" using assms(2) by (auto simp: entry_at_Some)
  then have "shelved Y (buildPath name) c" using assms(1) by (simp add: shelf_ok_def)
  then have "str_of e ''name'' = Some name" "\<not> has_field e ''cluster''" using c(2) by (auto simp: shelved_def)
  then show "map_of e ''name'' = Some (JStr name)" "map_of e ''cluster'' = None" using valid_name [OF entry_at_valid [OF assms(2)]] by (simp_all add: has_field_def)
qed

section \<open>Every writer keeps the shelf\<close>

lemma unit_entry_keys: "map_of (unit_entry u) ''name'' = Some (JStr (ui_name u))" "map_of (unit_entry u) ''cluster'' = None"
  by (simp_all add: unit_entry_def map_add_def)

lemma build_shelved:
  assumes "yaml_reads Y" "written Y (buildPath (ui_name u)) (build_entry (unit_entry u) builds) = Inr (p, c)"
  shows "shelved Y p c"
  by (rule written_shelved [OF assms]) (simp_all add: build_entry_def unit_entry_keys)

lemma build_follows_shelved:
  assumes Y: "yaml_reads Y" and ok: "shelf_ok Y t" and f: "build_follows Y t s name v = Inr ws" and w: "(p, c) \<in> set ws"
  shows "shelved Y p c"
proof -
  obtain build r where b: "entry_at Y t (buildPath name) = Inr (Some build)" "written Y (buildPath name) (set_field ''suspended'' (JBool r) build) = Inr (p, c)"
    using f w by (auto simp: build_follows_def bindE_Inr split: option.splits if_splits)
  show ?thesis by (rule written_shelved [OF Y b(2)]) (use shelf_build [OF ok b(1)] in simp_all)
qed

lemma flip_shelf:
  assumes Y: "yaml_reads Y" and ok: "shelf_ok Y (bk_tree b)" and quiet: "quiet_patch patch" and plan: "flip_plan Y s name patch message b = Inr (Some ci, x)"
  shows "shelf_ok Y (apply_commit ci (bk_tree b))"
proof -
  obtain e w ws where e: "entry_at Y (bk_tree b) (stagePath s name) = Inr (Some e)" and w: "written Y (stagePath s name) (spread patch e) = Inr w"
    and ws: "(case map_of patch ''suspended'' of Some (Some (JBool v)) \<Rightarrow> build_follows Y (bk_tree b) s name v | _ \<Rightarrow> Inr []) = Inr ws" and ci: "ci_write ci = w # ws"
    using plan by (auto simp: flip_plan_def Let_def bindE_Inr split: option.splits)
  have kept: "map_of (spread patch e) k = map_of e k" if "k \<in> {''name'', ''cluster''}" for k using quiet that by (intro spread_other) (unfold quiet_patch_def, blast)
  have "shelved Y p c" if "w = (p, c)" for p c
    by (rule written_shelved [OF Y w [unfolded that]]) (use kept shelf_stage [OF ok e] in auto)
  moreover have "shelved Y p c" if "(p, c) \<in> set ws" for p c
    using ws that build_follows_shelved [OF Y ok] by (auto split: option.splits json.splits)
  ultimately show ?thesis using ok ci by (intro shelf_commit) auto
qed

lemma register_shelf:
  assumes Y: "yaml_reads Y" and ok: "shelf_ok Y (bk_tree b)" and build: "written Y (buildPath (ui_name u)) (build_entry (unit_entry u) builds) = Inr w"
    and plan: "register_plan G Y u d [w] runId b = Inr (Some ci, x)"
  shows "shelf_ok Y (apply_commit ci (bk_tree b))"
proof -
  obtain q v rw rr where v: "written Y (stagePath (dp_stage d) (ui_name u)) (stage_entry u d q) = Inr v"
    and r: "relayTarget G Y (bk_tree b) (dp_stage d) (ui_name u) (Some (Some (dp_cluster d), map_option smtp_json (dp_smtpEntry d))) = Inr (rw, rr)" and ci: "ci_write ci = [w, v] @ rw"
    using plan by (auto simp: register_plan_def Let_def bindE_Inr)
  have "map_of (stage_entry u d q) ''name'' = Some (JStr (ui_name u))" by (simp add: stage_entry_lookup deploy_fields_def map_add_def unit_entry_keys)
  then have "shelved Y p c" if "v = (p, c)" for p c
    using written_shelved [OF Y v [unfolded that]] by (simp add: stage_entry_keys)
  moreover have "\<not> under ''registrations'' p" if "(p, c) \<in> set rw" for p c using relayTarget_paths [OF r] that by auto
  moreover have "shelved Y p c" if "w = (p, c)" for p c using build_shelved [OF Y build [unfolded that]] .
  ultimately show ?thesis using ok ci by (intro shelf_commit) auto
qed

lemma move_shelf:
  assumes Y: "yaml_reads Y" and ok: "shelf_ok Y (bk_tree b)" and old: "entry_at Y (bk_tree b) (stagePath s name) = Inr (Some e)"
    and plan: "move_plan G Y s name e cluster runId b = Inr (Some ci, x)"
  shows "shelf_ok Y (apply_commit ci (bk_tree b))"
proof -
  obtain w rw rr where w: "written Y (stagePath s name) (move_entry e cluster) = Inr w"
    and r: "relayTarget G Y (bk_tree b) s name (Some (Some cluster, map_of (move_entry e cluster) ''smtpEntry'')) = Inr (rw, rr)" and ci: "ci_write ci = w # rw"
    using plan by (auto simp: move_plan_def Let_def bindE_Inr)
  have "map_of (move_entry e cluster) ''name'' = Some (JStr name)" "map_of (move_entry e cluster) ''cluster'' \<noteq> None"
    using shelf_stage(1) [OF ok old] by (auto simp: move_entry_def Let_def split: option.split)
  then have "shelved Y p c" if "w = (p, c)" for p c using written_shelved [OF Y w [unfolded that]] by blast
  moreover have "\<not> under ''registrations'' p" if "(p, c) \<in> set rw" for p c using relayTarget_paths [OF r] that by auto
  ultimately show ?thesis using ok ci by (intro shelf_commit) auto
qed

lemma domain_shelf:
  assumes Y: "yaml_reads Y" and ok: "shelf_ok Y (bk_tree b)" and fq: "\<not> list_ex (\<lambda>c. dc_path c \<noteq> [''fqdn'']) changes" and plan: "domain_plan Y s name changes r runId b = Inr (Some ci, x)"
  shows "shelf_ok Y (apply_commit ci (bk_tree b))"
proof -
  obtain e n w where f: "entry_at Y (bk_tree b) (stagePath s name) = Inr (Some e)" "written Y (stagePath s name) n = Inr w" "\<And>k. k \<noteq> ''fqdn'' \<Longrightarrow> map_of n k = map_of e k"
    "ci_write ci = [w]" using domain_commit [OF plan fq] by metis
  have "shelved Y p c" if "w = (p, c)" for p c
    by (rule written_shelved [OF Y f(2) [unfolded that]]) (use f(3) shelf_stage [OF ok f(1)] in auto)
  then show ?thesis using ok f(4) by (intro shelf_commit) auto
qed

lemma create_shelf:
  assumes Y: "yaml_reads Y" and ok: "shelf_ok Y (bk_tree b)" and plan: "create_build_plan Y u builds runId before b = Inr (Some ci, x)"
  shows "shelf_ok Y (apply_commit ci (bk_tree b))"
proof -
  let ?p = "buildPath (ui_name u)"
  obtain e c where g: "guard ?p = Inr ?p" and e: "(case readFile (bk_tree b) ?p of None \<Rightarrow> Inr (unit_entry u) | Some r \<Rightarrow> read_entry Y r) = Inr e"
    and c: "serializePointer Y (build_entry e builds) = Inr c" "ci_write ci = [(?p, c)]"
    using plan guard_path by (fastforce simp: create_build_plan_def Let_def bindE_Inr split: if_splits)
  have keys: "map_of e ''name'' = Some (JStr (ui_name u))" "map_of e ''cluster'' = None"
    using e shelf_build [OF ok, of "ui_name u" e] unit_entry_keys by (auto simp: entry_at_Some split: option.splits)
  have "written Y ?p (build_entry e builds) = Inr (?p, c)" using g c by (simp add: written_def)
  from written_shelved [OF Y this] have "shelved Y ?p c" using keys by (simp add: build_entry_def)
  then show ?thesis using ok c(2) by (intro shelf_commit) auto
qed

interpretation shelf: books_invariant "\<lambda>t. yaml_reads Y \<and> shelf_ok Y t" G Y for G Y
proof (unfold_locales, goal_cases)
  case 1 then show ?case using flip_shelf by blast
next
  case (2 b u builds w d runId ci x)
  from register_shelf [OF _ _ 2(2,4)] 2(1) show ?case by blast
next
  case (3 t u builds w m)
  then show ?case using build_shelved by (intro conjI shelf_commit) auto
next
  case 4 then show ?case using move_shelf by blast
next
  case 5 then show ?case using domain_shelf by blast
next
  case (6 b s name runId ci r)
  then have "ci_write ci = []" by (auto simp: remove_plan_def Let_def bindE_Inr split: if_splits)
  then show ?case using 6 by (intro conjI shelf_commit) auto
next
  case 7 then show ?case using create_shelf by blast
next
  case (8 b name runId owner ci r)
  then have "ci_write ci = []" by (auto simp: remove_build_plan_def bindE_Inr split: if_splits)
  then show ?case using 8 by (intro conjI shelf_commit) auto
qed

lemma refines_kind:
  "registration_refines e \<Longrightarrow> has_field e ''cluster'' \<Longrightarrow> list_all (has_field e) DEPLOY_GROUP \<and> \<not> has_field e ''builds''"
  "registration_refines e \<Longrightarrow> \<not> has_field e ''cluster'' \<Longrightarrow> list_all (\<lambda>k. \<not> has_field e k) DEPLOY_GROUP \<and> has_field e ''builds''"
  unfolding registration_refines_def by simp_all

text \<open>
  C14 Whatever the writers of the registrations do: every file under \<^verbatim>\<open>registrations/\<close> is a valid registration at the path of the unit its name and the last part of its
  repository URL give; \<^verbatim>\<open>build.yaml\<close> carries builds and nothing of the deploy group, a stage file carries the whole deploy group and no builds. So the two files of a unit
  cannot contradict each other in who the unit is.
\<close>

theorem registrations_stay_well_formed:
  assumes "yaml_reads Y" "shelf_ok Y (bk_tree b)" "(books_step G Y)\<^sup>*\<^sup>* b b'" and at_path: "under ''registrations'' p" "readFile (bk_tree b') p = Some c"
  shows "\<exists>u e. read_entry Y c = Inr e \<and> valid_entry e \<and> str_of e ''name'' = Some u \<and> map_option unitNameFromRepoURL (str_of e ''repoURL'') = Some u \<and>
    (p = buildPath u \<and> has_field e ''builds'' \<and> (\<forall>k \<in> set DEPLOY_GROUP. \<not> has_field e k) \<or>
     (\<exists>s. p = stagePath s u \<and> \<not> has_field e ''builds'' \<and> (\<forall>k \<in> set DEPLOY_GROUP. has_field e k)))"
proof -
  have "shelf_ok Y (bk_tree b')" using shelf.steps_keep [OF assms(3)] assms(1,2) by blast
  then have "shelved Y p c" using at_path by (simp add: shelf_ok_def)
  then obtain u e where e: "read_entry Y c = Inr e" "str_of e ''name'' = Some u" "p = buildPath u \<and> \<not> has_field e ''cluster'' \<or> (\<exists>s. p = stagePath s u \<and> has_field e ''cluster'')"
    by (auto simp: shelved_def)
  have v: "valid_entry e" using e(1) zod_parse_valid by (auto simp: read_entry_def bindE_Inr)
  note r = valid_entry_shape(2) [OF v]
  have url: "map_option unitNameFromRepoURL (str_of e ''repoURL'') = Some u" using r e(2) unfolding registration_refines_def by simp
  show ?thesis
  proof (cases "has_field e ''cluster''")
    case True
    then have "\<forall>k \<in> set DEPLOY_GROUP. has_field e k" "\<not> has_field e ''builds''" using refines_kind(1) [OF r] by (simp_all add: list_all_iff)
    moreover obtain s where "p = stagePath s u" using e(3) True by blast
    ultimately show ?thesis using e(1,2) v url by (intro exI [of _ u] exI [of _ e]) simp
  next
    case False
    then have "\<forall>k \<in> set DEPLOY_GROUP. \<not> has_field e k" "has_field e ''builds''" using refines_kind(2) [OF r] by (simp_all add: list_all_iff)
    moreover have "p = buildPath u" using e(3) False by blast
    ultimately show ?thesis using e(1,2) v url by (intro exI [of _ u] exI [of _ e]) simp
  qed
qed

theorem registrations_stay_well_formed_witness:
  "let b = snd (commitRegistration quiet_git flat_yaml mailer ''r1'' one_cluster)
   in readFile (bk_tree b) (stagePath Prod ''mailer'') = Some (flat_text (mailer_stage False)) \<and>
     (\<exists>e. read_entry flat_yaml (flat_text (mailer_stage False)) = Inr e \<and> str_of e ''name'' = Some ''mailer'' \<and> map_option unitNameFromRepoURL (str_of e ''repoURL'') = Some ''mailer'' \<and> \<not> has_field e ''builds'')"
proof -
  let ?b = "snd (commitRegistration quiet_git flat_yaml mailer ''r1'' one_cluster)"
  have one: "(books_step quiet_git flat_yaml)\<^sup>*\<^sup>* one_cluster ?b" by (intro r_into_rtranclp books_step.registers) (simp add: one_cluster_follows)
  have start: "shelf_ok flat_yaml (bk_tree one_cluster)" by (simp add: shelf_ok_def one_cluster_def under_def startsWith_def)
  have here: "readFile (bk_tree ?b) (stagePath Prod ''mailer'') = Some (flat_text (mailer_stage False))" using mailer_registers by auto
  show ?thesis unfolding Let_def using registrations_stay_well_formed [OF flat_yaml_reads start one _ here] here by auto
qed

section \<open>A suspension decides the build\<close>

text \<open>A turn that returned left every file as its commit has it, also where there was nothing to commit.\<close>

lemma turn_landed:
  assumes "turn G plan b = (Inr (Some c, x), b')"
  obtains ci s where "bk_tree s = bk_tree b" "plan s = Inr (Some ci, x)" "\<And>p. readFile (bk_tree b') p = readFile (apply_commit ci (bk_tree b)) p"
proof -
  let ?s = "b\<lparr>bk_calls := Suc (bk_calls b)\<rparr>"
  obtain ci where ci: "plan ?s = Inr (Some ci, x)" "commitPushIn G ci ?s = (Inr c, b')"
    using assms by (auto simp: turn_def withBranch_def Let_def split: option.splits sum.splits prod.splits)
  have "readFile (bk_tree b') p = readFile (apply_commit ci (bk_tree b)) p" for p
    using ci(2) unstaged_same [of ci "bk_tree b"] by (auto simp: commitPushIn_def Let_def split: if_splits push_outcome.splits)
  then show thesis using that [of ?s ci] ci(1) by simp
qed

lemma stagesIn_cong: "(\<And>s. readFile t' (stagePath s name) = readFile t (stagePath s name)) \<Longrightarrow> stagesIn t' name = stagesIn t name"
  by (simp add: stagesIn_def)

definition runs_at :: "yaml_deps \<Rightarrow> tree \<Rightarrow> string \<Rightarrow> stage \<Rightarrow> bool" where
  "runs_at Y t name s \<longleftrightarrow> (\<exists>e. entry_at Y t (stagePath s name) = Inr (Some e) \<and> \<not> bool_of e ''suspended'')"

lemma any_running_iff: "any_running Y t name found ss = Inr r \<Longrightarrow> r \<longleftrightarrow> found \<or> (\<exists>s \<in> set ss. runs_at Y t name s)"
proof (induction ss arbitrary: found)
  case (Cons s ss)
  show ?case
  proof (cases found)
    case False
    then obtain x where x: "entry_at Y t (stagePath s name) = Inr x" "any_running Y t name (case x of Some e \<Rightarrow> \<not> bool_of e ''suspended'' | None \<Rightarrow> False) ss = Inr r"
      using Cons.prems by (auto simp: bindE_Inr)
    show ?thesis using Cons.IH [OF x(2)] x(1) False by (cases x) (auto simp: runs_at_def)
  qed (use Cons.prems in simp)
qed simp

lemma flag_written:
  assumes "zod_parse Y n = Inr e'" "map_of n ''suspended'' = Some (JBool v)"
  shows "bool_of e' ''suspended'' = v"
  using zod_parse_lookup(1) [OF assms(1) smtp_key(6) assms(2)] by (auto simp: bool_of_def zbool_def)

lemma build_follows_writes:
  assumes Y: "yaml_reads Y" and old: "entry_at Y t (buildPath name) = Inr (Some build)" and f: "build_follows Y t s name v = Inr ws"
  obtains running build' where "any_running Y t name (\<not> v) (filter (\<lambda>r. r \<noteq> s) (stagesIn t name)) = Inr running" "bool_of build' ''suspended'' \<longleftrightarrow> \<not> running"
    "ws = [] \<and> build' = build \<or> (\<exists>c. ws = [(buildPath name, c)] \<and> read_entry Y c = Inr build')"
proof -
  obtain running where r: "any_running Y t name (\<not> v) (filter (\<lambda>r. r \<noteq> s) (stagesIn t name)) = Inr running"
    and ws: "(if bool_of build ''suspended'' \<noteq> (\<not> running) then bindE (written Y (buildPath name) (set_field ''suspended'' (JBool (\<not> running)) build)) (\<lambda>w. Inr [w]) else Inr []) = Inr ws"
    using f old by (auto simp: build_follows_def bindE_Inr)
  show thesis
  proof (cases "bool_of build ''suspended'' = (\<not> running)")
    case True
    then show ?thesis using that [OF r, of build] ws by simp
  next
    case False
    then obtain w where w: "written Y (buildPath name) (set_field ''suspended'' (JBool (\<not> running)) build) = Inr w" "ws = [w]" using ws by (auto simp: bindE_Inr)
    obtain e' where e': "zod_parse Y (set_field ''suspended'' (JBool (\<not> running)) build) = Inr e'" "w = (buildPath name, flat_text e')" "read_entry Y (flat_text e') = Inr e'"
      using written_Inr [OF Y w(1)] by metis
    show ?thesis using that [OF r, of e'] flag_written [OF e'(1)] e' w(2) by simp
  qed
qed

text \<open>
  C15 A suspension or a resumption of a stage that returned has written the flag of that stage, and has left the unit's own file suspended exactly when no stage the unit
  stands at is running: pausing one stage does not stop another's releases, and resuming one starts them again.
\<close>

theorem suspension_decides_the_build:
  assumes Y: "yaml_reads Y" and ran: "setSuspended G Y s name v runId b = (Inr (Some c, u), b')" and build: "entry_at Y (bk_tree b) (buildPath name) = Inr (Some build)"
  shows "(runs_at Y (bk_tree b') name s \<longleftrightarrow> \<not> v) \<and>
    (\<exists>build'. entry_at Y (bk_tree b') (buildPath name) = Inr (Some build') \<and> (bool_of build' ''suspended'' \<longleftrightarrow> \<not> (\<exists>r. runs_at Y (bk_tree b') name r)))"
proof -
  let ?t = "bk_tree b"
  obtain ci q where q: "bk_tree q = ?t" and plan: "flip_plan Y s name [(''suspended'', Some (JBool v))] ((if v then ''consumer-suspend'' else ''consumer-resume'') @ ''('' @ name @ '') '' @ trailer runId) q = Inr (Some ci, u)"
    and read: "\<And>p. readFile (bk_tree b') p = readFile (apply_commit ci ?t) p"
    using turn_landed [OF ran [unfolded setSuspended_def flip_def]] by metis
  obtain e e' ws where f: "zod_parse Y (spread [(''suspended'', Some (JBool v))] e) = Inr e'" "ci_write ci = (stagePath s name, flat_text e') # ws" "ci_remove ci = []"
    "fst ` set ws \<subseteq> {buildPath name}" "build_follows Y ?t s name v = Inr ws" "entry_at Y (apply_commit ci ?t) (stagePath s name) = Inr (Some e')"
    by (rule flip_commit [OF Y plan, unfolded q]) (rule that; simp)
  have here: "runs_at Y (bk_tree b') name s \<longleftrightarrow> \<not> v"
    using f(6) flag_written [OF f(1)] entry_at_cong [OF read [of "stagePath s name"]] by (simp add: runs_at_def)
  have other: "runs_at Y (bk_tree b') name r \<longleftrightarrow> runs_at Y ?t name r" if "r \<noteq> s" for r
  proof -
    have "readFile (bk_tree b') (stagePath r name) = readFile ?t (stagePath r name)" unfolding read by (rule read_untouched) (use f that in auto)
    from entry_at_cong [OF this] show ?thesis by (simp add: runs_at_def)
  qed
  obtain running build' where w: "any_running Y ?t name (\<not> v) (filter (\<lambda>r. r \<noteq> s) (stagesIn ?t name)) = Inr running" "bool_of build' ''suspended'' \<longleftrightarrow> \<not> running"
    "ws = [] \<and> build' = build \<or> (\<exists>c. ws = [(buildPath name, c)] \<and> read_entry Y c = Inr build')" using build_follows_writes [OF Y build f(5)] by metis
  have stands: "r \<in> set (stagesIn ?t name)" if "runs_at Y ?t name r" for r
    using that by (cases r) (auto simp: runs_at_def entry_at_def stagesIn_def STAGE_def split: option.splits)
  have "running \<longleftrightarrow> (\<exists>r. runs_at Y (bk_tree b') name r)"
    using any_running_iff [OF w(1)] here other stands by auto metis+
  moreover have "entry_at Y (bk_tree b') (buildPath name) = Inr (Some build')"
  proof -
    have "entry_at Y (apply_commit ci ?t) (buildPath name) = Inr (Some build')"
      using w(3) build by (auto simp: entry_at_def read_commit f map_add_def)
    then show ?thesis using entry_at_cong [OF read [of "buildPath name"]] by simp
  qed
  ultimately show ?thesis using here w(2) by blast
qed

definition mailer_books :: books where
  "mailer_books = one_cluster\<lparr>bk_tree := [(buildPath ''mailer'', flat_text mailer_build), (stagePath Prod ''mailer'', flat_text (mailer_stage False))]\<rparr>"

lemma mailer_valid: "valid_entry mailer_build" "valid_entry (mailer_stage False)"
  using mailer_reads zod_parse_valid by blast+

lemma mailer_suspended:
  "zod_parse flat_yaml (spread [(''suspended'', Some (JBool True))] (mailer_stage False)) = Inr (mailer_stage True)"
  "zod_parse flat_yaml (set_field ''suspended'' (JBool True) mailer_build) = Inr (set_field ''suspended'' (JBool True) mailer_build)"
  by code_simp+

lemma mailer_entries:
  "entry_at flat_yaml (bk_tree mailer_books) (stagePath Prod ''mailer'') = Inr (Some (mailer_stage False))" "entry_at flat_yaml (bk_tree mailer_books) (buildPath ''mailer'') = Inr (Some mailer_build)"
  by (rule entry_at_written [OF flat_yaml_reads]; simp add: mailer_valid mailer_books_def)+

theorem suspension_decides_the_build_witness:
  "let b = snd (setSuspended quiet_git flat_yaml Prod ''mailer'' True ''r1'' mailer_books)
   in (\<not> runs_at flat_yaml (bk_tree b) ''mailer'' Prod) \<and>
     (\<exists>build. entry_at flat_yaml (bk_tree b) (buildPath ''mailer'') = Inr (Some build) \<and> (bool_of build ''suspended'' \<longleftrightarrow> \<not> (\<exists>r. runs_at flat_yaml (bk_tree b) ''mailer'' r)))"
proof -
  let ?message = "(if True then ''consumer-suspend'' else ''consumer-resume'') @ ''('' @ ''mailer'' @ '') '' @ trailer ''r1''"
  let ?plan = "flip_plan flat_yaml Prod ''mailer'' [(''suspended'', Some (JBool True))] ?message"
  let ?ci = "\<lparr>ci_message = ?message, ci_write = [(stagePath Prod ''mailer'', flat_text (mailer_stage True)), (buildPath ''mailer'', flat_text (set_field ''suspended'' (JBool True) mailer_build))], ci_remove = []\<rparr>"
  have stages: "stagesIn (bk_tree mailer_books) ''mailer'' = [Prod]" by (simp add: stagesIn_def STAGE_def mailer_books_def)
  have "bool_of mailer_build ''suspended'' = False" by (simp add: bool_of_def mailer_build_def)
  then have "build_follows flat_yaml (bk_tree mailer_books) Prod ''mailer'' True = Inr [(buildPath ''mailer'', flat_text (set_field ''suspended'' (JBool True) mailer_build))]"
    by (simp add: build_follows_def mailer_entries stages written_eq [OF flat_yaml_reads] mailer_suspended mailer_paths)
  then have plan: "?plan s = Inr (Some ?ci, ())" if "bk_tree s = bk_tree mailer_books" for s
    using that mailer_suspended(1) by (simp add: flip_plan_def Let_def mailer_entries written_eq [OF flat_yaml_reads] mailer_paths del: spread.simps)
  obtain c b' where ran: "setSuspended quiet_git flat_yaml Prod ''mailer'' True ''r1'' mailer_books = (Inr (Some c, ()), b')"
    unfolding setSuspended_def flip_def by (rule turn_succeeds [of quiet_git mailer_books ?plan ?ci "()"]) (simp_all only: plan quiet_git_calls)
  from suspension_decides_the_build [OF flat_yaml_reads ran mailer_entries(2)] show ?thesis by (simp add: ran)
qed

end
