(* ===== verification/Shared_Data.thy ===== *)
theory Shared_Data
  imports Books_Shelf
begin

text \<open>
  What two registrations on one cluster may not share (\<^verbatim>\<open>server/domains/units/shared-data-guard.ts\<close>): a database on its shared MongoDB, keys or channels on its shared Redis.

  The listing of the registrations is a parameter of the guard, as in the source; on the books it is the tolerant scan. How Redis matches a pattern is a parameter with the
  documented laws the guard relies on, \<open>redis_globs\<close>; \<open>redis_glob\<close> is an instance.
\<close>

section \<open>Claims\<close>

record shared_claim =
  sc_services :: "string list"
  sc_databases :: "string list"
  sc_mongodb :: string
  sc_redis :: "string option"
  sc_keyPatterns :: "string list option"
  sc_channelPatterns :: "string list option"

definition servedSharedDatabases :: "shared_claim \<Rightarrow> stage \<Rightarrow> string list" where
  "servedSharedDatabases c s =
     (if ''mongodb'' \<notin> set (sc_services c) \<or> sc_mongodb c \<noteq> ''shared'' then []
      else if s = Prod then sc_databases c else map (\<lambda>d. d @ ''_'' @ show_stage s) (sc_databases c))"

definition onSharedRedis :: "shared_claim \<Rightarrow> bool" where
  "onSharedRedis c \<longleftrightarrow> ''redis'' \<in> set (sc_services c) \<and> (case sc_redis c of Some m \<Rightarrow> m | None \<Rightarrow> ''shared'') = ''shared''"

definition sharedKeyPatterns :: "shared_claim \<Rightarrow> string list" where
  "sharedKeyPatterns c = (if onSharedRedis c then (case sc_keyPatterns c of Some ps \<Rightarrow> ps | None \<Rightarrow> []) else [])"

definition sharedChannelPatterns :: "shared_claim \<Rightarrow> string list" where
  "sharedChannelPatterns c = (if onSharedRedis c then (case sc_channelPatterns c of Some ps \<Rightarrow> ps | None \<Rightarrow> []) else [])"

definition REDIS_SPACES :: "(string \<times> (shared_claim \<Rightarrow> string list) \<times> string) list" where
  "REDIS_SPACES = [(''keys'', sharedKeyPatterns, ''read and write one another's keys''), (''channels'', sharedChannelPatterns, ''receive one another's messages'')]"

definition literalPrefix :: "string \<Rightarrow> string" where
  "literalPrefix pattern = takeWhile (\<lambda>c. c \<notin> {CHR ''*'', CHR ''?'', CHR ''[''}) pattern"

definition patternsOverlap :: "string \<Rightarrow> string \<Rightarrow> bool" where
  "patternsOverlap a b \<longleftrightarrow> (let pa = literalPrefix a; pb = literalPrefix b in startsWith pa pb \<or> startsWith pb pa)"

section \<open>The guard\<close>

text \<open>The facts the guard reads of a stage registration.\<close>

definition strings_at :: "entry \<Rightarrow> string \<Rightarrow> string list option" where
  "strings_at e k = (case map_of e k of Some (JArr xs) \<Rightarrow> Some (map (\<lambda>x. case x of JStr s \<Rightarrow> s | _ \<Rightarrow> []) xs) | _ \<Rightarrow> None)"

definition claim_of :: "entry \<Rightarrow> shared_claim" where
  "claim_of e = \<lparr>sc_services = (case strings_at e ''services'' of Some xs \<Rightarrow> xs | None \<Rightarrow> []), sc_databases = (case strings_at e ''databases'' of Some xs \<Rightarrow> xs | None \<Rightarrow> []),
     sc_mongodb = (case str_of e ''mongodb'' of Some m \<Rightarrow> m | None \<Rightarrow> []), sc_redis = str_of e ''redis'', sc_keyPatterns = strings_at e ''keyPatterns'', sc_channelPatterns = strings_at e ''channelPatterns''\<rparr>"

type_synonym cluster_registrations = "string \<Rightarrow> stage \<Rightarrow> thrown + (string \<times> entry) list \<times> (string \<times> stage \<times> string) list"

text \<open>A string found by \<^verbatim>\<open>find\<close> counts where it is truthy: the empty string does not.\<close>

definition truthy :: "string option \<Rightarrow> string option" where
  "truthy x = (case x of Some s \<Rightarrow> if s = [] then None else Some s | None \<Rightarrow> None)"

definition meeting_patterns :: "shared_claim \<Rightarrow> shared_claim \<Rightarrow> (string \<times> string \<times> string \<times> string) option" where
  "meeting_patterns claim other = List.find (\<lambda>_. True) (concat (map (\<lambda>(word, granted, harm).
     concat (map (\<lambda>p. case truthy (List.find (patternsOverlap p) (granted claim)) of Some q \<Rightarrow> [(word, q, p, harm)] | None \<Rightarrow> []) (granted other))) REDIS_SPACES))"

definition shared_with :: "string \<Rightarrow> stage \<Rightarrow> string \<Rightarrow> shared_claim \<Rightarrow> stage \<Rightarrow> string \<times> entry \<Rightarrow> string option" where
  "shared_with cluster s name claim other r =
     (if fst r = name \<and> other = s then None
      else let there = claim_of (snd r)
           in case truthy (List.find (\<lambda>d. d \<in> set (servedSharedDatabases claim s)) (servedSharedDatabases there other)) of
                Some d \<Rightarrow> Some (name @ '' at '' @ show_stage s @ '' would be served the database '' @ d @ '' on '' @ cluster @ CHR 0x27 # ''s shared MongoDB, which '' @ fst r @ '' at '' @ show_stage other @
                  '' is served already'' @ dash @ ''the two would read and write one another's data'')
              | None \<Rightarrow> (case meeting_patterns claim there of
                  Some (word, q, p, harm) \<Rightarrow> Some (name @ '' at '' @ show_stage s @ '' would be granted the Redis '' @ word @ '' '' @ q @ '' on '' @ cluster @ CHR 0x27 # ''s shared Redis, which meet the '' @ word @ '' '' @
                    p @ '' of '' @ fst r @ '' at '' @ show_stage other @ dash @ ''the two would '' @ harm)
                | None \<Rightarrow> None))"

fun first_refusal :: "('a \<Rightarrow> string option) \<Rightarrow> 'a list \<Rightarrow> string option" where
  "first_refusal f [] = None"
| "first_refusal f (x # xs) = (case f x of Some r \<Rightarrow> Some r | None \<Rightarrow> first_refusal f xs)"

fun refusal_at :: "cluster_registrations \<Rightarrow> string \<Rightarrow> stage \<Rightarrow> string \<Rightarrow> shared_claim \<Rightarrow> stage list \<Rightarrow> thrown + string option" where
  "refusal_at L cluster s name claim [] = Inr None"
| "refusal_at L cluster s name claim (other # rest) =
     bindE (L cluster other) (\<lambda>(standing, skipped).
       case skipped of
         (_, _, reason) # _ \<Rightarrow> Inr (Some (name @ '' at '' @ show_stage s @ '' cannot be checked against the data of the registrations on '' @ cluster @ '': '' @ reason @ dash @
           ''repair that file, because an unread registration may be the one '' @ name @ '' would share data with''))
       | [] \<Rightarrow> (case first_refusal (shared_with cluster s name claim other) standing of
           Some r \<Rightarrow> Inr (Some r)
         | None \<Rightarrow> refusal_at L cluster s name claim rest))"

definition sharedDataRefusal :: "cluster_registrations \<Rightarrow> string \<Rightarrow> stage \<Rightarrow> string \<Rightarrow> shared_claim \<Rightarrow> thrown + string option" where
  "sharedDataRefusal L cluster s name claim =
     (if servedSharedDatabases claim s = [] \<and> list_all (\<lambda>(_, granted, _). granted claim = []) REDIS_SPACES then Inr None
      else refusal_at L cluster s name claim STAGE)"

section \<open>How Redis matches\<close>

text \<open>
  What the guard relies on of Redis: the empty pattern matches the empty key, a character that is no glob character and no backslash matches itself, and a backslash makes
  the next character match itself.
\<close>

definition redis_globs :: "(string \<Rightarrow> string \<Rightarrow> bool) \<Rightarrow> bool" where
  "redis_globs M \<longleftrightarrow> (\<forall>k. M [] k \<longleftrightarrow> k = []) \<and>
     (\<forall>c p k. c \<notin> {CHR ''*'', CHR ''?'', CHR ''['', CHR 0x5C} \<longrightarrow> (M (c # p) k \<longleftrightarrow> (\<exists>k'. k = c # k' \<and> M p k'))) \<and>
     (\<forall>c p k. M (CHR 0x5C # c # p) k \<longleftrightarrow> (\<exists>k'. k = c # k' \<and> M p k'))"

fun class_matches :: "string \<Rightarrow> char \<Rightarrow> bool" where
  "class_matches (a # m # b # cs) c \<longleftrightarrow> (if m = CHR ''-'' then (a \<le> c \<and> c \<le> b) \<or> (b \<le> c \<and> c \<le> a) \<or> class_matches cs c else a = c \<or> class_matches (m # b # cs) c)"
| "class_matches cs c \<longleftrightarrow> c \<in> set cs"

fun redis_glob :: "string \<Rightarrow> string \<Rightarrow> bool" where
  "redis_glob [] k \<longleftrightarrow> k = []"
| "redis_glob (c # p) [] \<longleftrightarrow> c = CHR ''*'' \<and> redis_glob p []"
| "redis_glob (c # p) (d # k) \<longleftrightarrow>
     (if c = CHR ''*'' then redis_glob p (d # k) \<or> redis_glob (c # p) k
      else if c = CHR ''?'' then redis_glob p k
      else if c = CHR ''[''
      then (let cls = takeWhile (\<lambda>x. x \<noteq> CHR '']'') p
            in (if cls \<noteq> [] \<and> hd cls = CHR ''^'' then \<not> class_matches (tl cls) d else class_matches cls d) \<and> redis_glob (drop (Suc (length cls)) p) k)
      else if c = CHR 0x5C \<and> p \<noteq> [] then hd p = d \<and> redis_glob (tl p) k
      else c = d \<and> redis_glob p k)"

lemma redis_glob_globs: "redis_globs redis_glob"
proof -
  have "redis_glob (c # p) k \<longleftrightarrow> (\<exists>k'. k = c # k' \<and> redis_glob p k')" if "c \<notin> {CHR ''*'', CHR ''?'', CHR ''['', CHR 0x5C}" for c p k
    using that by (cases k) auto
  moreover have "redis_glob (CHR 0x5C # c # p) k \<longleftrightarrow> (\<exists>k'. k = c # k' \<and> redis_glob p k')" for c p k by (cases k) auto
  ultimately show ?thesis by (simp add: redis_globs_def)
qed

lemma prefix_matches:
  assumes "redis_globs M" "CHR 0x5C \<notin> set p" "M p k"
  shows "prefix (literalPrefix p) k"
  using assms(2,3)
proof (induction p arbitrary: k)
  case (Cons c p)
  show ?case
  proof (cases "c \<in> {CHR ''*'', CHR ''?'', CHR ''[''}")
    case False
    then obtain k' where "k = c # k'" "M p k'" using Cons.prems assms(1) unfolding redis_globs_def by force
    then show ?thesis using Cons False by (auto simp: literalPrefix_def)
  qed (auto simp: literalPrefix_def)
qed (simp add: literalPrefix_def)

text \<open>Two patterns without a backslash that match a common key are taken to meet.\<close>

lemma meeting_patterns_overlap:
  assumes "redis_globs M" "CHR 0x5C \<notin> set p" "CHR 0x5C \<notin> set q" "M p k" "M q k"
  shows "patternsOverlap p q"
  using prefix_same_cases [OF prefix_matches [OF assms(1,2,4)] prefix_matches [OF assms(1,3,5)]]
  by (auto simp: patternsOverlap_def Let_def startsWith_def prefix_def)

section \<open>What the guard lets pass shares nothing\<close>

definition shares_nothing :: "(string \<Rightarrow> string \<Rightarrow> bool) \<Rightarrow> shared_claim \<Rightarrow> stage \<Rightarrow> shared_claim \<Rightarrow> stage \<Rightarrow> bool" where
  "shares_nothing M a s b r \<longleftrightarrow> set (servedSharedDatabases a s) \<inter> set (servedSharedDatabases b r) = {} \<and>
     (\<forall>p \<in> set (sharedKeyPatterns a). \<forall>q \<in> set (sharedKeyPatterns b). \<not> (\<exists>k. M p k \<and> M q k)) \<and>
     (\<forall>p \<in> set (sharedChannelPatterns a). \<forall>q \<in> set (sharedChannelPatterns b). \<not> (\<exists>k. M p k \<and> M q k))"

definition plain_claim :: "shared_claim \<Rightarrow> bool" where
  "plain_claim c \<longleftrightarrow> [] \<notin> set (sc_databases c) \<and> (\<forall>p \<in> set (sharedKeyPatterns c @ sharedChannelPatterns c). p \<noteq> [] \<and> CHR 0x5C \<notin> set p)"

lemma overlap_sym: "patternsOverlap p q \<longleftrightarrow> patternsOverlap q p"
  by (auto simp: patternsOverlap_def Let_def)

lemma first_refusal_None: "first_refusal f xs = None \<longleftrightarrow> (\<forall>x \<in> set xs. f x = None)"
  by (induction xs) (auto split: option.split)

lemma find_any: "List.find (\<lambda>_. True) xs = None \<longleftrightarrow> xs = []"
  by (cases xs) auto

lemma truthy_find: "[] \<notin> set xs \<Longrightarrow> truthy (List.find P xs) = None \<longleftrightarrow> (\<forall>x \<in> set xs. \<not> P x)"
  by (induction xs) (auto simp: truthy_def)

lemma no_meeting_patterns:
  assumes "plain_claim a"
  shows "meeting_patterns a b = None \<longleftrightarrow>
    (\<forall>p \<in> set (sharedKeyPatterns b). \<forall>q \<in> set (sharedKeyPatterns a). \<not> patternsOverlap p q) \<and> (\<forall>p \<in> set (sharedChannelPatterns b). \<forall>q \<in> set (sharedChannelPatterns a). \<not> patternsOverlap p q)"
proof -
  have meets: "concat (map (\<lambda>p. case truthy (List.find (patternsOverlap p) qs) of Some q \<Rightarrow> [f q p] | None \<Rightarrow> []) ps) = [] \<longleftrightarrow> (\<forall>p \<in> set ps. \<forall>q \<in> set qs. \<not> patternsOverlap p q)"
    if "[] \<notin> set qs" for ps qs and f :: "string \<Rightarrow> string \<Rightarrow> string \<times> string \<times> string \<times> string"
    using truthy_find [OF that] by (auto split: option.splits)
  have "[] \<notin> set (sharedKeyPatterns a)" "[] \<notin> set (sharedChannelPatterns a)" using assms by (auto simp: plain_claim_def)
  then show ?thesis unfolding meeting_patterns_def find_any REDIS_SPACES_def using meets by simp
qed

lemma unshared:
  assumes "shared_with cluster s name claim other (u, e) = None" "(u, other) \<noteq> (name, s)" "redis_globs M" "plain_claim claim" "plain_claim (claim_of e)"
  shows "shares_nothing M claim s (claim_of e) other"
proof -
  have d: "truthy (List.find (\<lambda>d. d \<in> set (servedSharedDatabases claim s)) (servedSharedDatabases (claim_of e) other)) = None" and m: "meeting_patterns claim (claim_of e) = None"
    using assms(1,2) by (auto simp: shared_with_def Let_def split: option.splits if_splits)
  have named: "[] \<notin> set (servedSharedDatabases (claim_of e) other)" using assms(5) by (auto simp: plain_claim_def servedSharedDatabases_def)
  have apart: "\<not> (M p k \<and> M q k)" if "\<not> patternsOverlap q p" "CHR 0x5C \<notin> set p" "CHR 0x5C \<notin> set q" for p q k
    using meeting_patterns_overlap [OF assms(3) that(2,3)] that(1) overlap_sym by blast
  have "set (servedSharedDatabases claim s) \<inter> set (servedSharedDatabases (claim_of e) other) = {}" using d truthy_find [OF named] by auto
  moreover have "\<not> (\<exists>k. M p k \<and> M q k)" if "p \<in> set (sharedKeyPatterns claim)" "q \<in> set (sharedKeyPatterns (claim_of e))" for p q
    using that m assms(4,5) apart [of q p] by (auto simp: no_meeting_patterns [OF assms(4)] plain_claim_def)
  moreover have "\<not> (\<exists>k. M p k \<and> M q k)" if "p \<in> set (sharedChannelPatterns claim)" "q \<in> set (sharedChannelPatterns (claim_of e))" for p q
    using that m assms(4,5) apart [of q p] by (auto simp: no_meeting_patterns [OF assms(4)] plain_claim_def)
  ultimately show ?thesis by (simp add: shares_nothing_def)
qed

lemma refusal_at_Cons:
  "refusal_at L cluster s name claim (other # rest) = Inr None \<longleftrightarrow>
     (\<exists>standing. L cluster other = Inr (standing, []) \<and> (\<forall>r \<in> set standing. shared_with cluster s name claim other r = None) \<and> refusal_at L cluster s name claim rest = Inr None)"
proof (cases "L cluster other")
  case (Inr x)
  obtain standing skipped where "x = (standing, skipped)" by (cases x)
  then show ?thesis using Inr by (cases skipped) (auto simp: first_refusal_None [symmetric] split: option.split)
qed simp

lemma refusal_at_None:
  "refusal_at L cluster s name claim stages = Inr None \<Longrightarrow> other \<in> set stages \<Longrightarrow> \<exists>standing. L cluster other = Inr (standing, []) \<and> (\<forall>r \<in> set standing. shared_with cluster s name claim other r = None)"
  by (induction stages) (auto simp: refusal_at_Cons simp del: refusal_at.simps(2))

lemma unit_listed:
  assumes "shelf_ok Y t" "entry_at Y t (stagePath r u) = Inr (Some e)"
  shows "u \<in> set (unit_names t)"
proof -
  obtain c where c: "readFile t (stagePath r u) = Some c" using assms(2) by (auto simp: entry_at_Some)
  have "consumerName_ok u"
    using valid_entry_field [OF entry_at_valid [OF assms(2)] name_key(2)] shelf_stage(1) [OF assms] by (auto simp: zstring_def split: if_splits)
  then have "CHR ''/'' \<notin> set u" by (auto simp: consumerName_ok_def dns_label_def list_all_iff label_char_def is_digit_def less_eq_char_def)
  then have "takeWhile (\<lambda>c. c \<noteq> CHR ''/'') (drop (length ''registrations'' + 1) (stagePath r u)) = u" by (auto simp: stagePath_def takeWhile_append)
  moreover have "(stagePath r u, c) \<in> set t" using c by (rule map_of_SomeD)
  moreover have "under ''registrations'' (stagePath r u)" by simp
  ultimately show ?thesis unfolding unit_names_def listDir_def set_remdups set_map set_filter by (intro image_eqI [of _ _ "(stagePath r u, c)"]) (simp_all only: prod.case mem_Collect_eq simp_thms)
qed

lemma scan_one_stands:
  assumes ok: "shelf_ok Y t" and e: "entry_at Y t (stagePath r u) = Inr (Some e)" and c: "str_of e ''cluster'' = Some cluster"
  shows "scan_one Y cluster r t u = ([(u, e)], [])"
proof -
  obtain raw kvs where raw: "readFile t (stagePath r u) = Some raw" "parseRegistration Y raw = Inr kvs" "zod_parse Y kvs = Inr e"
    using e by (auto simp: entry_at_Some read_entry_def bindE_Inr)
  have name: "str_of e ''name'' = Some u" using shelf_stage(1) [OF ok e] by (simp add: str_of_def)
  have "list_all (has_field e) DEPLOY_GROUP" using refines_kind(1) [OF valid_entry_shape(2) [OF entry_at_valid [OF e]]] shelf_stage(2) [OF ok e] by (simp add: has_field_def)
  then show ?thesis by (simp add: scan_one_def Let_def raw name c)
qed

lemma scanned:
  assumes "shelf_ok Y t" "entry_at Y t (stagePath r u) = Inr (Some e)" "str_of e ''cluster'' = Some cluster"
  shows "(u, e) \<in> set (fst (scan_consumers Y cluster r t))"
  using unit_listed [OF assms(1,2)] scan_one_stands [OF assms] unfolding scan_consumers_def Let_def by force

text \<open>
  C17 A claim the guard lets pass shares nothing with any registration that stands on the cluster, at any stage: no database of the shared MongoDB is served to both, and no key and no
  channel of the shared Redis is matched by a pattern of each. The registration it replaces is the one exception. Patterns with a backslash and empty
  names are left out: they escape the guard.
\<close>

theorem data_guard_keeps_apart:
  assumes "sharedDataRefusal (\<lambda>cl st. Inr (scan_consumers Y cl st t)) cluster s name claim = Inr None" and "shelf_ok Y t" "entry_at Y t (stagePath other u) = Inr (Some e)"
    "str_of e ''cluster'' = Some cluster" "(u, other) \<noteq> (name, s)" and "redis_globs M" "plain_claim claim" "plain_claim (claim_of e)"
  shows "shares_nothing M claim s (claim_of e) other"
proof (cases "servedSharedDatabases claim s = [] \<and> list_all (\<lambda>(_, granted, _). granted claim = []) REDIS_SPACES")
  case True
  then show ?thesis by (simp add: shares_nothing_def REDIS_SPACES_def)
next
  case False
  have "refusal_at (\<lambda>cl st. Inr (scan_consumers Y cl st t)) cluster s name claim STAGE = Inr None" using assms(1) unfolding sharedDataRefusal_def if_not_P [OF False] by simp
  moreover have "other \<in> set STAGE" by (cases other) (simp_all add: STAGE_def)
  ultimately obtain standing where "scan_consumers Y cluster other t = (standing, [])" "\<forall>r \<in> set standing. shared_with cluster s name claim other r = None"
    using refusal_at_None by fastforce
  then have "shared_with cluster s name claim other (u, e) = None" using scanned [OF assms(2-4)] by auto
  then show ?thesis using unshared assms(5-8) by blast
qed

definition keyed_stage :: entry where
  "keyed_stage = set_field ''services'' (JArr [JStr ''redis'']) (set_field ''keyPatterns'' (JArr [JStr ''mailer:*'']) (mailer_stage False))"

definition blog_claim :: shared_claim where
  "blog_claim = \<lparr>sc_services = [''redis''], sc_databases = [], sc_mongodb = ''shared'', sc_redis = None, sc_keyPatterns = Some [''blog:*''], sc_channelPatterns = None\<rparr>"

theorem data_guard_keeps_apart_witness:
  "let t = [(stagePath Prod ''mailer'', flat_text keyed_stage)]
   in sharedDataRefusal (\<lambda>cl st. Inr (scan_consumers flat_yaml cl st t)) ''m1'' Test ''blog'' blog_claim = Inr None \<and> shares_nothing redis_glob blog_claim Test (claim_of keyed_stage) Prod \<and>
     sharedKeyPatterns (claim_of keyed_stage) = [''mailer:*'']"
proof -
  let ?t = "[(stagePath Prod ''mailer'', flat_text keyed_stage)]"
  have v: "valid_entry keyed_stage" unfolding valid_entry_def by code_simp
  have keys: "str_of keyed_stage ''name'' = Some ''mailer''" "str_of keyed_stage ''cluster'' = Some ''m1''" "has_field keyed_stage ''cluster''" by code_simp+
  have read: "entry_at flat_yaml ?t (stagePath Prod ''mailer'') = Inr (Some keyed_stage)" by (rule entry_at_written [OF flat_yaml_reads v]) simp
  have ok: "shelf_ok flat_yaml ?t" using keys read_back [OF flat_yaml_reads v] by (auto simp: shelf_ok_def shelved_def split: if_splits)
  have names: "unit_names ?t = [''mailer'']" by code_simp
  have scan: "scan_consumers flat_yaml ''m1'' st ?t = (if st = Prod then [(''mailer'', keyed_stage)] else [], [])" for st
  proof (cases "st = Prod")
    case True
    then show ?thesis using scan_one_stands [OF ok read keys(2)] by (simp add: scan_consumers_def names)
  qed (simp add: scan_consumers_def names scan_one_def Let_def)
  have claim: "claim_of keyed_stage = \<lparr>sc_services = [''redis''], sc_databases = [], sc_mongodb = ''shared'', sc_redis = None, sc_keyPatterns = Some [''mailer:*''], sc_channelPatterns = Some []\<rparr>" by code_simp
  have pass: "shared_with ''m1'' Test ''blog'' blog_claim Prod (''mailer'', keyed_stage) = None" by code_simp
  have guard: "sharedDataRefusal (\<lambda>cl st. Inr (scan_consumers flat_yaml cl st ?t)) ''m1'' Test ''blog'' blog_claim = Inr None"
    using pass by (simp add: sharedDataRefusal_def STAGE_def scan)
  have plain: "plain_claim blog_claim" "plain_claim (claim_of keyed_stage)" by code_simp+
  show ?thesis
    using data_guard_keeps_apart [OF guard ok read keys(2) _ redis_glob_globs plain] guard by (simp add: Let_def claim sharedKeyPatterns_def onSharedRedis_def)
qed

text \<open>An escaped character: the two patterns match the same keys, their literal prefixes part, and the guard lets the second claim pass.\<close>

definition redis_claim :: "string list \<Rightarrow> shared_claim" where
  "redis_claim ps = \<lparr>sc_services = [''redis''], sc_databases = [], sc_mongodb = ''shared'', sc_redis = Some ''shared'', sc_keyPatterns = Some ps, sc_channelPatterns = None\<rparr>"

lemma escaped_pattern_slips_through:
  "meeting_patterns (redis_claim [''shop'' @ CHR 0x5C # '':*'']) (redis_claim [''shop:*'']) = None \<and> redis_glob (''shop'' @ CHR 0x5C # '':*'') ''shop:1'' \<and> redis_glob ''shop:*'' ''shop:1''"
  by code_simp


end
