(* ===== verification/Spec2Isabelle.thy ===== *)
theory Spec2Isabelle
  imports Recovery_Properties Ssh_Context Registry_Reap Access Sync_Order Unit_Quota Read_Model Onboarding Shared_Data
begin

text \<open>
  HostYour Manager, verified.

  The Manager is a control plane: an operator plans a run, approves it, and the Manager walks its steps over SSH against the servers, with locks
  that keep two runs off one machine, a log that must not carry a secret, and a recovery for whatever a crash, a failure or a cancel left
  behind. Around that executor stand the credential store, the sign-in, the registry reaper and the rules the deployments obey. This development
  models that core from the TypeScript under \<^verbatim>\<open>src/\<close> and proves what makes it correct.

  \<^bold>\<open>How code is modelled.\<close> A class with state is a record and its methods are functions that pass it on. A throw is a value
  (\<^verbatim>\<open>Manager_Prelude\<close>: \<open>thrown\<close>, with the error codes of \<^verbatim>\<open>server/kernel/errors.ts\<close>); a computation that changes state and may throw is an \<open>act\<close>
  (\<^verbatim>\<open>Effects\<close>), which keeps the effects made before the throw. JavaScript runs one segment between two awaits at a time: an operation that awaits is
  split there, and the second half is a pending continuation that any other event may precede. What is not under \<^verbatim>\<open>src/\<close> (the cipher, the hash,
  the SSH client, Vault, the identity provider, the registry, the parsers of URLs and YAML) is a parameter of the definitions, and what the
  code relies on is a named hypothesis of the theorem that needs it.

  \<^bold>\<open>The executor\<close> (\<^verbatim>\<open>server/executor\<close>).
  \<^item> \<^verbatim>\<open>Run_Types\<close>: statuses, transition tables, plans, targets, probes, canonical plan text (\<^verbatim>\<open>transitions.ts\<close>, \<^verbatim>\<open>types.ts\<close>, \<^verbatim>\<open>run-targets.ts\<close>,
    \<^verbatim>\<open>transport.ts\<close>, \<^verbatim>\<open>probe.ts\<close>, \<^verbatim>\<open>plan-hash.ts\<close>). The locale \<open>transition_table\<close> is interpreted by both tables.
  \<^item> \<^verbatim>\<open>Redaction\<close>: the registry of secrets, \<^verbatim>\<open>redact\<close> and the run secrets (\<^verbatim>\<open>security/redact.ts\<close>, \<^verbatim>\<open>secrets.ts\<close>). Locale \<open>masker\<close>: no replacement
    brings back what an earlier one took out.
  \<^item> \<^verbatim>\<open>Run_Store\<close>: the tables with their unique indexes, audit and event writes (\<^verbatim>\<open>db/schema/runs.ts\<close>, \<^verbatim>\<open>db/audit-writer.ts\<close>, \<^verbatim>\<open>step-status.ts\<close>,
    \<^verbatim>\<open>run-meta.ts\<close>) and the state \<open>exec\<close> of the process around them.
  \<^item> \<^verbatim>\<open>Locks\<close> (\<^verbatim>\<open>locks.ts\<close>): acquisition is all or nothing and exclusive; locale \<open>lock_manager\<close> is the contract its clients use.
  \<^item> \<^verbatim>\<open>Queue\<close> (\<^verbatim>\<open>queue.ts\<close>): an abstract specification of the waiting line, and that a dispatch refines it and leaves nothing startable behind.
  \<^item> \<^verbatim>\<open>Cleanup\<close>, \<^verbatim>\<open>Run_Context\<close>, \<^verbatim>\<open>Run_Loop\<close>, \<^verbatim>\<open>Dispatch\<close>, \<^verbatim>\<open>Operations\<close>, \<^verbatim>\<open>Streaming_Plan\<close>: run definitions and boot guards (\<^verbatim>\<open>guards.ts\<close>, \<^verbatim>\<open>recover.ts\<close>,
    \<^verbatim>\<open>cleanup.ts\<close>), the context of a step (\<^verbatim>\<open>context.ts\<close>), the loop over the steps (\<^verbatim>\<open>executor.ts execute\<close>), starting queued runs
    (\<^verbatim>\<open>queue-dispatch.ts\<close>), the operations of the API (\<^verbatim>\<open>executor.ts\<close>, \<^verbatim>\<open>approve.ts\<close>, \<^verbatim>\<open>step-recovery.ts\<close>) and the plan that streams
    (\<^verbatim>\<open>streaming-plan.ts\<close>).
  \<^item> \<^verbatim>\<open>Loop_Invariants\<close>, \<^verbatim>\<open>Exec_Invariant\<close>, \<^verbatim>\<open>Op_Invariants\<close>, \<^verbatim>\<open>Plan_Invariants\<close>: the invariant of the tables and that every operation keeps it. The
    locales \<open>log_invariant\<close>, \<open>run_loop_invariant\<close> and \<open>dispatch_invariant\<close> are the laws a property has to obey to survive a segment of the loop.
  \<^item> \<^verbatim>\<open>System\<close>: every call, awaited answer, step, crash and boot as an event; \<open>reachable\<close> is every interleaving, and the invariant holds there.
  \<^item> \<^verbatim>\<open>Run_Properties\<close>, \<^verbatim>\<open>Recovery_Properties\<close>: what a walk, a failure, a cancel, a shutdown, a retry, a skip and an abort do, branch by branch, and that no
    line of the log carries a secret.
  \<^item> \<^verbatim>\<open>Ssh_Context\<close> (\<^verbatim>\<open>context.ts getSsh\<close>, \<^verbatim>\<open>openPasswordSession\<close>, \<^verbatim>\<open>attest.ts\<close>): sessions reach only declared hosts under their recorded key.
  \<^item> \<^verbatim>\<open>Read_Model\<close> (\<^verbatim>\<open>read.ts\<close>, \<^verbatim>\<open>bus.ts\<close>): the run list, the run detail and the live bus.

  \<^bold>\<open>Around the executor.\<close>
  \<^item> \<^verbatim>\<open>Credential_Store\<close> (\<^verbatim>\<open>security/store.ts\<close>): seal and open, rotation, revocation, purge; base64 is computed.
  \<^item> \<^verbatim>\<open>Access\<close> (\<^verbatim>\<open>domains/access\<close>, \<^verbatim>\<open>http/middleware\<close>): sessions with their idle and absolute end, revocation, break glass, the gate of a request.
  \<^item> \<^verbatim>\<open>Release_Tags\<close>, \<^verbatim>\<open>Registry_Reap\<close> (\<^verbatim>\<open>shared/release.ts\<close>, \<^verbatim>\<open>shared/registry-retention.ts\<close>, \<^verbatim>\<open>shared/pin.ts\<close>, \<^verbatim>\<open>domains/registry-cleanup\<close>): the release
    grammar, which tags retention prunes, and that a reap never deletes what a pin resolves to.
  \<^item> \<^verbatim>\<open>Sync_Order\<close> (\<^verbatim>\<open>shared/secret-sync-order.ts\<close>): the check is equivalent to the order it stands for.
  \<^item> \<^verbatim>\<open>Json_Text\<close>, \<^verbatim>\<open>Gate_Report\<close>, \<^verbatim>\<open>Gate_Run\<close>, \<^verbatim>\<open>Gate_Receipt\<close> (\<^verbatim>\<open>shared/gates.ts\<close>, \<^verbatim>\<open>gate-runner/src\<close>, \<^verbatim>\<open>server/adapters/gate-runner\<close>): a repository is validated in a sandbox
    that first proves its own fence. The canonical text of a report identifies its content, a passing report proves the fence, the Manager accepts exactly what
    the runner wrote inside a fence that held, and no credential Secret is left without the run that names it. The runner and the Manager are
    two programs: the second theorem is about their composition, over the JSON that crosses.
  \<^item> \<^verbatim>\<open>JS_Number\<close>, \<^verbatim>\<open>Unit_Quota\<close> (\<^verbatim>\<open>plugins/unit/shared/quantity.ts\<close>, \<^verbatim>\<open>unit-size.ts\<close>): doubles, Kubernetes quantities and the quota of a unit; locale
    \<open>quantity_kind\<close>, interpreted for processors and memory.
  \<^item> \<^verbatim>\<open>Unit_Host\<close> (\<^verbatim>\<open>plugins/unit/shared/unit-host.ts\<close>): the hosts of units and tenants; stage host and prod host are inverse.
  \<^item> \<^verbatim>\<open>Onboard_Gates\<close>, \<^verbatim>\<open>Onboarding\<close> (\<^verbatim>\<open>server/domains/units/gates\<close>, \<^verbatim>\<open>validate.ts\<close>, \<^verbatim>\<open>builds.ts\<close>, \<^verbatim>\<open>plugins/unit/server/unit-host-gate.ts\<close>): the gates of the Manager and the
    validation that clones, submits, polls, judges and disposes. A unit that is admitted has a free name, a free label and builds of its own that its chart pins, and the
    identities derived from two admitted names never meet. The list of ticks a poll sees may run out: the validation then still polls and admits nothing;
    once the clock shows the deadline it has ended.
  \<^item> \<^verbatim>\<open>Json_Read\<close>, \<^verbatim>\<open>Zod_Schema\<close>, \<^verbatim>\<open>Registration\<close> (\<^verbatim>\<open>shared/consumer.ts\<close>, \<^verbatim>\<open>plugins/unit/server/registration-laws.ts\<close>): the schema of a registration over combinators that
    read their own result as it is, and the laws of its file: what is written reads back. \<^verbatim>\<open>Json_Read\<close> is an instance of the YAML parser on that dialect.
  \<^item> \<^verbatim>\<open>Cluster_Marking\<close> (\<^verbatim>\<open>server/domains/inventory/cluster-marking.ts\<close>): the maps of the clusters and their resolution by FQDN or name.
  \<^item> \<^verbatim>\<open>Registrations\<close>, \<^verbatim>\<open>Books\<close>, \<^verbatim>\<open>Books_Relay\<close>, \<^verbatim>\<open>Books_Shelf\<close> (\<^verbatim>\<open>plugins/unit/server/registrations.ts\<close>, the turns of \<^verbatim>\<open>server/adapters/git\<close>, \<^verbatim>\<open>shared/domain-move.ts\<close>): every reader and writer of the
    books. The locale \<open>writer\<close> is the contract of a turn, \<open>books_invariant\<close> that of all writers; it is interpreted for the relay (the file of a stage follows its one mail
    sender) and for the shelf (every file is valid and stands at the path of the unit it names). \<open>books_step\<close> is any turn, so both hold after any sequence of turns, with any
    fetch or push failing. A suspension decides whether the unit builds.
  \<^item> \<^verbatim>\<open>Shared_Data\<close> (\<^verbatim>\<open>server/domains/units/shared-data-guard.ts\<close>): what the guard lets pass shares no database, key or channel with a registration of the books on that
    cluster; what slips through are patterns with a backslash and whatever stands behind an empty pattern.
  \<^item> \<^verbatim>\<open>Texts\<close>, \<^verbatim>\<open>Results\<close>: JavaScript texts and lists, and loops of reads that may throw.

  \<^bold>\<open>Bounds.\<close> Nothing runs on fuel: \<open>drain\<close>, which works off fired runs and nested dispatches, ends by a measure (the queued runs and the tasks left), every
  other recursion is structural or has its termination proof. Quantities are exact below \<open>2 ^ 53\<close>, which the statement on quotas asks for.
  Time is a number of milliseconds given to each call.

  \<^bold>\<open>Not modelled.\<close> The promises of the process (\<^verbatim>\<open>settle\<close>, \<^verbatim>\<open>untilLeaves\<close>, \<^verbatim>\<open>inflight\<close>) and the grace of a shutdown; zeroing a buffer, which a value has no
  trace of; failures of the database other than a broken unique index; the columns that stamp who modified a row; process log lines outside the executor;
  attributes of cookies; the listener of the admin socket. The run definitions (shell commands over SSH), the adapters, the tenant domain, the steps that follow the validation of a
  unit, the schema of its manifest, writing the maps of clusters, planning a domain move, the retries of a push, the migrations, the single gates over rendered charts (arguments of the modelled pipeline), the boot wiring and the web pages are not part of this development: they
  are input, output, presentation or text for other programs, and the executor takes a run definition as a parameter.
\<close>

section \<open>A small installation\<close>

text \<open>One run kind with two steps and one cleanup, on which the statements about interleavings are played.\<close>

definition ex_step :: "string \<Rightarrow> step_impl" where
  "ex_step n = \<lparr>si_name = n, si_title = n, si_probe = None\<rparr>"

definition ex_plan :: "string \<Rightarrow> plan" where
  "ex_plan srv = \<lparr>p_kind = ''k'', p_targetKind = ''server'', p_targetId = srv, p_summary = [], p_steps = [(''a'', ''a''), (''b'', ''b'')], p_targets = None, p_locks = None,
    p_warnings = [], p_estimateSeconds = None, p_requiredSecrets = [], p_secretHints = None, p_findings = None, p_optionalSecrets = None, p_requiredInputs = None\<rparr>"

fun ex_server :: "json \<Rightarrow> string" where
  "ex_server (JStr s) = s"
| "ex_server _ = []"

definition ex_def :: run_definition where
  "ex_def = \<lparr>d_kind = ''k'', d_parse = Inr, d_mutating = False, d_plan = (\<lambda>p d. Inr (ex_plan (ex_server p))), d_planStream = True,
   d_steps = (\<lambda>p. [ex_step ''a'', ex_step ''b'']), d_cleanups = Some (\<lambda>_. [\<lparr>cl_name = ''x'', cl_title = ''x''\<rparr>]),
   d_assertAbortable = Some (\<lambda>_ _. None), d_assertApprovable = None, d_onTerminal = None\<rparr>"

definition ex_deps :: executor_deps where
  "ex_deps = \<lparr>runDefinitions = [(''k'', ex_def)], ulid = show_nat, sha256 = (\<lambda>s. [])\<rparr>"

definition play :: "event list \<Rightarrow> system" where
  "play evs = fold (sys_do ex_deps) evs init_system"

definition in_flight :: "system \<Rightarrow> (run_id \<times> string) list" where
  "in_flight s = concat (map (\<lambda>f. (case f_work f of StepWork row _ _ _ \<Rightarrow> [(f_run f, s_name row)] | _ \<Rightarrow> [])) (x_frames (y_exec s)))"

definition reads :: "run_id \<Rightarrow> system \<Rightarrow> run_status option" where
  "reads rid s = status_of (x_db (y_exec s)) rid"

definition ex_running :: system where
  "ex_running = play [EPlan [] ''k'' (JStr ''1''), EAnswer 0, EApprove ''run_0'' None False, EAnswer 0]"

lemma play_reachable: "reachable ex_deps (play evs)"
proof -
  have "reachable ex_deps s \<Longrightarrow> reachable ex_deps (fold (sys_do ex_deps) evs s)" for s
    by (induction evs arbitrary: s) (auto intro: reachable.intros)
  then show ?thesis by (simp add: play_def reach_init)
qed

section \<open>The executor as a whole\<close>

text \<open>
  C1 The invariant of the executor. In every state any interleaving of operations, awaited answers, steps, crashes and boots leads
  to, a run that is approved or running holds every lock its plan claims, and the claims of two such runs never conflict:
  no two runs work on one resource at a time.
\<close>

theorem active_runs_exclude_each_other:
  assumes "reachable D s" and "r \<in> set (runs (x_db (y_exec s)))" and "r_status r \<in> {RApproved, RRunning}"
    and "r_plan r = Some (PlanSnap p)"
  shows "{r_id r} \<times> set (planClaims p) \<subseteq> held (x_db (y_exec s)) \<and>
    (\<forall>r' \<in> set (runs (x_db (y_exec s))). \<forall>p'. r_id r' \<noteq> r_id r \<longrightarrow> r_status r' \<in> {RApproved, RRunning} \<longrightarrow>
       r_plan r' = Some (PlanSnap p') \<longrightarrow> (\<forall>c \<in> set (planClaims p). \<forall>c' \<in> set (planClaims p'). \<not> conflict c c'))"
proof -
  let ?d = "x_db (y_exec s)"
  have ok: "locks_ok ?d" "claims_held ?d" using reachable_db_ok [OF assms(1)] by (simp_all add: db_ok_def)
  have held: "{r_id q} \<times> set (planClaims pq) \<subseteq> held ?d"
    if "q \<in> set (runs ?d)" "r_status q \<in> {RApproved, RRunning}" "r_plan q = Some (PlanSnap pq)" for q pq
    using ok(2) that by (auto simp: claims_held_def active_status_def)
  show ?thesis
  proof (intro conjI ballI allI impI)
    show "{r_id r} \<times> set (planClaims p) \<subseteq> held ?d" by (rule held [OF assms(2-4)])
    fix r' p' c c'
    assume r': "r' \<in> set (runs ?d)" "r_id r' \<noteq> r_id r" "r_status r' \<in> {RApproved, RRunning}" "r_plan r' = Some (PlanSnap p')"
      and c: "c \<in> set (planClaims p)" "c' \<in> set (planClaims p')"
    have "(r_id r, c) \<in> held ?d" "(r_id r', c') \<in> held ?d"
      using held [OF assms(2-4)] held [OF r'(1,3,4)] c by auto
    then show "\<not> conflict c c'" using ok(1) r'(2) unfolding locks_ok_def by fastforce
  qed
qed

lemma ex_running_first:
  "(case runs (x_db (y_exec ex_running)) of [r] \<Rightarrow> r_status r = RRunning \<and>
      (case r_plan r of Some (PlanSnap p) \<Rightarrow> planClaims p = [claim LServer ''1''] | _ \<Rightarrow> False) | _ \<Rightarrow> False)"
  by code_simp

theorem active_runs_exclude_each_other_witness:
  "\<exists>r p. r \<in> set (runs (x_db (y_exec ex_running))) \<and> planClaims p = [claim LServer ''1''] \<and>
     {r_id r} \<times> set (planClaims p) \<subseteq> held (x_db (y_exec ex_running))"
proof -
  from ex_running_first obtain r p where r: "runs (x_db (y_exec ex_running)) = [r]" "r_status r = RRunning"
    "r_plan r = Some (PlanSnap p)" "planClaims p = [claim LServer ''1'']"
    by (auto split: list.splits option.splits plan_json.splits)
  have "reachable ex_deps ex_running" unfolding ex_running_def by (rule play_reachable)
  with active_runs_exclude_each_other [of ex_deps ex_running r p] r show ?thesis by auto
qed

section \<open>Where the executor does not do what it means to\<close>


text \<open>
  A discard does not stop a run that is running. The transition table lets \<^verbatim>\<open>discard\<close> move it to \<open>cancelled\<close>, but nothing aborts
  the run in flight: when its step returns, the next step of the cancelled run starts.
\<close>

lemma discarded_run_goes_on:
  "let s = play [EPlan [] ''k'' (JStr ''1''), EAnswer 0, EApprove ''run_0'' None False, EAnswer 0, EDiscard ''run_0'']
   in reads ''run_0'' s = Some RCancelled \<and> in_flight (sys_do ex_deps (EStepEnds 0 None) s) = [(''run_0'', ''b'')]"
  by code_simp


end
